(* ===== verification/Cql_Prelude.thy ===== *)
theory Cql_Prelude
  imports Main "HOL-Library.Word"
begin

text \<open>
  Shared vocabulary of the development: bytes, the exceptions of
  \<^verbatim>\<open>include/CQLDriver/Common/Exceptions\<close> as error values, the result
  type of every operation that can throw, big-endian byte sequences, and the
  \<open>codec\<close> interface through which the container templates use their element types.
\<close>

section \<open>Bytes and exceptions\<close>

type_synonym byte = "8 word"
type_synonym bytes = "byte list"
type_synonym u8 = "8 word"
type_synonym u16 = "16 word"
type_synonym u32 = "32 word"
type_synonym u64 = "64 word"

text \<open>
  One constructor per exception class the modelled code throws. The text of an exception is
  diagnostic only and is not kept. \<open>StdOutOfRange\<close> is \<^verbatim>\<open>std::out_of_range\<close>
  of a checked container access. \<open>UndefinedBehaviour\<close> marks an execution that
  uses an object after its lifetime has ended; \<open>OutOfFuel\<close> is the artificial outcome of a
  bounded recursion, and is proved unreachable where fuel is used.
\<close>

datatype cql_error =
    DecodeException
  | EncodeException
  | LogicException
  | NotImplementedException
  | FormatException
  | NetworkException
  | AuthenticateException
  | ConnectionInitializeException
  | ConnectionNotAvailableException
  | ResponseErrorException
  | UUIDConflictException
  | StdOutOfRange
  | UndefinedBehaviour
  | OutOfFuel

type_synonym 'a result = "cql_error + 'a"

text \<open>Sequencing: an exception skips the rest of the block.\<close>

definition rbind :: "'a result \<Rightarrow> ('a \<Rightarrow> 'b result) \<Rightarrow> 'b result" where
  "rbind r f = (case r of Inl e \<Rightarrow> Inl e | Inr x \<Rightarrow> f x)"

named_theorems codec_simps \<open>equations that run an encoder or a decoder on its wire format\<close>
named_theorems model_defs \<open>definitions of the small operations of the model\<close>

lemma rbind_simps [simp]:
  "rbind (Inl e) f = Inl e"
  "rbind (Inr x) f = f x"
  by (simp_all add: rbind_def)

lemma rbind_split:
  "P (rbind r f) \<longleftrightarrow> (\<forall>e. r = Inl e \<longrightarrow> P (Inl e)) \<and> (\<forall>x. r = Inr x \<longrightarrow> P (f x))"
  by (cases r) auto

lemma rbind_eq_Inr:
  "rbind r f = Inr y \<longleftrightarrow> (\<exists>x. r = Inr x \<and> f x = Inr y)"
  by (cases r) auto

lemma rbind_eq_Inl:
  "rbind r f = Inl e \<longleftrightarrow> r = Inl e \<or> (\<exists>x. r = Inr x \<and> f x = Inl e)"
  by (cases r) auto

lemma rbind_cong [fundef_cong]:
  "r = r' \<Longrightarrow> (\<And>x. r' = Inr x \<Longrightarrow> f x = g x) \<Longrightarrow> rbind r f = rbind r' g"
  by (cases r') auto

section \<open>Futures\<close>

text \<open>
  A chain of futures is a program over the state of the objects it works on. It ends with a value or
  with an exception; \<^verbatim>\<open>then\<close> skips its continuation when the future before it failed.
\<close>

definition fut_return :: "'a \<Rightarrow> 's \<Rightarrow> ('e + 'a) \<times> 's" where
  "fut_return x s = (Inr x, s)"

definition fut_throw :: "'e \<Rightarrow> 's \<Rightarrow> ('e + 'a) \<times> 's" where
  "fut_throw e s = (Inl e, s)"

definition fut_then :: "('s \<Rightarrow> ('e + 'a) \<times> 's) \<Rightarrow> ('a \<Rightarrow> 's \<Rightarrow> ('e + 'b) \<times> 's) \<Rightarrow> 's \<Rightarrow> ('e + 'b) \<times> 's" where
  "fut_then m f s = (case m s of (Inl e, s) \<Rightarrow> (Inl e, s) | (Inr x, s) \<Rightarrow> f x s)"

definition fut_lift :: "('e + 'a) \<Rightarrow> 's \<Rightarrow> ('e + 'a) \<times> 's" where
  "fut_lift r s = (r, s)"

lemma fut_simps [simp]:
  "fut_return x s = (Inr x, s)" "fut_throw e s = (Inl e, s)" "fut_lift r s = (r, s)"
  by (simp_all add: fut_return_def fut_throw_def fut_lift_def)

lemma fut_then_Inr:
  "fut_then m f s = (Inr y, s') \<longleftrightarrow> (\<exists>x s1. m s = (Inr x, s1) \<and> f x s1 = (Inr y, s'))"
  by (auto simp: fut_then_def split: prod.splits sum.splits)

lemma fut_then_Inl:
  "fut_then m f s = (Inl e, s') \<longleftrightarrow> m s = (Inl e, s') \<or> (\<exists>x s1. m s = (Inr x, s1) \<and> f x s1 = (Inl e, s'))"
  by (auto simp: fut_then_def split: prod.splits sum.splits)

section \<open>Big-endian byte sequences\<close>

text \<open>
  \<^verbatim>\<open>seastar::cpu_to_be\<close> followed by a raw copy of the object appends the
  big-endian bytes of the value; the raw copy followed by
  \<^verbatim>\<open>seastar::be_to_cpu\<close> reads them back.
\<close>

fun be_of_nat :: "nat \<Rightarrow> nat \<Rightarrow> bytes" where
  "be_of_nat 0 k = []"
| "be_of_nat (Suc n) k = be_of_nat n (k div 256) @ [word_of_nat k]"

fun be_to_nat :: "nat \<Rightarrow> bytes \<Rightarrow> nat" where
  "be_to_nat acc [] = acc"
| "be_to_nat acc (b # bs) = be_to_nat (acc * 256 + unat b) bs"

lemma length_be_of_nat [simp]: "length (be_of_nat n k) = n"
  by (induction n arbitrary: k) auto

lemma be_to_nat_append: "be_to_nat acc (xs @ ys) = be_to_nat (be_to_nat acc xs) ys"
  by (induction xs arbitrary: acc) auto

lemma unat_byte_of_nat [simp]: "unat (word_of_nat k :: byte) = k mod 256"
  by (simp add: unat_of_nat)

lemma unat_bound: "unat (w :: 'l::len word) < 2 ^ LENGTH('l)"
  by (rule unsigned_less)

lemma uint_bound: "uint (w :: 'l::len word) < 2 ^ LENGTH('l)"
  by (rule unsigned_less)

lemma unat_byte_less: "unat (b :: byte) < 256"
  using unat_bound [of b] by simp

lemma be_to_nat_be_of_nat: "be_to_nat 0 (be_of_nat n k) = k mod 256 ^ n"
proof (induction n arbitrary: k)
  case 0
  then show ?case by simp
next
  case (Suc n)
  have "k mod 256 ^ Suc n = 256 * (k div 256 mod 256 ^ n) + k mod 256"
    by (simp add: mod_mult2_eq)
  with Suc show ?case by (simp add: be_to_nat_append)
qed

lemma be_to_nat_bound: "be_to_nat acc bs < (acc + 1) * 256 ^ length bs"
proof (induction bs arbitrary: acc)
  case Nil
  then show ?case by simp
next
  case (Cons b bs)
  have "unat b < 256" by (rule unat_byte_less)
  then have "acc * 256 + unat b + 1 \<le> (acc + 1) * 256" by simp
  then have "(acc * 256 + unat b + 1) * 256 ^ length bs \<le> (acc + 1) * 256 * 256 ^ length bs"
    by (rule mult_le_mono1)
  with Cons [of "acc * 256 + unat b"]
  have "be_to_nat (acc * 256 + unat b) bs < (acc + 1) * 256 * 256 ^ length bs"
    by (rule order.strict_trans2)
  then show ?case by (simp add: mult.assoc add_mult_distrib)
qed

lemma be_of_nat_snoc_inj:
  "be_of_nat (length bs) (be_to_nat 0 bs) = bs"
proof (induction bs rule: rev_induct)
  case Nil
  then show ?case by simp
next
  case (snoc b bs)
  have zero: "(256 :: byte) = 0" by simp
  have "(word_of_nat (be_to_nat 0 bs * 256 + unat b) :: byte) = b"
    by (simp add: zero)
  moreover have "(be_to_nat 0 bs * 256 + unat b) div 256 = be_to_nat 0 bs"
    using unat_byte_less [of b] by simp
  ultimately show ?case using snoc by (simp add: be_to_nat_append)
qed

section \<open>The codec interface\<close>

text \<open>
  Every protocol type offers \<^verbatim>\<open>encode(std::string& data) const\<close>, which
  appends to \<open>data\<close>, and \<^verbatim>\<open>decode(const char*& ptr, const char* end)\<close>,
  which consumes a prefix of the bytes between the two pointers. An encoder takes the value and
  the buffer and returns the grown buffer; a decoder takes the bytes from \<open>ptr\<close> to
  \<open>end\<close> and returns the value and the bytes that are left.
\<close>

type_synonym 'a encoder = "'a \<Rightarrow> bytes \<Rightarrow> bytes result"
type_synonym 'a decoder = "bytes \<Rightarrow> ('a \<times> bytes) result"

text \<open>
  The contract of such a pair, against a wire format given separately: \<open>ok\<close> are the values
  the protocol can carry, \<open>wire\<close> their bytes.
\<close>

locale codec =
  fixes enc :: "'a encoder" and dec :: "'a decoder"
    and ok :: "'a \<Rightarrow> bool" and wire :: "'a \<Rightarrow> bytes"
  assumes enc_wire: "ok v \<Longrightarrow> enc v data = Inr (data @ wire v)"
    and dec_wire: "ok v \<Longrightarrow> dec (wire v @ rest) = Inr (v, rest)"
begin

lemma roundtrip: "ok v \<Longrightarrow> rbind (enc v []) dec = Inr (v, [])"
  using enc_wire [of v "[]"] dec_wire [of v "[]"] by simp

lemma wire_inj: "ok v \<Longrightarrow> ok w \<Longrightarrow> wire v = wire w \<Longrightarrow> v = w"
  using dec_wire [of v "[]"] dec_wire [of w "[]"] by (metis Pair_inject sum.inject(2))

lemma wire_prefix_free: "ok v \<Longrightarrow> ok w \<Longrightarrow> wire v @ xs = wire w @ ys \<Longrightarrow> v = w \<and> xs = ys"
  using dec_wire [of v xs] dec_wire [of w ys] by (metis Pair_inject sum.inject(2))

end

text \<open>
  An exact codec also accepts nothing but the wire format: what it decodes is a value the
  protocol can carry, and the bytes it consumed are that value's own encoding.
\<close>

locale exact_codec = codec +
  assumes dec_exact: "dec bs = Inr (v, rest) \<Longrightarrow> ok v \<and> bs = wire v @ rest"
begin

lemma dec_iff: "dec bs = Inr (v, rest) \<longleftrightarrow> ok v \<and> bs = wire v @ rest"
  using dec_exact dec_wire by blast

lemma dec_reencodes: "dec bs = Inr (v, rest) \<Longrightarrow> rbind (enc v []) (\<lambda>d. Inr (d @ rest)) = Inr bs"
  using dec_exact [of bs v rest] enc_wire [of v "[]"] by simp

end

end
