(* ===== verification/Enums.thy ===== *)
theory Enums
  imports Cql_Prelude
begin

unbundle bit_operations_syntax

text \<open>
  The enumerations of \<^verbatim>\<open>CommonDefinitions\<close> and
  \<^verbatim>\<open>LowLevelDefinitions\<close>, their description tables, and the operators of
  \<^verbatim>\<open>EnumUtils.hpp\<close>. A C++ enumeration can hold every value of its underlying type,
  and the driver casts bytes from the network to these types, so the model keeps them as words
  with named values.
\<close>

section \<open>Operators on enumerations\<close>

definition enum_or :: "'l::len word \<Rightarrow> 'l word \<Rightarrow> 'l word" where
  "enum_or a b = a OR b"

definition enum_and :: "'l::len word \<Rightarrow> 'l word \<Rightarrow> 'l word" where
  "enum_and a b = a AND b"

definition enum_not :: "'l::len word \<Rightarrow> 'l word" where
  "enum_not a = NOT a"

definition enumTrue :: "'l::len word \<Rightarrow> bool" where
  "enumTrue a \<longleftrightarrow> a \<noteq> 0"

definition enumFalse :: "'l::len word \<Rightarrow> bool" where
  "enumFalse a \<longleftrightarrow> a = 0"

lemmas enum_ops [model_defs] = enum_or_def enum_and_def enum_not_def enumTrue_def enumFalse_def

text \<open>The stream operator: an exact match, otherwise the names of the flags that are set.\<close>

fun describe_bits :: "('l::len word \<times> string) list \<Rightarrow> 'l word \<Rightarrow> bool \<Rightarrow> string \<Rightarrow> string" where
  "describe_bits [] value isFirst stream = stream"
| "describe_bits ((flag, name) # rest) value isFirst stream =
     (if flag = 0 then describe_bits rest value isFirst stream
      else if enum_and value flag = flag
      then describe_bits rest value False ((if isFirst then stream else stream @ ''|'') @ name)
      else describe_bits rest value isFirst stream)"

definition enum_describe :: "('l::len word \<times> string) list \<Rightarrow> 'l word \<Rightarrow> string" where
  "enum_describe descriptions value =
     (case find (\<lambda>pair. value = fst pair) descriptions of
        Some pair \<Rightarrow> snd pair
      | None \<Rightarrow> describe_bits descriptions value True '''')"

section \<open>ConsistencyLevel\<close>

definition CL_Any :: u32 where "CL_Any = 0"
definition CL_One :: u32 where "CL_One = 1"
definition CL_Two :: u32 where "CL_Two = 2"
definition CL_Three :: u32 where "CL_Three = 3"
definition CL_Quorum :: u32 where "CL_Quorum = 4"
definition CL_All :: u32 where "CL_All = 5"
definition CL_LocalQuorum :: u32 where "CL_LocalQuorum = 6"
definition CL_EachQuorum :: u32 where "CL_EachQuorum = 7"
definition CL_Serial :: u32 where "CL_Serial = 8"
definition CL_LocalSerial :: u32 where "CL_LocalSerial = 9"
definition CL_LocalOne :: u32 where "CL_LocalOne = 0xa"
definition CL_Max :: u32 where "CL_Max = 0xb"

lemmas CL_defs =
  CL_Any_def CL_One_def CL_Two_def CL_Three_def CL_Quorum_def CL_All_def CL_LocalQuorum_def CL_EachQuorum_def CL_Serial_def CL_LocalSerial_def CL_LocalOne_def CL_Max_def

definition CL_descriptions :: "(u32 \<times> string) list" where
  "CL_descriptions = [
    (CL_Any, ''Any''), (CL_One, ''One''), (CL_Two, ''Two''), (CL_Three, ''Three''),
    (CL_Quorum, ''Quorum''), (CL_All, ''All''), (CL_LocalQuorum, ''LocalQuorum''),
    (CL_EachQuorum, ''EachQuorum''), (CL_Serial, ''Serial''), (CL_LocalSerial, ''LocalSerial''),
    (CL_LocalOne, ''LocalOne'')]"

section \<open>ColumnType\<close>

definition CT_Custom :: u16 where "CT_Custom = 0x0"
definition CT_Ascii :: u16 where "CT_Ascii = 0x1"
definition CT_BigInt :: u16 where "CT_BigInt = 0x2"
definition CT_Blob :: u16 where "CT_Blob = 0x3"
definition CT_Boolean :: u16 where "CT_Boolean = 0x4"
definition CT_Counter :: u16 where "CT_Counter = 0x5"
definition CT_Decimal :: u16 where "CT_Decimal = 0x6"
definition CT_Double :: u16 where "CT_Double = 0x7"
definition CT_Float :: u16 where "CT_Float = 0x8"
definition CT_Int :: u16 where "CT_Int = 0x9"
definition CT_Timestamp :: u16 where "CT_Timestamp = 0xb"
definition CT_UUID :: u16 where "CT_UUID = 0xc"
definition CT_VarChar :: u16 where "CT_VarChar = 0xd"
definition CT_VarInt :: u16 where "CT_VarInt = 0xe"
definition CT_TimeUUID :: u16 where "CT_TimeUUID = 0xf"
definition CT_Inet :: u16 where "CT_Inet = 0x10"
definition CT_Date :: u16 where "CT_Date = 0x11"
definition CT_Time :: u16 where "CT_Time = 0x12"
definition CT_SmallInt :: u16 where "CT_SmallInt = 0x13"
definition CT_TinyInt :: u16 where "CT_TinyInt = 0x14"
definition CT_Duration :: u16 where "CT_Duration = 0x15"
definition CT_List :: u16 where "CT_List = 0x20"
definition CT_Map :: u16 where "CT_Map = 0x21"
definition CT_Set :: u16 where "CT_Set = 0x22"
definition CT_UDT :: u16 where "CT_UDT = 0x30"
definition CT_Tuple :: u16 where "CT_Tuple = 0x31"
definition CT_Max :: u16 where "CT_Max = 0x32"

lemmas CT_defs =
  CT_Custom_def CT_Ascii_def CT_BigInt_def CT_Blob_def CT_Boolean_def CT_Counter_def CT_Decimal_def CT_Double_def CT_Float_def CT_Int_def CT_Timestamp_def CT_UUID_def CT_VarChar_def CT_VarInt_def CT_TimeUUID_def CT_Inet_def CT_Date_def CT_Time_def CT_SmallInt_def CT_TinyInt_def CT_Duration_def CT_List_def CT_Map_def CT_Set_def CT_UDT_def CT_Tuple_def CT_Max_def

definition CT_descriptions :: "(u16 \<times> string) list" where
  "CT_descriptions = [
    (CT_Custom, ''Custom''), (CT_Ascii, ''Ascii''), (CT_BigInt, ''BigInt''), (CT_Blob, ''Blob''),
    (CT_Boolean, ''Boolean''), (CT_Counter, ''Counter''), (CT_Decimal, ''Decimal''),
    (CT_Double, ''Double''), (CT_Float, ''Float''), (CT_Int, ''Int''),
    (CT_Timestamp, ''Timestamp''), (CT_UUID, ''UUID''), (CT_VarChar, ''VarChar''),
    (CT_VarInt, ''VarInt''), (CT_TimeUUID, ''TimeUUID''), (CT_Inet, ''Inet''),
    (CT_Date, ''Date''), (CT_Time, ''Time''), (CT_SmallInt, ''SmallInt''),
    (CT_TinyInt, ''TinyInt''), (CT_Duration, ''Duration''), (CT_List, ''List''),
    (CT_Map, ''Map''), (CT_Set, ''Set''), (CT_UDT, ''UDT''), (CT_Tuple, ''Tuple'')]"

section \<open>BatchType\<close>

definition BT_Logged :: u32 where "BT_Logged = 0"
definition BT_UnLogged :: u32 where "BT_UnLogged = 1"
definition BT_Counter :: u32 where "BT_Counter = 2"

lemmas BT_defs =
  BT_Logged_def BT_UnLogged_def BT_Counter_def

definition BT_descriptions :: "(u32 \<times> string) list" where
  "BT_descriptions = [
    (BT_Logged, ''Logged''), (BT_UnLogged, ''UnLogged''), (BT_Counter, ''Counter'')]"

section \<open>ErrorCode\<close>

definition EC_ServerError :: u32 where "EC_ServerError = 0x0"
definition EC_ProtocolError :: u32 where "EC_ProtocolError = 0xa"
definition EC_AuthenticationError :: u32 where "EC_AuthenticationError = 0x100"
definition EC_Unavailable :: u32 where "EC_Unavailable = 0x1000"
definition EC_Overloaded :: u32 where "EC_Overloaded = 0x1001"
definition EC_IsBootstrapping :: u32 where "EC_IsBootstrapping = 0x1002"
definition EC_TruncateError :: u32 where "EC_TruncateError = 0x1003"
definition EC_WriteTimeout :: u32 where "EC_WriteTimeout = 0x1100"
definition EC_ReadTimeout :: u32 where "EC_ReadTimeout = 0x1200"
definition EC_ReadFailure :: u32 where "EC_ReadFailure = 0x1300"
definition EC_FunctionFailure :: u32 where "EC_FunctionFailure = 0x1400"
definition EC_WriteFailure :: u32 where "EC_WriteFailure = 0x1500"
definition EC_SyntaxError :: u32 where "EC_SyntaxError = 0x2000"
definition EC_UnAuthorized :: u32 where "EC_UnAuthorized = 0x2100"
definition EC_InvalidQuery :: u32 where "EC_InvalidQuery = 0x2200"
definition EC_ConfigError :: u32 where "EC_ConfigError = 0x2300"
definition EC_AlreadyExists :: u32 where "EC_AlreadyExists = 0x2400"
definition EC_UnPreparedQuery :: u32 where "EC_UnPreparedQuery = 0x2500"

lemmas EC_defs =
  EC_ServerError_def EC_ProtocolError_def EC_AuthenticationError_def EC_Unavailable_def EC_Overloaded_def EC_IsBootstrapping_def EC_TruncateError_def EC_WriteTimeout_def EC_ReadTimeout_def EC_ReadFailure_def EC_FunctionFailure_def EC_WriteFailure_def EC_SyntaxError_def EC_UnAuthorized_def EC_InvalidQuery_def EC_ConfigError_def EC_AlreadyExists_def EC_UnPreparedQuery_def

definition EC_descriptions :: "(u32 \<times> string) list" where
  "EC_descriptions = [
    (EC_ServerError, ''ServerError''), (EC_ProtocolError, ''ProtocolError''),
    (EC_AuthenticationError, ''AuthenticationError''), (EC_Unavailable, ''Unavailable''),
    (EC_Overloaded, ''Overloaded''), (EC_IsBootstrapping, ''IsBootstrapping''),
    (EC_TruncateError, ''TruncateError''), (EC_WriteTimeout, ''WriteTimeout''),
    (EC_ReadTimeout, ''ReadTimeout''), (EC_ReadFailure, ''ReadFailure''),
    (EC_FunctionFailure, ''FunctionFailure''), (EC_WriteFailure, ''WriteFailure''),
    (EC_SyntaxError, ''SyntaxError''), (EC_UnAuthorized, ''UnAuthorized''),
    (EC_InvalidQuery, ''InvalidQuery''), (EC_ConfigError, ''ConfigError''),
    (EC_AlreadyExists, ''AlreadyExists''), (EC_UnPreparedQuery, ''UnPreparedQuery'')]"

section \<open>LogLevel\<close>

definition LL_Emergency :: u32 where "LL_Emergency = 0"
definition LL_Alert :: u32 where "LL_Alert = 1"
definition LL_Critical :: u32 where "LL_Critical = 2"
definition LL_Error :: u32 where "LL_Error = 3"
definition LL_Warning :: u32 where "LL_Warning = 4"
definition LL_Notice :: u32 where "LL_Notice = 5"
definition LL_Info :: u32 where "LL_Info = 6"
definition LL_Debug :: u32 where "LL_Debug = 7"

lemmas LL_defs =
  LL_Emergency_def LL_Alert_def LL_Critical_def LL_Error_def LL_Warning_def LL_Notice_def LL_Info_def LL_Debug_def

definition LL_descriptions :: "(u32 \<times> string) list" where
  "LL_descriptions = [
    (LL_Emergency, ''Emergency''), (LL_Alert, ''Alert''), (LL_Critical, ''Critical''),
    (LL_Error, ''Error''), (LL_Warning, ''Warning''), (LL_Notice, ''Notice''),
    (LL_Info, ''Info''), (LL_Debug, ''Debug'')]"

section \<open>MessageDirection\<close>

definition MD_Request :: u32 where "MD_Request = 0"
definition MD_Response :: u32 where "MD_Response = 0x80"
definition MD_Mask :: u32 where "MD_Mask = 0x80"

lemmas MD_defs =
  MD_Request_def MD_Response_def MD_Mask_def

definition MD_descriptions :: "(u32 \<times> string) list" where
  "MD_descriptions = [
    (MD_Request, ''Request''), (MD_Response, ''Response'')]"

section \<open>MessageType\<close>

definition MT_Error :: u32 where "MT_Error = 0"
definition MT_Startup :: u32 where "MT_Startup = 1"
definition MT_Ready :: u32 where "MT_Ready = 2"
definition MT_Authenticate :: u32 where "MT_Authenticate = 3"
definition MT_Options :: u32 where "MT_Options = 5"
definition MT_Supported :: u32 where "MT_Supported = 6"
definition MT_Query :: u32 where "MT_Query = 7"
definition MT_Result :: u32 where "MT_Result = 8"
definition MT_Prepare :: u32 where "MT_Prepare = 9"
definition MT_Execute :: u32 where "MT_Execute = 0xa"
definition MT_Register :: u32 where "MT_Register = 0xb"
definition MT_Event :: u32 where "MT_Event = 0xc"
definition MT_Batch :: u32 where "MT_Batch = 0xd"
definition MT_AuthChallenge :: u32 where "MT_AuthChallenge = 0xe"
definition MT_AuthResponse :: u32 where "MT_AuthResponse = 0xf"
definition MT_AuthSuccess :: u32 where "MT_AuthSuccess = 0x10"
definition MT_Max :: u32 where "MT_Max = 0x11"

lemmas MT_defs =
  MT_Error_def MT_Startup_def MT_Ready_def MT_Authenticate_def MT_Options_def MT_Supported_def MT_Query_def MT_Result_def MT_Prepare_def MT_Execute_def MT_Register_def MT_Event_def MT_Batch_def MT_AuthChallenge_def MT_AuthResponse_def MT_AuthSuccess_def MT_Max_def

definition MT_descriptions :: "(u32 \<times> string) list" where
  "MT_descriptions = [
    (MT_Error, ''Error''), (MT_Startup, ''Startup''), (MT_Ready, ''Ready''),
    (MT_Authenticate, ''Authenticate''), (MT_Options, ''Options''),
    (MT_Supported, ''Supported''), (MT_Query, ''Query''), (MT_Result, ''Result''),
    (MT_Prepare, ''Prepare''), (MT_Execute, ''Execute''), (MT_Register, ''Register''),
    (MT_Event, ''Event''), (MT_Batch, ''Batch''), (MT_AuthChallenge, ''AuthChallenge''),
    (MT_AuthResponse, ''AuthResponse''), (MT_AuthSuccess, ''AuthSuccess'')]"

section \<open>MessageHeaderFlags\<close>

definition MHF_None :: u32 where "MHF_None = 0"
definition MHF_Compression :: u32 where "MHF_Compression = 1"
definition MHF_Tracing :: u32 where "MHF_Tracing = 2"
definition MHF_CustomPayload :: u32 where "MHF_CustomPayload = 4"
definition MHF_Warning :: u32 where "MHF_Warning = 8"

lemmas MHF_defs =
  MHF_None_def MHF_Compression_def MHF_Tracing_def MHF_CustomPayload_def MHF_Warning_def

definition MHF_descriptions :: "(u32 \<times> string) list" where
  "MHF_descriptions = [
    (MHF_None, ''None''), (MHF_Compression, ''Compression''), (MHF_Tracing, ''Tracing''),
    (MHF_CustomPayload, ''CustomPayload''), (MHF_Warning, ''Warning'')]"

section \<open>QueryParametersFlags\<close>

definition QPF_None :: u32 where "QPF_None = 0"
definition QPF_WithValues :: u32 where "QPF_WithValues = 1"
definition QPF_SkipMetadata :: u32 where "QPF_SkipMetadata = 2"
definition QPF_WithPageSize :: u32 where "QPF_WithPageSize = 4"
definition QPF_WithPagingState :: u32 where "QPF_WithPagingState = 8"
definition QPF_WithSerialConsistency :: u32 where "QPF_WithSerialConsistency = 16"
definition QPF_WithDefaultTimestamp :: u32 where "QPF_WithDefaultTimestamp = 32"
definition QPF_WithNamesForValue :: u32 where "QPF_WithNamesForValue = 64"

lemmas QPF_defs =
  QPF_None_def QPF_WithValues_def QPF_SkipMetadata_def QPF_WithPageSize_def QPF_WithPagingState_def QPF_WithSerialConsistency_def QPF_WithDefaultTimestamp_def QPF_WithNamesForValue_def

definition QPF_descriptions :: "(u32 \<times> string) list" where
  "QPF_descriptions = [
    (QPF_None, ''None''), (QPF_WithValues, ''WithValues''), (QPF_SkipMetadata, ''SkipMetadata''),
    (QPF_WithPageSize, ''WithPageSize''), (QPF_WithPagingState, ''WithPagingState''),
    (QPF_WithSerialConsistency, ''WithSerialConsistency''),
    (QPF_WithDefaultTimestamp, ''WithDefaultTimestamp''),
    (QPF_WithNamesForValue, ''WithNamesForValue'')]"

section \<open>BatchParametersFlags\<close>

definition BPF_None :: u32 where "BPF_None = 0"
definition BPF_WithSerialConsistency :: u32 where "BPF_WithSerialConsistency = 16"
definition BPF_WithDefaultTimestamp :: u32 where "BPF_WithDefaultTimestamp = 32"

lemmas BPF_defs =
  BPF_None_def BPF_WithSerialConsistency_def BPF_WithDefaultTimestamp_def

definition BPF_descriptions :: "(u32 \<times> string) list" where
  "BPF_descriptions = [
    (BPF_None, ''None''), (BPF_WithSerialConsistency, ''WithSerialConsistency''),
    (BPF_WithDefaultTimestamp, ''WithDefaultTimestamp'')]"

section \<open>BatchQueryKind\<close>

definition BQK_Query :: u32 where "BQK_Query = 0"
definition BQK_PreparedQueryId :: u32 where "BQK_PreparedQueryId = 1"

lemmas BQK_defs =
  BQK_Query_def BQK_PreparedQueryId_def

definition BQK_descriptions :: "(u32 \<times> string) list" where
  "BQK_descriptions = [
    (BQK_Query, ''Query''), (BQK_PreparedQueryId, ''PreparedQueryId'')]"

section \<open>ResultKind\<close>

definition RK_Unknown :: u32 where "RK_Unknown = 0x0"
definition RK_Void :: u32 where "RK_Void = 0x1"
definition RK_Rows :: u32 where "RK_Rows = 0x2"
definition RK_SetKeySpace :: u32 where "RK_SetKeySpace = 0x3"
definition RK_Prepared :: u32 where "RK_Prepared = 0x4"
definition RK_SchemaChange :: u32 where "RK_SchemaChange = 0x5"

lemmas RK_defs =
  RK_Unknown_def RK_Void_def RK_Rows_def RK_SetKeySpace_def RK_Prepared_def RK_SchemaChange_def

definition RK_descriptions :: "(u32 \<times> string) list" where
  "RK_descriptions = [
    (RK_Unknown, ''Unknown''), (RK_Void, ''Void''), (RK_Rows, ''Rows''),
    (RK_SetKeySpace, ''SetKeySpace''), (RK_Prepared, ''Prepared''),
    (RK_SchemaChange, ''SchemaChange'')]"

section \<open>ResultRowsMetadataFlags\<close>

definition RMF_None :: u32 where "RMF_None = 0"
definition RMF_GlobalTableSpec :: u32 where "RMF_GlobalTableSpec = 1"
definition RMF_HasMorePages :: u32 where "RMF_HasMorePages = 2"
definition RMF_NoMetadata :: u32 where "RMF_NoMetadata = 4"

lemmas RMF_defs =
  RMF_None_def RMF_GlobalTableSpec_def RMF_HasMorePages_def RMF_NoMetadata_def

definition RMF_descriptions :: "(u32 \<times> string) list" where
  "RMF_descriptions = [
    (RMF_None, ''None''), (RMF_GlobalTableSpec, ''GlobalTableSpec''),
    (RMF_HasMorePages, ''HasMorePages''), (RMF_NoMetadata, ''NoMetadata'')]"

section \<open>ResultPreparedMetadataFlags\<close>

definition PMF_None :: u32 where "PMF_None = 0"
definition PMF_GlobalTableSpec :: u32 where "PMF_GlobalTableSpec = 1"

lemmas PMF_defs =
  PMF_None_def PMF_GlobalTableSpec_def

definition PMF_descriptions :: "(u32 \<times> string) list" where
  "PMF_descriptions = [
    (PMF_None, ''None''), (PMF_GlobalTableSpec, ''GlobalTableSpec'')]"

section \<open>What the descriptions say\<close>

lemma enum_describe_listed:
  "distinct (map fst ds) \<Longrightarrow> (v, name) \<in> set ds \<Longrightarrow> enum_describe ds v = name"
proof -
  assume d: "distinct (map fst ds)" and v: "(v, name) \<in> set ds"
  have "find (\<lambda>pair. v = fst pair) ds = Some (v, name)"
    using d v by (induction ds) (force simp: image_iff)+
  then show ?thesis by (simp add: enum_describe_def)
qed

text \<open>The names of the nonzero flags contained in a value, in table order, joined by bars.\<close>

definition flag_names :: "('l::len word \<times> string) list \<Rightarrow> 'l word \<Rightarrow> string list" where
  "flag_names ds v = map snd (filter (\<lambda>(f, name). f \<noteq> 0 \<and> f AND v = f) ds)"

fun join_bar :: "string list \<Rightarrow> string" where
  "join_bar [] = ''''"
| "join_bar [n] = n"
| "join_bar (n # ns) = n @ ''|'' @ join_bar ns"

lemma describe_bits_names:
  "describe_bits ds v isFirst stream =
     stream @ (if flag_names ds v = [] \<or> isFirst then join_bar (flag_names ds v)
               else ''|'' @ join_bar (flag_names ds v))"
proof (induction ds v isFirst stream rule: describe_bits.induct)
  case (2 flag name rest v isFirst stream)
  then show ?case
    by (cases "flag_names rest v") (auto simp: flag_names_def enum_and_def ac_simps)
qed (simp add: flag_names_def)

lemma find_SomeD: "find P xs = Some x \<Longrightarrow> x \<in> set xs \<and> P x"
  by (induction xs) (auto split: if_splits)

lemma enum_describe_unlisted:
  "v \<notin> fst ` set ds \<Longrightarrow> enum_describe ds v = join_bar (flag_names ds v)"
  by (auto simp: enum_describe_def describe_bits_names find_None_iff split: option.splits dest!: find_SomeD)

lemmas all_descriptions =
  CL_descriptions_def CT_descriptions_def BT_descriptions_def EC_descriptions_def LL_descriptions_def
  MD_descriptions_def MT_descriptions_def MHF_descriptions_def QPF_descriptions_def BPF_descriptions_def
  BQK_descriptions_def RK_descriptions_def RMF_descriptions_def PMF_descriptions_def

lemmas all_enum_values =
  CL_defs CT_defs BT_defs EC_defs LL_defs MD_defs MT_defs MHF_defs QPF_defs BPF_defs BQK_defs RK_defs
  RMF_defs PMF_defs

end
