(* ===== verification/Reusable.thy ===== *)
theory Reusable
  imports Cql_Prelude
begin

text \<open>
  \<^verbatim>\<open>Reusable.hpp\<close>: the per-thread free list that commands and messages are
  allocated from. Destroying a reusable pointer puts the object back; allocating takes the last
  one put back and calls its \<^verbatim>\<open>reset\<close>. The locale \<open>reusable_object\<close> states
  the contract the free list relies on: \<^verbatim>\<open>reset\<close> leaves nothing of the previous use
  that the next owner can observe.
\<close>

section \<open>The free list\<close>

text \<open>The \<^verbatim>\<open>size\<close> field is the length of the list; its last element is the top.\<close>

record 'a reusable_storage =
  rs_freeList :: "'a list"

definition storage_init :: "'a reusable_storage" where
  "storage_init = \<lparr>rs_freeList = []\<rparr>"

definition deallocate :: "nat \<Rightarrow> ('a \<Rightarrow> 'a) \<Rightarrow> 'a \<Rightarrow> 'a reusable_storage \<Rightarrow> 'a reusable_storage" where
  "deallocate capacity freeResources obj st =
     (if length (rs_freeList st) < capacity
      then st\<lparr>rs_freeList := rs_freeList st @ [freeResources obj]\<rparr>
      else st)"

definition make_reusable :: "('a \<Rightarrow> 'a) \<Rightarrow> 'a \<Rightarrow> 'a reusable_storage \<Rightarrow> 'a \<times> 'a reusable_storage" where
  "make_reusable reset fresh st =
     (if rs_freeList st = [] then (reset fresh, st)
      else (reset (last (rs_freeList st)), st\<lparr>rs_freeList := butlast (rs_freeList st)\<rparr>))"

text \<open>The pointer itself: moving it out leaves null behind.\<close>

definition reusable_move_assign ::
  "nat \<Rightarrow> ('a \<Rightarrow> 'a) \<Rightarrow> 'a option \<Rightarrow> 'a option \<Rightarrow> 'a reusable_storage \<Rightarrow>
   'a option \<times> 'a option \<times> 'a reusable_storage" where
  "reusable_move_assign capacity freeResources this other st =
     (other, None, case this of None \<Rightarrow> st | Some obj \<Rightarrow> deallocate capacity freeResources obj st)"

lemma deallocate_bounded:
  "length (rs_freeList st) \<le> capacity \<Longrightarrow> length (rs_freeList (deallocate capacity f obj st)) \<le> capacity"
  by (simp add: deallocate_def)

lemma make_reusable_bounded:
  "length (rs_freeList st) \<le> capacity \<Longrightarrow> length (rs_freeList (snd (make_reusable r f st))) \<le> capacity"
  by (auto simp: make_reusable_def)

lemma make_reusable_last:
  "length (rs_freeList st) < capacity \<Longrightarrow>
   make_reusable reset fresh (deallocate capacity freeResources obj st) = (reset (freeResources obj), st)"
  by (simp add: make_reusable_def deallocate_def)

section \<open>The contract of reset\<close>

text \<open>
  \<open>inv\<close> is the invariant of the objects, \<open>obs\<close> what their owner can observe.
\<close>

locale reusable_object =
  fixes fresh :: 'a and reset :: "'a \<Rightarrow> 'a" and freeResources :: "'a \<Rightarrow> 'a"
    and inv :: "'a \<Rightarrow> bool" and obs :: "'a \<Rightarrow> 'b"
  assumes fresh_inv: "inv fresh"
    and free_inv: "inv x \<Longrightarrow> inv (freeResources x)"
    and reset_obs: "inv x \<Longrightarrow> obs (reset x) = obs (reset fresh)"
begin

definition storage_inv :: "nat \<Rightarrow> 'a reusable_storage \<Rightarrow> bool" where
  "storage_inv capacity st \<longleftrightarrow> list_all inv (rs_freeList st) \<and> length (rs_freeList st) \<le> capacity"

lemma storage_init_inv: "storage_inv capacity storage_init"
  by (simp add: storage_inv_def storage_init_def)

lemma deallocate_inv: "storage_inv c st \<Longrightarrow> inv x \<Longrightarrow> storage_inv c (deallocate c freeResources x st)"
  by (simp add: storage_inv_def deallocate_def free_inv)

lemma make_inv: "storage_inv c st \<Longrightarrow> storage_inv c (snd (make_reusable reset fresh st))"
  by (auto simp: storage_inv_def make_reusable_def list_all_iff dest: in_set_butlastD)

lemma make_fresh: "storage_inv c st \<Longrightarrow> obs (fst (make_reusable reset fresh st)) = obs (reset fresh)"
  by (auto simp: storage_inv_def make_reusable_def list_all_iff intro!: reset_obs)

end

end
