(* ===== verification/Protocol_Integer.thy ===== *)
theory Protocol_Integer
  imports Cql_Prelude
begin

unbundle bit_operations_syntax

text \<open>
  The integers of the protocol. \<^verbatim>\<open>ProtocolIntegerBase<IntType>\<close> gives the fixed width
  types \<^verbatim>\<open>ProtocolByte\<close>, \<^verbatim>\<open>ProtocolShort\<close>,
  \<^verbatim>\<open>ProtocolInt\<close> and \<^verbatim>\<open>ProtocolLong\<close>; an
  \<open>IntType\<close> is a word of its width, signed types are read with \<open>sint\<close>.
  \<^verbatim>\<open>ProtocolVariableIntegerBase\<close> gives the variable length
  \<^verbatim>\<open>ProtocolUnsignedVint\<close> and (zig-zag) \<^verbatim>\<open>ProtocolVint\<close>.
\<close>

section \<open>Fixed width integers\<close>

definition int_wire :: "'l::len word \<Rightarrow> bytes" where
  "int_wire v = be_of_nat (LENGTH('l) div 8) (unat v)"

definition int_encode :: "'l::len word encoder" where
  "int_encode v data = Inr (data @ be_of_nat (LENGTH('l) div 8) (unat v))"

definition int_decode :: "'l::len word decoder" where
  "int_decode bs =
     (let n = LENGTH('l) div 8 in
      if length bs < n then Inl DecodeException
      else Inr (word_of_nat (be_to_nat 0 (take n bs)), drop n bs))"

lemma length_int_wire [simp]: "length (int_wire (v :: 'l::len word)) = LENGTH('l) div 8"
  by (simp add: int_wire_def)

lemma int_encode_wire [codec_simps]: "int_encode v data = Inr (data @ int_wire v)"
  by (simp add: int_encode_def int_wire_def)

lemma int_decode_short: "length bs < LENGTH('l) div 8 \<Longrightarrow> (int_decode bs :: ('l::len word \<times> bytes) result) = Inl DecodeException"
  by (simp add: int_decode_def)

lemma pow256_width: "8 dvd n \<Longrightarrow> (256::nat) ^ (n div 8) = 2 ^ n"
proof -
  assume "8 dvd n"
  then obtain k where n: "n = 8 * k" ..
  have "(256::nat) ^ k = (2 ^ 8) ^ k" by simp
  also have "\<dots> = 2 ^ (8 * k)" by (rule power_mult [symmetric])
  finally show ?thesis using n by simp
qed

lemma int_decode_wire [codec_simps]:
  assumes "8 dvd LENGTH('l)"
  shows "int_decode (int_wire (v :: 'l::len word) @ rest) = Inr (v, rest)"
  using assms unat_bound [of v]
  by (simp add: int_decode_def int_wire_def be_to_nat_be_of_nat pow256_width)

lemma int_decode_exact:
  assumes w: "8 dvd LENGTH('l)" and d: "int_decode bs = Inr (v :: 'l::len word, rest)"
  shows "bs = int_wire v @ rest"
proof -
  let ?n = "LENGTH('l) div 8"
  let ?k = "be_to_nat 0 (take ?n bs)"
  from d have len: "?n \<le> length bs" and v: "v = word_of_nat ?k" and rest: "rest = drop ?n bs"
    by (auto simp: int_decode_def Let_def split: if_splits)
  from len have l: "length (take ?n bs) = ?n" by simp
  have "?k < 2 ^ LENGTH('l)"
    using be_to_nat_bound [of 0 "take ?n bs"] l w by (simp add: pow256_width)
  then have "unat v = ?k"
    by (simp add: v unat_of_nat take_bit_nat_eq_self)
  then have "int_wire v = take ?n bs"
    using be_of_nat_snoc_inj [of "take ?n bs"] l by (simp add: int_wire_def)
  with rest show ?thesis by simp
qed

lemma int_exact_codec:
  "8 dvd LENGTH('l) \<Longrightarrow> exact_codec int_encode (int_decode :: 'l::len word decoder) (\<lambda>_. True) int_wire"
  by unfold_locales (auto simp: codec_simps dest: int_decode_exact)

interpretation byte_codec: exact_codec int_encode "int_decode :: u8 decoder" "\<lambda>_. True" int_wire
  by (rule int_exact_codec) simp

interpretation short_codec: exact_codec int_encode "int_decode :: u16 decoder" "\<lambda>_. True" int_wire
  by (rule int_exact_codec) simp

interpretation int_codec: exact_codec int_encode "int_decode :: u32 decoder" "\<lambda>_. True" int_wire
  by (rule int_exact_codec) simp

interpretation long_codec: exact_codec int_encode "int_decode :: u64 decoder" "\<lambda>_. True" int_wire
  by (rule int_exact_codec) simp

lemmas fixed_int_decode [codec_simps] =
  byte_codec.dec_wire [OF TrueI] short_codec.dec_wire [OF TrueI]
  int_codec.dec_wire [OF TrueI] long_codec.dec_wire [OF TrueI]

section \<open>Variable length integers\<close>

definition ExtraBytesHeaders :: "u8 list" where
  "ExtraBytesHeaders =
     [0b00000000, 0b10000000, 0b11000000, 0b11100000, 0b11110000,
      0b11111000, 0b11111100, 0b11111110, 0b11111111]"

text \<open>The encoder trims the empty leading bytes and marks how many bytes follow the first one.\<close>

definition vint_encode :: "u64 encoder" where
  "vint_encode v data =
     (let valueBe = int_wire v;
          trimmed = dropWhile (\<lambda>b. b = 0) valueBe;
          totalBytes = length trimmed
      in if totalBytes = 0 then Inr (data @ [0])
         else if ExtraBytesHeaders ! totalBytes AND hd trimmed \<noteq> 0
         then Inr (data @ [ExtraBytesHeaders ! totalBytes] @ trimmed)
         else Inr (data @ [hd trimmed OR ExtraBytesHeaders ! (totalBytes - 1)] @ tl trimmed))"

text \<open>
  The number of extra bytes is the number of leading one bits of the first byte. The source has
  two implementations, chosen by the preprocessor: \<^verbatim>\<open>__builtin_clz\<close> of the
  complement, and a shifting loop.
\<close>

fun clz_from :: "nat \<Rightarrow> u32 \<Rightarrow> nat" where
  "clz_from 0 w = 0"
| "clz_from (Suc n) w = (if bit w n then 0 else Suc (clz_from n w))"

definition builtin_clz :: "u32 \<Rightarrow> nat" where
  "builtin_clz w = clz_from 32 w"

definition vint_header_clz :: "u8 \<Rightarrow> nat \<times> u8" where
  "vint_header_clz header =
     (let extraBytes = builtin_clz (NOT (push_bit 24 (ucast header :: u32)))
      in (extraBytes, drop_bit extraBytes (push_bit extraBytes header)))"

function vint_header_while :: "u8 \<Rightarrow> nat \<Rightarrow> nat \<times> u8" where
  "vint_header_while header extraBytes =
     (if header AND 0b10000000 \<noteq> 0
      then vint_header_while (push_bit 1 header) (Suc extraBytes)
      else (extraBytes, header))"
  by pat_completeness auto

lemma top_bit_test: "(header :: u8) AND 128 = 0 \<longleftrightarrow> \<not> bit header 7"
  using and_exp_eq_0_iff_not_bit [of header 7] by simp

definition u8_bits :: "u8 \<Rightarrow> bool list" where
  "u8_bits h = map (bit h) [7, 6, 5, 4, 3, 2, 1, 0]"

lemma bit_shift_one: "bit (push_bit 1 h :: u8) n \<longleftrightarrow> 0 < n \<and> n < 8 \<and> bit h (n - 1)"
  by (auto simp: bit_push_bit_iff simp del: push_bit_of_1 push_bit_Suc)

lemma u8_bits_shift: "u8_bits (push_bit 1 h) = tl (u8_bits h) @ [False]"
  unfolding u8_bits_def list.map bit_shift_one by simp

termination vint_header_while
proof (relation "measure (\<lambda>(h, _). length (filter id (u8_bits h)))")
  show "wf (measure (\<lambda>(h, _ :: nat). length (filter id (u8_bits h))))" by simp
next
  fix h :: u8 and e :: nat
  assume "h AND 0b10000000 \<noteq> 0"
  then have "bit h 7" by (simp add: top_bit_test)
  then have "u8_bits h = True # tl (u8_bits h)" by (simp add: u8_bits_def)
  then have "length (filter id (tl (u8_bits h) @ [False])) < length (filter id (u8_bits h))"
    by (metis append_Nil2 filter.simps filter_append id_apply impossible_Cons not_less)
  then show "((push_bit 1 h, Suc e), (h, e)) \<in> measure (\<lambda>(h, _). length (filter id (u8_bits h)))"
    unfolding in_measure prod.case u8_bits_shift .
qed

declare vint_header_while.simps [simp del]

definition vint_header_loop :: "u8 \<Rightarrow> nat \<times> u8" where
  "vint_header_loop header =
     (case vint_header_while header 0 of (extraBytes, h) \<Rightarrow> (extraBytes, drop_bit extraBytes h))"

definition vint_append_byte :: "u64 \<Rightarrow> byte \<Rightarrow> u64" where
  "vint_append_byte v b = push_bit 8 v OR ucast b"

definition vint_decode :: "u64 decoder" where
  "vint_decode bs =
     (if length bs < 1 then Inl DecodeException
      else
        let (extraBytes, header) = vint_header_clz (hd bs);
            bs = tl bs
        in if length bs < extraBytes then Inl DecodeException
           else Inr (foldl vint_append_byte (ucast header) (take extraBytes bs), drop extraBytes bs))"

text \<open>Zig-zag: \<^verbatim>\<open>ProtocolVint::get\<close> and \<^verbatim>\<open>ProtocolVint::set\<close>.\<close>

definition vint_get :: "u64 \<Rightarrow> u64" where
  "vint_get value = drop_bit 1 value XOR - (value AND 1)"

definition vint_set :: "u64 \<Rightarrow> u64" where
  "vint_set value = (if sint value < 0 then 0xffffffffffffffff else 0) XOR push_bit 1 value"

subsection \<open>The two header implementations agree\<close>

definition leading_ones :: "u8 \<Rightarrow> nat" where
  "leading_ones h = length (takeWhile id (u8_bits h))"

lemma u8_bits_inj: "u8_bits a = u8_bits b \<Longrightarrow> a = b"
proof (rule bit_word_eqI)
  fix n assume eq: "u8_bits a = u8_bits b" and "n < LENGTH(8)"
  then have "n \<in> {0, 1, 2, 3, 4, 5, 6, 7}" by auto
  with eq show "bit a n \<longleftrightarrow> bit b n" by (auto simp: u8_bits_def)
qed

lemma vint_header_while_spec:
  "vint_header_while h e = (e + leading_ones h, push_bit (leading_ones h) h)"
proof (induction h e rule: vint_header_while.induct)
  case (1 h e)
  show ?case
  proof (cases "bit h 7")
    case True
    then have bits: "u8_bits h = True # tl (u8_bits h)" by (simp add: u8_bits_def)
    have "leading_ones (push_bit 1 h) = length (takeWhile id (tl (u8_bits h)))"
      unfolding leading_ones_def u8_bits_shift by (simp add: takeWhile_tail)
    moreover have "leading_ones h = Suc (length (takeWhile id (tl (u8_bits h))))"
      unfolding leading_ones_def by (subst bits) simp
    ultimately have l: "leading_ones h = Suc (leading_ones (push_bit 1 h))" by simp
    have test: "h AND 0b10000000 \<noteq> 0" using True by (simp add: top_bit_test)
    have "vint_header_while h e = vint_header_while (push_bit 1 h) (Suc e)"
      using test by (subst vint_header_while.simps) simp
    also have "\<dots> = (Suc e + leading_ones (push_bit 1 h),
        push_bit (leading_ones (push_bit 1 h)) (push_bit 1 h))"
      by (rule "1.IH" [OF test])
    finally show ?thesis unfolding l push_bit_push_bit by simp
  next
    case False
    then have "u8_bits h = False # tl (u8_bits h)" by (simp add: u8_bits_def)
    then have "leading_ones h = 0" unfolding leading_ones_def by (metis id_apply list.size(3) takeWhile.simps(2))
    moreover have "vint_header_while h e = (e, h)"
      using False by (subst vint_header_while.simps) (simp add: top_bit_test)
    ultimately show ?thesis by simp
  qed
qed

lemma clz_from_numeral [simp]:
  "clz_from (numeral k) w = (if bit w (pred_numeral k) then 0 else Suc (clz_from (pred_numeral k) w))"
  by (simp add: numeral_eq_Suc)

lemma bit_shifted_complement:
  "n < 32 \<Longrightarrow> bit (NOT (push_bit 24 (ucast (h :: u8) :: u32))) n \<longleftrightarrow> \<not> (24 \<le> n \<and> bit h (n - 24))"
  by (auto simp: bit_not_iff bit_push_bit_iff bit_ucast_iff)

lemma builtin_clz_leading_ones:
  "builtin_clz (NOT (push_bit 24 (ucast (h :: u8) :: u32))) = leading_ones h"
  unfolding builtin_clz_def leading_ones_def u8_bits_def
  by (simp add: bit_shifted_complement del: push_bit_numeral push_bit_of_1)

lemma vint_header_clz_spec:
  "vint_header_clz h = (leading_ones h, drop_bit (leading_ones h) (push_bit (leading_ones h) h))"
  by (simp add: vint_header_clz_def Let_def builtin_clz_leading_ones)

lemma vint_headers_agree: "vint_header_loop h = vint_header_clz h"
  by (simp add: vint_header_clz_spec vint_header_loop_def vint_header_while_spec)

subsection \<open>The round trip\<close>

lemma vint_append_byte_arith: "vint_append_byte v b = v * 256 + ucast b"
proof -
  have "push_bit 8 v + ucast b = push_bit 8 v OR (ucast b :: u64)"
    by (rule disjunctive_add) (auto simp: bit_push_bit_iff bit_ucast_iff dest: bit_imp_le_length)
  then show ?thesis by (simp add: vint_append_byte_def push_bit_eq_mult)
qed

lemma foldl_vint_append:
  "foldl vint_append_byte (word_of_nat acc) bs = (word_of_nat (be_to_nat acc bs) :: u64)"
proof (induction bs arbitrary: acc)
  case Nil
  then show ?case by simp
next
  case (Cons b bs)
  have "vint_append_byte (word_of_nat acc) b = word_of_nat (acc * 256 + unat b)"
    by (simp add: vint_append_byte_arith)
  with Cons [of "acc * 256 + unat b"] show ?case by (simp only: foldl.simps be_to_nat.simps)
qed

lemma be_to_nat_trim: "be_to_nat 0 (dropWhile (\<lambda>b. b = 0) bs) = be_to_nat 0 bs"
  by (induction bs) auto

lemma u64_of_wire: "(word_of_nat (be_to_nat 0 (int_wire v)) :: u64) = v"
  using unat_bound [of v] by (simp add: int_wire_def be_to_nat_be_of_nat)

lemma nat_upto_8: "(n::nat) \<le> 8 \<longleftrightarrow> n \<in> {0, 1, 2, 3, 4, 5, 6, 7, 8}"
  by auto

lemma bit_headers:
  assumes "n \<le> 8" and "i < 8"
  shows "bit (ExtraBytesHeaders ! n) i \<longleftrightarrow> 8 - n \<le> i"
proof -
  have i: "i \<in> {0, 1, 2, 3, 4, 5, 6, 7}" using assms(2) by auto
  show ?thesis using assms(1)[unfolded nat_upto_8] i
    by (elim insertE emptyE) (simp_all add: ExtraBytesHeaders_def)
qed

lemma leading_onesI:
  assumes "k \<le> 8" and "\<And>i. 8 - k \<le> i \<Longrightarrow> i < 8 \<Longrightarrow> bit h i"
    and "k < 8 \<Longrightarrow> \<not> bit h (7 - k)"
  shows "leading_ones h = k"
  using assms(1)[unfolded nat_upto_8] assms(2,3)
  by (elim insertE emptyE) (simp_all add: leading_ones_def u8_bits_def)

lemma bit_strip: "bit (drop_bit k (push_bit k (x :: u8))) i \<longleftrightarrow> i + k < 8 \<and> bit x i"
  by (auto simp: bit_drop_bit_eq bit_push_bit_iff add.commute)

lemma vint_header_full:
  assumes "n \<le> 8"
  shows "vint_header_clz (ExtraBytesHeaders ! n) = (n, 0)"
proof -
  let ?h = "ExtraBytesHeaders ! n"
  have l: "leading_ones ?h = n"
    by (rule leading_onesI) (use assms in \<open>auto simp: bit_headers\<close>)
  have "drop_bit n (push_bit n ?h) = 0"
    by (rule bit_word_eqI)
      (use assms in \<open>auto simp: bit_headers bit_drop_bit_eq bit_push_bit_iff\<close>)
  then show ?thesis by (simp add: vint_header_clz_spec l)
qed

lemma vint_header_embedded:
  assumes n: "0 < n" "n \<le> 8" and free: "ExtraBytesHeaders ! n AND b = 0"
  shows "vint_header_clz (b OR ExtraBytesHeaders ! (n - 1)) = (n - 1, b)"
proof -
  let ?h = "b OR ExtraBytesHeaders ! (n - 1)"
  have high: "\<not> bit b i" if "8 - n \<le> i" for i
  proof (cases "i < 8")
    case True
    have "\<not> bit (ExtraBytesHeaders ! n AND b) i" by (simp add: free)
    then show ?thesis using that True n by (simp add: bit_and_iff bit_headers)
  next
    case False
    then show ?thesis by (auto dest: bit_imp_le_length)
  qed
  have bits: "bit ?h i \<longleftrightarrow> bit b i \<or> 9 - n \<le> i" if "i < 8" for i
    using n that by (auto simp: bit_or_iff bit_headers)
  have l: "leading_ones ?h = n - 1"
  proof (rule leading_onesI)
    show "n - 1 \<le> 8" using n by simp
    show "bit ?h i" if "8 - (n - 1) \<le> i" "i < 8" for i
      using bits [of i] that n by simp
    show "\<not> bit ?h (7 - (n - 1))" if "n - 1 < 8"
      using bits [of "7 - (n - 1)"] high [of "7 - (n - 1)"] that n by auto
  qed
  have "drop_bit (n - 1) (push_bit (n - 1) ?h) = b"
  proof (rule bit_word_eqI)
    fix i assume "i < LENGTH(8)"
    then have i: "i < 8" by simp
    show "bit (drop_bit (n - 1) (push_bit (n - 1) ?h)) i \<longleftrightarrow> bit b i"
      using n i high [of i] bits [of i] unfolding bit_strip by (cases "8 - n \<le> i") auto
  qed
  then show ?thesis unfolding vint_header_clz_spec l by simp
qed

lemma vint_decode_cons:
  assumes "vint_header_clz h = (length bs, c)"
  shows "vint_decode (h # bs @ rest) = Inr (word_of_nat (be_to_nat (unat c) bs), rest)"
  using foldl_vint_append [of "unat c" bs] assms by (simp add: vint_decode_def)

definition vint_wire :: "u64 \<Rightarrow> bytes" where
  "vint_wire v = (case vint_encode v [] of Inr d \<Rightarrow> d | Inl e \<Rightarrow> [])"

lemma vint_encode_wire [codec_simps]: "vint_encode v data = Inr (data @ vint_wire v)"
  by (simp add: vint_encode_def vint_wire_def Let_def)

lemma vint_decode_wire [codec_simps]: "vint_decode (vint_wire v @ rest) = Inr (v, rest)"
proof -
  let ?t = "dropWhile (\<lambda>b. b = 0) (int_wire v)"
  let ?H = "ExtraBytesHeaders ! length ?t"
  have val: "word_of_nat (be_to_nat 0 ?t) = v"
    by (simp add: be_to_nat_trim u64_of_wire)
  have len: "length ?t \<le> 8"
    using length_dropWhile_le [of "\<lambda>b. b = 0" "int_wire v"] by simp
  consider (zero) "?t = []" | (marker) "?t \<noteq> []" "?H AND hd ?t \<noteq> 0"
    | (embed) "?t \<noteq> []" "?H AND hd ?t = 0" by blast
  then show ?thesis
  proof cases
    case zero
    with val have "v = 0" by simp
    moreover have "vint_header_clz 0 = (0, 0)"
      using vint_header_full [of 0] by (simp add: ExtraBytesHeaders_def)
    ultimately show ?thesis
      using zero vint_decode_cons [of 0 "[]" 0 rest] by (simp add: vint_wire_def vint_encode_def)
  next
    case marker
    then have "vint_wire v = ?H # ?t"
      unfolding vint_wire_def vint_encode_def Let_def by (simp del: dropWhile_eq_Nil_conv)
    then show ?thesis
      using vint_decode_cons [OF vint_header_full [OF len], of rest] val by simp
  next
    case embed
    then obtain b bs where t: "?t = b # bs" by (cases ?t) auto
    from embed have "vint_wire v = (b OR ExtraBytesHeaders ! (length ?t - 1)) # bs"
      unfolding vint_wire_def vint_encode_def Let_def t by simp
    moreover have "vint_header_clz (b OR ExtraBytesHeaders ! (length ?t - 1)) = (length bs, b)"
      using vint_header_embedded [of "length ?t" b] embed len by (simp add: t)
    ultimately show ?thesis
      using vint_decode_cons [of _ bs b rest] val by (simp add: t)
  qed
qed

interpretation vint_codec: codec vint_encode vint_decode "\<lambda>_. True" vint_wire
  by unfold_locales (simp_all add: codec_simps)

lemma length_vint_wire: "1 \<le> length (vint_wire v) \<and> length (vint_wire v) \<le> 9"
proof -
  have "length (dropWhile (\<lambda>b. b = 0) (int_wire v)) \<le> 8"
    using length_dropWhile_le [of "\<lambda>b. b = 0" "int_wire v"] by simp
  then show ?thesis
    unfolding vint_wire_def vint_encode_def Let_def
    by (auto simp: Suc_le_eq simp del: dropWhile_eq_Nil_conv)
qed

subsection \<open>Zig-zag\<close>

lemma bit_neg_lsb: "bit (- (u AND 1) :: u64) n \<longleftrightarrow> n < 64 \<and> bit u 0"
proof -
  have "u AND 1 = of_bool (bit u 0)" by (simp add: and_one_eq bit_0 mod_2_eq_odd)
  then show ?thesis by (cases "bit u 0") (auto simp: bit_minus_1_iff)
qed

lemma bit_vint_get: "bit (vint_get u) n \<longleftrightarrow> n < 64 \<and> (bit u (Suc n) \<noteq> bit u 0)"
  using bit_imp_le_length [of u "Suc n"]
  by (auto simp: vint_get_def bit_xor_iff bit_drop_bit_eq bit_neg_lsb)

lemma sint_neg_bit: "sint (v :: u64) < 0 \<longleftrightarrow> bit v 63"
  by (simp add: sint_uint bit_uint_iff)

lemma bit_vint_set: "bit (vint_set v) n \<longleftrightarrow> n < 64 \<and> (bit v 63 \<noteq> (0 < n \<and> bit v (n - 1)))"
proof -
  have ones: "(0xffffffffffffffff :: u64) = -1" by simp
  show ?thesis unfolding vint_set_def ones
    by (auto simp: sint_neg_bit bit_xor_iff bit_push_bit_iff bit_minus_1_iff
        simp del: push_bit_of_1 push_bit_Suc push_bit_numeral)
qed

lemma vint_get_set: "vint_get (vint_set v) = v"
proof (rule bit_word_eqI)
  fix n assume "n < LENGTH(64)"
  then show "bit (vint_get (vint_set v)) n \<longleftrightarrow> bit v n"
    by (cases "n = 63") (auto simp: bit_vint_get bit_vint_set)
qed

lemma vint_set_get: "vint_set (vint_get u) = u"
proof (rule bit_word_eqI)
  fix n assume "n < LENGTH(64)"
  then show "bit (vint_set (vint_get u)) n \<longleftrightarrow> bit u n"
    using bit_imp_le_length [of u 64]
    by (cases n) (auto simp: bit_vint_get bit_vint_set)
qed

definition zigzag :: "int \<Rightarrow> int" where
  "zigzag n = (if 0 \<le> n then 2 * n else - 2 * n - 1)"

lemma sint_of_uint: "sint (v :: u64) = uint v - 2 ^ 64 * of_bool (bit v 63)"
proof -
  have "take_bit 64 (uint v) = uint v"
    using uint_bound [of v] by (simp add: take_bit_int_eq_self)
  then show ?thesis by (simp add: sint_uint signed_take_bit_eq_take_bit_minus bit_uint_iff)
qed

lemma uint_vint_set: "uint (vint_set v) = zigzag (sint v)"
proof -
  have shift: "push_bit 1 v = 2 * v" by (simp add: push_bit_eq_mult)
  have bound: "uint v < 2 ^ 64" using uint_bound [of v] by simp
  show ?thesis
  proof (cases "bit v 63")
    case False
    then have pos: "\<not> sint v < 0" by (simp add: sint_neg_bit)
    with False have "uint v < 2 ^ 63"
      using sint_less [of v] by (simp add: sint_of_uint)
    then have "uint (2 * v) = 2 * uint v"
      by (simp add: uint_word_ariths)
    with pos False show ?thesis
      by (simp add: vint_set_def zigzag_def sint_of_uint push_bit_eq_mult mult.commute)
  next
    case True
    then have neg: "sint v < 0" by (simp add: sint_neg_bit)
    with True have big: "2 ^ 63 \<le> uint v"
      using sint_ge [of v] by (simp add: sint_of_uint)
    have twice: "uint (2 * v) = 2 * uint v - 2 ^ 64"
    proof -
      have "uint (2 * v) = (2 * uint v) mod 2 ^ 64" by (simp add: uint_word_ariths)
      also have "\<dots> = (2 * uint v - 2 ^ 64) mod 2 ^ 64" by simp
      also have "\<dots> = 2 * uint v - 2 ^ 64" using big bound by (intro mod_pos_pos_trivial) simp_all
      finally show ?thesis .
    qed
    have "vint_set v = NOT (2 * v)"
    proof -
      have "(0xffffffffffffffff :: u64) = -1" by simp
      then have "vint_set v = -1 XOR push_bit 1 v" using neg unfolding vint_set_def by presburger
      then show ?thesis by (simp add: shift)
    qed
    then have "vint_set v = - (2 * v) - 1" by (simp add: not_eq_complement)
    moreover have "uint (- x - 1) = (- uint x - 1) mod 2 ^ 64" for x :: u64
      by (simp add: uint_word_ariths mod_simps)
    ultimately have "uint (vint_set v) = (- uint (2 * v) - 1) mod 2 ^ 64"
      by simp
    also have "\<dots> = (2 ^ 64 - uint (2 * v) - 1) mod 2 ^ 64"
      using mod_add_self1 [of "2 ^ 64" "- uint (2 * v) - 1"] by (simp add: algebra_simps)
    also have "\<dots> = 2 ^ 64 - uint (2 * v) - 1"
      using big bound by (intro mod_pos_pos_trivial) (simp_all add: twice)
    finally show ?thesis using neg True by (simp add: twice zigzag_def sint_of_uint)
  qed
qed

lemma sint_u32_of_nat: "n < 2 ^ 31 \<Longrightarrow> sint (word_of_nat n :: u32) = int n"
proof -
  assume "n < 2 ^ 31"
  then have "sint (word_of_int (int n) :: u32) = int n"
    by (simp add: signed_of_int signed_take_bit_int_eq_self del: of_int_of_nat_eq)
  then show ?thesis by simp
qed

section \<open>The properties of integers\<close>

text \<open>
  A signed vint is written in one to nine bytes and read back exactly, whatever follows it, and
  the number that is put on the wire is the zigzag code of the value.
\<close>

lemma vint_roundtrip:
  "\<exists>w. vint_encode (vint_set v) data = Inr (data @ w) \<and>
     rbind (vint_decode (w @ rest)) (\<lambda>(u, bs). Inr (vint_get u, bs)) = Inr (v, rest) \<and>
     1 \<le> length w \<and> length w \<le> 9 \<and> uint (vint_set v) = zigzag (sint v)"
  using length_vint_wire [of "vint_set v"]
  by (intro exI [of _ "vint_wire (vint_set v)"]) (simp add: codec_simps vint_get_set uint_vint_set)

text \<open>
  The two ways the code has of reading the first byte of a vint, the count of leading zeros of
  the compiler and the portable loop, find the same number of extra bytes and the same payload bits.
\<close>

lemma vint_header_equivalence: "vint_header_loop h = vint_header_clz h"
  by (rule vint_headers_agree)

end
