(* ===== verification/Protocol_String.thy ===== *)
theory Protocol_String
  imports Protocol_Integer
begin

text \<open>
  The sized strings of the protocol: \<^verbatim>\<open>ProtocolSizedStringBase\<close> and its five
  instances \<^verbatim>\<open>ProtocolString\<close>, \<^verbatim>\<open>ProtocolShortBytes\<close>,
  \<^verbatim>\<open>ProtocolLongString\<close>, \<^verbatim>\<open>ProtocolBytes\<close> and
  \<^verbatim>\<open>ProtocolValue\<close>. The template parameter \<^verbatim>\<open>LengthType\<close> is a
  word type together with its signedness; the states are the values of the source's state enums.
\<close>

section \<open>The base template\<close>

definition StateNormal :: int where "StateNormal = 0"
definition StateNull :: int where "StateNull = -1"
definition StateNotSet :: int where "StateNotSet = -2"

lemmas state_defs [simp] = StateNormal_def StateNull_def StateNotSet_def

record sized_string =
  ss_value :: bytes
  ss_state :: int

definition ss_init :: "int \<Rightarrow> sized_string" where
  "ss_init defaultState = \<lparr>ss_value = [], ss_state = defaultState\<rparr>"

definition ss_set_state :: "int \<Rightarrow> sized_string \<Rightarrow> sized_string" where
  "ss_set_state st s = s\<lparr>ss_state := st, ss_value := []\<rparr>"

definition ss_set :: "bytes \<Rightarrow> sized_string \<Rightarrow> sized_string" where
  "ss_set str s = s\<lparr>ss_state := StateNormal, ss_value := str\<rparr>"

definition ss_append :: "bytes \<Rightarrow> sized_string \<Rightarrow> sized_string" where
  "ss_append str s = s\<lparr>ss_state := StateNormal, ss_value := ss_value s @ str\<rparr>"

definition ss_reset :: "int \<Rightarrow> sized_string \<Rightarrow> sized_string" where
  "ss_reset defaultState s = s\<lparr>ss_state := defaultState, ss_value := []\<rparr>"

lemmas ss_ops [model_defs] =
  ss_init_def ss_set_state_def ss_set_def ss_append_def ss_reset_def

definition length_max :: "'l::len itself \<Rightarrow> bool \<Rightarrow> nat" where
  "length_max T sgnd = (if sgnd then 2 ^ (LENGTH('l) - 1) - 1 else 2 ^ LENGTH('l) - 1)"

definition sized_encode :: "'l::len itself \<Rightarrow> bool \<Rightarrow> sized_string encoder" where
  "sized_encode T sgnd s data =
     (if ss_state s \<noteq> StateNormal
      then int_encode (word_of_int (ss_state s) :: 'l word) data
      else if length (ss_value s) > length_max T sgnd then Inl EncodeException
      else rbind (int_encode (word_of_nat (length (ss_value s)) :: 'l word) data)
        (\<lambda>data. Inr (data @ ss_value s)))"

definition sized_decode :: "'l::len itself \<Rightarrow> bool \<Rightarrow> sized_string decoder" where
  "sized_decode T sgnd bs =
     rbind (int_decode bs) (\<lambda>(size :: 'l word, bs).
       if \<not> sgnd \<or> 0 \<le> sint size
       then if length bs < unat size then Inl DecodeException
            else Inr (\<lparr>ss_value = take (unat size) bs, ss_state = StateNormal\<rparr>, drop (unat size) bs)
       else Inr (\<lparr>ss_value = [], ss_state = sint size\<rparr>, bs))"

subsection \<open>Wire format\<close>

definition sized_ok :: "'l::len itself \<Rightarrow> bool \<Rightarrow> sized_string \<Rightarrow> bool" where
  "sized_ok T sgnd s \<longleftrightarrow>
     ss_state s = StateNormal \<and> length (ss_value s) \<le> length_max T sgnd"

definition sized_wire :: "'l::len itself \<Rightarrow> sized_string \<Rightarrow> bytes" where
  "sized_wire T s =
     (if ss_state s = StateNormal
      then int_wire (word_of_nat (length (ss_value s)) :: 'l word) @ ss_value s
      else int_wire (word_of_int (ss_state s) :: 'l word))"

lemma le_length_max_iff:
  "n \<le> length_max TYPE('l::len) sgnd \<longleftrightarrow> n < 2 ^ (if sgnd then LENGTH('l) - 1 else LENGTH('l))"
proof -
  have "0 < (2::nat) ^ k" for k by simp
  then have "n \<le> 2 ^ k - 1 \<longleftrightarrow> n < 2 ^ k" for k
    by (metis Suc_diff_1 less_Suc_eq_le)
  then show ?thesis by (simp add: length_max_def)
qed

lemma length_max_less: "n \<le> length_max TYPE('l::len) sgnd \<Longrightarrow> n < 2 ^ LENGTH('l)"
  using power_increasing [of "LENGTH('l) - 1" "LENGTH('l)" "2::nat"] order.strict_trans2
  by (fastforce simp: le_length_max_iff split: if_splits)

lemma unat_length_word:
  "n \<le> length_max TYPE('l::len) sgnd \<Longrightarrow> unat (word_of_nat n :: 'l word) = n"
  using length_max_less [where 'l='l, of n sgnd]
  by (simp add: unat_of_nat take_bit_nat_eq_self)

lemma sint_length_word:
  assumes "n \<le> length_max TYPE('l::len) True"
  shows "0 \<le> sint (word_of_nat n :: 'l word)"
proof -
  have "n < 2 ^ (LENGTH('l) - 1)"
    using assms by (simp add: le_length_max_iff)
  then have "\<not> bit n (LENGTH('l) - 1)"
    using bit_take_bit_iff [of "LENGTH('l) - 1" n "LENGTH('l) - 1"]
    by (simp add: take_bit_nat_eq_self)
  then have "\<not> bit (word_of_nat n :: 'l word) (LENGTH('l) - Suc 0)"
    by (simp add: bit_of_nat_iff)
  then show ?thesis by (simp add: bit_last_iff not_less)
qed

lemma sized_encode_wire:
  "ss_state s \<noteq> StateNormal \<or> length (ss_value s) \<le> length_max T sgnd \<Longrightarrow>
   sized_encode T sgnd s data = Inr (data @ sized_wire T s)"
  by (auto simp: sized_encode_def sized_wire_def codec_simps)

lemma sized_encode_too_long:
  "ss_state s = StateNormal \<Longrightarrow> length_max T sgnd < length (ss_value s) \<Longrightarrow>
   sized_encode T sgnd s data = Inl EncodeException"
  by (simp add: sized_encode_def)

lemma sized_decode_wire:
  assumes w: "8 dvd LENGTH('l::len)" and ok: "sized_ok TYPE('l) sgnd s"
  shows "sized_decode TYPE('l) sgnd (sized_wire TYPE('l) s @ rest) = Inr (s, rest)"
proof -
  let ?size = "word_of_nat (length (ss_value s)) :: 'l word"
  have len: "unat ?size = length (ss_value s)"
    using ok unat_length_word [where 'l='l, of _ sgnd] by (simp add: sized_ok_def)
  have "\<not> sgnd \<or> 0 \<le> sint ?size"
    using ok sint_length_word [where 'l='l] by (cases sgnd) (auto simp: sized_ok_def)
  then show ?thesis
    using ok len by (simp add: sized_decode_def sized_wire_def int_decode_wire [OF w] sized_ok_def)
qed

lemma sized_decode_exact:
  assumes w: "8 dvd LENGTH('l::len)" and d: "sized_decode TYPE('l) sgnd bs = Inr (s, rest)"
    and normal: "ss_state s = StateNormal"
  shows "sized_ok TYPE('l) sgnd s \<and> bs = sized_wire TYPE('l) s @ rest"
proof -
  from d obtain size :: "'l word" and bs' where size: "int_decode bs = Inr (size, bs')"
    and s: "(if \<not> sgnd \<or> 0 \<le> sint size
       then if length bs' < unat size then Inl DecodeException
            else Inr (\<lparr>ss_value = take (unat size) bs', ss_state = StateNormal\<rparr>, drop (unat size) bs')
       else Inr (\<lparr>ss_value = [], ss_state = sint size\<rparr>, bs')) = Inr (s, rest)"
    by (auto simp: sized_decode_def rbind_eq_Inr)
  from s normal have nonneg: "\<not> sgnd \<or> 0 \<le> sint size"
    by (auto split: if_splits)
  with s have s': "s = \<lparr>ss_value = take (unat size) bs', ss_state = StateNormal\<rparr>"
    and rest: "rest = drop (unat size) bs'" and len: "unat size \<le> length bs'"
    by (auto split: if_splits)
  have "unat size \<le> length_max TYPE('l) sgnd"
  proof (cases sgnd)
    case True
    with nonneg have "\<not> bit size (LENGTH('l) - Suc 0)" by (simp add: bit_last_iff)
    then have "drop_bit (LENGTH('l) - Suc 0) size = 0"
      by (simp add: drop_bit_eq_zero_iff_not_bit_last)
    then have "unat size div 2 ^ (LENGTH('l) - 1) = 0"
      by (metis One_nat_def drop_bit_eq_div unat_drop_bit_eq unsigned_0)
    with True show ?thesis
      by (simp add: le_length_max_iff div_eq_0_iff)
  next
    case False
    then show ?thesis using unat_bound [of size] by (simp add: le_length_max_iff)
  qed
  moreover have "bs = int_wire size @ bs'" by (rule int_decode_exact [OF w size])
  ultimately show ?thesis
    using len by (simp add: sized_ok_def sized_wire_def s' rest)
qed

subsection \<open>Negative lengths\<close>

lemma sint_word_of_state:
  "- (2 ^ 31) \<le> st \<Longrightarrow> st < 2 ^ 31 \<Longrightarrow> sint (word_of_int st :: u32) = st"
  by (simp add: signed_of_int signed_take_bit_int_eq_self)

lemma sized_decode_state:
  assumes "- (2 ^ 31) \<le> st" and "st < 0"
  shows "sized_decode TYPE(32) True (int_wire (word_of_int st :: u32) @ rest) =
    Inr (\<lparr>ss_value = [], ss_state = st\<rparr>, rest)"
  using assms sint_word_of_state [of st] by (simp add: sized_decode_def codec_simps)

lemma sized_decode_negative:
  assumes d: "sized_decode TYPE(32) True bs = Inr (s, rest)" and neg: "ss_state s \<noteq> StateNormal"
  shows "ss_value s = []" and "- (2 ^ 31) \<le> ss_state s \<and> ss_state s < 0"
    and "bs = int_wire (word_of_int (ss_state s) :: u32) @ rest"
proof -
  from d obtain size :: u32 and bs' where size: "int_decode bs = Inr (size, bs')"
    and s: "(if 0 \<le> sint size
       then if length bs' < unat size then Inl DecodeException
            else Inr (\<lparr>ss_value = take (unat size) bs', ss_state = StateNormal\<rparr>, drop (unat size) bs')
       else Inr (\<lparr>ss_value = [], ss_state = sint size\<rparr>, bs')) = Inr (s, rest)"
    by (auto simp: sized_decode_def rbind_eq_Inr)
  from s neg have lt: "sint size < 0" by (cases "0 \<le> sint size") (auto split: if_splits)
  with s have s': "s = \<lparr>ss_value = [], ss_state = sint size\<rparr>" "bs' = rest" by auto
  have "bs = int_wire size @ bs'" by (rule int_decode_exact [OF _ size]) simp
  with s' lt sint_ge [of size] show "ss_value s = []"
    and "- (2 ^ 31) \<le> ss_state s \<and> ss_state s < 0"
    and "bs = int_wire (word_of_int (ss_state s) :: u32) @ rest"
    by auto
qed

section \<open>The five instances\<close>

definition string_encode :: "sized_string encoder" where
  "string_encode = sized_encode TYPE(16) False"
definition string_decode :: "sized_string decoder" where
  "string_decode = sized_decode TYPE(16) False"

definition short_bytes_encode :: "sized_string encoder" where
  "short_bytes_encode = sized_encode TYPE(16) False"
definition short_bytes_decode :: "sized_string decoder" where
  "short_bytes_decode = sized_decode TYPE(16) False"

definition long_string_encode :: "sized_string encoder" where
  "long_string_encode = sized_encode TYPE(32) True"
definition long_string_decode :: "sized_string decoder" where
  "long_string_decode bs =
     rbind (sized_decode TYPE(32) True bs) (\<lambda>(s, bs).
       if ss_state s \<noteq> StateNormal then Inl DecodeException else Inr (s, bs))"

definition bytes_isNull :: "sized_string \<Rightarrow> bool" where
  "bytes_isNull s \<longleftrightarrow> ss_state s = StateNull"
definition bytes_encode :: "sized_string encoder" where
  "bytes_encode = sized_encode TYPE(32) True"
definition bytes_decode :: "sized_string decoder" where
  "bytes_decode bs =
     rbind (sized_decode TYPE(32) True bs) (\<lambda>(s, bs).
       if ss_state s \<noteq> StateNormal then Inr (s\<lparr>ss_state := StateNull\<rparr>, bs) else Inr (s, bs))"

definition value_isNull :: "sized_string \<Rightarrow> bool" where
  "value_isNull s \<longleftrightarrow> ss_state s = StateNull"
definition value_isNotSet :: "sized_string \<Rightarrow> bool" where
  "value_isNotSet s \<longleftrightarrow> ss_state s = StateNotSet"
definition value_encode :: "sized_string encoder" where
  "value_encode = sized_encode TYPE(32) True"
definition value_decode :: "sized_string decoder" where
  "value_decode bs =
     rbind (sized_decode TYPE(32) True bs) (\<lambda>(s, bs).
       if ss_state s \<noteq> StateNormal \<and> ss_state s \<noteq> StateNull \<and> ss_state s \<noteq> StateNotSet
       then Inl DecodeException else Inr (s, bs))"

subsection \<open>Their contracts\<close>

definition string_ok :: "sized_string \<Rightarrow> bool" where
  "string_ok = sized_ok TYPE(16) False"
definition long_string_ok :: "sized_string \<Rightarrow> bool" where
  "long_string_ok = sized_ok TYPE(32) True"
definition bytes_ok :: "sized_string \<Rightarrow> bool" where
  "bytes_ok s \<longleftrightarrow> sized_ok TYPE(32) True s \<or> s = \<lparr>ss_value = [], ss_state = StateNull\<rparr>"
definition value_ok :: "sized_string \<Rightarrow> bool" where
  "value_ok s \<longleftrightarrow> bytes_ok s \<or> s = \<lparr>ss_value = [], ss_state = StateNotSet\<rparr>"

abbreviation short_wire :: "sized_string \<Rightarrow> bytes" where
  "short_wire \<equiv> sized_wire TYPE(16)"
abbreviation long_wire :: "sized_string \<Rightarrow> bytes" where
  "long_wire \<equiv> sized_wire TYPE(32)"

lemma sized16_normal: "sized_decode TYPE(16) False bs = Inr (s, rest) \<Longrightarrow> ss_state s = StateNormal"
  by (auto simp: sized_decode_def rbind_eq_Inr split: if_splits)

lemma sized16_exact_codec:
  "exact_codec (sized_encode TYPE(16) False) (sized_decode TYPE(16) False)
     (sized_ok TYPE(16) False) short_wire"
proof
  fix v data assume "sized_ok TYPE(16) False v"
  then show "sized_encode TYPE(16) False v data = Inr (data @ short_wire v)"
    by (simp add: sized_ok_def sized_encode_wire)
next
  fix v rest assume "sized_ok TYPE(16) False v"
  then show "sized_decode TYPE(16) False (short_wire v @ rest) = Inr (v, rest)"
    by (simp add: sized_decode_wire)
next
  fix bs v rest assume d: "sized_decode TYPE(16) False bs = Inr (v, rest)"
  show "sized_ok TYPE(16) False v \<and> bs = short_wire v @ rest"
    by (rule sized_decode_exact [OF _ d sized16_normal [OF d]]) simp
qed

interpretation string_codec: exact_codec string_encode string_decode string_ok short_wire
  unfolding string_encode_def string_decode_def string_ok_def by (rule sized16_exact_codec)

interpretation short_bytes_codec: exact_codec short_bytes_encode short_bytes_decode string_ok short_wire
  unfolding short_bytes_encode_def short_bytes_decode_def string_ok_def by (rule sized16_exact_codec)

lemma long_wire_state: "long_wire \<lparr>ss_value = [], ss_state = -1\<rparr> = int_wire (-1 :: u32)"
  "long_wire \<lparr>ss_value = [], ss_state = -2\<rparr> = int_wire (-2 :: u32)"
  by (simp_all add: sized_wire_def)

lemma sized_decode_null:
  "sized_decode TYPE(32) True (int_wire (-1 :: u32) @ rest) =
     Inr (\<lparr>ss_value = [], ss_state = -1\<rparr>, rest)"
  "sized_decode TYPE(32) True (int_wire (-2 :: u32) @ rest) =
     Inr (\<lparr>ss_value = [], ss_state = -2\<rparr>, rest)"
  using sized_decode_state [of "-1" rest] sized_decode_state [of "-2" rest] by simp_all

interpretation long_string_codec: exact_codec long_string_encode long_string_decode long_string_ok long_wire
proof
  fix v data assume "long_string_ok v"
  then show "long_string_encode v data = Inr (data @ long_wire v)"
    by (simp add: long_string_ok_def long_string_encode_def sized_ok_def sized_encode_wire)
next
  fix v rest assume ok: "long_string_ok v"
  then have "ss_state v = StateNormal" by (simp add: long_string_ok_def sized_ok_def)
  with ok show "long_string_decode (long_wire v @ rest) = Inr (v, rest)"
    by (simp add: long_string_ok_def long_string_decode_def sized_decode_wire)
next
  fix bs v rest assume "long_string_decode bs = Inr (v, rest)"
  then show "long_string_ok v \<and> bs = long_wire v @ rest"
    using sized_decode_exact [where 'l=32 and sgnd=True and bs=bs and s=v and rest=rest]
    by (auto simp: long_string_decode_def long_string_ok_def rbind_eq_Inr split: if_splits)
qed

interpretation bytes_codec: codec bytes_encode bytes_decode bytes_ok long_wire
proof
  fix v data assume "bytes_ok v"
  then show "bytes_encode v data = Inr (data @ long_wire v)"
    by (auto simp: bytes_ok_def bytes_encode_def sized_ok_def sized_encode_wire)
next
  fix v rest assume "bytes_ok v"
  then show "bytes_decode (long_wire v @ rest) = Inr (v, rest)"
    by (auto simp: bytes_ok_def bytes_decode_def sized_decode_wire sized_decode_null
        long_wire_state sized_ok_def)
qed

interpretation value_codec: exact_codec value_encode value_decode value_ok long_wire
proof
  fix v data assume "value_ok v"
  then show "value_encode v data = Inr (data @ long_wire v)"
    by (auto simp: value_ok_def bytes_ok_def value_encode_def sized_ok_def sized_encode_wire)
next
  fix v rest assume "value_ok v"
  then show "value_decode (long_wire v @ rest) = Inr (v, rest)"
    by (auto simp: value_ok_def bytes_ok_def value_decode_def sized_decode_wire sized_decode_null
        long_wire_state sized_ok_def)
next
  fix bs v rest assume d: "value_decode bs = Inr (v, rest)"
  then have s: "sized_decode TYPE(32) True bs = Inr (v, rest)"
    and st: "ss_state v = StateNormal \<or> ss_state v = StateNull \<or> ss_state v = StateNotSet"
    by (auto simp: value_decode_def rbind_eq_Inr split: if_splits)
  show "value_ok v \<and> bs = long_wire v @ rest"
  proof (cases "ss_state v = StateNormal")
    case True
    with sized_decode_exact [OF _ s] show ?thesis by (simp add: value_ok_def bytes_ok_def)
  next
    case False
    with sized_decode_negative [OF s] st show ?thesis
      by (cases v) (auto simp: value_ok_def bytes_ok_def sized_wire_def)
  qed
qed

text \<open>\<^verbatim>\<open>[bytes]\<close> accepts every negative length as null.\<close>

lemma bytes_decode_negative:
  assumes "- (2 ^ 31) \<le> st" and "st < 0"
  shows "bytes_decode (int_wire (word_of_int st :: u32) @ rest) =
    Inr (\<lparr>ss_value = [], ss_state = StateNull\<rparr>, rest)"
  using assms sized_decode_state [OF assms, of rest] by (simp add: bytes_decode_def)

section \<open>The properties of strings\<close>

text \<open>
  C38: The decoders of \<^verbatim>\<open>[string]\<close>, \<^verbatim>\<open>[long string]\<close>, \<^verbatim>\<open>[short bytes]\<close> and
  \<^verbatim>\<open>[value]\<close> accept exactly the encodings of the values their type can hold, and give back the
  bytes that follow.
\<close>

theorem strings_decode_exactly:
  "(string_decode bs = Inr (s, rest) \<longleftrightarrow> string_ok s \<and> bs = short_wire s @ rest) \<and>
   (short_bytes_decode bs = Inr (s, rest) \<longleftrightarrow> string_ok s \<and> bs = short_wire s @ rest) \<and>
   (long_string_decode bs = Inr (s, rest) \<longleftrightarrow> long_string_ok s \<and> bs = long_wire s @ rest) \<and>
   (value_decode bs = Inr (s, rest) \<longleftrightarrow> value_ok s \<and> bs = long_wire s @ rest)"
  by (simp only: string_codec.dec_iff short_bytes_codec.dec_iff long_string_codec.dec_iff value_codec.dec_iff simp_thms)

end
