(* ===== verification/Command.thy ===== *)
theory Command
  imports Protocol_String Enums Reusable
begin

text \<open>
  \<^verbatim>\<open>Command\<close>, \<^verbatim>\<open>BatchCommand\<close> and their data. A command is a
  reusable pointer to its data; moving it out leaves null, and dereferencing null is undefined.
  Time points are nanoseconds since the epoch, the resolution of
  \<^verbatim>\<open>std::chrono::system_clock\<close>.
\<close>

section \<open>StringHolder\<close>

record string_holder =
  sh_str :: bytes
  sh_ref :: "bytes option"

definition hasOwnership :: "string_holder \<Rightarrow> bool" where
  "hasOwnership h \<longleftrightarrow> sh_ref h = None"

definition sh_get :: "string_holder \<Rightarrow> bytes" where
  "sh_get h = (case sh_ref h of Some view \<Rightarrow> view | None \<Rightarrow> sh_str h)"

definition sh_empty :: string_holder where
  "sh_empty = \<lparr>sh_str = [], sh_ref = None\<rparr>"

definition sh_of_string :: "bytes \<Rightarrow> string_holder" where
  "sh_of_string str = \<lparr>sh_str = str, sh_ref = None\<rparr>"

definition sh_of_ref :: "bytes \<Rightarrow> string_holder" where
  "sh_of_ref view = \<lparr>sh_str = [], sh_ref = Some view\<rparr>"

definition sh_equal :: "string_holder \<Rightarrow> string_holder \<Rightarrow> bool" where
  "sh_equal a b \<longleftrightarrow> sh_get a = sh_get b"

lemma sh_get_simps [simp]:
  "sh_get sh_empty = []" "sh_get (sh_of_string str) = str" "sh_get (sh_of_ref str) = str"
  by (simp_all add: sh_get_def sh_empty_def sh_of_string_def sh_of_ref_def)

section \<open>Command\<close>

type_synonym time_point = int

record command_data =
  cd_queryStr :: string_holder
  cd_needPrepare :: "bool option"
  cd_consistencyLevel :: "u32 option"
  cd_pageSize :: "u64 option"
  cd_pagingState :: bytes
  cd_parameterCount :: u64
  cd_parameters :: bytes
  cd_serialConsistencyLevel :: "u32 option"
  cd_defaultTimestamp :: "time_point option"
  cd_maxRetries :: u64

definition command_data_init :: command_data where
  "command_data_init =
     \<lparr>cd_queryStr = sh_empty, cd_needPrepare = None, cd_consistencyLevel = None, cd_pageSize = None,
      cd_pagingState = [], cd_parameterCount = 0, cd_parameters = [], cd_serialConsistencyLevel = None,
      cd_defaultTimestamp = None, cd_maxRetries = 0\<rparr>"

definition command_data_resetExceptQuery :: "command_data \<Rightarrow> command_data" where
  "command_data_resetExceptQuery d =
     d\<lparr>cd_needPrepare := None, cd_consistencyLevel := None, cd_pageSize := None, cd_pagingState := [],
       cd_parameterCount := 0, cd_parameters := [], cd_serialConsistencyLevel := None,
       cd_defaultTimestamp := None, cd_maxRetries := 0\<rparr>"

definition command_data_reset_ref :: "bytes \<Rightarrow> command_data \<Rightarrow> command_data" where
  "command_data_reset_ref query d = command_data_resetExceptQuery (d\<lparr>cd_queryStr := sh_of_ref query\<rparr>)"

definition command_data_reset :: "bytes \<Rightarrow> command_data \<Rightarrow> command_data" where
  "command_data_reset query d = command_data_resetExceptQuery (d\<lparr>cd_queryStr := sh_of_string query\<rparr>)"

definition command_data_freeResources :: "command_data \<Rightarrow> command_data" where
  "command_data_freeResources d = d"

lemmas command_data_ops =
  command_data_init_def command_data_resetExceptQuery_def command_data_reset_ref_def
  command_data_reset_def command_data_freeResources_def

text \<open>A command taken from the free list never shows the settings of an earlier query.\<close>

interpretation command_reusable: reusable_object command_data_init "command_data_reset query"
    command_data_freeResources "\<lambda>_. True" "\<lambda>d. d"
  by unfold_locales (simp_all add: command_data_ops)

interpretation command_ref_reusable: reusable_object command_data_init "command_data_reset_ref query"
    command_data_freeResources "\<lambda>_. True" "\<lambda>d. d"
  by unfold_locales (simp_all add: command_data_ops)

type_synonym command = "command_data option"

definition command_isValid :: "command \<Rightarrow> bool" where
  "command_isValid c \<longleftrightarrow> c \<noteq> None"

definition command_null :: command where
  "command_null = None"

definition command_new :: "bytes \<Rightarrow> command_data reusable_storage \<Rightarrow> command \<times> command_data reusable_storage" where
  "command_new query st =
     (let (d, st) = make_reusable (command_data_reset query) command_data_init st in (Some d, st))"

definition command_new_ref :: "bytes \<Rightarrow> command_data reusable_storage \<Rightarrow> command \<times> command_data reusable_storage" where
  "command_new_ref query st =
     (let (d, st) = make_reusable (command_data_reset_ref query) command_data_init st in (Some d, st))"

text \<open>What both constructors build, whatever the free list holds.\<close>

definition command_of_string :: "bytes \<Rightarrow> command" where
  "command_of_string query = Some (command_data_init\<lparr>cd_queryStr := sh_of_string query\<rparr>)"

definition command_of_ref :: "bytes \<Rightarrow> command" where
  "command_of_ref query = Some (command_data_init\<lparr>cd_queryStr := sh_of_ref query\<rparr>)"

lemma command_new_eq: "fst (command_new query st) = command_of_string query"
  by (auto simp: command_new_def command_of_string_def make_reusable_def command_data_ops)

lemma command_new_ref_eq: "fst (command_new_ref query st) = command_of_ref query"
  by (auto simp: command_new_ref_def command_of_ref_def make_reusable_def command_data_ops)

text \<open>Access through the data pointer.\<close>

definition deref :: "'a option \<Rightarrow> 'a result" where
  "deref p = (case p of None \<Rightarrow> Inl UndefinedBehaviour | Some d \<Rightarrow> Inr d)"

lemma deref_simps [simp]: "deref (Some d) = Inr d" "deref None = Inl UndefinedBehaviour"
  by (simp_all add: deref_def)

definition on_command :: "(command_data \<Rightarrow> command_data) \<Rightarrow> command \<Rightarrow> command result" where
  "on_command f c = rbind (deref c) (\<lambda>d. Inr (Some (f d)))"

definition command_prepareQuery :: "bool \<Rightarrow> command \<Rightarrow> command result" where
  "command_prepareQuery v = on_command (\<lambda>d. d\<lparr>cd_needPrepare := Some v\<rparr>)"

definition command_setConsistency :: "u32 \<Rightarrow> command \<Rightarrow> command result" where
  "command_setConsistency level = on_command (\<lambda>d. d\<lparr>cd_consistencyLevel := Some level\<rparr>)"

definition command_setPageSize :: "u64 \<Rightarrow> command \<Rightarrow> command result" where
  "command_setPageSize n = on_command (\<lambda>d. d\<lparr>cd_pageSize := Some n\<rparr>)"

definition command_setPagingState :: "bytes \<Rightarrow> command \<Rightarrow> command result" where
  "command_setPagingState s = on_command (\<lambda>d. d\<lparr>cd_pagingState := s\<rparr>)"

definition command_setSerialConsistency :: "u32 \<Rightarrow> command \<Rightarrow> command result" where
  "command_setSerialConsistency level = on_command (\<lambda>d. d\<lparr>cd_serialConsistencyLevel := Some level\<rparr>)"

definition command_setDefaultTimestamp :: "time_point \<Rightarrow> command \<Rightarrow> command result" where
  "command_setDefaultTimestamp t = on_command (\<lambda>d. d\<lparr>cd_defaultTimestamp := Some t\<rparr>)"

definition command_setMaxRetries :: "u64 \<Rightarrow> command \<Rightarrow> command result" where
  "command_setMaxRetries n = on_command (\<lambda>d. d\<lparr>cd_maxRetries := n\<rparr>)"

definition command_setParameterCount :: "u64 \<Rightarrow> command \<Rightarrow> command result" where
  "command_setParameterCount n = on_command (\<lambda>d. d\<lparr>cd_parameterCount := n\<rparr>)"

definition command_getQuery :: "command \<Rightarrow> string_holder result" where
  "command_getQuery c = rbind (deref c) (\<lambda>d. Inr (cd_queryStr d))"

definition command_getNeedPrepare :: "command \<Rightarrow> bool option result" where
  "command_getNeedPrepare c = rbind (deref c) (\<lambda>d. Inr (cd_needPrepare d))"

definition command_getConsistency :: "command \<Rightarrow> u32 option result" where
  "command_getConsistency c = rbind (deref c) (\<lambda>d. Inr (cd_consistencyLevel d))"

definition command_getPageSize :: "command \<Rightarrow> u64 option result" where
  "command_getPageSize c = rbind (deref c) (\<lambda>d. Inr (cd_pageSize d))"

definition command_getPagingState :: "command \<Rightarrow> bytes result" where
  "command_getPagingState c = rbind (deref c) (\<lambda>d. Inr (cd_pagingState d))"

definition command_getParameterCount :: "command \<Rightarrow> u64 result" where
  "command_getParameterCount c = rbind (deref c) (\<lambda>d. Inr (cd_parameterCount d))"

definition command_getParameters :: "command \<Rightarrow> bytes result" where
  "command_getParameters c = rbind (deref c) (\<lambda>d. Inr (cd_parameters d))"

definition command_getSerialConsistency :: "command \<Rightarrow> u32 option result" where
  "command_getSerialConsistency c = rbind (deref c) (\<lambda>d. Inr (cd_serialConsistencyLevel d))"

definition command_getDefaultTimestamp :: "command \<Rightarrow> time_point option result" where
  "command_getDefaultTimestamp c = rbind (deref c) (\<lambda>d. Inr (cd_defaultTimestamp d))"

definition command_getMaxRetries :: "command \<Rightarrow> u64 result" where
  "command_getMaxRetries c = rbind (deref c) (\<lambda>d. Inr (cd_maxRetries d))"

text \<open>
  \<^verbatim>\<open>addParameter\<close> appends the encoded parameter and counts it;
  \<^verbatim>\<open>addParameters\<close> encodes all of them first and then adds their number. The
  encoder is that of the parameter's column type.
\<close>

definition command_addParameter :: "'a encoder \<Rightarrow> 'a \<Rightarrow> command \<Rightarrow> command result" where
  "command_addParameter enc p c =
     rbind (deref c) (\<lambda>d. rbind (enc p (cd_parameters d)) (\<lambda>ps.
       Inr (Some (d\<lparr>cd_parameters := ps, cd_parameterCount := cd_parameterCount d + 1\<rparr>))))"

fun addParametersEncode :: "(bytes \<Rightarrow> bytes result) list \<Rightarrow> bytes \<Rightarrow> bytes result" where
  "addParametersEncode [] data = Inr data"
| "addParametersEncode (head # rest) data = rbind (head data) (addParametersEncode rest)"

definition command_addParameters :: "(bytes \<Rightarrow> bytes result) list \<Rightarrow> command \<Rightarrow> command result" where
  "command_addParameters encs c =
     rbind (deref c) (\<lambda>d. rbind (addParametersEncode encs (cd_parameters d)) (\<lambda>ps.
       Inr (Some (d\<lparr>cd_parameters := ps, cd_parameterCount := cd_parameterCount d + word_of_nat (length encs)\<rparr>))))"

lemmas command_ops [model_defs] =
  on_command_def command_prepareQuery_def command_setConsistency_def command_setPageSize_def
  command_setPagingState_def command_setSerialConsistency_def command_setDefaultTimestamp_def
  command_setMaxRetries_def command_setParameterCount_def command_getQuery_def
  command_getNeedPrepare_def command_getConsistency_def command_getPageSize_def
  command_getPagingState_def command_getParameterCount_def command_getParameters_def
  command_getSerialConsistency_def command_getDefaultTimestamp_def command_getMaxRetries_def
  command_isValid_def command_null_def

text \<open>
  The parameters of a command are the encoded values one after the other, and their count is
  the number of values; both ways of adding keep this.
\<close>

definition command_params_inv :: "command \<Rightarrow> sized_string list \<Rightarrow> bool" where
  "command_params_inv c vs \<longleftrightarrow>
     (\<exists>d. c = Some d \<and> cd_parameters d = concat (map long_wire vs) \<and>
        cd_parameterCount d = word_of_nat (length vs) \<and> list_all value_ok vs)"

lemma command_addParameter_inv:
  assumes inv: "command_params_inv c vs" and ok: "value_ok v"
    and enc: "\<And>data. enc p data = Inr (data @ long_wire v)"
  shows "\<exists>c'. command_addParameter enc p c = Inr c' \<and> command_params_inv c' (vs @ [v])"
  using inv ok by (auto simp: command_params_inv_def command_addParameter_def enc)

lemma addParametersEncode_wires:
  "list_all2 (\<lambda>enc v. \<forall>data. enc data = Inr (data @ long_wire v)) encs vs \<Longrightarrow>
   addParametersEncode encs data = Inr (data @ concat (map long_wire vs))"
  by (induction encs vs arbitrary: data rule: list_all2_induct) simp_all

lemma command_addParameters_inv:
  assumes inv: "command_params_inv c vs" and ok: "list_all value_ok ws"
    and enc: "list_all2 (\<lambda>enc v. \<forall>data. enc data = Inr (data @ long_wire v)) encs ws"
  shows "\<exists>c'. command_addParameters encs c = Inr c' \<and> command_params_inv c' (vs @ ws)"
  using inv ok addParametersEncode_wires [OF enc] list_all2_lengthD [OF enc]
  by (auto simp: command_params_inv_def command_addParameters_def)

section \<open>The properties of commands\<close>

text \<open>
  A command allocated from the free list shows only the query it was made for: none of the settings,
  parameters or paging state of the command that used the object before.
\<close>

lemma recycled_command_is_fresh:
  "fst (command_new query st) = command_of_string query \<and> fst (command_new_ref query st) = command_of_ref query"
  by (simp only: command_new_eq command_new_ref_eq simp_thms)

end
