(* ===== verification/Configuration.thy ===== *)
theory Configuration
  imports Command
begin

text \<open>
  \<^verbatim>\<open>NodeConfiguration\<close> and \<^verbatim>\<open>SessionConfiguration\<close>. Both own
  their data and copy it on assignment, so the data stands for the object. Parsing a numeric
  host name is done by \<^verbatim>\<open>seastar::net::inet_address\<close> and is a parameter; the
  current time is an argument.
\<close>

section \<open>NodeConfiguration\<close>

text \<open>What constructing an \<^verbatim>\<open>inet_address\<close> from a host name gives.\<close>

datatype inet_parse = Inet4 bytes | Inet6 bytes | InvalidArgument

definition ascii :: "string \<Rightarrow> bytes" where
  "ascii s = map of_char s"

definition AllowAllAuthenticatorClass :: bytes where
  "AllowAllAuthenticatorClass = ascii ''org.apache.cassandra.auth.AllowAllAuthenticator''"

definition PasswordAuthenticatorClass :: bytes where
  "PasswordAuthenticatorClass = ascii ''org.apache.cassandra.auth.PasswordAuthenticator''"

record node_configuration =
  nc_address :: "bytes \<times> u16"
  nc_useSSL :: bool
  nc_useCompression :: bool
  nc_maxStreams :: nat
  nc_maxPendingMessages :: nat
  nc_authenticatorClass :: bytes
  nc_authenticatorData :: bytes
  nc_keepaliveParameters :: "nat option"
  nc_ipAddress :: "bytes \<times> u16"
  nc_ipAddressIsResolved :: bool
  nc_ipAddressIsFixed :: bool
  nc_ipAddressUpdatedTime :: time_point
  nc_preparedQueryIds :: "bytes \<Rightarrow> bytes option"

definition nc_init :: node_configuration where
  "nc_init = \<lparr>nc_address = ([], 0), nc_useSSL = False, nc_useCompression = False, nc_maxStreams = 20,
     nc_maxPendingMessages = 100, nc_authenticatorClass = AllowAllAuthenticatorClass,
     nc_authenticatorData = [], nc_keepaliveParameters = None, nc_ipAddress = ([], 0),
     nc_ipAddressIsResolved = False, nc_ipAddressIsFixed = False, nc_ipAddressUpdatedTime = 0,
     nc_preparedQueryIds = (\<lambda>_. None)\<rparr>"

definition nc_setAddress ::
  "(bytes \<Rightarrow> inet_parse) \<Rightarrow> bytes \<Rightarrow> u16 \<Rightarrow> node_configuration \<Rightarrow> node_configuration result" where
  "nc_setAddress parse hostname port c =
     (let c = c\<lparr>nc_address := (hostname, port)\<rparr> in
      case parse hostname of
        Inet4 ip \<Rightarrow> Inr (c\<lparr>nc_ipAddress := (ip, port), nc_ipAddressIsResolved := True, nc_ipAddressIsFixed := True\<rparr>)
      | Inet6 ip \<Rightarrow> Inl NotImplementedException
      | InvalidArgument \<Rightarrow>
          Inr (c\<lparr>nc_ipAddressIsResolved := False, nc_ipAddressIsFixed := False, nc_ipAddressUpdatedTime := 0\<rparr>))"

definition nc_setUseSSL :: "bool \<Rightarrow> node_configuration \<Rightarrow> node_configuration" where
  "nc_setUseSSL v c = c\<lparr>nc_useSSL := v\<rparr>"

definition nc_setUseCompression :: "bool \<Rightarrow> node_configuration \<Rightarrow> node_configuration" where
  "nc_setUseCompression v c = c\<lparr>nc_useCompression := v\<rparr>"

definition nc_setMaxStreams :: "nat \<Rightarrow> node_configuration \<Rightarrow> node_configuration result" where
  "nc_setMaxStreams v c = (if \<not> (v \<ge> 2 \<and> v \<le> 255) then Inl FormatException else Inr (c\<lparr>nc_maxStreams := v\<rparr>))"

definition nc_setMaxPendingMessages :: "nat \<Rightarrow> node_configuration \<Rightarrow> node_configuration result" where
  "nc_setMaxPendingMessages v c =
     (if \<not> v \<ge> 1 then Inl FormatException else Inr (c\<lparr>nc_maxPendingMessages := v\<rparr>))"

definition nc_setPasswordAuthentication :: "bytes \<Rightarrow> bytes \<Rightarrow> node_configuration \<Rightarrow> node_configuration" where
  "nc_setPasswordAuthentication username password c =
     c\<lparr>nc_authenticatorClass := PasswordAuthenticatorClass,
       nc_authenticatorData := [0] @ username @ [0] @ password\<rparr>"

definition nc_setKeepaliveParameters :: "nat option \<Rightarrow> node_configuration \<Rightarrow> node_configuration" where
  "nc_setKeepaliveParameters k c = c\<lparr>nc_keepaliveParameters := k\<rparr>"

definition nc_getIpAddress :: "time_point \<Rightarrow> int \<Rightarrow> node_configuration \<Rightarrow> (bytes \<times> u16) option" where
  "nc_getIpAddress now dnsCacheTime c =
     (if nc_ipAddressIsResolved c \<and>
         (nc_ipAddressIsFixed c \<or> now - nc_ipAddressUpdatedTime c \<le> dnsCacheTime * 1000000)
      then Some (nc_ipAddress c) else None)"

definition nc_updateIpAddress :: "time_point \<Rightarrow> bytes \<times> u16 \<Rightarrow> node_configuration \<Rightarrow> node_configuration result" where
  "nc_updateIpAddress now ip c =
     (if nc_ipAddressIsFixed c then Inl LogicException
      else Inr (c\<lparr>nc_ipAddress := ip, nc_ipAddressIsResolved := True, nc_ipAddressUpdatedTime := now\<rparr>))"

text \<open>
  \<^verbatim>\<open>getPreparedQueryId\<close> returns a reference into the map, inserting an empty
  id first; reading and assigning through it are the two functions.
\<close>

definition nc_getPreparedQueryId :: "string_holder \<Rightarrow> node_configuration \<Rightarrow> bytes \<times> node_configuration" where
  "nc_getPreparedQueryId q c =
     (case nc_preparedQueryIds c (sh_get q) of
        Some pid \<Rightarrow> (pid, c)
      | None \<Rightarrow> ([], c\<lparr>nc_preparedQueryIds := (nc_preparedQueryIds c)(sh_get q := Some [])\<rparr>))"

definition nc_setPreparedQueryId :: "string_holder \<Rightarrow> bytes \<Rightarrow> node_configuration \<Rightarrow> node_configuration" where
  "nc_setPreparedQueryId q pid c = c\<lparr>nc_preparedQueryIds := (nc_preparedQueryIds c)(sh_get q := Some pid)\<rparr>"

definition nc_assign :: "node_configuration \<Rightarrow> node_configuration \<Rightarrow> node_configuration" where
  "nc_assign this other = other"

section \<open>SessionConfiguration\<close>

record session_configuration =
  sc_minPoolSize :: nat
  sc_maxPoolSize :: nat
  sc_maxWaitersAfterConnectionsExhausted :: nat
  sc_dnsCacheTime :: int
  sc_defaultKeySpace :: bytes
  sc_defaultConsistency :: u32
  sc_prepareAllQueries :: bool

definition sc_init :: session_configuration where
  "sc_init = \<lparr>sc_minPoolSize = 5, sc_maxPoolSize = 100, sc_maxWaitersAfterConnectionsExhausted = 100,
     sc_dnsCacheTime = 30000, sc_defaultKeySpace = [], sc_defaultConsistency = CL_Quorum,
     sc_prepareAllQueries = False\<rparr>"

definition sc_setMinPoolSize :: "nat \<Rightarrow> session_configuration \<Rightarrow> session_configuration" where
  "sc_setMinPoolSize v c = c\<lparr>sc_minPoolSize := v\<rparr>"

definition sc_setMaxPoolSize :: "nat \<Rightarrow> session_configuration \<Rightarrow> session_configuration" where
  "sc_setMaxPoolSize v c = c\<lparr>sc_maxPoolSize := v\<rparr>"

definition sc_setMaxWaiters :: "nat \<Rightarrow> session_configuration \<Rightarrow> session_configuration" where
  "sc_setMaxWaiters v c = c\<lparr>sc_maxWaitersAfterConnectionsExhausted := v\<rparr>"

definition sc_setDnsCacheTime :: "int \<Rightarrow> session_configuration \<Rightarrow> session_configuration" where
  "sc_setDnsCacheTime v c = c\<lparr>sc_dnsCacheTime := v\<rparr>"

definition sc_setDefaultKeySpace :: "bytes \<Rightarrow> session_configuration \<Rightarrow> session_configuration" where
  "sc_setDefaultKeySpace v c = c\<lparr>sc_defaultKeySpace := v\<rparr>"

definition sc_setDefaultConsistency :: "u32 \<Rightarrow> session_configuration \<Rightarrow> session_configuration" where
  "sc_setDefaultConsistency v c = c\<lparr>sc_defaultConsistency := v\<rparr>"

definition sc_setPrepareAllQueries :: "bool \<Rightarrow> session_configuration \<Rightarrow> session_configuration" where
  "sc_setPrepareAllQueries v c = c\<lparr>sc_prepareAllQueries := v\<rparr>"

section \<open>What a node configuration guarantees\<close>

definition nc_inv :: "node_configuration \<Rightarrow> bool" where
  "nc_inv c \<longleftrightarrow> 2 \<le> nc_maxStreams c \<and> nc_maxStreams c \<le> 255 \<and> 1 \<le> nc_maxPendingMessages c \<and>
     (nc_ipAddressIsFixed c \<longrightarrow> nc_ipAddressIsResolved c)"

lemma nc_init_inv: "nc_inv nc_init"
  by (simp add: nc_inv_def nc_init_def)

lemma nc_inv_preserved:
  "nc_inv c \<Longrightarrow> nc_setAddress parse host port c = Inr c' \<Longrightarrow> nc_inv c'"
  "nc_inv c \<Longrightarrow> nc_inv (nc_setUseSSL b c)"
  "nc_inv c \<Longrightarrow> nc_inv (nc_setUseCompression b c)"
  "nc_inv c \<Longrightarrow> nc_setMaxStreams n c = Inr c' \<Longrightarrow> nc_inv c'"
  "nc_inv c \<Longrightarrow> nc_setMaxPendingMessages n c = Inr c' \<Longrightarrow> nc_inv c'"
  "nc_inv c \<Longrightarrow> nc_inv (nc_setPasswordAuthentication u p c)"
  "nc_inv c \<Longrightarrow> nc_inv (nc_setKeepaliveParameters k c)"
  "nc_inv c \<Longrightarrow> nc_updateIpAddress now ip c = Inr c' \<Longrightarrow> nc_inv c'"
  "nc_inv c \<Longrightarrow> nc_inv (snd (nc_getPreparedQueryId q c))"
  "nc_inv c \<Longrightarrow> nc_inv (nc_setPreparedQueryId q pid c)"
  by (auto simp: nc_inv_def nc_setAddress_def nc_setUseSSL_def nc_setUseCompression_def nc_setMaxStreams_def
      nc_setMaxPendingMessages_def nc_setPasswordAuthentication_def nc_setKeepaliveParameters_def
      nc_updateIpAddress_def nc_getPreparedQueryId_def nc_setPreparedQueryId_def Let_def
      split: inet_parse.splits if_splits option.splits)

text \<open>A numeric address never needs a lookup; a resolved name is used until its cache time is over.\<close>

lemma nc_numeric_address:
  "parse host = Inet4 ip \<Longrightarrow> nc_setAddress parse host port c = Inr c' \<Longrightarrow>
   nc_getIpAddress now t c' = Some (ip, port) \<and> nc_updateIpAddress now x c' = Inl LogicException"
  by (auto simp: nc_setAddress_def nc_getIpAddress_def nc_updateIpAddress_def Let_def)

lemma nc_cached_address:
  "nc_updateIpAddress t0 ip c = Inr c' \<Longrightarrow>
   nc_getIpAddress now t c' = (if now - t0 \<le> t * 1000000 then Some ip else None)"
  by (auto simp: nc_getIpAddress_def nc_updateIpAddress_def split: if_splits)

lemma nc_prepared_lookup:
  "fst (nc_getPreparedQueryId q' (nc_setPreparedQueryId q pid c)) =
     (if sh_equal q' q then pid else fst (nc_getPreparedQueryId q' c))"
  by (auto simp: nc_getPreparedQueryId_def nc_setPreparedQueryId_def sh_equal_def split: option.splits)

end
