(* ===== verification/Metrics.thy ===== *)
theory Metrics
  imports Cql_Prelude
begin

text \<open>
  \<^verbatim>\<open>MetricsData\<close>: the counters the pool, the connections and the session keep. They
  are \<^verbatim>\<open>std::size_t\<close> and only ever incremented, apart from the gauge of the pool;
  what is registered for them with the metrics service is in \<open>Metrics_Registration\<close>.
\<close>

record metrics_data =
  pool_connections_total :: u64
  pool_connections_current :: u64
  connection_initialize_errors :: u64
  connection_send_message_errors :: u64
  connection_receive_message_errors :: u64
  connection_messages_sent :: u64
  connection_messages_received :: u64
  session_command_successful :: u64
  session_command_failed :: u64
  session_batch_command_successful :: u64
  session_batch_command_failed :: u64

definition metrics_init :: metrics_data where
  "metrics_init = \<lparr>pool_connections_total = 0, pool_connections_current = 0,
     connection_initialize_errors = 0, connection_send_message_errors = 0,
     connection_receive_message_errors = 0, connection_messages_sent = 0,
     connection_messages_received = 0, session_command_successful = 0, session_command_failed = 0,
     session_batch_command_successful = 0, session_batch_command_failed = 0\<rparr>"

end
