(* ===== verification/Protocol_Container.thy ===== *)
theory Protocol_Container
  imports Protocol_String
begin

text \<open>
  \<^verbatim>\<open>ProtocolListBase\<close> and \<^verbatim>\<open>ProtocolMapBase\<close>. Their template
  parameters are passed as the encoder and decoder of the element type; what the templates rely
  on is the \<open>codec\<close> contract, so their lemmas are proved in that locale and hold for every
  instance. All instances in the source have a \<^verbatim>\<open>std::uint16_t\<close> length.
\<close>

section \<open>Lists\<close>

definition SmallSizeBoundary :: nat where
  "SmallSizeBoundary = 255"

fun encode_each :: "'a encoder \<Rightarrow> 'a list encoder" where
  "encode_each enc [] data = Inr data"
| "encode_each enc (x # xs) data = rbind (enc x data) (encode_each enc xs)"

definition list_encode :: "'a encoder \<Rightarrow> 'a list encoder" where
  "list_encode enc value data =
     (if length value > length_max TYPE(16) False then Inl EncodeException
      else rbind (int_encode (word_of_nat (length value) :: u16) data) (encode_each enc value))"

text \<open>
  The small case resizes the vector first and decodes into each of its elements; the large case
  keeps the first \<open>SmallSizeBoundary\<close> elements and appends the others one by one.
\<close>

fun vector_resize :: "'a \<Rightarrow> nat \<Rightarrow> 'a list \<Rightarrow> 'a list" where
  "vector_resize dflt n xs = take n xs @ replicate (n - length xs) dflt"

fun decode_elements :: "'a decoder \<Rightarrow> 'a list \<Rightarrow> 'a list decoder" where
  "decode_elements dec [] bs = Inr ([], bs)"
| "decode_elements dec (old # olds) bs =
     rbind (dec bs) (\<lambda>(x, bs).
       rbind (decode_elements dec olds bs) (\<lambda>(xs, bs). Inr (x # xs, bs)))"

function decode_grow :: "'a decoder \<Rightarrow> nat \<Rightarrow> nat \<Rightarrow> 'a list \<Rightarrow> 'a list decoder" where
  "decode_grow dec i sz vec bs =
     (if i < sz
      then rbind (dec bs) (\<lambda>(x, bs).
        decode_grow dec (Suc i) sz (if i < length vec then vec[i := x] else vec @ [x]) bs)
      else Inr (vec, bs))"
  by pat_completeness auto
termination
  by (relation "measure (\<lambda>(dec, i, sz, vec, bs). sz - i)") auto

declare decode_grow.simps [simp del]

definition list_decode :: "'a decoder \<Rightarrow> 'a \<Rightarrow> 'a list \<Rightarrow> 'a list decoder" where
  "list_decode dec dflt old bs =
     rbind (int_decode bs) (\<lambda>(sz :: u16, bs).
       if unat sz \<le> SmallSizeBoundary
       then decode_elements dec (vector_resize dflt (unat sz) old) bs
       else decode_grow dec 0 (unat sz) (vector_resize dflt SmallSizeBoundary old) bs)"

text \<open>The reference decoder: as many elements as the length says, in order.\<close>

fun decode_n :: "'a decoder \<Rightarrow> nat \<Rightarrow> 'a list decoder" where
  "decode_n dec 0 bs = Inr ([], bs)"
| "decode_n dec (Suc n) bs =
     rbind (dec bs) (\<lambda>(x, bs). rbind (decode_n dec n bs) (\<lambda>(xs, bs). Inr (x # xs, bs)))"

definition list_decode_ref :: "'a decoder \<Rightarrow> 'a list decoder" where
  "list_decode_ref dec bs =
     rbind (int_decode bs) (\<lambda>(sz :: u16, bs). decode_n dec (unat sz) bs)"

lemma decode_elements_n: "decode_elements dec olds bs = decode_n dec (length olds) bs"
  by (induction olds arbitrary: bs) auto

lemma decode_grow_n:
  "i \<le> sz \<Longrightarrow> length vec \<le> sz \<Longrightarrow> i \<le> length vec \<Longrightarrow>
   decode_grow dec i sz vec bs =
     rbind (decode_n dec (sz - i) bs) (\<lambda>(xs, bs). Inr (take i vec @ xs, bs))"
proof (induction dec i sz vec bs rule: decode_grow.induct)
  case (1 dec i sz vec bs)
  show ?case
  proof (cases "i < sz")
    case False
    with "1.prems" show ?thesis by (subst decode_grow.simps) simp
  next
    case True
    let ?vec = "\<lambda>x. if i < length vec then vec[i := x] else vec @ [x]"
    have take: "take (Suc i) (?vec x) = take i vec @ [x]" for x
      using "1.prems" by (auto simp: take_Suc_conv_app_nth)
    have sz: "sz - i = Suc (sz - Suc i)" using True by simp
    show ?thesis
    proof (cases "dec bs")
      case (Inl e)
      then show ?thesis using True by (subst decode_grow.simps) (simp add: sz)
    next
      case (Inr p)
      obtain x bs' where p: "p = (x, bs')" by (cases p)
      have "decode_grow dec (Suc i) sz (?vec x) bs' =
        rbind (decode_n dec (sz - Suc i) bs') (\<lambda>(xs, bs). Inr (take (Suc i) (?vec x) @ xs, bs))"
        using "1.IH" [of "(x, bs')" x bs'] "1.prems" True Inr p by simp
      then have "decode_grow dec i sz vec bs =
        rbind (decode_n dec (sz - Suc i) bs') (\<lambda>(xs, bs). Inr (take i vec @ x # xs, bs))"
        using True Inr p by (subst decode_grow.simps) (simp add: take)
      then show ?thesis
        by (cases "decode_n dec (sz - Suc i) bs'") (auto simp: sz Inr p)
    qed
  qed
qed

lemma length_vector_resize [simp]: "length (vector_resize dflt n xs) = n"
  by simp

declare vector_resize.simps [simp del]

text \<open>Both branches decode the same list, whatever the vector held before.\<close>

lemma list_decode_eq_ref: "list_decode dec dflt old bs = list_decode_ref dec bs"
  by (auto simp: list_decode_def list_decode_ref_def decode_elements_n decode_grow_n
      SmallSizeBoundary_def rbind_def split: sum.splits)

subsection \<open>Lemmas for every element type\<close>

definition list_ok :: "('a \<Rightarrow> bool) \<Rightarrow> 'a list \<Rightarrow> bool" where
  "list_ok ok xs \<longleftrightarrow> length xs \<le> length_max TYPE(16) False \<and> list_all ok xs"

definition list_wire :: "('a \<Rightarrow> bytes) \<Rightarrow> 'a list \<Rightarrow> bytes" where
  "list_wire wire xs = int_wire (word_of_nat (length xs) :: u16) @ concat (map wire xs)"

context codec
begin

lemma encode_each_wire:
  "list_all ok xs \<Longrightarrow> encode_each enc xs data = Inr (data @ concat (map wire xs))"
  by (induction xs arbitrary: data) (auto simp: enc_wire)

lemma decode_n_wire:
  "list_all ok xs \<Longrightarrow> decode_n dec (length xs) (concat (map wire xs) @ rest) = Inr (xs, rest)"
  by (induction xs) (auto simp: dec_wire)

lemma list_codec: "codec (list_encode enc) (list_decode dec dflt old) (list_ok ok) (list_wire wire)"
proof
  fix xs data assume "list_ok ok xs"
  then show "list_encode enc xs data = Inr (data @ list_wire wire xs)"
    by (simp add: list_ok_def list_encode_def list_wire_def codec_simps encode_each_wire)
next
  fix xs rest assume ok: "list_ok ok xs"
  then have len: "unat (word_of_nat (length xs) :: u16) = length xs"
    using unat_length_word [where 'l=16, of _ False] by (simp add: list_ok_def)
  from ok have "decode_n dec (length xs) (concat (map wire xs) @ rest) = Inr (xs, rest)"
    by (simp add: list_ok_def decode_n_wire)
  then show "list_decode dec dflt old (list_wire wire xs @ rest) = Inr (xs, rest)"
    by (simp add: list_decode_eq_ref list_decode_ref_def list_wire_def codec_simps len)
qed

end

context exact_codec
begin

lemma decode_n_exact:
  "decode_n dec n bs = Inr (xs, rest) \<Longrightarrow>
   length xs = n \<and> list_all ok xs \<and> bs = concat (map wire xs) @ rest"
proof (induction n arbitrary: bs xs rest)
  case 0
  then show ?case by simp
next
  case (Suc n)
  then show ?case by (fastforce simp: rbind_eq_Inr dest: dec_exact)
qed

lemma list_exact_codec:
  "exact_codec (list_encode enc) (list_decode dec dflt old) (list_ok ok) (list_wire wire)"
proof (rule exact_codec.intro [OF list_codec], unfold_locales)
  fix bs xs rest assume "list_decode dec dflt old bs = Inr (xs, rest)"
  then obtain sz :: u16 and bs' where sz: "int_decode bs = Inr (sz, bs')"
    and xs: "decode_n dec (unat sz) bs' = Inr (xs, rest)"
    by (auto simp: list_decode_eq_ref list_decode_ref_def rbind_eq_Inr)
  from xs have len: "length xs = unat sz" and ok: "list_all ok xs"
    and bs': "bs' = concat (map wire xs) @ rest"
    by (auto dest: decode_n_exact)
  have "bs = int_wire sz @ bs'" by (rule int_decode_exact [OF _ sz]) simp
  then show "list_ok ok xs \<and> bs = list_wire wire xs @ rest"
    using len ok bs' unat_bound [of sz]
    by (simp add: list_ok_def list_wire_def length_max_def)
qed

end

section \<open>Maps\<close>

text \<open>
  An \<^verbatim>\<open>unordered_map\<close> is the list of its pairs in iteration order, which the
  standard library leaves open: every theorem holds for each order. Keys are compared by their
  \<^verbatim>\<open>get()\<close>, the parameter \<open>key\<close>; \<^verbatim>\<open>emplace\<close> keeps an entry that
  is already there.
\<close>

definition map_keys :: "('k \<Rightarrow> 'id) \<Rightarrow> ('k \<times> 'v) list \<Rightarrow> 'id list" where
  "map_keys key m = map (key \<circ> fst) m"

definition map_emplace :: "('k \<Rightarrow> 'id) \<Rightarrow> 'k \<Rightarrow> 'v \<Rightarrow> ('k \<times> 'v) list \<Rightarrow> ('k \<times> 'v) list" where
  "map_emplace key k v m = (if key k \<in> set (map_keys key m) then m else m @ [(k, v)])"

definition map_erase :: "('k \<Rightarrow> 'id) \<Rightarrow> 'id \<Rightarrow> ('k \<times> 'v) list \<Rightarrow> ('k \<times> 'v) list" where
  "map_erase key i m = filter (\<lambda>p. key (fst p) \<noteq> i) m"

definition map_find :: "('k \<Rightarrow> 'id) \<Rightarrow> 'id \<Rightarrow> ('k \<times> 'v) list \<Rightarrow> 'v option" where
  "map_find key i m = map_of (map (\<lambda>(k, v). (key k, v)) m) i"

fun pair_encode :: "'k encoder \<Rightarrow> 'v encoder \<Rightarrow> ('k \<times> 'v) encoder" where
  "pair_encode encK encV (k, v) data = rbind (encK k data) (encV v)"

definition map_encode :: "'k encoder \<Rightarrow> 'v encoder \<Rightarrow> ('k \<times> 'v) list encoder" where
  "map_encode encK encV value data =
     (if length value > length_max TYPE(16) False then Inl EncodeException
      else rbind (int_encode (word_of_nat (length value) :: u16) data)
        (encode_each (pair_encode encK encV) value))"

fun decode_entries ::
  "('k \<Rightarrow> 'id) \<Rightarrow> 'k decoder \<Rightarrow> 'v decoder \<Rightarrow> nat \<Rightarrow> ('k \<times> 'v) list \<Rightarrow> ('k \<times> 'v) list decoder" where
  "decode_entries key decK decV 0 m bs = Inr (m, bs)"
| "decode_entries key decK decV (Suc n) m bs =
     rbind (decK bs) (\<lambda>(k, bs). rbind (decV bs) (\<lambda>(v, bs).
       decode_entries key decK decV n (map_emplace key k v m) bs))"

definition map_decode ::
  "('k \<Rightarrow> 'id) \<Rightarrow> 'k decoder \<Rightarrow> 'v decoder \<Rightarrow> ('k \<times> 'v) list decoder" where
  "map_decode key decK decV bs =
     rbind (int_decode bs) (\<lambda>(sz :: u16, bs). decode_entries key decK decV (unat sz) [] bs)"

definition map_ok :: "('k \<Rightarrow> 'id) \<Rightarrow> ('k \<Rightarrow> bool) \<Rightarrow> ('v \<Rightarrow> bool) \<Rightarrow> ('k \<times> 'v) list \<Rightarrow> bool" where
  "map_ok key okK okV m \<longleftrightarrow>
     length m \<le> length_max TYPE(16) False \<and> distinct (map_keys key m) \<and>
     list_all (\<lambda>(k, v). okK k \<and> okV v) m"

definition map_wire :: "('k \<Rightarrow> bytes) \<Rightarrow> ('v \<Rightarrow> bytes) \<Rightarrow> ('k \<times> 'v) list \<Rightarrow> bytes" where
  "map_wire wireK wireV m =
     int_wire (word_of_nat (length m) :: u16) @ concat (map (\<lambda>(k, v). wireK k @ wireV v) m)"

lemma map_emplace_keys:
  "set (map_keys key (map_emplace key k v m)) = insert (key k) (set (map_keys key m))"
  by (auto simp: map_emplace_def map_keys_def)

lemma map_emplace_distinct:
  "distinct (map_keys key m) \<Longrightarrow> distinct (map_keys key (map_emplace key k v m))"
  by (auto simp: map_emplace_def map_keys_def)

lemma decode_entries_distinct:
  "decode_entries key decK decV n m bs = Inr (m', rest) \<Longrightarrow> distinct (map_keys key m) \<Longrightarrow>
   distinct (map_keys key m')"
proof (induction n arbitrary: m bs)
  case 0
  then show ?case by simp
next
  case (Suc n)
  then show ?case by (fastforce simp: rbind_eq_Inr intro: map_emplace_distinct)
qed

lemma map_decode_distinct:
  "map_decode key decK decV bs = Inr (m, rest) \<Longrightarrow> distinct (map_keys key m)"
  by (auto simp: map_decode_def rbind_eq_Inr map_keys_def dest!: decode_entries_distinct)

locale map_codec = k: codec encK decK okK wireK + v: codec encV decV okV wireV
  for encK :: "'k encoder" and decK and okK and wireK
    and encV :: "'v encoder" and decV and okV and wireV +
  fixes key :: "'k \<Rightarrow> 'id"
begin

lemma encode_pairs_wire:
  "list_all (\<lambda>(k, v). okK k \<and> okV v) m \<Longrightarrow>
   encode_each (pair_encode encK encV) m data = Inr (data @ concat (map (\<lambda>(k, v). wireK k @ wireV v) m))"
  by (induction m arbitrary: data) (auto simp: k.enc_wire v.enc_wire)

lemma decode_entries_wire:
  "list_all (\<lambda>(k, v). okK k \<and> okV v) m \<Longrightarrow> distinct (map_keys key (acc @ m)) \<Longrightarrow>
   decode_entries key decK decV (length m) acc (concat (map (\<lambda>(k, v). wireK k @ wireV v) m) @ rest)
     = Inr (acc @ m, rest)"
proof (induction m arbitrary: acc)
  case Nil
  then show ?case by simp
next
  case (Cons p m)
  obtain k v where p: "p = (k, v)" by (cases p)
  with Cons.prems have "map_emplace key k v acc = acc @ [(k, v)]"
    by (auto simp: map_emplace_def map_keys_def)
  with Cons show ?case by (simp add: p k.dec_wire v.dec_wire)
qed

lemma map_codec: "codec (map_encode encK encV) (map_decode key decK decV) (map_ok key okK okV) (map_wire wireK wireV)"
proof
  fix m data assume "map_ok key okK okV m"
  then show "map_encode encK encV m data = Inr (data @ map_wire wireK wireV m)"
    by (simp add: map_ok_def map_encode_def map_wire_def codec_simps encode_pairs_wire)
next
  fix m rest assume ok: "map_ok key okK okV m"
  then have len: "unat (word_of_nat (length m) :: u16) = length m"
    using unat_length_word [where 'l=16, of _ False] by (simp add: map_ok_def)
  with ok show "map_decode key decK decV (map_wire wireK wireV m @ rest) = Inr (m, rest)"
    using decode_entries_wire [of m "[]" rest]
    by (simp add: map_decode_def map_wire_def codec_simps map_ok_def)
qed

end

section \<open>The instances\<close>

definition string_list_encode :: "sized_string list encoder" where
  "string_list_encode = list_encode string_encode"
definition string_list_decode :: "sized_string list \<Rightarrow> sized_string list decoder" where
  "string_list_decode = list_decode string_decode (ss_init StateNormal)"

definition value_list_encode :: "sized_string list encoder" where
  "value_list_encode = list_encode value_encode"
definition value_list_decode :: "sized_string list \<Rightarrow> sized_string list decoder" where
  "value_list_decode = list_decode value_decode (ss_init StateNotSet)"

definition string_map_encode :: "(sized_string \<times> sized_string) list encoder" where
  "string_map_encode = map_encode string_encode string_encode"
definition string_map_decode :: "(sized_string \<times> sized_string) list decoder" where
  "string_map_decode = map_decode ss_value string_decode string_decode"

definition value_map_encode :: "(sized_string \<times> sized_string) list encoder" where
  "value_map_encode = map_encode string_encode value_encode"
definition value_map_decode :: "(sized_string \<times> sized_string) list decoder" where
  "value_map_decode = map_decode ss_value string_decode value_decode"

definition bytes_map_encode :: "(sized_string \<times> sized_string) list encoder" where
  "bytes_map_encode = map_encode string_encode bytes_encode"
definition bytes_map_decode :: "(sized_string \<times> sized_string) list decoder" where
  "bytes_map_decode = map_decode ss_value string_decode bytes_decode"

definition string_multimap_encode :: "(sized_string \<times> sized_string list) list encoder" where
  "string_multimap_encode = map_encode string_encode string_list_encode"
definition string_multimap_decode :: "(sized_string \<times> sized_string list) list decoder" where
  "string_multimap_decode = map_decode ss_value string_decode (string_list_decode [])"

abbreviation string_list_wire :: "sized_string list \<Rightarrow> bytes" where
  "string_list_wire \<equiv> list_wire short_wire"

interpretation string_list_codec:
  exact_codec string_list_encode "string_list_decode []" "list_ok string_ok" string_list_wire
  unfolding string_list_encode_def string_list_decode_def by (rule string_codec.list_exact_codec)

interpretation value_list_codec:
  exact_codec value_list_encode "value_list_decode []" "list_ok value_ok" "list_wire long_wire"
  unfolding value_list_encode_def value_list_decode_def by (rule value_codec.list_exact_codec)

lemma string_list_decode_reused: "string_list_decode old = string_list_decode []"
  by (simp add: string_list_decode_def list_decode_eq_ref fun_eq_iff)

lemma value_list_decode_reused: "value_list_decode old = value_list_decode []"
  by (simp add: value_list_decode_def list_decode_eq_ref fun_eq_iff)

interpretation string_map_ty: map_codec string_encode string_decode string_ok short_wire
  string_encode string_decode string_ok short_wire ss_value
  by unfold_locales

interpretation value_map_ty: map_codec string_encode string_decode string_ok short_wire
  value_encode value_decode value_ok long_wire ss_value
  by unfold_locales

interpretation bytes_map_ty: map_codec string_encode string_decode string_ok short_wire
  bytes_encode bytes_decode bytes_ok long_wire ss_value
  by unfold_locales

interpretation string_multimap_ty: map_codec string_encode string_decode string_ok short_wire
  string_list_encode "string_list_decode []" "list_ok string_ok" string_list_wire ss_value
  by unfold_locales

interpretation string_map_codec: codec string_map_encode string_map_decode
  "map_ok ss_value string_ok string_ok" "map_wire short_wire short_wire"
  unfolding string_map_encode_def string_map_decode_def by (rule string_map_ty.map_codec)

interpretation value_map_codec: codec value_map_encode value_map_decode
  "map_ok ss_value string_ok value_ok" "map_wire short_wire long_wire"
  unfolding value_map_encode_def value_map_decode_def by (rule value_map_ty.map_codec)

interpretation bytes_map_codec: codec bytes_map_encode bytes_map_decode
  "map_ok ss_value string_ok bytes_ok" "map_wire short_wire long_wire"
  unfolding bytes_map_encode_def bytes_map_decode_def by (rule bytes_map_ty.map_codec)

interpretation string_multimap_codec: codec string_multimap_encode string_multimap_decode
  "map_ok ss_value string_ok (list_ok string_ok)" "map_wire short_wire string_list_wire"
  unfolding string_multimap_encode_def string_multimap_decode_def
  by (rule string_multimap_ty.map_codec)

section \<open>The properties of containers\<close>

text \<open>
  Decoding a list into a vector that was used before, which reuses its elements and grows by
  appending in the loop, gives what a fresh element-by-element decoder gives: nothing of the old
  content is left over, on success or on error.
\<close>

lemma list_decode_equivalence:
  "value_list_decode old bs = list_decode_ref value_decode bs \<and>
   string_list_decode old bs = list_decode_ref string_decode bs"
  by (simp add: value_list_decode_def string_list_decode_def list_decode_eq_ref)

end
