(* ===== verification/Message_Header.thy ===== *)
theory Message_Header
  imports Protocol_Container Enums
begin

text \<open>
  \<^verbatim>\<open>ConnectionInfo\<close> and \<^verbatim>\<open>MessageHeader\<close>: the nine byte header of
  every frame. The header is written before the body, with whatever length the object holds, and
  its last four bytes are overwritten once the body is known. Sizes in memory are natural
  numbers; the fields of the header keep their widths.
\<close>

section \<open>Connection information\<close>

record connection_info =
  ci_version :: u64
  ci_headerSize :: nat
  ci_maximumMessageBodySize :: nat

definition ci_useVersion :: "u64 \<Rightarrow> connection_info \<Rightarrow> connection_info result" where
  "ci_useVersion version info =
     (if version = 4
      then Inr (info\<lparr>ci_version := version, ci_headerSize := 9, ci_maximumMessageBodySize := 256 * 1024 * 1024\<rparr>)
      else Inl NotImplementedException)"

definition ci_init :: "connection_info result" where
  "ci_init = ci_useVersion 4 \<lparr>ci_version = 0, ci_headerSize = 0, ci_maximumMessageBodySize = 0\<rparr>"

definition ci_v4 :: connection_info where
  "ci_v4 = \<lparr>ci_version = 4, ci_headerSize = 9, ci_maximumMessageBodySize = 268435456\<rparr>"

lemma ci_init_v4: "ci_init = Inr ci_v4"
  by (simp add: ci_init_def ci_useVersion_def ci_v4_def)

lemma ci_v4_simps [simp]:
  "ci_version ci_v4 = 4" "ci_headerSize ci_v4 = 9" "ci_maximumMessageBodySize ci_v4 = 268435456"
  by (simp_all add: ci_v4_def)

section \<open>The header\<close>

record message_header =
  mh_flags :: u8
  mh_streamId :: u16
  mh_opCode :: u8
  mh_direction :: u32
  mh_bodyLength :: u32

definition mh_init :: message_header where
  "mh_init = \<lparr>mh_flags = 0, mh_streamId = 0, mh_opCode = 0, mh_direction = 0, mh_bodyLength = 0\<rparr>"

definition mh_getFlags :: "message_header \<Rightarrow> u32" where
  "mh_getFlags h = ucast (mh_flags h)"

definition mh_getStreamId :: "message_header \<Rightarrow> u64" where
  "mh_getStreamId h = ucast (mh_streamId h)"

definition mh_getOpCode :: "message_header \<Rightarrow> u32" where
  "mh_getOpCode h = ucast (mh_opCode h)"

definition mh_getDirection :: "message_header \<Rightarrow> u32" where
  "mh_getDirection h = mh_direction h"

definition mh_getBodyLength :: "message_header \<Rightarrow> nat result" where
  "mh_getBodyLength h = (if sint (mh_bodyLength h) < 0 then Inl LogicException else Inr (unat (mh_bodyLength h)))"

definition mh_setFlags :: "u32 \<Rightarrow> message_header \<Rightarrow> message_header" where
  "mh_setFlags flags h = h\<lparr>mh_flags := ucast flags\<rparr>"

definition mh_setStreamId :: "u64 \<Rightarrow> message_header \<Rightarrow> message_header result" where
  "mh_setStreamId streamId h =
     (let h = h\<lparr>mh_streamId := ucast streamId\<rparr> in
      if ucast (mh_streamId h) \<noteq> streamId then Inl LogicException else Inr h)"

definition mh_setOpCode :: "u32 \<Rightarrow> u32 \<Rightarrow> message_header \<Rightarrow> message_header" where
  "mh_setOpCode opCode direction h = h\<lparr>mh_opCode := ucast opCode, mh_direction := direction\<rparr>"

definition mh_encodeHeaderPre :: "connection_info \<Rightarrow> message_header \<Rightarrow> bytes \<Rightarrow> bytes result" where
  "mh_encodeHeaderPre info h data =
     (if data \<noteq> [] then Inl LogicException
      else
        let version = ucast (ci_version info OR ucast (mh_direction h)) :: u8 in
        rbind (int_encode version data) (\<lambda>data.
        rbind (int_encode (mh_flags h) data) (\<lambda>data.
        rbind (int_encode (mh_streamId h) data) (\<lambda>data.
        rbind (int_encode (mh_opCode h) data) (\<lambda>data.
        int_encode (mh_bodyLength h) data)))))"

text \<open>Overwrite \<open>length bs\<close> bytes of \<open>data\<close> from an index on; beyond the end it is undefined.\<close>

definition memcpy_at :: "nat \<Rightarrow> bytes \<Rightarrow> bytes \<Rightarrow> bytes result" where
  "memcpy_at i bs data =
     (if i + length bs \<le> length data then Inr (take i data @ bs @ drop (i + length bs) data)
      else Inl UndefinedBehaviour)"

definition mh_encodeHeaderPost :: "connection_info \<Rightarrow> bytes \<Rightarrow> bytes result" where
  "mh_encodeHeaderPost info data =
     (if length data < ci_headerSize info then Inl LogicException
      else
        let bodyLength = word_of_nat (length data - ci_headerSize info) :: u32 in
        rbind (int_encode bodyLength []) (\<lambda>bodyLengthData.
          if ci_headerSize info < length bodyLengthData then Inl UndefinedBehaviour
          else memcpy_at (ci_headerSize info - length bodyLengthData) bodyLengthData data))"

definition mh_decodeHeader :: "message_header \<Rightarrow> bytes \<Rightarrow> message_header result" where
  "mh_decodeHeader h buffer =
     rbind (int_decode buffer) (\<lambda>(version :: u8, bs).
     rbind (int_decode bs) (\<lambda>(flags :: u8, bs).
     rbind (int_decode bs) (\<lambda>(streamId :: u16, bs).
     rbind (int_decode bs) (\<lambda>(opCode :: u8, bs).
     rbind (int_decode bs) (\<lambda>(bodyLength :: u32, bs).
       Inr \<lparr>mh_flags = flags, mh_streamId = streamId, mh_opCode = opCode,
            mh_direction = ucast version AND MD_Mask, mh_bodyLength = bodyLength\<rparr>)))))"

section \<open>Frames\<close>

definition header_wire :: "connection_info \<Rightarrow> message_header \<Rightarrow> u32 \<Rightarrow> bytes" where
  "header_wire info h len =
     int_wire (ucast (ci_version info OR ucast (mh_direction h)) :: u8) @ int_wire (mh_flags h) @
     int_wire (mh_streamId h) @ int_wire (mh_opCode h) @ int_wire len"

lemma length_header_wire [simp]: "length (header_wire info h len) = 9"
  by (simp add: header_wire_def)

lemma encodeHeaderPre_wire: "mh_encodeHeaderPre info h [] = Inr (header_wire info h (mh_bodyLength h))"
  by (simp add: mh_encodeHeaderPre_def header_wire_def codec_simps Let_def)

lemma take_header_wire: "take 5 (header_wire info h len @ bs) @ int_wire (n :: u32) = header_wire info h n"
  by (simp add: header_wire_def)

lemma encodeHeaderPost_wire:
  "mh_encodeHeaderPost ci_v4 (header_wire info h len @ body) =
     Inr (header_wire info h (word_of_nat (length body)) @ body)"
proof -
  have "take 5 (header_wire info h len) @ int_wire (word_of_nat (length body) :: u32) =
      header_wire info h (word_of_nat (length body))"
    using take_header_wire [of info h len "[]"] by simp
  then show ?thesis
    by (simp add: mh_encodeHeaderPost_def memcpy_at_def codec_simps Let_def
        append_assoc [symmetric] del: append_assoc)
qed

lemma decodeHeader_wire:
  assumes "ci_version info = 4" "mh_direction h = MD_Request \<or> mh_direction h = MD_Response"
  shows "mh_decodeHeader h0 (header_wire info h len) = Inr (h\<lparr>mh_bodyLength := len\<rparr>)"
proof -
  have "ucast (ucast (ci_version info OR ucast (mh_direction h)) :: u8) AND MD_Mask = mh_direction h"
    using assms by (auto simp: MD_defs)
  then show ?thesis
    by (simp add: mh_decodeHeader_def header_wire_def codec_simps)
      (simp add: byte_codec.dec_wire [of _ "[]", simplified] int_codec.dec_wire [of _ "[]", simplified])
qed

lemma mh_getBodyLength_small:
  "n < 2 ^ 31 \<Longrightarrow> mh_getBodyLength (h\<lparr>mh_bodyLength := word_of_nat n\<rparr>) = Inr n"
  by (simp add: mh_getBodyLength_def sint_u32_of_nat unat_of_nat take_bit_nat_eq_self)

lemma mh_setStreamId_ok:
  "mh_setStreamId s h = Inr h' \<longleftrightarrow> unat s < 65536 \<and> h' = h\<lparr>mh_streamId := ucast s\<rparr>"
proof -
  have "ucast (ucast s :: u16) = s \<longleftrightarrow> unat s < 65536"
    using unat_bound [of "ucast s :: u16"]
    by (auto simp: word_unat_eq_iff unsigned_ucast_eq unsigned_take_bit_eq take_bit_nat_eq_self_iff)
  then show ?thesis by (auto simp: mh_setStreamId_def Let_def)
qed

end
