(* ===== verification/Column_Option.thy ===== *)
theory Column_Option
  imports Protocol_Container Enums
begin

text \<open>
  \<^verbatim>\<open>ProtocolColumnOption\<close>: a column type with its encoded payload, and the
  payload classes. \<^verbatim>\<open>ProtocolColumnOption::decode\<close> decodes into payload objects
  that are \<^verbatim>\<open>static thread_local\<close>, one per payload class, so a recursive call
  works on the same object as the call that is still running. The model therefore keeps these
  objects in an explicit store and passes the \<^verbatim>\<open>this\<close> pointer as a reference
  into it.
\<close>

section \<open>Column types and options\<close>

record column_option =
  co_type :: u16
  co_payload :: bytes

definition co_init :: column_option where
  "co_init = \<lparr>co_type = CT_Custom, co_payload = []\<rparr>"

definition co_set :: "u16 \<Rightarrow> column_option \<Rightarrow> column_option" where
  "co_set ty opt = opt\<lparr>co_type := ty, co_payload := []\<rparr>"

definition co_reset :: "column_option \<Rightarrow> column_option" where
  "co_reset opt = co_set CT_Custom opt"

definition requires_payload :: "u16 \<Rightarrow> bool" where
  "requires_payload ty \<longleftrightarrow>
     ty = CT_Custom \<or> ty = CT_List \<or> ty = CT_Map \<or> ty = CT_Set \<or> ty = CT_UDT \<or> ty = CT_Tuple"

definition column_option_encode :: "column_option encoder" where
  "column_option_encode opt data =
     (if requires_payload (co_type opt) \<and> co_payload opt = [] then Inl EncodeException
      else rbind (int_encode (co_type opt) data) (\<lambda>data. Inr (data @ co_payload opt)))"

section \<open>Encoding payloads\<close>

definition custom_payload_encode :: "sized_string encoder" where
  "custom_payload_encode = string_encode"

definition list_payload_encode :: "column_option encoder" where
  "list_payload_encode = column_option_encode"

definition map_payload_encode :: "(column_option \<times> column_option) encoder" where
  "map_payload_encode = pair_encode column_option_encode column_option_encode"

definition set_payload_encode :: "column_option encoder" where
  "set_payload_encode = column_option_encode"

record udt_payload =
  udt_keySpace :: sized_string
  udt_udtName :: sized_string
  udt_fields :: "(sized_string \<times> column_option) list"

definition udt_payload_encode :: "udt_payload encoder" where
  "udt_payload_encode p data =
     (let fieldsLength = word_of_nat (length (udt_fields p)) :: u16 in
      if unat fieldsLength \<noteq> length (udt_fields p) then Inl LogicException
      else rbind (string_encode (udt_keySpace p) data) (\<lambda>data.
        rbind (string_encode (udt_udtName p) data) (\<lambda>data.
        rbind (int_encode fieldsLength data) (\<lambda>data.
        encode_each (pair_encode string_encode column_option_encode) (udt_fields p) data))))"

definition tuple_payload_encode :: "column_option list encoder" where
  "tuple_payload_encode types data =
     (let fieldsLength = word_of_nat (length types) :: u16 in
      if unat fieldsLength \<noteq> length types then Inl LogicException
      else rbind (int_encode fieldsLength data) (encode_each column_option_encode types))"

section \<open>The payload objects shared by all calls of decode\<close>

text \<open>
  References to column options: the object \<^verbatim>\<open>decode\<close> was called on from outside,
  the members of the static list, map and set payloads, and the elements of the vectors of the
  static UDT and tuple payloads. Clearing a vector ends the lifetime of its elements: a
  reference to an element carries the number of the clearing it was made after.
\<close>

datatype option_ref =
    RExt
  | RListElement
  | RMapKey
  | RMapValue
  | RSetElement
  | RUdtField nat nat
  | RTupleType nat nat

record option_store =
  os_cell :: "option_ref \<Rightarrow> column_option"
  os_udt_keySpace :: sized_string
  os_udt_udtName :: sized_string
  os_udt_names :: "sized_string list"
  os_udt_epoch :: nat
  os_tuple_size :: nat
  os_tuple_epoch :: nat

definition os_init :: option_store where
  "os_init = \<lparr>os_cell = (\<lambda>_. co_init),
     os_udt_keySpace = ss_init StateNormal, os_udt_udtName = ss_init StateNormal,
     os_udt_names = [], os_udt_epoch = 0, os_tuple_size = 0, os_tuple_epoch = 0\<rparr>"

definition co_valid :: "option_ref \<Rightarrow> option_store \<Rightarrow> bool" where
  "co_valid r st =
     (case r of
        RUdtField epoch i \<Rightarrow> epoch = os_udt_epoch st \<and> i < length (os_udt_names st)
      | RTupleType epoch i \<Rightarrow> epoch = os_tuple_epoch st \<and> i < os_tuple_size st
      | _ \<Rightarrow> True)"

definition co_get :: "option_ref \<Rightarrow> option_store \<Rightarrow> column_option result" where
  "co_get r st = (if co_valid r st then Inr (os_cell st r) else Inl UndefinedBehaviour)"

definition co_put :: "option_ref \<Rightarrow> column_option \<Rightarrow> option_store \<Rightarrow> option_store result" where
  "co_put r opt st =
     (if co_valid r st then Inr (st\<lparr>os_cell := (os_cell st)(r := opt)\<rparr>) else Inl UndefinedBehaviour)"

text \<open>Run an encoder on the \<^verbatim>\<open>payload_\<close> of the option at a reference.\<close>

definition co_write :: "option_ref \<Rightarrow> (bytes \<Rightarrow> bytes result) \<Rightarrow> option_store \<Rightarrow> option_store result" where
  "co_write dst f st =
     rbind (co_get dst st) (\<lambda>d. rbind (f (co_payload d)) (\<lambda>p. co_put dst (d\<lparr>co_payload := p\<rparr>) st))"

text \<open>
  \<^verbatim>\<open>src.encode(dst.payload_)\<close>. The payload of \<open>src\<close> is read after its type has
  been appended, which matters when \<open>src\<close> and \<open>dst\<close> are the same object.
\<close>

definition co_encode_at :: "option_ref \<Rightarrow> option_ref \<Rightarrow> option_store \<Rightarrow> option_store result" where
  "co_encode_at src dst st =
     rbind (co_get src st) (\<lambda>s.
       if requires_payload (co_type s) \<and> co_payload s = [] then Inl EncodeException
       else rbind (co_write dst (int_encode (co_type s)) st) (\<lambda>st.
         rbind (co_get src st) (\<lambda>s. co_write dst (\<lambda>data. Inr (data @ co_payload s)) st)))"

fun co_encode_fields :: "nat \<Rightarrow> sized_string list \<Rightarrow> option_ref \<Rightarrow> option_store \<Rightarrow> option_store result" where
  "co_encode_fields i [] dst st = Inr st"
| "co_encode_fields i (name # names) dst st =
     rbind (co_write dst (string_encode name) st) (\<lambda>st.
       rbind (co_encode_at (RUdtField (os_udt_epoch st) i) dst st) (\<lambda>st.
         co_encode_fields (Suc i) names dst st))"

definition co_udt_encode_at :: "option_ref \<Rightarrow> option_store \<Rightarrow> option_store result" where
  "co_udt_encode_at dst st =
     (let fieldsLength = word_of_nat (length (os_udt_names st)) :: u16 in
      if unat fieldsLength \<noteq> length (os_udt_names st) then Inl LogicException
      else rbind (co_write dst (string_encode (os_udt_keySpace st)) st) (\<lambda>st.
        rbind (co_write dst (string_encode (os_udt_udtName st)) st) (\<lambda>st.
        rbind (co_write dst (int_encode fieldsLength) st) (\<lambda>st.
        co_encode_fields 0 (os_udt_names st) dst st))))"

fun co_encode_types :: "nat \<Rightarrow> nat \<Rightarrow> option_ref \<Rightarrow> option_store \<Rightarrow> option_store result" where
  "co_encode_types i 0 dst st = Inr st"
| "co_encode_types i (Suc n) dst st =
     rbind (co_encode_at (RTupleType (os_tuple_epoch st) i) dst st) (\<lambda>st.
       co_encode_types (Suc i) n dst st)"

definition co_tuple_encode_at :: "option_ref \<Rightarrow> option_store \<Rightarrow> option_store result" where
  "co_tuple_encode_at dst st =
     (let fieldsLength = word_of_nat (os_tuple_size st) :: u16 in
      if unat fieldsLength \<noteq> os_tuple_size st then Inl LogicException
      else rbind (co_write dst (int_encode fieldsLength) st) (\<lambda>st.
        co_encode_types 0 (os_tuple_size st) dst st))"

section \<open>Decoding\<close>

type_synonym option_decoder = "option_ref \<Rightarrow> option_store \<Rightarrow> bytes \<Rightarrow> (option_store \<times> bytes) result"

definition udt_clear :: "option_store \<Rightarrow> option_store" where
  "udt_clear st = st\<lparr>os_udt_names := [], os_udt_epoch := Suc (os_udt_epoch st)\<rparr>"

definition udt_emplace_back :: "sized_string \<Rightarrow> option_store \<Rightarrow> option_store" where
  "udt_emplace_back name st =
     st\<lparr>os_cell := (os_cell st)(RUdtField (os_udt_epoch st) (length (os_udt_names st)) := co_init),
        os_udt_names := os_udt_names st @ [name]\<rparr>"

definition tuple_clear :: "option_store \<Rightarrow> option_store" where
  "tuple_clear st = st\<lparr>os_tuple_size := 0, os_tuple_epoch := Suc (os_tuple_epoch st)\<rparr>"

definition tuple_emplace_back :: "option_store \<Rightarrow> option_store" where
  "tuple_emplace_back st =
     st\<lparr>os_cell := (os_cell st)(RTupleType (os_tuple_epoch st) (os_tuple_size st) := co_init),
        os_tuple_size := Suc (os_tuple_size st)\<rparr>"

fun co_decode_fields :: "option_decoder \<Rightarrow> nat \<Rightarrow> option_store \<Rightarrow> bytes \<Rightarrow> (option_store \<times> bytes) result" where
  "co_decode_fields dec 0 st bs = Inr (st, bs)"
| "co_decode_fields dec (Suc n) st bs =
     rbind (string_decode bs) (\<lambda>(name, bs).
       let st = udt_emplace_back name st in
       rbind (dec (RUdtField (os_udt_epoch st) (length (os_udt_names st) - 1)) st bs) (\<lambda>(st, bs).
         co_decode_fields dec n st bs))"

fun co_decode_types :: "option_decoder \<Rightarrow> nat \<Rightarrow> option_store \<Rightarrow> bytes \<Rightarrow> (option_store \<times> bytes) result" where
  "co_decode_types dec 0 st bs = Inr (st, bs)"
| "co_decode_types dec (Suc n) st bs =
     (let st = tuple_emplace_back st in
      rbind (dec (RTupleType (os_tuple_epoch st) (os_tuple_size st - 1)) st bs) (\<lambda>(st, bs).
        co_decode_types dec n st bs))"

fun co_decode :: "nat \<Rightarrow> option_decoder" where
  "co_decode 0 this st bs = Inl OutOfFuel"
| "co_decode (Suc fuel) this st bs =
     rbind (int_decode bs) (\<lambda>(ty :: u16, bs).
     rbind (co_put this \<lparr>co_type = ty, co_payload = []\<rparr> st) (\<lambda>st.
       if ty = CT_Custom then
         rbind (string_decode bs) (\<lambda>(payload, bs).
         rbind (co_write this (string_encode payload) st) (\<lambda>st. Inr (st, bs)))
       else if ty = CT_List then
         rbind (co_decode fuel RListElement st bs) (\<lambda>(st, bs).
         rbind (co_encode_at RListElement this st) (\<lambda>st. Inr (st, bs)))
       else if ty = CT_Map then
         rbind (co_decode fuel RMapKey st bs) (\<lambda>(st, bs).
         rbind (co_decode fuel RMapValue st bs) (\<lambda>(st, bs).
         rbind (co_encode_at RMapKey this st) (\<lambda>st.
         rbind (co_encode_at RMapValue this st) (\<lambda>st. Inr (st, bs)))))
       else if ty = CT_Set then
         rbind (co_decode fuel RSetElement st bs) (\<lambda>(st, bs).
         rbind (co_encode_at RSetElement this st) (\<lambda>st. Inr (st, bs)))
       else if ty = CT_UDT then
         rbind (string_decode bs) (\<lambda>(keySpace, bs).
         rbind (string_decode bs) (\<lambda>(udtName, bs).
         rbind (int_decode bs) (\<lambda>(fieldsLength :: u16, bs).
         rbind (co_decode_fields (co_decode fuel) (unat fieldsLength)
             (udt_clear (st\<lparr>os_udt_keySpace := keySpace, os_udt_udtName := udtName\<rparr>)) bs) (\<lambda>(st, bs).
         rbind (co_udt_encode_at this st) (\<lambda>st. Inr (st, bs))))))
       else if ty = CT_Tuple then
         rbind (int_decode bs) (\<lambda>(fieldsLength :: u16, bs).
         rbind (co_decode_types (co_decode fuel) (unat fieldsLength) (tuple_clear st) bs) (\<lambda>(st, bs).
         rbind (co_tuple_encode_at this st) (\<lambda>st. Inr (st, bs))))
       else Inr (st, bs)))"

text \<open>
  A call from outside: the static objects keep whatever earlier calls left in them. Every level
  of nesting reads two bytes, so the fuel is never used up (\<open>column_option_decode_fuel\<close>).
\<close>

definition column_option_decode ::
  "option_store \<Rightarrow> bytes \<Rightarrow> (column_option \<times> option_store \<times> bytes) result" where
  "column_option_decode st bs =
     rbind (co_decode (Suc (length bs)) RExt st bs) (\<lambda>(st, bs). Inr (os_cell st RExt, st, bs))"

section \<open>The recursion of decode ends\<close>

lemma string_decode_length: "string_decode bs = Inr (s, rest) \<Longrightarrow> length rest + 2 \<le> length bs"
  by (auto simp: string_codec.dec_iff sized_wire_def)

lemma short_decode_length: "int_decode bs = Inr (v :: u16, rest) \<Longrightarrow> length rest + 2 = length bs"
  by (auto simp: short_codec.dec_iff)

lemma co_decode_fields_length:
  assumes dec: "\<And>r st bs st' rest. dec r st bs = Inr (st', rest) \<Longrightarrow> length rest \<le> length bs"
  shows "co_decode_fields dec n st bs = Inr (st', rest) \<Longrightarrow> length rest \<le> length bs"
  by (induction n arbitrary: st bs)
    (fastforce simp: rbind_eq_Inr Let_def dest: string_decode_length dec)+

lemma co_decode_types_length:
  assumes dec: "\<And>r st bs st' rest. dec r st bs = Inr (st', rest) \<Longrightarrow> length rest \<le> length bs"
  shows "co_decode_types dec n st bs = Inr (st', rest) \<Longrightarrow> length rest \<le> length bs"
  by (induction n arbitrary: st bs) (fastforce simp: rbind_eq_Inr Let_def dest: dec)+

lemma co_decode_length:
  "co_decode fuel this st bs = Inr (st', rest) \<Longrightarrow> length rest + 2 \<le> length bs"
proof (induction fuel arbitrary: this st bs st' rest)
  case 0
  then show ?case by simp
next
  case (Suc fuel)
  have IH: "length rest \<le> length bs" if "co_decode fuel r st bs = Inr (st', rest)" for r st bs st' rest
    using Suc.IH [OF that] by simp
  have fields: "length rest \<le> length bs" if "co_decode_fields (co_decode fuel) n st bs = Inr (st', rest)"
    for n st bs st' rest
    using co_decode_fields_length [of "co_decode fuel"] IH that by blast
  have types: "length rest \<le> length bs" if "co_decode_types (co_decode fuel) n st bs = Inr (st', rest)"
    for n st bs st' rest
    using co_decode_types_length [of "co_decode fuel"] IH that by blast
  from Suc.prems show ?case
    by (auto simp: rbind_eq_Inr split: if_splits
        dest!: short_decode_length string_decode_length IH fields types)
qed

lemma primitive_not_fuel [simp]:
  "int_decode bs \<noteq> Inl OutOfFuel"
  "string_decode bs \<noteq> Inl OutOfFuel"
  "int_encode v data \<noteq> Inl OutOfFuel"
  "string_encode s data \<noteq> Inl OutOfFuel"
  "co_get r st \<noteq> Inl OutOfFuel"
  "co_put r opt st \<noteq> Inl OutOfFuel"
  by (auto simp: int_decode_def string_decode_def sized_decode_def int_encode_def string_encode_def
      sized_encode_def co_get_def co_put_def Let_def rbind_eq_Inl split: if_splits)

lemma co_write_not_fuel [simp]: "(\<And>p. f p \<noteq> Inl OutOfFuel) \<Longrightarrow> co_write r f st \<noteq> Inl OutOfFuel"
  by (auto simp: co_write_def rbind_eq_Inl)

lemma co_encode_at_not_fuel [simp]: "co_encode_at src dst st \<noteq> Inl OutOfFuel"
  by (auto simp: co_encode_at_def rbind_eq_Inl split: if_splits)

lemma co_encode_fields_not_fuel [simp]: "co_encode_fields i names dst st \<noteq> Inl OutOfFuel"
  by (induction i names dst st rule: co_encode_fields.induct) (auto simp: rbind_eq_Inl)

lemma co_encode_types_not_fuel [simp]: "co_encode_types i n dst st \<noteq> Inl OutOfFuel"
  by (induction i n dst st rule: co_encode_types.induct) (auto simp: rbind_eq_Inl)

lemma co_payload_encode_not_fuel [simp]:
  "co_udt_encode_at dst st \<noteq> Inl OutOfFuel"
  "co_tuple_encode_at dst st \<noteq> Inl OutOfFuel"
  by (auto simp: co_udt_encode_at_def co_tuple_encode_at_def Let_def rbind_eq_Inl)

lemma co_decode_fields_fuel:
  assumes "\<And>r st bs'. length bs' \<le> length bs \<Longrightarrow> dec r st bs' \<noteq> Inl OutOfFuel"
    and "\<And>r st bs st' rest. dec r st bs = Inr (st', rest) \<Longrightarrow> length rest \<le> length bs"
  shows "co_decode_fields dec n st bs \<noteq> Inl OutOfFuel"
  using assms(1)
proof (induction n arbitrary: st bs)
  case 0
  then show ?case by simp
next
  case (Suc n)
  show ?case
  proof
    assume "co_decode_fields dec (Suc n) st bs = Inl OutOfFuel"
    then obtain name bs' where s: "string_decode bs = Inr (name, bs')"
      and r: "(let st = udt_emplace_back name st in
         rbind (dec (RUdtField (os_udt_epoch st) (length (os_udt_names st) - 1)) st bs') (\<lambda>(st, bs).
           co_decode_fields dec n st bs)) = Inl OutOfFuel"
      by (auto simp: rbind_eq_Inl)
    have len: "length bs' \<le> length bs" using string_decode_length [OF s] by simp
    from r Suc.prems len obtain st'' bs'' where "dec (RUdtField (os_udt_epoch (udt_emplace_back name st))
        (length (os_udt_names (udt_emplace_back name st)) - 1)) (udt_emplace_back name st) bs' = Inr (st'', bs'')"
      and out: "co_decode_fields dec n st'' bs'' = Inl OutOfFuel"
      by (auto simp: Let_def rbind_eq_Inl)
    then have "length bs'' \<le> length bs" using assms(2) len by fastforce
    with Suc.IH [of bs'' st''] Suc.prems out show False by (meson order_trans)
  qed
qed

lemma co_decode_types_fuel:
  assumes "\<And>r st bs'. length bs' \<le> length bs \<Longrightarrow> dec r st bs' \<noteq> Inl OutOfFuel"
    and "\<And>r st bs st' rest. dec r st bs = Inr (st', rest) \<Longrightarrow> length rest \<le> length bs"
  shows "co_decode_types dec n st bs \<noteq> Inl OutOfFuel"
  using assms(1)
proof (induction n arbitrary: st bs)
  case 0
  then show ?case by simp
next
  case (Suc n)
  show ?case
  proof
    assume "co_decode_types dec (Suc n) st bs = Inl OutOfFuel"
    with Suc.prems obtain st'' bs'' where "dec (RTupleType (os_tuple_epoch (tuple_emplace_back st))
        (os_tuple_size (tuple_emplace_back st) - 1)) (tuple_emplace_back st) bs = Inr (st'', bs'')"
      and out: "co_decode_types dec n st'' bs'' = Inl OutOfFuel"
      by (auto simp: Let_def rbind_eq_Inl)
    then have "length bs'' \<le> length bs" using assms(2) by fastforce
    with Suc.IH [of bs'' st''] Suc.prems out show False by (meson order_trans)
  qed
qed

lemma co_decode_fuel: "length bs < fuel \<Longrightarrow> co_decode fuel this st bs \<noteq> Inl OutOfFuel"
proof (induction fuel arbitrary: this st bs)
  case 0
  then show ?case by simp
next
  case (Suc fuel)
  have shorter: "co_decode fuel r st' bs' \<noteq> Inl OutOfFuel" if "length bs' < length bs" for r st' bs'
    using Suc.IH [of bs' r st'] Suc.prems that by simp
  have len: "length rest < length bs"
    if "co_decode fuel r st' bs' = Inr (st'', rest)" "length bs' < length bs" for r st' bs' st'' rest
    using co_decode_length [OF that(1)] that(2) by simp
  have fields: "co_decode_fields (co_decode fuel) n st' bs' \<noteq> Inl OutOfFuel" if "length bs' < length bs" for n st' bs'
    by (rule co_decode_fields_fuel, rule shorter) (use that in \<open>auto dest: co_decode_length\<close>)
  have types: "co_decode_types (co_decode fuel) n st' bs' \<noteq> Inl OutOfFuel" if "length bs' < length bs" for n st' bs'
    by (rule co_decode_types_fuel, rule shorter) (use that in \<open>auto dest: co_decode_length\<close>)
  show ?case
    by (auto simp: rbind_eq_Inl split: if_splits
        dest!: short_decode_length string_decode_length len
        elim!: notE [OF shorter, rotated] notE [OF fields, rotated] notE [OF types, rotated])
qed

end
