(* ===== verification/Column_Type.thy ===== *)
theory Column_Type
  imports Column_Option
begin

text \<open>
  What \<^verbatim>\<open>ProtocolColumnOption::decode\<close> should do: the tree of a column type,
  its wire format in the native protocol, and the theorem that decoding a type in which no
  collection is nested in a collection of its own kind stores exactly that type.
\<close>

section \<open>Type trees and their wire format\<close>

datatype ctype =
    TScalar u16
  | TCustom bytes
  | TList ctype
  | TMap ctype ctype
  | TSet ctype
  | TUdt bytes bytes "(bytes \<times> ctype) list"
  | TTuple "ctype list"

definition normal :: "bytes \<Rightarrow> sized_string" where
  "normal b = \<lparr>ss_value = b, ss_state = StateNormal\<rparr>"

fun ct_id :: "ctype \<Rightarrow> u16" where
  "ct_id (TScalar i) = i"
| "ct_id (TCustom b) = CT_Custom"
| "ct_id (TList t) = CT_List"
| "ct_id (TMap k v) = CT_Map"
| "ct_id (TSet t) = CT_Set"
| "ct_id (TUdt ks n fs) = CT_UDT"
| "ct_id (TTuple ts) = CT_Tuple"

fun ct_payload :: "ctype \<Rightarrow> bytes" where
  "ct_payload (TScalar i) = []"
| "ct_payload (TCustom b) = short_wire (normal b)"
| "ct_payload (TList t) = int_wire (ct_id t) @ ct_payload t"
| "ct_payload (TMap k v) =
     (int_wire (ct_id k) @ ct_payload k) @ int_wire (ct_id v) @ ct_payload v"
| "ct_payload (TSet t) = int_wire (ct_id t) @ ct_payload t"
| "ct_payload (TUdt ks n fs) =
     short_wire (normal ks) @ short_wire (normal n) @ int_wire (word_of_nat (length fs) :: u16) @
     concat (map (\<lambda>(name, t). short_wire (normal name) @ int_wire (ct_id t) @ ct_payload t) fs)"
| "ct_payload (TTuple ts) =
     int_wire (word_of_nat (length ts) :: u16) @
     concat (map (\<lambda>t. int_wire (ct_id t) @ ct_payload t) ts)"

definition ct_wire :: "ctype \<Rightarrow> bytes" where
  "ct_wire t = int_wire (ct_id t) @ ct_payload t"

definition ct_option :: "ctype \<Rightarrow> column_option" where
  "ct_option t = \<lparr>co_type = ct_id t, co_payload = ct_payload t\<rparr>"

fun ct_ok :: "ctype \<Rightarrow> bool" where
  "ct_ok (TScalar i) = (\<not> requires_payload i)"
| "ct_ok (TCustom b) = (length b \<le> 65535)"
| "ct_ok (TList t) = ct_ok t"
| "ct_ok (TMap k v) = (ct_ok k \<and> ct_ok v)"
| "ct_ok (TSet t) = ct_ok t"
| "ct_ok (TUdt ks n fs) =
     (length ks \<le> 65535 \<and> length n \<le> 65535 \<and> length fs \<le> 65535 \<and>
      list_all (\<lambda>(name, t). length name \<le> 65535 \<and> ct_ok t) fs)"
| "ct_ok (TTuple ts) = (length ts \<le> 65535 \<and> list_all ct_ok ts)"

datatype kind = KList | KMap | KSet | KUdt | KTuple

fun ct_kinds :: "ctype \<Rightarrow> kind set" where
  "ct_kinds (TScalar i) = {}"
| "ct_kinds (TCustom b) = {}"
| "ct_kinds (TList t) = insert KList (ct_kinds t)"
| "ct_kinds (TMap k v) = insert KMap (ct_kinds k \<union> ct_kinds v)"
| "ct_kinds (TSet t) = insert KSet (ct_kinds t)"
| "ct_kinds (TUdt ks n fs) = insert KUdt (\<Union>(name, t) \<in> set fs. ct_kinds t)"
| "ct_kinds (TTuple ts) = insert KTuple (\<Union>t \<in> set ts. ct_kinds t)"

text \<open>No collection inside a collection of the same kind.\<close>

fun ct_nodup :: "ctype \<Rightarrow> bool" where
  "ct_nodup (TScalar i) = True"
| "ct_nodup (TCustom b) = True"
| "ct_nodup (TList t) = (KList \<notin> ct_kinds t \<and> ct_nodup t)"
| "ct_nodup (TMap k v) = (KMap \<notin> ct_kinds k \<union> ct_kinds v \<and> ct_nodup k \<and> ct_nodup v)"
| "ct_nodup (TSet t) = (KSet \<notin> ct_kinds t \<and> ct_nodup t)"
| "ct_nodup (TUdt ks n fs) = list_all (\<lambda>(name, t). KUdt \<notin> ct_kinds t \<and> ct_nodup t) fs"
| "ct_nodup (TTuple ts) = list_all (\<lambda>t. KTuple \<notin> ct_kinds t \<and> ct_nodup t) ts"

fun ref_kind :: "option_ref \<Rightarrow> kind option" where
  "ref_kind RExt = None"
| "ref_kind RListElement = Some KList"
| "ref_kind RMapKey = Some KMap"
| "ref_kind RMapValue = Some KMap"
| "ref_kind RSetElement = Some KSet"
| "ref_kind (RUdtField e i) = Some KUdt"
| "ref_kind (RTupleType e i) = Some KTuple"

lemma ct_payload_nonempty: "ct_ok t \<Longrightarrow> requires_payload (ct_id t) \<Longrightarrow> ct_payload t \<noteq> []"
proof -
  have ne: "int_wire (v :: u16) \<noteq> []" for v
    using length_int_wire [of v] by fastforce
  assume "ct_ok t" "requires_payload (ct_id t)"
  then show ?thesis by (cases t) (auto simp: ne sized_wire_def normal_def)
qed

section \<open>Running the primitives\<close>

lemma string_ok_normal [simp]: "string_ok (normal b) \<longleftrightarrow> length b \<le> 65535"
  by (simp add: string_ok_def sized_ok_def normal_def length_max_def)

lemma co_write_run:
  "co_valid dst st \<Longrightarrow> f (co_payload (os_cell st dst)) = Inr p \<Longrightarrow>
   co_write dst f st = Inr (st\<lparr>os_cell := (os_cell st)(dst := (os_cell st dst)\<lparr>co_payload := p\<rparr>)\<rparr>)"
  by (simp add: co_write_def co_get_def co_put_def)

lemma co_valid_cell [simp]: "co_valid r (st\<lparr>os_cell := f\<rparr>) = co_valid r st"
  by (cases r) (simp_all add: co_valid_def)

text \<open>Append bytes to the payload at a reference.\<close>

definition co_append :: "option_ref \<Rightarrow> bytes \<Rightarrow> option_store \<Rightarrow> option_store" where
  "co_append dst w st =
     st\<lparr>os_cell := (os_cell st)(dst :=
       (os_cell st dst)\<lparr>co_payload := co_payload (os_cell st dst) @ w\<rparr>)\<rparr>"

lemma co_append_append [simp]: "co_append dst v (co_append dst w st) = co_append dst (w @ v) st"
  by (simp add: co_append_def)

lemma co_append_valid [simp]: "co_valid r (co_append dst w st) = co_valid r st"
  by (simp add: co_append_def)

lemma co_append_cell [simp]:
  "r \<noteq> dst \<Longrightarrow> os_cell (co_append dst w st) r = os_cell st r"
  "os_udt_names (co_append dst w st) = os_udt_names st"
  "os_udt_epoch (co_append dst w st) = os_udt_epoch st"
  "os_udt_keySpace (co_append dst w st) = os_udt_keySpace st"
  "os_udt_udtName (co_append dst w st) = os_udt_udtName st"
  "os_tuple_size (co_append dst w st) = os_tuple_size st"
  "os_tuple_epoch (co_append dst w st) = os_tuple_epoch st"
  by (simp_all add: co_append_def)

lemma co_write_int: "co_valid dst st \<Longrightarrow> co_write dst (int_encode v) st = Inr (co_append dst (int_wire v) st)"
  by (simp add: co_append_def co_write_run codec_simps)

lemma co_write_string:
  "co_valid dst st \<Longrightarrow> length b \<le> 65535 \<Longrightarrow>
   co_write dst (string_encode (normal b)) st = Inr (co_append dst (short_wire (normal b)) st)"
  by (simp add: co_append_def co_write_run string_codec.enc_wire)

lemma co_write_bytes:
  "co_valid dst st \<Longrightarrow> co_write dst (\<lambda>data. Inr (data @ w)) st = Inr (co_append dst w st)"
  by (simp add: co_append_def co_write_run)

lemma co_encode_at_run:
  assumes "co_valid src st" "co_valid dst st" "src \<noteq> dst" "os_cell st src = ct_option t" "ct_ok t"
  shows "co_encode_at src dst st = Inr (co_append dst (ct_wire t) st)"
proof -
  have "\<not> (requires_payload (ct_id t) \<and> ct_payload t = [])"
    using ct_payload_nonempty assms(5) by blast
  then show ?thesis
    using assms
    by (simp add: co_encode_at_def co_get_def ct_option_def co_write_int co_write_bytes ct_wire_def)
qed

section \<open>What a call of decode leaves alone\<close>

definition co_agree :: "option_ref set \<Rightarrow> kind set \<Rightarrow> option_store \<Rightarrow> option_store \<Rightarrow> bool" where
  "co_agree R K st st' \<longleftrightarrow>
     (\<forall>r. r \<notin> R \<longrightarrow> ref_kind r \<notin> Some ` K \<longrightarrow> os_cell st' r = os_cell st r) \<and>
     (KUdt \<notin> K \<longrightarrow> os_udt_names st' = os_udt_names st \<and> os_udt_epoch st' = os_udt_epoch st \<and>
        os_udt_keySpace st' = os_udt_keySpace st \<and> os_udt_udtName st' = os_udt_udtName st) \<and>
     (KTuple \<notin> K \<longrightarrow> os_tuple_size st' = os_tuple_size st \<and> os_tuple_epoch st' = os_tuple_epoch st)"

lemma co_agree_trans: "co_agree R K a b \<Longrightarrow> co_agree R K b c \<Longrightarrow> co_agree R K a c"
  by (simp add: co_agree_def)

lemma co_agree_mono:
  "co_agree R K a b \<Longrightarrow> \<forall>r\<in>R. r \<in> R' \<or> ref_kind r \<in> Some ` K' \<Longrightarrow> K \<subseteq> K' \<Longrightarrow> co_agree R' K' a b"
  unfolding co_agree_def by blast

lemma co_agree_cell:
  "co_agree R K a b \<Longrightarrow> r \<notin> R \<Longrightarrow> ref_kind r \<notin> Some ` K \<Longrightarrow> os_cell b r = os_cell a r"
  by (simp add: co_agree_def)

lemma co_agree_valid: "co_agree R K a b \<Longrightarrow> co_valid r a \<Longrightarrow> ref_kind r \<notin> Some ` K \<Longrightarrow> co_valid r b"
  by (cases r) (auto simp: co_agree_def co_valid_def)

lemma co_agree_append: "co_agree {dst} {} st (co_append dst w st)"
  by (simp add: co_agree_def)

definition co_begin :: "option_ref \<Rightarrow> u16 \<Rightarrow> option_store \<Rightarrow> option_store" where
  "co_begin this ty st = st\<lparr>os_cell := (os_cell st)(this := \<lparr>co_type = ty, co_payload = []\<rparr>)\<rparr>"

lemma co_begin_simps [simp]:
  "os_cell (co_begin this ty st) this = \<lparr>co_type = ty, co_payload = []\<rparr>"
  "co_valid r (co_begin this ty st) = co_valid r st"
  by (simp_all add: co_begin_def)

lemma co_agree_begin: "co_agree {this} {} st (co_begin this ty st)"
  by (simp add: co_agree_def co_begin_def)

lemma co_put_begin: "co_valid this st \<Longrightarrow> co_put this \<lparr>co_type = ty, co_payload = []\<rparr> st = Inr (co_begin this ty st)"
  by (simp add: co_put_def co_begin_def)

text \<open>Decoding the type \<open>t\<close> at any reference outside the static objects \<open>t\<close> itself uses.\<close>

definition decodes :: "ctype \<Rightarrow> bool" where
  "decodes t \<longleftrightarrow>
     (\<forall>fuel this st rest. length (ct_wire t) \<le> fuel \<longrightarrow> co_valid this st \<longrightarrow>
        ref_kind this \<notin> Some ` ct_kinds t \<longrightarrow>
        (\<exists>st'. co_decode fuel this st (ct_wire t @ rest) = Inr (st', rest) \<and>
           os_cell st' this = ct_option t \<and> co_agree {this} (ct_kinds t) st st'))"

lemma decodesD:
  assumes "decodes t" "length (ct_wire t) \<le> fuel" "co_valid this st" "ref_kind this \<notin> Some ` ct_kinds t"
  obtains st' where "co_decode fuel this st (ct_wire t @ rest) = Inr (st', rest)"
    "os_cell st' this = ct_option t" "co_agree {this} (ct_kinds t) st st'"
  using assms unfolding decodes_def by blast

text \<open>The end of every branch: the collected payload is appended to the fresh option.\<close>

lemma decode_finish:
  assumes "co_agree R K (co_begin this ty st) st2"
    and "this \<notin> R" "ref_kind this \<notin> Some ` K'" "K \<subseteq> K'"
    and "\<forall>r\<in>R. ref_kind r \<in> Some ` K'"
  shows "os_cell (co_append this w st2) this = \<lparr>co_type = ty, co_payload = w\<rparr>"
    and "co_agree {this} K' st (co_append this w st2)"
proof -
  have "os_cell st2 this = \<lparr>co_type = ty, co_payload = []\<rparr>"
    using assms(1-4) co_agree_cell [of R K "co_begin this ty st" st2 this] by auto
  then show "os_cell (co_append this w st2) this = \<lparr>co_type = ty, co_payload = w\<rparr>"
    by (simp add: co_append_def)
  have "co_agree {this} K' st (co_begin this ty st)"
    by (rule co_agree_mono [OF co_agree_begin]) simp_all
  moreover have "co_agree {this} K' (co_begin this ty st) st2"
    by (rule co_agree_mono [OF assms(1)]) (use assms(4,5) in auto)
  moreover have "co_agree {this} K' st2 (co_append this w st2)"
    by (rule co_agree_mono [OF co_agree_append]) simp_all
  ultimately show "co_agree {this} K' st (co_append this w st2)"
    by (blast intro: co_agree_trans)
qed

lemma CT_distinct [simp]:
  "CT_List \<noteq> CT_Custom" "CT_Map \<noteq> CT_Custom" "CT_Set \<noteq> CT_Custom" "CT_UDT \<noteq> CT_Custom" "CT_Tuple \<noteq> CT_Custom"
  "CT_Map \<noteq> CT_List" "CT_Set \<noteq> CT_List" "CT_UDT \<noteq> CT_List" "CT_Tuple \<noteq> CT_List"
  "CT_Set \<noteq> CT_Map" "CT_UDT \<noteq> CT_Map" "CT_Tuple \<noteq> CT_Map"
  "CT_UDT \<noteq> CT_Set" "CT_Tuple \<noteq> CT_Set" "CT_Tuple \<noteq> CT_UDT"
  by (simp_all add: CT_defs)

section \<open>The scalar, custom, list, set and map cases\<close>

lemma decodes_scalar: "\<not> requires_payload i \<Longrightarrow> decodes (TScalar i)"
  unfolding decodes_def
proof (intro allI impI)
  fix fuel this st rest
  assume i: "\<not> requires_payload i" and fuel: "length (ct_wire (TScalar i)) \<le> fuel" and v: "co_valid this st"
  then obtain f where f: "fuel = Suc f" by (cases fuel) (auto simp: ct_wire_def)
  have "co_decode fuel this st (ct_wire (TScalar i) @ rest) = Inr (co_begin this i st, rest)"
    using i v by (simp add: f ct_wire_def codec_simps co_put_begin requires_payload_def)
  then show "\<exists>st'. co_decode fuel this st (ct_wire (TScalar i) @ rest) = Inr (st', rest) \<and>
      os_cell st' this = ct_option (TScalar i) \<and> co_agree {this} (ct_kinds (TScalar i)) st st'"
    by (simp add: ct_option_def co_agree_begin)
qed

lemma decodes_custom: "length b \<le> 65535 \<Longrightarrow> decodes (TCustom b)"
  unfolding decodes_def
proof (intro allI impI)
  fix fuel this st rest
  assume b: "length b \<le> 65535" and fuel: "length (ct_wire (TCustom b)) \<le> fuel" and v: "co_valid this st"
  then obtain f where f: "fuel = Suc f" by (cases fuel) (auto simp: ct_wire_def)
  have "co_decode fuel this st (ct_wire (TCustom b) @ rest) =
      Inr (co_append this (short_wire (normal b)) (co_begin this CT_Custom st), rest)"
    using b v by (simp add: f ct_wire_def codec_simps co_put_begin string_codec.dec_wire co_write_string)
  moreover have "co_agree {} {} (co_begin this CT_Custom st) (co_begin this CT_Custom st)"
    by (simp add: co_agree_def)
  note decode_finish [OF this, of "{}" "short_wire (normal b)"]
  ultimately show "\<exists>st'. co_decode fuel this st (ct_wire (TCustom b) @ rest) = Inr (st', rest) \<and>
      os_cell st' this = ct_option (TCustom b) \<and> co_agree {this} (ct_kinds (TCustom b)) st st'"
    by (simp add: ct_option_def)
qed

text \<open>Lists and sets share one argument: one element, decoded into one static member.\<close>

lemma decodes_element:
  assumes dec: "decodes t" and ok: "ct_ok t" and nodup: "ref_kind elem \<notin> Some ` ct_kinds t"
    and kind: "ref_kind elem = Some k" and static: "\<And>st. co_valid elem st"
    and fuel: "length (ct_wire t) \<le> f" and here: "co_valid this st" "ref_kind this \<notin> Some ` insert k (ct_kinds t)"
  obtains st' where
    "rbind (co_decode f elem (co_begin this ty st) (ct_wire t @ rest)) (\<lambda>(st, bs).
       rbind (co_encode_at elem this st) (\<lambda>st. Inr (st, bs))) = Inr (st', rest)"
    "os_cell st' this = \<lparr>co_type = ty, co_payload = ct_wire t\<rparr>"
    "co_agree {this} (insert k (ct_kinds t)) st st'"
proof -
  obtain st2 where run: "co_decode f elem (co_begin this ty st) (ct_wire t @ rest) = Inr (st2, rest)"
    and cell: "os_cell st2 elem = ct_option t" and agree: "co_agree {elem} (ct_kinds t) (co_begin this ty st) st2"
    using decodesD [OF dec fuel static nodup] by blast
  have ne: "this \<noteq> elem" using here(2) kind by auto
  have v: "co_valid this st2" using co_agree_valid [OF agree] here by auto
  have enc: "co_encode_at elem this st2 = Inr (co_append this (ct_wire t) st2)"
    by (rule co_encode_at_run) (use static v ne cell ok in auto)
  note fin = decode_finish [OF agree, of "insert k (ct_kinds t)" "ct_wire t"]
  show thesis
  proof (rule that)
    show "rbind (co_decode f elem (co_begin this ty st) (ct_wire t @ rest)) (\<lambda>(st, bs).
       rbind (co_encode_at elem this st) (\<lambda>st. Inr (st, bs))) = Inr (co_append this (ct_wire t) st2, rest)"
      by (simp add: run enc)
  qed (rule fin; use ne here kind in auto)+
qed

lemma ct_kinds_self [simp]: "KList \<in> ct_kinds (TList t)" "KSet \<in> ct_kinds (TSet t)"
  by simp_all

lemma decodes_list: "decodes t \<Longrightarrow> ct_ok t \<Longrightarrow> KList \<notin> ct_kinds t \<Longrightarrow> decodes (TList t)"
  unfolding decodes_def [of "TList t"]
proof (intro allI impI)
  fix fuel this st rest
  assume t: "decodes t" "ct_ok t" "KList \<notin> ct_kinds t"
    and fuel: "length (ct_wire (TList t)) \<le> fuel"
    and v: "co_valid this st" "ref_kind this \<notin> Some ` ct_kinds (TList t)"
  from fuel obtain f where f: "fuel = Suc f" by (cases fuel) (auto simp: ct_wire_def)
  from fuel f have len: "length (ct_wire t) \<le> f" by (simp add: ct_wire_def)
  obtain st' where
    "rbind (co_decode f RListElement (co_begin this CT_List st) (ct_wire t @ rest)) (\<lambda>(st, bs).
       rbind (co_encode_at RListElement this st) (\<lambda>st. Inr (st, bs))) = Inr (st', rest)"
    "os_cell st' this = \<lparr>co_type = CT_List, co_payload = ct_wire t\<rparr>"
    "co_agree {this} (insert KList (ct_kinds t)) st st'"
    by (rule decodes_element [OF t(1,2), of RListElement KList f this st CT_List rest])
      (use t v len in \<open>auto simp: co_valid_def\<close>)
  then show "\<exists>st'. co_decode fuel this st (ct_wire (TList t) @ rest) = Inr (st', rest) \<and>
      os_cell st' this = ct_option (TList t) \<and> co_agree {this} (ct_kinds (TList t)) st st'"
    using v(1)
    by (intro exI [of _ st']) (simp add: f ct_option_def ct_wire_def codec_simps co_put_begin)
qed

lemma decodes_set: "decodes t \<Longrightarrow> ct_ok t \<Longrightarrow> KSet \<notin> ct_kinds t \<Longrightarrow> decodes (TSet t)"
  unfolding decodes_def [of "TSet t"]
proof (intro allI impI)
  fix fuel this st rest
  assume t: "decodes t" "ct_ok t" "KSet \<notin> ct_kinds t"
    and fuel: "length (ct_wire (TSet t)) \<le> fuel"
    and v: "co_valid this st" "ref_kind this \<notin> Some ` ct_kinds (TSet t)"
  from fuel obtain f where f: "fuel = Suc f" by (cases fuel) (auto simp: ct_wire_def)
  from fuel f have len: "length (ct_wire t) \<le> f" by (simp add: ct_wire_def)
  obtain st' where
    "rbind (co_decode f RSetElement (co_begin this CT_Set st) (ct_wire t @ rest)) (\<lambda>(st, bs).
       rbind (co_encode_at RSetElement this st) (\<lambda>st. Inr (st, bs))) = Inr (st', rest)"
    "os_cell st' this = \<lparr>co_type = CT_Set, co_payload = ct_wire t\<rparr>"
    "co_agree {this} (insert KSet (ct_kinds t)) st st'"
    by (rule decodes_element [OF t(1,2), of RSetElement KSet f this st CT_Set rest])
      (use t v len in \<open>auto simp: co_valid_def\<close>)
  then show "\<exists>st'. co_decode fuel this st (ct_wire (TSet t) @ rest) = Inr (st', rest) \<and>
      os_cell st' this = ct_option (TSet t) \<and> co_agree {this} (ct_kinds (TSet t)) st st'"
    using v(1)
    by (intro exI [of _ st']) (simp add: f ct_option_def ct_wire_def codec_simps co_put_begin)
qed

lemma decodes_map:
  assumes k: "decodes k" "ct_ok k" "KMap \<notin> ct_kinds k"
    and w: "decodes w" "ct_ok w" "KMap \<notin> ct_kinds w"
  shows "decodes (TMap k w)"
  unfolding decodes_def
proof (intro allI impI)
  fix fuel this st rest
  let ?K = "ct_kinds (TMap k w)"
  assume fuel: "length (ct_wire (TMap k w)) \<le> fuel"
    and v: "co_valid this st" "ref_kind this \<notin> Some ` ?K"
  from fuel obtain f where f: "fuel = Suc f" by (cases fuel) (auto simp: ct_wire_def)
  from fuel f have len: "length (ct_wire k) \<le> f" "length (ct_wire w) \<le> f"
    by (simp_all add: ct_wire_def)
  have static: "co_valid RMapKey s" "co_valid RMapValue s" for s by (simp_all add: co_valid_def)
  have ne: "this \<noteq> RMapKey" "this \<noteq> RMapValue" using v(2) by auto
  let ?st1 = "co_begin this CT_Map st"
  obtain st2 where run1: "co_decode f RMapKey ?st1 (ct_wire k @ ct_wire w @ rest) = Inr (st2, ct_wire w @ rest)"
    and cell1: "os_cell st2 RMapKey = ct_option k" and agree1: "co_agree {RMapKey} (ct_kinds k) ?st1 st2"
    by (rule decodesD [OF k(1) len(1) static(1)]) (use k in auto)
  obtain st3 where run2: "co_decode f RMapValue st2 (ct_wire w @ rest) = Inr (st3, rest)"
    and cell2: "os_cell st3 RMapValue = ct_option w" and agree2: "co_agree {RMapValue} (ct_kinds w) st2 st3"
    by (rule decodesD [OF w(1) len(2) static(2)]) (use w in auto)
  have cell1': "os_cell st3 RMapKey = ct_option k"
    using co_agree_cell [OF agree2, of RMapKey] cell1 w(3) by auto
  have agree: "co_agree {RMapKey, RMapValue} ?K ?st1 st3"
    using co_agree_mono [OF agree1, of "{RMapKey, RMapValue}" ?K]
      co_agree_mono [OF agree2, of "{RMapKey, RMapValue}" ?K]
    by (auto intro: co_agree_trans)
  have v3: "co_valid this st3" using co_agree_valid [OF agree] v by auto
  have enc1: "co_encode_at RMapKey this st3 = Inr (co_append this (ct_wire k) st3)"
    by (rule co_encode_at_run) (use static v3 ne cell1' k in auto)
  have enc2: "co_encode_at RMapValue this (co_append this (ct_wire k) st3) =
      Inr (co_append this (ct_wire k @ ct_wire w) st3)"
    using co_encode_at_run [of RMapValue "co_append this (ct_wire k) st3" this w]
      static v3 ne cell2 w by auto
  let ?st' = "co_append this (ct_wire k @ ct_wire w) st3"
  have run: "co_decode fuel this st (ct_wire (TMap k w) @ rest) = Inr (?st', rest)"
    using v(1) run1 run2 enc1 enc2 unfolding f
    by (simp add: ct_wire_def codec_simps co_put_begin)
  note fin = decode_finish [OF agree, of ?K "ct_wire k @ ct_wire w"]
  have "os_cell ?st' this = ct_option (TMap k w)"
    using fin(1) ne v(2) by (simp add: ct_option_def ct_wire_def)
  moreover have "co_agree {this} ?K st ?st'"
    by (rule fin(2)) (use ne v(2) in auto)
  ultimately show "\<exists>st'. co_decode fuel this st (ct_wire (TMap k w) @ rest) = Inr (st', rest) \<and>
      os_cell st' this = ct_option (TMap k w) \<and> co_agree {this} ?K st st'"
    using run by blast
qed

section \<open>User defined types and tuples\<close>

text \<open>The wire format of the fields still to come, and the slots they will occupy.\<close>

definition field_wire :: "bytes \<times> ctype \<Rightarrow> bytes" where
  "field_wire f = short_wire (normal (fst f)) @ ct_wire (snd f)"

lemma ct_payload_udt:
  "ct_payload (TUdt ks n fs) =
     short_wire (normal ks) @ short_wire (normal n) @ int_wire (word_of_nat (length fs) :: u16) @
     concat (map field_wire fs)"
  by (simp add: field_wire_def ct_wire_def case_prod_beta cong: map_cong)

lemma ct_payload_tuple:
  "ct_payload (TTuple ts) = int_wire (word_of_nat (length ts) :: u16) @ concat (map ct_wire ts)"
  by (simp add: ct_wire_def cong: map_cong)

lemma ct_wire_nested:
  "ct_wire (TUdt ks n fs) = int_wire CT_UDT @ short_wire (normal ks) @ short_wire (normal n) @
     int_wire (word_of_nat (length fs) :: u16) @ concat (map field_wire fs)"
  "ct_wire (TTuple ts) = int_wire CT_Tuple @ int_wire (word_of_nat (length ts) :: u16) @ concat (map ct_wire ts)"
  unfolding ct_wire_def [of "TUdt ks n fs"] ct_wire_def [of "TTuple ts"] ct_payload_udt ct_payload_tuple
  by simp_all

lemma field_wire_pair [simp]: "field_wire (name, t) = short_wire (normal name) @ ct_wire t"
  by (simp add: field_wire_def)

definition field_ok :: "bytes \<times> ctype \<Rightarrow> bool" where
  "field_ok f \<longleftrightarrow> length (fst f) \<le> 65535 \<and> ct_ok (snd f) \<and> decodes (snd f) \<and> KUdt \<notin> ct_kinds (snd f)"

lemma co_agree_udt_emplace: "KUdt \<in> K \<Longrightarrow> co_agree {} K st (udt_emplace_back name st)"
  by (auto simp: co_agree_def udt_emplace_back_def)

lemma co_agree_tuple_emplace: "KTuple \<in> K \<Longrightarrow> co_agree {} K st (tuple_emplace_back st)"
  by (auto simp: co_agree_def tuple_emplace_back_def)

lemma udt_emplace_back_simps [simp]:
  "os_udt_epoch (udt_emplace_back name st) = os_udt_epoch st"
  "os_udt_names (udt_emplace_back name st) = os_udt_names st @ [name]"
  "os_udt_keySpace (udt_emplace_back name st) = os_udt_keySpace st"
  "os_udt_udtName (udt_emplace_back name st) = os_udt_udtName st"
  by (simp_all add: udt_emplace_back_def)

lemma tuple_emplace_back_simps [simp]:
  "os_tuple_epoch (tuple_emplace_back st) = os_tuple_epoch st"
  "os_tuple_size (tuple_emplace_back st) = Suc (os_tuple_size st)"
  by (simp_all add: tuple_emplace_back_def)

lemma co_agree_absorb:
  assumes "co_agree {r} K0 a b" "ref_kind r \<in> Some ` K" "K0 \<subseteq> K"
  shows "co_agree {} K a b"
  by (rule co_agree_mono [OF assms(1)]) (use assms in auto)

lemma decode_fields_run:
  assumes "list_all field_ok fs" "length (concat (map field_wire fs)) \<le> fuel"
    and K: "insert KUdt (\<Union>f \<in> set fs. ct_kinds (snd f)) \<subseteq> K"
  shows "\<exists>st'. co_decode_fields (co_decode fuel) (length fs) st (concat (map field_wire fs) @ rest) = Inr (st', rest) \<and>
      os_udt_names st' = os_udt_names st @ map (\<lambda>f. normal (fst f)) fs \<and>
      os_udt_epoch st' = os_udt_epoch st \<and>
      os_udt_keySpace st' = os_udt_keySpace st \<and> os_udt_udtName st' = os_udt_udtName st \<and>
      (\<forall>i < length (os_udt_names st). os_cell st' (RUdtField (os_udt_epoch st) i) = os_cell st (RUdtField (os_udt_epoch st) i)) \<and>
      (\<forall>i < length fs. os_cell st' (RUdtField (os_udt_epoch st) (length (os_udt_names st) + i)) = ct_option (snd (fs ! i))) \<and>
      co_agree {} K st st'"
  using assms
proof (induction fs arbitrary: st)
  case Nil
  then show ?case by (simp add: co_agree_def)
next
  case (Cons f fs)
  obtain name t where f: "f = (name, t)" by (cases f)
  from Cons.prems f have t: "decodes t" "KUdt \<notin> ct_kinds t" "length name \<le> 65535" "ct_ok t"
    and len: "length (ct_wire t) \<le> fuel" "length (concat (map field_wire fs)) \<le> fuel"
    by (simp_all add: field_ok_def)
  let ?n = "length (os_udt_names st)" and ?e = "os_udt_epoch st"
  let ?st1 = "udt_emplace_back (normal name) st"
  let ?r = "RUdtField ?e ?n"
  have "co_valid ?r ?st1" by (simp add: co_valid_def)
  then obtain st2 where run: "co_decode fuel ?r ?st1 (ct_wire t @ concat (map field_wire fs) @ rest) =
      Inr (st2, concat (map field_wire fs) @ rest)"
    and cell: "os_cell st2 ?r = ct_option t" and agree: "co_agree {?r} (ct_kinds t) ?st1 st2"
    by (rule decodesD [OF t(1) len(1)]) (use t in auto)
  have same: "os_udt_names st2 = os_udt_names st @ [normal name]" "os_udt_epoch st2 = ?e"
      "os_udt_keySpace st2 = os_udt_keySpace st" "os_udt_udtName st2 = os_udt_udtName st"
    using agree t(2) by (auto simp: co_agree_def)
  have old: "os_cell st2 (RUdtField ?e i) = os_cell st (RUdtField ?e i)" if "i < ?n" for i
    using co_agree_cell [OF agree, of "RUdtField ?e i"] that t(2)
    by (auto simp: udt_emplace_back_def)
  obtain st' where rest: "co_decode_fields (co_decode fuel) (length fs) st2 (concat (map field_wire fs) @ rest) = Inr (st', rest)"
    and IH: "os_udt_names st' = os_udt_names st2 @ map (\<lambda>f. normal (fst f)) fs"
      "os_udt_epoch st' = os_udt_epoch st2"
      "os_udt_keySpace st' = os_udt_keySpace st2" "os_udt_udtName st' = os_udt_udtName st2"
      "\<forall>i < length (os_udt_names st2). os_cell st' (RUdtField (os_udt_epoch st2) i) = os_cell st2 (RUdtField (os_udt_epoch st2) i)"
      "\<forall>i < length fs. os_cell st' (RUdtField (os_udt_epoch st2) (length (os_udt_names st2) + i)) = ct_option (snd (fs ! i))"
      "co_agree {} K st2 st'"
    using Cons.IH [of st2] Cons.prems len(2) by auto
  have "co_decode_fields (co_decode fuel) (length (f # fs)) st (concat (map field_wire (f # fs)) @ rest) = Inr (st', rest)"
    using t(3) run rest
    by (simp add: f string_codec.dec_wire Let_def)
  moreover have "co_agree {} K st st'"
  proof (rule co_agree_trans [OF co_agree_trans])
    show "co_agree {} K st ?st1" using Cons.prems(3) by (auto intro: co_agree_udt_emplace)
    show "co_agree {} K ?st1 st2"
      by (rule co_agree_absorb [OF agree]) (use Cons.prems(3) f in auto)
  qed (rule IH(7))
  moreover have "os_cell st' (RUdtField ?e (?n + i)) = ct_option (snd ((f # fs) ! i))" if "i < length (f # fs)" for i
    using IH(5,6) that cell by (cases i) (auto simp: same f)
  ultimately show ?case
    using IH same old by (intro exI [of _ st']) (auto simp: f)
qed

lemma encode_fields_run:
  assumes "list_all field_ok fs" "co_valid dst st" "ref_kind dst \<noteq> Some KUdt"
    and "\<And>i. i < length fs \<Longrightarrow> os_cell st (RUdtField (os_udt_epoch st) (m + i)) = ct_option (snd (fs ! i))"
    and "m + length fs \<le> length (os_udt_names st)"
  shows "co_encode_fields m (map (\<lambda>f. normal (fst f)) fs) dst st = Inr (co_append dst (concat (map field_wire fs)) st)"
  using assms
proof (induction fs arbitrary: m st)
  case Nil
  then show ?case by (simp add: co_append_def)
next
  case (Cons f fs)
  obtain name t where f: "f = (name, t)" by (cases f)
  from Cons.prems(1) f have t: "length name \<le> 65535" "ct_ok t" by (simp_all add: field_ok_def)
  let ?st1 = "co_append dst (short_wire (normal name)) st"
  let ?r = "RUdtField (os_udt_epoch st) m"
  have ne: "?r \<noteq> dst" "RUdtField e i \<noteq> dst" for e i using Cons.prems(3) by auto
  have "co_valid ?r ?st1" using Cons.prems(5) by (simp add: co_valid_def)
  moreover have "os_cell ?st1 ?r = ct_option t" using Cons.prems(4) [of 0] ne by (simp add: f)
  ultimately have run: "co_encode_at ?r dst ?st1 = Inr (co_append dst (ct_wire t) ?st1)"
    using Cons.prems(2) ne t by (intro co_encode_at_run) auto
  let ?st2 = "co_append dst (short_wire (normal name) @ ct_wire t) st"
  have "co_encode_fields (Suc m) (map (\<lambda>f. normal (fst f)) fs) dst ?st2 =
      Inr (co_append dst (concat (map field_wire fs)) ?st2)"
  proof (rule Cons.IH)
    fix i assume "i < length fs"
    then show "os_cell ?st2 (RUdtField (os_udt_epoch ?st2) (Suc m + i)) = ct_option (snd (fs ! i))"
      using Cons.prems(4) [of "Suc i"] ne by simp
  qed (use Cons.prems in auto)
  then show ?case
    using run Cons.prems(2) t by (simp add: f co_write_string)
qed

definition type_ok :: "ctype \<Rightarrow> bool" where
  "type_ok t \<longleftrightarrow> ct_ok t \<and> decodes t \<and> KTuple \<notin> ct_kinds t"

lemma decode_types_run:
  assumes "list_all type_ok ts" "length (concat (map ct_wire ts)) \<le> fuel"
    and K: "insert KTuple (\<Union>t \<in> set ts. ct_kinds t) \<subseteq> K"
  shows "\<exists>st'. co_decode_types (co_decode fuel) (length ts) st (concat (map ct_wire ts) @ rest) = Inr (st', rest) \<and>
      os_tuple_size st' = os_tuple_size st + length ts \<and> os_tuple_epoch st' = os_tuple_epoch st \<and>
      (\<forall>i < os_tuple_size st. os_cell st' (RTupleType (os_tuple_epoch st) i) = os_cell st (RTupleType (os_tuple_epoch st) i)) \<and>
      (\<forall>i < length ts. os_cell st' (RTupleType (os_tuple_epoch st) (os_tuple_size st + i)) = ct_option (ts ! i)) \<and>
      co_agree {} K st st'"
  using assms
proof (induction ts arbitrary: st)
  case Nil
  then show ?case by (simp add: co_agree_def)
next
  case (Cons t ts)
  from Cons.prems have t: "decodes t" "KTuple \<notin> ct_kinds t" "ct_ok t"
    and len: "length (ct_wire t) \<le> fuel" "length (concat (map ct_wire ts)) \<le> fuel"
    by (simp_all add: type_ok_def)
  let ?n = "os_tuple_size st" and ?e = "os_tuple_epoch st"
  let ?st1 = "tuple_emplace_back st"
  let ?r = "RTupleType ?e ?n"
  have "co_valid ?r ?st1" by (simp add: co_valid_def)
  then obtain st2 where run: "co_decode fuel ?r ?st1 (ct_wire t @ concat (map ct_wire ts) @ rest) =
      Inr (st2, concat (map ct_wire ts) @ rest)"
    and cell: "os_cell st2 ?r = ct_option t" and agree: "co_agree {?r} (ct_kinds t) ?st1 st2"
    by (rule decodesD [OF t(1) len(1)]) (use t in auto)
  have same: "os_tuple_size st2 = Suc ?n" "os_tuple_epoch st2 = ?e"
    using agree t(2) by (auto simp: co_agree_def)
  have old: "os_cell st2 (RTupleType ?e i) = os_cell st (RTupleType ?e i)" if "i < ?n" for i
    using co_agree_cell [OF agree, of "RTupleType ?e i"] that t(2)
    by (auto simp: tuple_emplace_back_def)
  obtain st' where rest: "co_decode_types (co_decode fuel) (length ts) st2 (concat (map ct_wire ts) @ rest) = Inr (st', rest)"
    and IH: "os_tuple_size st' = os_tuple_size st2 + length ts" "os_tuple_epoch st' = os_tuple_epoch st2"
      "\<forall>i < os_tuple_size st2. os_cell st' (RTupleType (os_tuple_epoch st2) i) = os_cell st2 (RTupleType (os_tuple_epoch st2) i)"
      "\<forall>i < length ts. os_cell st' (RTupleType (os_tuple_epoch st2) (os_tuple_size st2 + i)) = ct_option (ts ! i)"
      "co_agree {} K st2 st'"
    using Cons.IH [of st2] Cons.prems len(2) by auto
  have "co_decode_types (co_decode fuel) (length (t # ts)) st (concat (map ct_wire (t # ts)) @ rest) = Inr (st', rest)"
    using run rest by (simp add: Let_def)
  moreover have "co_agree {} K st st'"
  proof (rule co_agree_trans [OF co_agree_trans])
    show "co_agree {} K st ?st1" using Cons.prems(3) by (auto intro: co_agree_tuple_emplace)
    show "co_agree {} K ?st1 st2"
      by (rule co_agree_absorb [OF agree]) (use Cons.prems(3) in auto)
  qed (rule IH(5))
  moreover have "os_cell st' (RTupleType ?e (?n + i)) = ct_option ((t # ts) ! i)" if "i < length (t # ts)" for i
    using IH(3,4) that cell by (cases i) (auto simp: same)
  ultimately show ?case
    using IH same old by (intro exI [of _ st']) auto
qed

lemma encode_types_run:
  assumes "list_all ct_ok ts" "co_valid dst st" "ref_kind dst \<noteq> Some KTuple"
    and "\<And>i. i < length ts \<Longrightarrow> os_cell st (RTupleType (os_tuple_epoch st) (m + i)) = ct_option (ts ! i)"
    and "m + length ts \<le> os_tuple_size st"
  shows "co_encode_types m (length ts) dst st = Inr (co_append dst (concat (map ct_wire ts)) st)"
  using assms
proof (induction ts arbitrary: m st)
  case Nil
  then show ?case by (simp add: co_append_def)
next
  case (Cons t ts)
  let ?r = "RTupleType (os_tuple_epoch st) m"
  have ne: "?r \<noteq> dst" "RTupleType e i \<noteq> dst" for e i using Cons.prems(3) by auto
  have "co_valid ?r st" using Cons.prems(5) by (simp add: co_valid_def)
  moreover have "os_cell st ?r = ct_option t" using Cons.prems(4) [of 0] by simp
  ultimately have run: "co_encode_at ?r dst st = Inr (co_append dst (ct_wire t) st)"
    using Cons.prems(1,2) ne by (intro co_encode_at_run) auto
  let ?st2 = "co_append dst (ct_wire t) st"
  have "co_encode_types (Suc m) (length ts) dst ?st2 = Inr (co_append dst (concat (map ct_wire ts)) ?st2)"
  proof (rule Cons.IH)
    fix i assume "i < length ts"
    then show "os_cell ?st2 (RTupleType (os_tuple_epoch ?st2) (Suc m + i)) = ct_option (ts ! i)"
      using Cons.prems(4) [of "Suc i"] ne by simp
  qed (use Cons.prems in auto)
  then show ?case using run by simp
qed

lemma unat_length_u16 [simp]: "length xs \<le> 65535 \<Longrightarrow> unat (word_of_nat (length xs) :: u16) = length xs"
  by (simp add: unat_of_nat take_bit_nat_eq_self)

lemma decodes_tuple:
  assumes ts: "list_all type_ok ts" "length ts \<le> 65535"
  shows "decodes (TTuple ts)"
  unfolding decodes_def
proof (intro allI impI)
  fix fuel this st rest
  let ?K = "ct_kinds (TTuple ts)" and ?w = "concat (map ct_wire ts)"
  let ?len = "int_wire (word_of_nat (length ts) :: u16)"
  assume fuel: "length (ct_wire (TTuple ts)) \<le> fuel"
    and v: "co_valid this st" "ref_kind this \<notin> Some ` ?K"
  from fuel obtain f where f: "fuel = Suc f" by (cases fuel) (auto simp: ct_wire_def)
  from fuel f have len: "length ?w \<le> f"
    by (simp add: ct_wire_nested)
  let ?st1 = "tuple_clear (co_begin this CT_Tuple st)"
  obtain st2 where run: "co_decode_types (co_decode f) (length ts) ?st1 (?w @ rest) = Inr (st2, rest)"
    and size: "os_tuple_size st2 = length ts" "os_tuple_epoch st2 = os_tuple_epoch ?st1"
    and cells: "\<forall>i < length ts. os_cell st2 (RTupleType (os_tuple_epoch ?st1) i) = ct_option (ts ! i)"
    and agree': "co_agree {} ?K ?st1 st2"
    using decode_types_run [OF ts(1) len, of ?K ?st1 rest] by (auto simp: tuple_clear_def)
  have agree: "co_agree {} ?K (co_begin this CT_Tuple st) st2"
    by (rule co_agree_trans [OF _ agree']) (auto simp: co_agree_def tuple_clear_def)
  have v2: "co_valid this st2" using co_agree_valid [OF agree] v by auto
  have ne: "this \<noteq> RTupleType e i" "RTupleType e i \<noteq> this" for e i using v(2) by auto
  have enc: "co_encode_types 0 (length ts) this (co_append this ?len st2) =
      Inr (co_append this ?w (co_append this ?len st2))"
    by (rule encode_types_run)
      (use ts v v2 size cells ne in \<open>auto simp: list_all_iff type_ok_def\<close>)
  have "co_decode fuel this st (ct_wire (TTuple ts) @ rest) = Inr (co_append this (?len @ ?w) st2, rest)"
    unfolding ct_wire_nested f
    using ts v(1) v2 run enc size
    by (simp add: codec_simps co_put_begin co_tuple_encode_at_def co_write_int Let_def)
  moreover note decode_finish [OF agree, of ?K "?len @ ?w"]
  ultimately show "\<exists>st'. co_decode fuel this st (ct_wire (TTuple ts) @ rest) = Inr (st', rest) \<and>
      os_cell st' this = ct_option (TTuple ts) \<and> co_agree {this} ?K st st'"
    using v(2) by (intro exI conjI) (assumption | simp add: ct_option_def ct_payload_tuple del: ct_payload.simps)+
qed

lemma decodes_udt:
  assumes fs: "list_all field_ok fs" "length fs \<le> 65535" "length ks \<le> 65535" "length n \<le> 65535"
  shows "decodes (TUdt ks n fs)"
  unfolding decodes_def
proof (intro allI impI)
  fix fuel this st rest
  let ?K = "ct_kinds (TUdt ks n fs)" and ?w = "concat (map field_wire fs)"
  let ?pre = "short_wire (normal ks) @ short_wire (normal n) @ int_wire (word_of_nat (length fs) :: u16)"
  assume fuel: "length (ct_wire (TUdt ks n fs)) \<le> fuel"
    and v: "co_valid this st" "ref_kind this \<notin> Some ` ?K"
  from fuel obtain f where f: "fuel = Suc f" by (cases fuel) (auto simp: ct_wire_def)
  from fuel f have len: "length ?w \<le> f"
    by (simp add: ct_wire_nested)
  let ?st1 = "udt_clear ((co_begin this CT_UDT st)\<lparr>os_udt_keySpace := normal ks, os_udt_udtName := normal n\<rparr>)"
  have K: "insert KUdt (\<Union>f \<in> set fs. ct_kinds (snd f)) \<subseteq> ?K" by auto
  obtain st2 where run: "co_decode_fields (co_decode f) (length fs) ?st1 (?w @ rest) = Inr (st2, rest)"
    and names: "os_udt_names st2 = map (\<lambda>f. normal (fst f)) fs" "os_udt_epoch st2 = os_udt_epoch ?st1"
      "os_udt_keySpace st2 = normal ks" "os_udt_udtName st2 = normal n"
    and cells: "\<forall>i < length fs. os_cell st2 (RUdtField (os_udt_epoch ?st1) i) = ct_option (snd (fs ! i))"
    and agree': "co_agree {} ?K ?st1 st2"
    using decode_fields_run [OF fs(1) len K, of ?st1 rest] by (auto simp: udt_clear_def)
  have agree: "co_agree {} ?K (co_begin this CT_UDT st) st2"
    by (rule co_agree_trans [OF _ agree']) (auto simp: co_agree_def udt_clear_def)
  have v2: "co_valid this st2" using co_agree_valid [OF agree] v by auto
  have ne: "this \<noteq> RUdtField e i" "RUdtField e i \<noteq> this" for e i using v(2) by auto
  have enc: "co_encode_fields 0 (map (\<lambda>f. normal (fst f)) fs) this (co_append this ?pre st2) =
      Inr (co_append this ?w (co_append this ?pre st2))"
    by (rule encode_fields_run) (use fs v v2 names cells ne in auto)
  have "co_decode fuel this st (ct_wire (TUdt ks n fs) @ rest) = Inr (co_append this (?pre @ ?w) st2, rest)"
    unfolding ct_wire_nested f
    using fs v(1) v2 run enc names
    by (simp add: codec_simps co_put_begin string_codec.dec_wire co_udt_encode_at_def Let_def co_write_int co_write_string)
  moreover note decode_finish [OF agree, of ?K "?pre @ ?w"]
  ultimately show "\<exists>st'. co_decode fuel this st (ct_wire (TUdt ks n fs) @ rest) = Inr (st', rest) \<and>
      os_cell st' this = ct_option (TUdt ks n fs) \<and> co_agree {this} ?K st st'"
    using v(2) by (intro exI conjI) (assumption | simp add: ct_option_def ct_payload_udt del: ct_payload.simps)+
qed

section \<open>Every type without a collection nested in its own kind is decoded\<close>

lemma ct_decodes: "ct_ok t \<Longrightarrow> ct_nodup t \<Longrightarrow> decodes t"
proof (induction t)
  case (TUdt ks n fs)
  then have "list_all field_ok fs"
    by (fastforce simp: list_all_iff field_ok_def snds.simps split: prod.splits)
  with TUdt.prems show ?case by (intro decodes_udt) simp_all
next
  case (TTuple ts)
  then have "list_all type_ok ts" by (auto simp: list_all_iff type_ok_def)
  with TTuple.prems show ?case by (intro decodes_tuple) simp_all
qed (auto intro: decodes_scalar decodes_custom decodes_list decodes_map decodes_set)

lemma column_option_decode_wire:
  assumes "ct_ok t" "ct_nodup t"
  obtains st' where "column_option_decode st (ct_wire t @ rest) = Inr (ct_option t, st', rest)"
proof -
  have "\<exists>st'. co_decode (Suc (length (ct_wire t @ rest))) RExt st (ct_wire t @ rest) = Inr (st', rest) \<and>
      os_cell st' RExt = ct_option t"
    using ct_decodes [OF assms] unfolding decodes_def
    by (elim allE [of _ "Suc (length (ct_wire t @ rest))"] allE [of _ RExt] allE [of _ st] allE [of _ rest])
      (auto simp: co_valid_def)
  then show thesis using that by (auto simp: column_option_decode_def)
qed

lemma column_option_decode_fuel: "column_option_decode st bs \<noteq> Inl OutOfFuel"
  using co_decode_fuel [of bs "Suc (length bs)" RExt st]
  by (auto simp: column_option_decode_def rbind_eq_Inl)

text \<open>What the code does on a list of lists of int, and on a tuple within a tuple.\<close>

lemma decode_list_of_lists:
  "rbind (column_option_decode os_init [0x00, 0x20, 0x00, 0x20, 0x00, 0x09]) (\<lambda>(opt, st, rest). Inr (opt, rest)) =
     Inr (\<lparr>co_type = CT_List, co_payload = [0x00, 0x09, 0x00, 0x09, 0x00, 0x09]\<rparr>, [])"
  by code_simp

lemma decode_tuple_of_tuples:
  "rbind (column_option_decode os_init [0x00, 0x31, 0x00, 0x01, 0x00, 0x31, 0x00, 0x01, 0x00, 0x09])
     (\<lambda>(opt, st, rest). Inr (opt, rest)) = Inl UndefinedBehaviour"
  by code_simp

section \<open>The properties of column types\<close>

text \<open>
  Decoding a column type always returns: nesting consumes input, so the depth of recursion is
  bounded by the length of the input.
\<close>

lemma column_option_terminates: "column_option_decode st bs \<noteq> Inl OutOfFuel"
  by (rule column_option_decode_fuel)


end
