(* ===== verification/Result_Metadata.thy ===== *)
theory Result_Metadata
  imports Column_Type
begin

text \<open>
  The metadata of results: \<^verbatim>\<open>ProtocolResultColumn\<close>,
  \<^verbatim>\<open>ProtocolResultRowsMetadata\<close> and
  \<^verbatim>\<open>ProtocolResultPreparedMetadata\<close>. The objects are reused: what a decoder
  does not overwrite keeps the value of the previous message, so the decoders take the old
  object. Column types are decoded through the shared payload objects of
  \<^verbatim>\<open>ProtocolColumnOption\<close>, whose state is passed along.
\<close>

section \<open>Columns\<close>

record result_column =
  rc_keySpace :: sized_string
  rc_table :: sized_string
  rc_name :: sized_string
  rc_type :: column_option

definition rc_init :: result_column where
  "rc_init = \<lparr>rc_keySpace = ss_init StateNormal, rc_table = ss_init StateNormal,
     rc_name = ss_init StateNormal, rc_type = co_init\<rparr>"

definition rc_reset :: "result_column \<Rightarrow> result_column" where
  "rc_reset c = \<lparr>rc_keySpace = ss_reset StateNormal (rc_keySpace c), rc_table = ss_reset StateNormal (rc_table c),
     rc_name = ss_reset StateNormal (rc_name c), rc_type = co_reset (rc_type c)\<rparr>"

definition rc_encode :: "bool \<Rightarrow> result_column encoder" where
  "rc_encode containsTableSpec c data =
     rbind (if containsTableSpec
            then rbind (string_encode (rc_keySpace c) data) (string_encode (rc_table c))
            else Inr data) (\<lambda>data.
     rbind (string_encode (rc_name c) data) (column_option_encode (rc_type c)))"

definition rc_decode ::
  "bool \<Rightarrow> result_column \<Rightarrow> option_store \<Rightarrow> bytes \<Rightarrow> (result_column \<times> option_store \<times> bytes) result" where
  "rc_decode containsTableSpec c st bs =
     rbind (if containsTableSpec
            then rbind (string_decode bs) (\<lambda>(keySpace, bs).
                 rbind (string_decode bs) (\<lambda>(table, bs).
                   Inr (c\<lparr>rc_keySpace := keySpace, rc_table := table\<rparr>, bs)))
            else Inr (c, bs)) (\<lambda>(c, bs).
     rbind (string_decode bs) (\<lambda>(name, bs).
     rbind (column_option_decode st bs) (\<lambda>(ty, st, bs).
       Inr (c\<lparr>rc_name := name, rc_type := ty\<rparr>, st, bs))))"

text \<open>
  The loop over the columns: a column that exists is decoded in place, the others are appended.
\<close>

fun decode_columns ::
  "bool \<Rightarrow> nat \<Rightarrow> result_column list \<Rightarrow> option_store \<Rightarrow> bytes \<Rightarrow>
   (result_column list \<times> option_store \<times> bytes) result" where
  "decode_columns spec 0 olds st bs = Inr ([], st, bs)"
| "decode_columns spec (Suc n) olds st bs =
     rbind (rc_decode spec (case olds of [] \<Rightarrow> rc_init | c # _ \<Rightarrow> c) st bs) (\<lambda>(c, st, bs).
     rbind (decode_columns spec n (tl olds) st bs) (\<lambda>(cs, st, bs). Inr (c # cs, st, bs)))"

section \<open>Metadata of rows\<close>

record rows_metadata =
  rm_flags :: u32
  rm_columnsCount :: u32
  rm_pagingState :: sized_string
  rm_globalKeySpace :: sized_string
  rm_globalTable :: sized_string
  rm_columns :: "result_column list"

definition rm_init :: rows_metadata where
  "rm_init = \<lparr>rm_flags = RMF_NoMetadata, rm_columnsCount = 0, rm_pagingState = ss_init StateNull,
     rm_globalKeySpace = ss_init StateNormal, rm_globalTable = ss_init StateNormal, rm_columns = []\<rparr>"

definition rm_reset :: "rows_metadata \<Rightarrow> rows_metadata" where
  "rm_reset m = m\<lparr>rm_flags := RMF_NoMetadata, rm_columnsCount := 0\<rparr>"

definition rm_getFlags :: "rows_metadata \<Rightarrow> u32" where
  "rm_getFlags m = rm_flags m"

text \<open>\<^verbatim>\<open>std::size_t\<close> from a signed integer: negative values wrap around.\<close>

definition size_of_int32 :: "u32 \<Rightarrow> u64" where
  "size_of_int32 n = scast n"

definition rm_getColumnsCount :: "rows_metadata \<Rightarrow> u64" where
  "rm_getColumnsCount m = size_of_int32 (rm_columnsCount m)"

definition rm_setColumnsCount :: "u64 \<Rightarrow> rows_metadata \<Rightarrow> rows_metadata" where
  "rm_setColumnsCount n m = m\<lparr>rm_columnsCount := ucast n\<rparr>"

definition rm_setPagingState :: "bytes \<Rightarrow> rows_metadata \<Rightarrow> rows_metadata" where
  "rm_setPagingState s m =
     m\<lparr>rm_pagingState := ss_set s (rm_pagingState m), rm_flags := enum_or (rm_getFlags m) RMF_HasMorePages\<rparr>"

definition rm_setGlobalKeySpaceAndTable :: "bytes \<Rightarrow> bytes \<Rightarrow> rows_metadata \<Rightarrow> rows_metadata" where
  "rm_setGlobalKeySpaceAndTable keySpace table m =
     m\<lparr>rm_globalKeySpace := ss_set keySpace (rm_globalKeySpace m), rm_globalTable := ss_set table (rm_globalTable m),
       rm_flags := enum_or (rm_getFlags m) RMF_GlobalTableSpec\<rparr>"

definition rm_setColumns :: "result_column list \<Rightarrow> rows_metadata \<Rightarrow> rows_metadata" where
  "rm_setColumns columns m =
     m\<lparr>rm_columnsCount := word_of_nat (length columns), rm_columns := columns,
       rm_flags := enum_and (rm_getFlags m) (enum_not RMF_NoMetadata)\<rparr>"

definition rm_encode :: "rows_metadata encoder" where
  "rm_encode m data =
     (let flags = rm_getFlags m in
      rbind (int_encode (rm_flags m) data) (\<lambda>data.
      rbind (int_encode (rm_columnsCount m) data) (\<lambda>data.
      rbind (if enumTrue (enum_and flags RMF_HasMorePages) then bytes_encode (rm_pagingState m) data
             else Inr data) (\<lambda>data.
      if enumFalse (enum_and flags RMF_NoMetadata) then
        let globalSpec = enumTrue (enum_and flags RMF_GlobalTableSpec) in
        rbind (if globalSpec
               then rbind (string_encode (rm_globalKeySpace m) data) (string_encode (rm_globalTable m))
               else Inr data) (\<lambda>data.
        if rm_getColumnsCount m \<noteq> word_of_nat (length (rm_columns m)) then Inl LogicException
        else encode_each (rc_encode (\<not> globalSpec)) (rm_columns m) data)
      else Inr data))))"

definition rm_decode ::
  "rows_metadata \<Rightarrow> option_store \<Rightarrow> bytes \<Rightarrow> (rows_metadata \<times> option_store \<times> bytes) result" where
  "rm_decode m st bs =
     rbind (int_decode bs) (\<lambda>(flags :: u32, bs).
     rbind (int_decode bs) (\<lambda>(columnsCount :: u32, bs).
     let m = m\<lparr>rm_flags := flags, rm_columnsCount := columnsCount\<rparr> in
     rbind (if enumTrue (enum_and flags RMF_HasMorePages)
            then rbind (bytes_decode bs) (\<lambda>(pagingState, bs). Inr (m\<lparr>rm_pagingState := pagingState\<rparr>, bs))
            else Inr (m, bs)) (\<lambda>(m, bs).
     if enumFalse (enum_and flags RMF_NoMetadata) then
       let globalSpec = enumTrue (enum_and flags RMF_GlobalTableSpec) in
       rbind (if globalSpec
              then rbind (string_decode bs) (\<lambda>(keySpace, bs).
                   rbind (string_decode bs) (\<lambda>(table, bs).
                     Inr (m\<lparr>rm_globalKeySpace := keySpace, rm_globalTable := table\<rparr>, bs)))
              else Inr (m, bs)) (\<lambda>(m, bs).
       if sint columnsCount < 0 then Inl LogicException
       else rbind (decode_columns (\<not> globalSpec) (unat columnsCount)
                    (take (unat columnsCount) (rm_columns m)) st bs) (\<lambda>(cs, st, bs).
         Inr (m\<lparr>rm_columns := cs\<rparr>, st, bs)))
     else Inr (m, st, bs))))"

section \<open>Metadata of prepared queries\<close>

record prepared_metadata =
  pm_flags :: u32
  pm_partitionKeyIndexes :: "u16 list"
  pm_globalKeySpace :: sized_string
  pm_globalTable :: sized_string
  pm_columns :: "result_column list"

definition pm_init :: prepared_metadata where
  "pm_init = \<lparr>pm_flags = 0, pm_partitionKeyIndexes = [], pm_globalKeySpace = ss_init StateNormal,
     pm_globalTable = ss_init StateNormal, pm_columns = []\<rparr>"

definition pm_reset :: "prepared_metadata \<Rightarrow> prepared_metadata" where
  "pm_reset m = m\<lparr>pm_flags := PMF_None, pm_partitionKeyIndexes := [],
     pm_globalKeySpace := ss_reset StateNormal (pm_globalKeySpace m),
     pm_globalTable := ss_reset StateNormal (pm_globalTable m), pm_columns := []\<rparr>"

definition pm_getFlags :: "prepared_metadata \<Rightarrow> u32" where
  "pm_getFlags m = pm_flags m"

definition pm_setPartitionKeyIndexes :: "u16 list \<Rightarrow> prepared_metadata \<Rightarrow> prepared_metadata" where
  "pm_setPartitionKeyIndexes ks m = m\<lparr>pm_partitionKeyIndexes := ks\<rparr>"

definition pm_setGlobalKeySpaceAndTable :: "bytes \<Rightarrow> bytes \<Rightarrow> prepared_metadata \<Rightarrow> prepared_metadata" where
  "pm_setGlobalKeySpaceAndTable keySpace table m =
     m\<lparr>pm_globalKeySpace := ss_set keySpace (pm_globalKeySpace m), pm_globalTable := ss_set table (pm_globalTable m),
       pm_flags := enum_or (pm_getFlags m) PMF_GlobalTableSpec\<rparr>"

definition pm_setColumns :: "result_column list \<Rightarrow> prepared_metadata \<Rightarrow> prepared_metadata" where
  "pm_setColumns columns m = m\<lparr>pm_columns := columns\<rparr>"

text \<open>A count that does not survive the conversion to a signed 32 bit integer is refused.\<close>

definition count_overflow :: "'a list \<Rightarrow> bool" where
  "count_overflow xs \<longleftrightarrow>
     (let n = word_of_nat (length xs) :: u32 in sint n < 0 \<or> unat n \<noteq> length xs)"

definition pm_encode :: "prepared_metadata encoder" where
  "pm_encode m data =
     (if count_overflow (pm_columns m) then Inl LogicException
      else if count_overflow (pm_partitionKeyIndexes m) then Inl LogicException
      else let flags = pm_getFlags m in
        rbind (int_encode (pm_flags m) data) (\<lambda>data.
        rbind (int_encode (word_of_nat (length (pm_columns m)) :: u32) data) (\<lambda>data.
        rbind (int_encode (word_of_nat (length (pm_partitionKeyIndexes m)) :: u32) data) (\<lambda>data.
        rbind (encode_each int_encode (pm_partitionKeyIndexes m) data) (\<lambda>data.
        let globalSpec = enumTrue (enum_and flags PMF_GlobalTableSpec) in
        rbind (if globalSpec
               then rbind (string_encode (pm_globalKeySpace m) data) (string_encode (pm_globalTable m))
               else Inr data) (\<lambda>data.
        encode_each (rc_encode (\<not> globalSpec)) (pm_columns m) data))))))"

definition pm_decode ::
  "prepared_metadata \<Rightarrow> option_store \<Rightarrow> bytes \<Rightarrow> (prepared_metadata \<times> option_store \<times> bytes) result" where
  "pm_decode m st bs =
     rbind (int_decode bs) (\<lambda>(flags :: u32, bs).
     rbind (int_decode bs) (\<lambda>(columnsCount :: u32, bs).
     rbind (int_decode bs) (\<lambda>(partitionKeyIndexesCount :: u32, bs).
     if sint columnsCount < 0 then Inl LogicException
     else if sint partitionKeyIndexesCount < 0 then Inl LogicException
     else
       rbind (decode_n int_decode (unat partitionKeyIndexesCount) bs) (\<lambda>(indexes, bs).
       let m = m\<lparr>pm_flags := flags, pm_partitionKeyIndexes := indexes\<rparr>;
           globalSpec = enumTrue (enum_and flags PMF_GlobalTableSpec) in
       rbind (if globalSpec
              then rbind (string_decode bs) (\<lambda>(keySpace, bs).
                   rbind (string_decode bs) (\<lambda>(table, bs).
                     Inr (m\<lparr>pm_globalKeySpace := keySpace, pm_globalTable := table\<rparr>, bs)))
              else Inr (m, bs)) (\<lambda>(m, bs).
       rbind (decode_columns (\<not> globalSpec) (unat columnsCount) [] st bs) (\<lambda>(cs, st, bs).
         Inr (m\<lparr>pm_columns := cs\<rparr>, st, bs)))))))"

section \<open>What is encoded is decoded\<close>

definition column_ok :: "bool \<Rightarrow> result_column \<Rightarrow> ctype \<Rightarrow> bool" where
  "column_ok spec c t \<longleftrightarrow> rc_type c = ct_option t \<and> ct_ok t \<and> ct_nodup t \<and> string_ok (rc_name c) \<and>
     (spec \<longrightarrow> string_ok (rc_keySpace c) \<and> string_ok (rc_table c))"

definition column_wire :: "bool \<Rightarrow> result_column \<times> ctype \<Rightarrow> bytes" where
  "column_wire spec p =
     (if spec then short_wire (rc_keySpace (fst p)) @ short_wire (rc_table (fst p)) else []) @
     short_wire (rc_name (fst p)) @ ct_wire (snd p)"

text \<open>What a column carries when its table is given globally.\<close>

definition column_view :: "bool \<Rightarrow> result_column \<Rightarrow> result_column" where
  "column_view spec c =
     (if spec then c else c\<lparr>rc_keySpace := ss_init StateNormal, rc_table := ss_init StateNormal\<rparr>)"

lemma column_option_encode_wire: "ct_ok t \<Longrightarrow> column_option_encode (ct_option t) data = Inr (data @ ct_wire t)"
  using ct_payload_nonempty [of t]
  by (auto simp: column_option_encode_def ct_option_def ct_wire_def codec_simps)

lemma rc_encode_wire: "column_ok spec c t \<Longrightarrow> rc_encode spec c data = Inr (data @ column_wire spec (c, t))"
  by (simp add: column_ok_def rc_encode_def column_wire_def string_codec.enc_wire column_option_encode_wire)

lemma rc_decode_wire:
  assumes "column_ok spec c t"
  obtains c' st' where "rc_decode spec old st (column_wire spec (c, t) @ rest) = Inr (c', st', rest)"
    and "column_view spec c' = column_view spec c"
proof -
  from assms obtain st' where "column_option_decode st (ct_wire t @ rest) = Inr (ct_option t, st', rest)"
    using column_option_decode_wire [of t st rest] by (auto simp: column_ok_def)
  with assms show thesis
    by (intro that [of "if spec then c else old\<lparr>rc_name := rc_name c, rc_type := rc_type c\<rparr>" st'])
      (auto simp: column_ok_def rc_decode_def column_wire_def column_view_def string_codec.dec_wire)
qed

lemma encode_columns_wire:
  "list_all2 (column_ok spec) cs ts \<Longrightarrow>
   encode_each (rc_encode spec) cs data = Inr (data @ concat (map (column_wire spec) (zip cs ts)))"
  by (induction cs ts arbitrary: data rule: list_all2_induct) (simp_all add: rc_encode_wire)

lemma decode_columns_wire:
  "list_all2 (column_ok spec) cs ts \<Longrightarrow>
   \<exists>cs' st'. decode_columns spec (length cs) olds st (concat (map (column_wire spec) (zip cs ts)) @ rest) =
      Inr (cs', st', rest) \<and> map (column_view spec) cs' = map (column_view spec) cs"
proof (induction cs ts arbitrary: olds st rule: list_all2_induct)
  case (Cons c cs t ts)
  let ?old = "case olds of [] \<Rightarrow> rc_init | c # _ \<Rightarrow> c"
  obtain c' st' where c: "rc_decode spec ?old st (column_wire spec (c, t) @
        concat (map (column_wire spec) (zip cs ts)) @ rest) =
      Inr (c', st', concat (map (column_wire spec) (zip cs ts)) @ rest)"
    and v: "column_view spec c' = column_view spec c"
    using rc_decode_wire [OF Cons.hyps(1)] by blast
  from Cons.IH [of "tl olds" st'] c v show ?case by auto
qed simp

text \<open>The parts of the metadata that its flags say are present.\<close>

definition rm_view :: "rows_metadata \<Rightarrow> u32 \<times> u32 \<times> sized_string option \<times> (sized_string \<times> sized_string) option \<times> result_column list option" where
  "rm_view m =
     (let meta = enumFalse (enum_and (rm_flags m) RMF_NoMetadata);
          global = enumTrue (enum_and (rm_flags m) RMF_GlobalTableSpec)
      in (rm_flags m, rm_columnsCount m,
          if enumTrue (enum_and (rm_flags m) RMF_HasMorePages) then Some (rm_pagingState m) else None,
          if meta \<and> global then Some (rm_globalKeySpace m, rm_globalTable m) else None,
          if meta then Some (map (column_view (\<not> global)) (rm_columns m)) else None))"

definition rm_ok :: "rows_metadata \<Rightarrow> ctype list \<Rightarrow> bool" where
  "rm_ok m ts \<longleftrightarrow>
     (let meta = enumFalse (enum_and (rm_flags m) RMF_NoMetadata);
          global = enumTrue (enum_and (rm_flags m) RMF_GlobalTableSpec)
      in (enumTrue (enum_and (rm_flags m) RMF_HasMorePages) \<longrightarrow> bytes_ok (rm_pagingState m)) \<and>
         (meta \<and> global \<longrightarrow> string_ok (rm_globalKeySpace m) \<and> string_ok (rm_globalTable m)) \<and>
         (meta \<longrightarrow> rm_columnsCount m = word_of_nat (length (rm_columns m)) \<and> length (rm_columns m) < 2 ^ 31 \<and>
            list_all2 (column_ok (\<not> global)) (rm_columns m) ts))"

definition rm_wire :: "rows_metadata \<Rightarrow> ctype list \<Rightarrow> bytes" where
  "rm_wire m ts =
     (let meta = enumFalse (enum_and (rm_flags m) RMF_NoMetadata);
          global = enumTrue (enum_and (rm_flags m) RMF_GlobalTableSpec)
      in int_wire (rm_flags m) @ int_wire (rm_columnsCount m) @
         (if enumTrue (enum_and (rm_flags m) RMF_HasMorePages) then long_wire (rm_pagingState m) else []) @
         (if meta then
            (if global then short_wire (rm_globalKeySpace m) @ short_wire (rm_globalTable m) else []) @
            concat (map (column_wire (\<not> global)) (zip (rm_columns m) ts))
          else []))"

lemma size_of_int32_nat: "n < 2 ^ 31 \<Longrightarrow> size_of_int32 (word_of_nat n) = word_of_nat n"
proof -
  assume "n < 2 ^ 31"
  then have "word_of_int (sint (word_of_nat n :: u32)) = (word_of_nat n :: u64)"
    by (simp add: sint_u32_of_nat)
  then show ?thesis by (simp only: size_of_int32_def of_int_sint)
qed

lemma rm_encode_wire: "rm_ok m ts \<Longrightarrow> rm_encode m data = Inr (data @ rm_wire m ts)"
  using size_of_int32_nat [of "length (rm_columns m)"]
  by (auto simp: rm_ok_def rm_encode_def rm_wire_def rm_getFlags_def Let_def codec_simps bytes_codec.enc_wire
      string_codec.enc_wire encode_columns_wire rm_getColumnsCount_def)

lemma rm_decode_wire:
  assumes ok: "rm_ok m ts"
  shows "\<exists>m' st'. rm_decode m0 st (rm_wire m ts @ rest) = Inr (m', st', rest) \<and> rm_view m' = rm_view m"
proof (cases "enumFalse (enum_and (rm_flags m) RMF_NoMetadata)")
  case False
  with ok show ?thesis
    by (auto simp: rm_ok_def rm_decode_def rm_wire_def rm_view_def Let_def codec_simps bytes_codec.dec_wire)
next
  case True
  let ?global = "enumTrue (enum_and (rm_flags m) RMF_GlobalTableSpec)"
  from ok True have cols: "list_all2 (column_ok (\<not> ?global)) (rm_columns m) ts"
    and count: "rm_columnsCount m = word_of_nat (length (rm_columns m))" and len: "length (rm_columns m) < 2 ^ 31"
    by (simp_all add: rm_ok_def Let_def)
  have n: "sint (word_of_nat (length (rm_columns m)) :: u32) = int (length (rm_columns m))"
      "unat (word_of_nat (length (rm_columns m)) :: u32) = length (rm_columns m)"
    using len by (simp_all add: sint_u32_of_nat unat_of_nat take_bit_nat_eq_self)
  obtain cs' st' where "decode_columns (\<not> ?global) (length (rm_columns m))
        (take (length (rm_columns m)) (rm_columns m0)) st
        (concat (map (column_wire (\<not> ?global)) (zip (rm_columns m) ts)) @ rest) = Inr (cs', st', rest)"
    and view: "map (column_view (\<not> ?global)) cs' = map (column_view (\<not> ?global)) (rm_columns m)"
    using decode_columns_wire [OF cols] by blast
  with ok True show ?thesis
    by (cases ?global; cases "enumTrue (enum_and (rm_flags m) RMF_HasMorePages)")
      (simp_all add: rm_ok_def rm_decode_def rm_wire_def rm_view_def Let_def n count codec_simps bytes_codec.dec_wire
        string_codec.dec_wire)
qed

text \<open>
  \<^verbatim>\<open>reset\<close> leaves the paging state behind, and decoding metadata of a last page
  keeps it: a reused object can report more pages when there are none.
\<close>

lemma rm_decode_keeps_paging:
  assumes "rm_decode (rm_reset m0) st bs = Inr (m', st', rest)"
    and "enumFalse (enum_and (rm_flags m') RMF_HasMorePages)"
  shows "rm_pagingState m' = rm_pagingState m0"
  using assms
  by (auto simp: rm_decode_def rm_reset_def rbind_eq_Inr Let_def enumTrue_def enumFalse_def split: if_splits
      dest: arg_cong [where f = rm_pagingState])

section \<open>Round trip of the prepared metadata\<close>

definition pm_view :: "prepared_metadata \<Rightarrow> u32 \<times> u16 list \<times> (sized_string \<times> sized_string) option \<times> result_column list" where
  "pm_view m =
     (let global = enumTrue (enum_and (pm_flags m) PMF_GlobalTableSpec)
      in (pm_flags m, pm_partitionKeyIndexes m,
          if global then Some (pm_globalKeySpace m, pm_globalTable m) else None,
          map (column_view (\<not> global)) (pm_columns m)))"

definition pm_ok :: "prepared_metadata \<Rightarrow> ctype list \<Rightarrow> bool" where
  "pm_ok m ts \<longleftrightarrow>
     (let global = enumTrue (enum_and (pm_flags m) PMF_GlobalTableSpec)
      in (global \<longrightarrow> string_ok (pm_globalKeySpace m) \<and> string_ok (pm_globalTable m)) \<and>
         length (pm_columns m) < 2 ^ 31 \<and> length (pm_partitionKeyIndexes m) < 2 ^ 31 \<and>
         list_all2 (column_ok (\<not> global)) (pm_columns m) ts)"

definition pm_wire :: "prepared_metadata \<Rightarrow> ctype list \<Rightarrow> bytes" where
  "pm_wire m ts =
     (let global = enumTrue (enum_and (pm_flags m) PMF_GlobalTableSpec)
      in int_wire (pm_flags m) @ int_wire (word_of_nat (length (pm_columns m)) :: u32) @
         int_wire (word_of_nat (length (pm_partitionKeyIndexes m)) :: u32) @
         concat (map int_wire (pm_partitionKeyIndexes m)) @
         (if global then short_wire (pm_globalKeySpace m) @ short_wire (pm_globalTable m) else []) @
         concat (map (column_wire (\<not> global)) (zip (pm_columns m) ts)))"

lemma count_small: "length xs < 2 ^ 31 \<Longrightarrow> \<not> count_overflow xs"
  by (simp add: count_overflow_def Let_def sint_u32_of_nat unat_of_nat take_bit_nat_eq_self)

lemma encode_shorts: "encode_each int_encode ks data = Inr (data @ concat (map int_wire (ks :: u16 list)))"
  by (induction ks arbitrary: data) (simp_all add: codec_simps)

lemma decode_shorts: "decode_n int_decode (length ks) (concat (map int_wire ks) @ rest) = Inr (ks :: u16 list, rest)"
  by (induction ks) (simp_all add: codec_simps)

lemma pm_encode_wire: "pm_ok m ts \<Longrightarrow> pm_encode m data = Inr (data @ pm_wire m ts)"
  by (auto simp: pm_ok_def pm_encode_def pm_wire_def pm_getFlags_def Let_def count_small codec_simps encode_shorts
      string_codec.enc_wire encode_columns_wire)

lemma pm_decode_wire:
  assumes ok: "pm_ok m ts"
  shows "\<exists>m' st'. pm_decode m0 st (pm_wire m ts @ rest) = Inr (m', st', rest) \<and> pm_view m' = pm_view m"
proof -
  let ?global = "enumTrue (enum_and (pm_flags m) PMF_GlobalTableSpec)"
  from ok have cols: "list_all2 (column_ok (\<not> ?global)) (pm_columns m) ts"
    and len: "length (pm_columns m) < 2 ^ 31" "length (pm_partitionKeyIndexes m) < 2 ^ 31"
    by (simp_all add: pm_ok_def Let_def)
  have n: "sint (word_of_nat (length (pm_columns m)) :: u32) = int (length (pm_columns m))"
      "unat (word_of_nat (length (pm_columns m)) :: u32) = length (pm_columns m)"
      "sint (word_of_nat (length (pm_partitionKeyIndexes m)) :: u32) = int (length (pm_partitionKeyIndexes m))"
      "unat (word_of_nat (length (pm_partitionKeyIndexes m)) :: u32) = length (pm_partitionKeyIndexes m)"
    using len by (simp_all add: sint_u32_of_nat unat_of_nat take_bit_nat_eq_self)
  obtain cs' st' where "decode_columns (\<not> ?global) (length (pm_columns m)) [] st
        (concat (map (column_wire (\<not> ?global)) (zip (pm_columns m) ts)) @ rest) = Inr (cs', st', rest)"
    and view: "map (column_view (\<not> ?global)) cs' = map (column_view (\<not> ?global)) (pm_columns m)"
    using decode_columns_wire [OF cols] by blast
  with ok show ?thesis
    by (cases ?global)
      (simp_all add: pm_ok_def pm_decode_def pm_wire_def pm_view_def Let_def n codec_simps decode_shorts
        string_codec.dec_wire)
qed

section \<open>The properties of the metadata\<close>

text \<open>
  A column type in which no collection kind is nested in itself survives encoding and decoding,
  whatever an earlier decode left in the scratch objects.
\<close>

lemma column_type_roundtrip:
  assumes "ct_ok t" and "ct_nodup t"
  shows "\<exists>st'. rbind (column_option_encode (ct_option t) []) (\<lambda>w. column_option_decode st (w @ rest)) =
     Inr (ct_option t, st', rest)"
proof -
  obtain st' where "column_option_decode st (ct_wire t @ rest) = Inr (ct_option t, st', rest)"
    using column_option_decode_wire [OF assms, of st rest] by blast
  then show ?thesis by (simp add: column_option_encode_wire [OF assms(1)])
qed

lemma column_type_roundtrip_witness:
  "\<exists>st'. rbind (column_option_encode (ct_option (TMap (TScalar CT_Int) (TList (TCustom [0x41])))) [])
      (\<lambda>w. column_option_decode os_init (w @ [7])) =
     Inr (ct_option (TMap (TScalar CT_Int) (TList (TCustom [0x41]))), st', [7])"
  by (rule column_type_roundtrip) (simp_all add: requires_payload_def CT_defs)

text \<open>
  The metadata of a rows result is read back as it was written, into any object from the free
  list: what its flags say is present agrees.
\<close>

lemma rows_metadata_roundtrip:
  assumes "rm_ok m ts"
  shows "\<exists>m' st'. rbind (rm_encode m []) (\<lambda>w. rm_decode m0 st (w @ rest)) = Inr (m', st', rest) \<and>
     rm_view m' = rm_view m"
  using rm_decode_wire [OF assms] by (simp add: rm_encode_wire [OF assms])

definition metadata_example :: rows_metadata where
  "metadata_example = rm_init\<lparr>rm_flags := RMF_HasMorePages, rm_columnsCount := 1,
     rm_pagingState := \<lparr>ss_value = [1, 2], ss_state = StateNormal\<rparr>,
     rm_columns := [rc_init\<lparr>rc_name := \<lparr>ss_value = [0x61], ss_state = StateNormal\<rparr>, rc_type := ct_option (TScalar CT_Int)\<rparr>]\<rparr>"

lemma rows_metadata_roundtrip_witness:
  "\<exists>m' st'. rbind (rm_encode metadata_example []) (\<lambda>w. rm_decode rm_init os_init (w @ [9])) = Inr (m', st', [9]) \<and>
     rm_view m' = rm_view metadata_example"
  by (rule rows_metadata_roundtrip [where ts = "[TScalar CT_Int]"])
    (simp add: rm_ok_def metadata_example_def rm_init_def rc_init_def column_ok_def bytes_ok_def sized_ok_def
      string_ok_def le_length_max_iff ss_init_def requires_payload_def CT_defs RMF_defs enumTrue_def enumFalse_def
      enum_and_def Let_def)

text \<open>
  Resetting the metadata does not clear the paging state, and decoding the metadata of a last
  page leaves it as it was: the object then shows the paging state of its previous use.
\<close>

lemma stale_paging_state:
  assumes "rm_decode (rm_reset m0) st bs = Inr (m', st', rest)"
    and "enumFalse (enum_and (rm_flags m') RMF_HasMorePages)"
  shows "rm_pagingState m' = rm_pagingState m0"
  by (rule rm_decode_keeps_paging [OF assms])

lemma stale_paging_state_witness:
  "\<exists>m'. rm_decode (rm_reset metadata_example) os_init (int_wire RMF_NoMetadata @ int_wire (0 :: u32) @ []) =
     Inr (m', os_init, []) \<and> rm_pagingState m' = \<lparr>ss_value = [1, 2], ss_state = StateNormal\<rparr>"
proof -
  let ?bs = "int_wire RMF_NoMetadata @ int_wire (0 :: u32) @ []"
  let ?m = "(rm_reset metadata_example)\<lparr>rm_flags := RMF_NoMetadata, rm_columnsCount := 0\<rparr>"
  have run: "rm_decode (rm_reset metadata_example) os_init ?bs = Inr (?m, os_init, [])"
    by (simp only: rm_decode_def codec_simps Let_def rbind_simps prod.case)
      (simp add: RMF_defs enumTrue_def enumFalse_def enum_and_def)
  have "enumFalse (enum_and (rm_flags ?m) RMF_HasMorePages)"
    by (simp add: RMF_defs enumFalse_def enum_and_def)
  from stale_paging_state [OF run this] run show ?thesis by (auto simp: metadata_example_def)
qed

end
