(* ===== verification/Response_Messages.thy ===== *)
theory Response_Messages
  imports Message_Header Result_Metadata Reusable
begin

text \<open>
  The response messages, \<^verbatim>\<open>ResultSet\<close> and the factory that picks the message
  type from the opcode. As with the metadata, decoding a body updates an object that may come
  from the free list.
\<close>

section \<open>Result sets\<close>

text \<open>
  The buffer is \<open>None\<close> when the temporary buffer holds a null pointer; the two pointers are
  offsets into it, \<open>None\<close> for null.
\<close>

record result_set_data =
  rsd_rowsCount :: u64
  rsd_columnsCount :: u64
  rsd_pagingState :: bytes
  rsd_buffer :: "bytes option"
  rsd_decodePtr :: "nat option"
  rsd_decodeEnd :: "nat option"

definition rsd_init :: result_set_data where
  "rsd_init = \<lparr>rsd_rowsCount = 0, rsd_columnsCount = 0, rsd_pagingState = [], rsd_buffer = None,
     rsd_decodePtr = None, rsd_decodeEnd = None\<rparr>"

definition rsd_freeResources :: "result_set_data \<Rightarrow> result_set_data" where
  "rsd_freeResources d = d\<lparr>rsd_buffer := None, rsd_decodePtr := None, rsd_decodeEnd := None\<rparr>"

definition rsd_reset ::
  "u64 \<Rightarrow> u64 \<Rightarrow> bytes \<Rightarrow> bytes option \<Rightarrow> nat \<Rightarrow> nat \<Rightarrow> result_set_data \<Rightarrow> result_set_data result" where
  "rsd_reset rowsCount columnsCount pagingState buffer fromOffset toOffset d =
     (let d = d\<lparr>rsd_rowsCount := rowsCount, rsd_columnsCount := columnsCount, rsd_pagingState := pagingState,
                rsd_buffer := buffer\<rparr> in
      case buffer of
        None \<Rightarrow> Inl LogicException
      | Some b \<Rightarrow>
          if toOffset > length b then Inl LogicException
          else if fromOffset > toOffset then Inl LogicException
          else Inr (d\<lparr>rsd_decodePtr := Some fromOffset, rsd_decodeEnd := Some toOffset\<rparr>))"

type_synonym result_set = "result_set_data option"

definition rs_isValid :: "result_set \<Rightarrow> bool" where
  "rs_isValid rs \<longleftrightarrow> rs \<noteq> None"

definition rs_null :: result_set where
  "rs_null = None"

definition rs_getRowsCount :: "result_set \<Rightarrow> u64 result" where
  "rs_getRowsCount rs = (case rs of None \<Rightarrow> Inl UndefinedBehaviour | Some d \<Rightarrow> Inr (rsd_rowsCount d))"

definition rs_getColumnsCount :: "result_set \<Rightarrow> u64 result" where
  "rs_getColumnsCount rs = (case rs of None \<Rightarrow> Inl UndefinedBehaviour | Some d \<Rightarrow> Inr (rsd_columnsCount d))"

definition rs_getPagingState :: "result_set \<Rightarrow> bytes result" where
  "rs_getPagingState rs = (case rs of None \<Rightarrow> Inl UndefinedBehaviour | Some d \<Rightarrow> Inr (rsd_pagingState d))"

text \<open>The bytes between the two pointers: the rows, not decoded yet.\<close>

definition rs_content :: "result_set \<Rightarrow> bytes" where
  "rs_content rs =
     (case rs of
        Some d \<Rightarrow> (case (rsd_buffer d, rsd_decodePtr d, rsd_decodeEnd d) of
            (Some b, Some p, Some e) \<Rightarrow> drop p (take e b)
          | _ \<Rightarrow> [])
      | None \<Rightarrow> [])"

section \<open>The messages\<close>

record error_message =
  er_header :: message_header
  er_errorCode :: u32
  er_errorMessage :: sized_string
  er_extraContents :: bytes

definition er_init :: error_message where
  "er_init = \<lparr>er_header = mh_init, er_errorCode = 0, er_errorMessage = ss_init StateNormal, er_extraContents = []\<rparr>"

definition er_reset :: "message_header \<Rightarrow> error_message \<Rightarrow> error_message" where
  "er_reset h m = m\<lparr>er_header := h, er_errorCode := 0, er_errorMessage := ss_reset StateNormal (er_errorMessage m),
     er_extraContents := []\<rparr>"

definition er_decodeBody :: "bytes \<Rightarrow> error_message \<Rightarrow> error_message result" where
  "er_decodeBody buffer m =
     rbind (int_decode buffer) (\<lambda>(code, bs).
     rbind (string_decode bs) (\<lambda>(msg, bs).
       Inr (m\<lparr>er_errorCode := code, er_errorMessage := msg, er_extraContents := bs\<rparr>)))"

record event_message =
  ev_header :: message_header
  ev_type :: sized_string
  ev_data :: bytes

definition ev_init :: event_message where
  "ev_init = \<lparr>ev_header = mh_init, ev_type = ss_init StateNormal, ev_data = []\<rparr>"

definition ev_reset :: "message_header \<Rightarrow> event_message \<Rightarrow> event_message" where
  "ev_reset h m = m\<lparr>ev_header := h, ev_type := ss_reset StateNormal (ev_type m), ev_data := []\<rparr>"

definition ev_decodeBody :: "bytes \<Rightarrow> event_message \<Rightarrow> event_message result" where
  "ev_decodeBody buffer m =
     rbind (string_decode buffer) (\<lambda>(ty, bs). Inr (m\<lparr>ev_type := ty, ev_data := bs\<rparr>))"

record ready_message =
  rd_header :: message_header

definition rd_decodeBody :: "bytes \<Rightarrow> ready_message \<Rightarrow> ready_message result" where
  "rd_decodeBody buffer m = Inr m"

record supported_message =
  sp_header :: message_header
  sp_options :: "(sized_string \<times> sized_string list) list"

definition sp_init :: supported_message where
  "sp_init = \<lparr>sp_header = mh_init, sp_options = []\<rparr>"

definition sp_reset :: "message_header \<Rightarrow> supported_message \<Rightarrow> supported_message" where
  "sp_reset h m = m\<lparr>sp_header := h, sp_options := []\<rparr>"

definition sp_decodeBody :: "bytes \<Rightarrow> supported_message \<Rightarrow> supported_message result" where
  "sp_decodeBody buffer m = rbind (string_multimap_decode buffer) (\<lambda>(opts, bs). Inr (m\<lparr>sp_options := opts\<rparr>))"

record authenticate_message =
  au_header :: message_header
  au_authenticatorClass :: sized_string

definition au_init :: authenticate_message where
  "au_init = \<lparr>au_header = mh_init, au_authenticatorClass = ss_init StateNormal\<rparr>"

definition au_reset :: "message_header \<Rightarrow> authenticate_message \<Rightarrow> authenticate_message" where
  "au_reset h m = m\<lparr>au_header := h, au_authenticatorClass := ss_reset StateNormal (au_authenticatorClass m)\<rparr>"

definition au_decodeBody :: "bytes \<Rightarrow> authenticate_message \<Rightarrow> authenticate_message result" where
  "au_decodeBody buffer m = rbind (string_decode buffer) (\<lambda>(c, bs). Inr (m\<lparr>au_authenticatorClass := c\<rparr>))"

text \<open>AUTH\_CHALLENGE and AUTH\_SUCCESS both carry one token.\<close>

record auth_token_message =
  at_header :: message_header
  at_token :: sized_string

definition at_init :: auth_token_message where
  "at_init = \<lparr>at_header = mh_init, at_token = ss_init StateNull\<rparr>"

definition at_reset :: "message_header \<Rightarrow> auth_token_message \<Rightarrow> auth_token_message" where
  "at_reset h m = m\<lparr>at_header := h, at_token := ss_reset StateNull (at_token m)\<rparr>"

definition ac_decodeBody :: "bytes \<Rightarrow> auth_token_message \<Rightarrow> auth_token_message result" where
  "ac_decodeBody buffer m = rbind (bytes_decode buffer) (\<lambda>(t, bs). Inr (m\<lparr>at_token := t\<rparr>))"

definition as_decodeBody :: "bytes \<Rightarrow> auth_token_message \<Rightarrow> auth_token_message result" where
  "as_decodeBody buffer m = rbind (bytes_decode buffer) (\<lambda>(t, bs). Inr (m\<lparr>at_token := t\<rparr>))"

section \<open>The result message\<close>

record result_message =
  re_header :: message_header
  re_kind :: u32
  re_rowsMetadata :: rows_metadata
  re_rowsCount :: u32
  re_resultSet :: result_set
  re_keySpaceSet :: sized_string
  re_preparedQueryId :: sized_string
  re_preparedMetadata :: prepared_metadata
  re_preparedRowsMetadata :: rows_metadata
  re_schemaChangeType :: sized_string
  re_schemaChangeTarget :: sized_string
  re_schemaChangeOptions :: bytes

definition re_init :: result_message where
  "re_init = \<lparr>re_header = mh_init, re_kind = 0, re_rowsMetadata = rm_init, re_rowsCount = 0, re_resultSet = rs_null,
     re_keySpaceSet = ss_init StateNormal, re_preparedQueryId = ss_init StateNormal, re_preparedMetadata = pm_init,
     re_preparedRowsMetadata = rm_init, re_schemaChangeType = ss_init StateNormal,
     re_schemaChangeTarget = ss_init StateNormal, re_schemaChangeOptions = []\<rparr>"

definition re_reset :: "message_header \<Rightarrow> result_message \<Rightarrow> result_message" where
  "re_reset h m =
     m\<lparr>re_header := h, re_kind := 0, re_rowsMetadata := rm_reset (re_rowsMetadata m), re_rowsCount := 0,
       re_resultSet := rs_null, re_keySpaceSet := ss_reset StateNormal (re_keySpaceSet m),
       re_preparedQueryId := ss_reset StateNormal (re_preparedQueryId m),
       re_preparedMetadata := pm_reset (re_preparedMetadata m),
       re_preparedRowsMetadata := rm_reset (re_preparedRowsMetadata m),
       re_schemaChangeType := ss_reset StateNormal (re_schemaChangeType m),
       re_schemaChangeTarget := ss_reset StateNormal (re_schemaChangeTarget m), re_schemaChangeOptions := []\<rparr>"

definition re_getKind :: "result_message \<Rightarrow> u32" where
  "re_getKind m = re_kind m"

text \<open>The paging state is moved into the result set; a moved-from string is empty.\<close>

definition re_decodeBody :: "bytes \<Rightarrow> result_message \<Rightarrow> option_store \<Rightarrow> (result_message \<times> option_store) result" where
  "re_decodeBody buffer m st =
     rbind (int_decode buffer) (\<lambda>(kind, bs).
     let m = m\<lparr>re_kind := kind\<rparr> in
     if kind = RK_Void then Inr (m, st)
     else if kind = RK_Rows then
       rbind (rm_decode (re_rowsMetadata m) st bs) (\<lambda>(meta, st, bs).
       rbind (int_decode bs) (\<lambda>(rowsCount, bs).
       rbind (rsd_reset (size_of_int32 rowsCount) (rm_getColumnsCount meta) (ss_value (rm_pagingState meta))
                (Some buffer) (length buffer - length bs) (length buffer) rsd_init) (\<lambda>d.
         Inr (m\<lparr>re_rowsMetadata := meta\<lparr>rm_pagingState := (rm_pagingState meta)\<lparr>ss_value := []\<rparr>\<rparr>,
                re_rowsCount := rowsCount, re_resultSet := Some d\<rparr>, st))))
     else if kind = RK_SetKeySpace then
       rbind (string_decode bs) (\<lambda>(keySpace, bs). Inr (m\<lparr>re_keySpaceSet := keySpace\<rparr>, st))
     else if kind = RK_Prepared then
       rbind (short_bytes_decode bs) (\<lambda>(pid, bs).
       rbind (pm_decode (re_preparedMetadata m) st bs) (\<lambda>(pm, st, bs).
       rbind (rm_decode (re_preparedRowsMetadata m) st bs) (\<lambda>(rm, st, bs).
         Inr (m\<lparr>re_preparedQueryId := pid, re_preparedMetadata := pm, re_preparedRowsMetadata := rm\<rparr>, st))))
     else if kind = RK_SchemaChange then
       rbind (string_decode bs) (\<lambda>(ty, bs).
       rbind (string_decode bs) (\<lambda>(target, bs).
         Inr (m\<lparr>re_schemaChangeType := ty, re_schemaChangeTarget := target, re_schemaChangeOptions := bs\<rparr>, st)))
     else Inl LogicException)"

section \<open>The factory\<close>

datatype response =
    RespResult result_message
  | RespError error_message
  | RespEvent event_message
  | RespReady ready_message
  | RespSupported supported_message
  | RespAuthenticate authenticate_message
  | RespAuthSuccess auth_token_message
  | RespAuthChallenge auth_token_message

record response_pools =
  po_result :: "result_message reusable_storage"
  po_error :: "error_message reusable_storage"
  po_event :: "event_message reusable_storage"
  po_ready :: "ready_message reusable_storage"
  po_supported :: "supported_message reusable_storage"
  po_authenticate :: "authenticate_message reusable_storage"
  po_authSuccess :: "auth_token_message reusable_storage"
  po_authChallenge :: "auth_token_message reusable_storage"

definition makeResponseMessage :: "message_header \<Rightarrow> response_pools \<Rightarrow> (response \<times> response_pools) result" where
  "makeResponseMessage h po =
     (let ty = mh_getOpCode h in
      if ty = MT_Result then
        let (m, s) = make_reusable (re_reset h) re_init (po_result po) in Inr (RespResult m, po\<lparr>po_result := s\<rparr>)
      else if ty = MT_Error then
        let (m, s) = make_reusable (er_reset h) er_init (po_error po) in Inr (RespError m, po\<lparr>po_error := s\<rparr>)
      else if ty = MT_Event then
        let (m, s) = make_reusable (ev_reset h) ev_init (po_event po) in Inr (RespEvent m, po\<lparr>po_event := s\<rparr>)
      else if ty = MT_Ready then
        let (m, s) = make_reusable (\<lambda>m. m\<lparr>rd_header := h\<rparr>) \<lparr>rd_header = mh_init\<rparr> (po_ready po)
        in Inr (RespReady m, po\<lparr>po_ready := s\<rparr>)
      else if ty = MT_Supported then
        let (m, s) = make_reusable (sp_reset h) sp_init (po_supported po) in Inr (RespSupported m, po\<lparr>po_supported := s\<rparr>)
      else if ty = MT_Authenticate then
        let (m, s) = make_reusable (au_reset h) au_init (po_authenticate po)
        in Inr (RespAuthenticate m, po\<lparr>po_authenticate := s\<rparr>)
      else if ty = MT_AuthSuccess then
        let (m, s) = make_reusable (at_reset h) at_init (po_authSuccess po)
        in Inr (RespAuthSuccess m, po\<lparr>po_authSuccess := s\<rparr>)
      else if ty = MT_AuthChallenge then
        let (m, s) = make_reusable (at_reset h) at_init (po_authChallenge po)
        in Inr (RespAuthChallenge m, po\<lparr>po_authChallenge := s\<rparr>)
      else Inl NotImplementedException)"

text \<open>The virtual calls on a response.\<close>

fun response_header :: "response \<Rightarrow> message_header" where
  "response_header (RespResult m) = re_header m"
| "response_header (RespError m) = er_header m"
| "response_header (RespEvent m) = ev_header m"
| "response_header (RespReady m) = rd_header m"
| "response_header (RespSupported m) = sp_header m"
| "response_header (RespAuthenticate m) = au_header m"
| "response_header (RespAuthSuccess m) = at_header m"
| "response_header (RespAuthChallenge m) = at_header m"

fun response_decodeBody :: "bytes \<Rightarrow> response \<Rightarrow> option_store \<Rightarrow> (response \<times> option_store) result" where
  "response_decodeBody b (RespResult m) st = rbind (re_decodeBody b m st) (\<lambda>(m, st). Inr (RespResult m, st))"
| "response_decodeBody b (RespError m) st = rbind (er_decodeBody b m) (\<lambda>m. Inr (RespError m, st))"
| "response_decodeBody b (RespEvent m) st = rbind (ev_decodeBody b m) (\<lambda>m. Inr (RespEvent m, st))"
| "response_decodeBody b (RespReady m) st = rbind (rd_decodeBody b m) (\<lambda>m. Inr (RespReady m, st))"
| "response_decodeBody b (RespSupported m) st = rbind (sp_decodeBody b m) (\<lambda>m. Inr (RespSupported m, st))"
| "response_decodeBody b (RespAuthenticate m) st = rbind (au_decodeBody b m) (\<lambda>m. Inr (RespAuthenticate m, st))"
| "response_decodeBody b (RespAuthSuccess m) st = rbind (as_decodeBody b m) (\<lambda>m. Inr (RespAuthSuccess m, st))"
| "response_decodeBody b (RespAuthChallenge m) st = rbind (ac_decodeBody b m) (\<lambda>m. Inr (RespAuthChallenge m, st))"

section \<open>Reuse of response messages\<close>

interpretation er_reusable: reusable_object er_init "er_reset h" "\<lambda>m. m" "\<lambda>_. True" "\<lambda>m. m"
  by unfold_locales (simp_all add: er_reset_def er_init_def ss_ops)

interpretation ev_reusable: reusable_object ev_init "ev_reset h" "\<lambda>m. m" "\<lambda>_. True" "\<lambda>m. m"
  by unfold_locales (simp_all add: ev_reset_def ev_init_def ss_ops)

interpretation sp_reusable: reusable_object sp_init "sp_reset h" "\<lambda>m. m" "\<lambda>_. True" "\<lambda>m. m"
  by unfold_locales (simp_all add: sp_reset_def sp_init_def)

interpretation au_reusable: reusable_object au_init "au_reset h" "\<lambda>m. m" "\<lambda>_. True" "\<lambda>m. m"
  by unfold_locales (simp_all add: au_reset_def au_init_def ss_ops)

interpretation at_reusable: reusable_object at_init "at_reset h" "\<lambda>m. m" "\<lambda>_. True" "\<lambda>m. m"
  by unfold_locales (simp_all add: at_reset_def at_init_def ss_ops)

text \<open>
  A result message keeps parts of the metadata of its previous use; the contract holds for what
  is left when those are masked.
\<close>

definition re_observed :: "result_message \<Rightarrow> result_message" where
  "re_observed m = m\<lparr>re_rowsMetadata := rm_init\<lparr>rm_flags := rm_flags (re_rowsMetadata m)\<rparr>,
     re_preparedRowsMetadata := rm_init\<lparr>rm_flags := rm_flags (re_preparedRowsMetadata m)\<rparr>\<rparr>"

interpretation re_reusable: reusable_object re_init "re_reset h" "\<lambda>m. m" "\<lambda>_. True" re_observed
  by unfold_locales
    (simp_all add: re_reset_def re_init_def re_observed_def pm_reset_def pm_init_def rm_reset_def rm_init_def ss_ops)

lemma makeResponse_header: "makeResponseMessage h po = Inr (r, po') \<Longrightarrow> response_header r = h"
  by (auto simp: makeResponseMessage_def Let_def make_reusable_def re_reset_def er_reset_def ev_reset_def sp_reset_def
      au_reset_def at_reset_def split: if_splits)

text \<open>The messages of the factory, by opcode.\<close>

fun response_opcode :: "response \<Rightarrow> u32" where
  "response_opcode (RespResult m) = MT_Result"
| "response_opcode (RespError m) = MT_Error"
| "response_opcode (RespEvent m) = MT_Event"
| "response_opcode (RespReady m) = MT_Ready"
| "response_opcode (RespSupported m) = MT_Supported"
| "response_opcode (RespAuthenticate m) = MT_Authenticate"
| "response_opcode (RespAuthSuccess m) = MT_AuthSuccess"
| "response_opcode (RespAuthChallenge m) = MT_AuthChallenge"

definition response_opcodes :: "u32 list" where
  "response_opcodes = [MT_Result, MT_Error, MT_Event, MT_Ready, MT_Supported, MT_Authenticate, MT_AuthSuccess, MT_AuthChallenge]"

lemma makeResponse_opcode: "makeResponseMessage h po = Inr (r, po') \<Longrightarrow> response_opcode r = mh_getOpCode h"
  by (auto simp: makeResponseMessage_def Let_def make_reusable_def split: if_splits)

lemma makeResponse_total:
  "mh_getOpCode h \<in> set response_opcodes \<Longrightarrow> \<exists>r po'. makeResponseMessage h po = Inr (r, po')"
  by (auto simp: makeResponseMessage_def response_opcodes_def Let_def make_reusable_def MT_defs)

lemma makeResponse_unsupported:
  "mh_getOpCode h \<notin> set response_opcodes \<Longrightarrow> makeResponseMessage h po = Inl NotImplementedException"
  by (auto simp: makeResponseMessage_def response_opcodes_def Let_def)

section \<open>Rows and prepared results\<close>

lemma re_decode_rows:
  assumes ok: "rm_ok meta ts"
  shows "\<exists>m' st' d. re_decodeBody (int_wire RK_Rows @ rm_wire meta ts @ int_wire rowsCount @ rows) m st = Inr (m', st') \<and>
     re_resultSet m' = Some d \<and> rsd_rowsCount d = size_of_int32 rowsCount \<and>
     rsd_columnsCount d = rm_getColumnsCount meta \<and> rs_content (Some d) = rows \<and>
     (enumTrue (enum_and (rm_flags meta) RMF_HasMorePages) \<longrightarrow> rsd_pagingState d = ss_value (rm_pagingState meta))"
proof -
  obtain m' st' where run: "rm_decode (re_rowsMetadata m) st (rm_wire meta ts @ int_wire rowsCount @ rows) =
      Inr (m', st', int_wire rowsCount @ rows)" and view: "rm_view m' = rm_view meta"
    using rm_decode_wire [OF ok] by blast
  from view have "rm_columnsCount m' = rm_columnsCount meta"
    and "enumTrue (enum_and (rm_flags meta) RMF_HasMorePages) \<Longrightarrow> rm_pagingState m' = rm_pagingState meta"
    by (auto simp: rm_view_def Let_def split: if_splits)
  then show ?thesis
    using run by (simp add: re_decodeBody_def codec_simps Let_def RK_defs rsd_reset_def rs_content_def
        rm_getColumnsCount_def)
qed

lemma re_decode_prepared:
  assumes pid: "string_ok pid" and pm: "pm_ok pm ts" and rm: "rm_ok rm us"
  shows "\<exists>m' st'. re_decodeBody (int_wire RK_Prepared @ short_wire pid @ pm_wire pm ts @ rm_wire rm us) m st = Inr (m', st') \<and>
     re_preparedQueryId m' = pid \<and> pm_view (re_preparedMetadata m') = pm_view pm \<and>
     rm_view (re_preparedRowsMetadata m') = rm_view rm"
proof -
  obtain pm' st1 where 1: "pm_decode (re_preparedMetadata m) st (pm_wire pm ts @ rm_wire rm us) =
      Inr (pm', st1, rm_wire rm us)" "pm_view pm' = pm_view pm"
    using pm_decode_wire [OF pm] by blast
  obtain rm' st2 where 2: "rm_decode (re_preparedRowsMetadata m) st1 (rm_wire rm us) = Inr (rm', st2, [])"
      "rm_view rm' = rm_view rm"
    using rm_decode_wire [OF rm, of "re_preparedRowsMetadata m" st1 "[]"] by auto
  show ?thesis
    using 1 2 by (simp add: re_decodeBody_def codec_simps Let_def RK_defs short_bytes_codec.dec_wire [OF pid])
qed

section \<open>The properties of responses\<close>

text \<open>
  The factory makes a message of the type the opcode names, carrying the header it was given, and
  refuses every opcode that is not a response, whatever its free lists hold.
\<close>

lemma factory_by_opcode:
  "(\<exists>r po'. makeResponseMessage h po = Inr (r, po') \<and> mh_getOpCode h \<in> set response_opcodes \<and>
      response_opcode r = mh_getOpCode h \<and> response_header r = h) \<or>
   (makeResponseMessage h po = Inl NotImplementedException \<and> mh_getOpCode h \<notin> set response_opcodes)"
proof (cases "mh_getOpCode h \<in> set response_opcodes")
  case True
  with makeResponse_total obtain r po' where r: "makeResponseMessage h po = Inr (r, po')" by blast
  with True makeResponse_opcode [OF r] makeResponse_header [OF r] show ?thesis by simp
next
  case False
  with makeResponse_unsupported show ?thesis by blast
qed

lemma metadata_example_ok: "rm_ok metadata_example [TScalar CT_Int]"
  by (simp add: rm_ok_def metadata_example_def rm_init_def rc_init_def column_ok_def bytes_ok_def sized_ok_def
      string_ok_def le_length_max_iff ss_init_def requires_payload_def CT_defs RMF_defs enumTrue_def enumFalse_def
      enum_and_def Let_def)

end
