(* ===== verification/Connection_Stream.thy ===== *)
theory Connection_Stream
  imports Configuration "HOL-Library.Multiset"
begin

text \<open>
  \<^verbatim>\<open>ConnectionStream\<close>: an object that owns a stream id and gives it back to the
  free list of its connection when it is closed, moved over or destroyed. The state is the free
  list together with all stream objects made from it; the steps are the operations that client
  code can perform on them.
\<close>

section \<open>Stream objects\<close>

text \<open>
  \<open>st_hasFreeStreamIds\<close> says whether \<^verbatim>\<open>freeStreamIds_\<close> is not null; it
  is shared by all streams of a connection.
\<close>

record stream =
  st_isValid :: bool
  st_streamId :: u16
  st_hasFreeStreamIds :: bool

definition stream_getStreamId :: "stream \<Rightarrow> u16 result" where
  "stream_getStreamId s = (if \<not> st_isValid s then Inl LogicException else Inr (st_streamId s))"

definition stream_invalid :: stream where
  "stream_invalid = \<lparr>st_isValid = False, st_streamId = 0, st_hasFreeStreamIds = False\<rparr>"

definition stream_new :: "u16 \<Rightarrow> stream" where
  "stream_new streamId = \<lparr>st_isValid = True, st_streamId = streamId, st_hasFreeStreamIds = True\<rparr>"

definition stream_close :: "stream \<Rightarrow> u16 list \<Rightarrow> stream \<times> u16 list" where
  "stream_close s free =
     (if st_isValid s
      then (s\<lparr>st_isValid := False\<rparr>, if st_hasFreeStreamIds s then free @ [st_streamId s] else free)
      else (s, free))"

definition stream_move_construct :: "stream \<Rightarrow> stream \<times> stream" where
  "stream_move_construct s =
     (\<lparr>st_isValid = st_isValid s, st_streamId = st_streamId s, st_hasFreeStreamIds = st_hasFreeStreamIds s\<rparr>,
      s\<lparr>st_isValid := False, st_hasFreeStreamIds := False\<rparr>)"

definition stream_move_assign :: "stream \<Rightarrow> stream \<Rightarrow> u16 list \<Rightarrow> stream \<times> stream \<times> u16 list" where
  "stream_move_assign this s free =
     (let (this, free) = stream_close this free in
      (this\<lparr>st_isValid := st_isValid s, st_streamId := st_streamId s, st_hasFreeStreamIds := st_hasFreeStreamIds s\<rparr>,
       s\<lparr>st_isValid := False, st_hasFreeStreamIds := False\<rparr>, free))"

definition connection_openStream :: "u16 list \<Rightarrow> stream \<times> u16 list" where
  "connection_openStream free =
     (if free = [] then (stream_invalid, free) else (stream_new (last free), butlast free))"

definition connection_getFreeStreamsCount :: "u16 list \<Rightarrow> nat" where
  "connection_getFreeStreamsCount free = length free"

definition connection_isAllStreamsFree :: "nat \<Rightarrow> u16 list \<Rightarrow> bool" where
  "connection_isAllStreamsFree maxStreams free \<longleftrightarrow> length free + 1 \<ge> maxStreams"

text \<open>The constructor of the connection: every id but zero, the smallest last.\<close>

definition initial_free :: "nat \<Rightarrow> u16 list" where
  "initial_free maxStreams =
     (let j = maxStreams - 1 in map (\<lambda>i. word_of_nat (j - i)) [0..<j])"

section \<open>All streams of a connection\<close>

record stream_world =
  sw_free :: "u16 list"
  sw_objects :: "stream list"

definition sw_init :: "nat \<Rightarrow> stream_world" where
  "sw_init maxStreams = \<lparr>sw_free = initial_free maxStreams, sw_objects = []\<rparr>"

inductive stream_step :: "stream_world \<Rightarrow> stream_world \<Rightarrow> bool" where
  step_open: "connection_openStream (sw_free w) = (s, free) \<Longrightarrow>
    stream_step w (w\<lparr>sw_free := free, sw_objects := sw_objects w @ [s]\<rparr>)"
| step_close: "i < length (sw_objects w) \<Longrightarrow> stream_close (sw_objects w ! i) (sw_free w) = (s, free) \<Longrightarrow>
    stream_step w (w\<lparr>sw_free := free, sw_objects := (sw_objects w)[i := s]\<rparr>)"
| step_move: "i < length (sw_objects w) \<Longrightarrow> stream_move_construct (sw_objects w ! i) = (new, s) \<Longrightarrow>
    stream_step w (w\<lparr>sw_objects := (sw_objects w)[i := s] @ [new]\<rparr>)"
| step_assign: "i < length (sw_objects w) \<Longrightarrow> j < length (sw_objects w) \<Longrightarrow> i \<noteq> j \<Longrightarrow>
    stream_move_assign (sw_objects w ! i) (sw_objects w ! j) (sw_free w) = (this, s, free) \<Longrightarrow>
    stream_step w (w\<lparr>sw_free := free, sw_objects := (sw_objects w)[i := this, j := s]\<rparr>)"

inductive stream_reachable :: "nat \<Rightarrow> stream_world \<Rightarrow> bool" for maxStreams where
  reach_init: "stream_reachable maxStreams (sw_init maxStreams)"
| reach_step: "stream_reachable maxStreams w \<Longrightarrow> stream_step w w' \<Longrightarrow> stream_reachable maxStreams w'"

inductive_cases stream_stepE: "stream_step w w'"

text \<open>The ids in use, one for each valid object.\<close>

definition used_ids :: "stream list \<Rightarrow> u16 multiset" where
  "used_ids ss = mset (map st_streamId (filter st_isValid ss))"

definition all_ids :: "nat \<Rightarrow> u16 multiset" where
  "all_ids maxStreams = mset (initial_free maxStreams)"

definition stream_inv :: "nat \<Rightarrow> stream_world \<Rightarrow> bool" where
  "stream_inv maxStreams w \<longleftrightarrow>
     mset (sw_free w) + used_ids (sw_objects w) = all_ids maxStreams \<and>
     list_all (\<lambda>s. st_isValid s \<longrightarrow> st_hasFreeStreamIds s) (sw_objects w)"

lemma used_ids_append [simp]: "used_ids (xs @ ys) = used_ids xs + used_ids ys"
  by (simp add: used_ids_def)

lemma used_ids_single [simp]: "used_ids [s] = (if st_isValid s then {#st_streamId s#} else {#})"
  by (simp add: used_ids_def)

lemma used_ids_cons: "used_ids (s # ss) = used_ids [s] + used_ids ss"
  by (simp add: used_ids_def)

lemma used_ids_update:
  "i < length ss \<Longrightarrow> used_ids (ss[i := s]) + used_ids [ss ! i] = used_ids ss + used_ids [s]"
proof (induction ss arbitrary: i)
  case (Cons t ss)
  then show ?case
    by (cases i) (simp_all only: used_ids_cons [of _ "_ # _"] used_ids_cons [of _ ss] list_update.simps nth_Cons_0
        nth_Cons_Suc length_Cons Suc_less_eq nat.case ac_simps used_ids_cons [of _ "_[_ := _]"])
qed simp

lemma list_all_update: "list_all P xs \<Longrightarrow> P x \<Longrightarrow> list_all P (xs[i := x])"
  by (induction xs arbitrary: i) (auto split: nat.splits)

lemma close_accounts:
  assumes "stream_close s free = (s', free')" "st_isValid s \<longrightarrow> st_hasFreeStreamIds s"
  shows "mset free' + used_ids [s'] = mset free + used_ids [s]" "\<not> st_isValid s'"
  using assms by (auto simp: stream_close_def split: if_splits)

lemma stream_inv_init: "stream_inv maxStreams (sw_init maxStreams)"
  by (simp add: stream_inv_def sw_init_def used_ids_def all_ids_def)

lemma stream_inv_open:
  assumes inv: "stream_inv n w" and op: "connection_openStream (sw_free w) = (s, free)"
  shows "stream_inv n (w\<lparr>sw_free := free, sw_objects := sw_objects w @ [s]\<rparr>)"
  using assms
  by (cases "sw_free w" rule: rev_cases)
    (auto simp: stream_inv_def connection_openStream_def stream_new_def stream_invalid_def)

lemma stream_inv_close:
  assumes inv: "stream_inv n w" and i: "i < length (sw_objects w)"
    and op: "stream_close (sw_objects w ! i) (sw_free w) = (s, free)"
  shows "stream_inv n (w\<lparr>sw_free := free, sw_objects := (sw_objects w)[i := s]\<rparr>)"
proof -
  have "st_isValid (sw_objects w ! i) \<longrightarrow> st_hasFreeStreamIds (sw_objects w ! i)"
    using inv i by (simp add: stream_inv_def list_all_length)
  note acc = close_accounts [OF op this]
  have "mset free + used_ids ((sw_objects w)[i := s]) = mset (sw_free w) + used_ids (sw_objects w)"
    using used_ids_update [OF i, of s] acc by (auto simp: ac_simps split: if_splits)
  then show ?thesis
    using inv acc(2) by (simp add: stream_inv_def list_all_update)
qed

lemma stream_inv_move:
  assumes inv: "stream_inv n w" and i: "i < length (sw_objects w)"
    and op: "stream_move_construct (sw_objects w ! i) = (new, s)"
  shows "stream_inv n (w\<lparr>sw_objects := (sw_objects w)[i := s] @ [new]\<rparr>)"
proof -
  have "st_isValid (sw_objects w ! i) \<longrightarrow> st_hasFreeStreamIds (sw_objects w ! i)"
    using inv i by (simp add: stream_inv_def list_all_length)
  with op have new: "used_ids [new] = used_ids [sw_objects w ! i]" "\<not> st_isValid s"
    "st_isValid new \<longrightarrow> st_hasFreeStreamIds new"
    by (auto simp: stream_move_construct_def)
  then have "used_ids ((sw_objects w)[i := s] @ [new]) = used_ids (sw_objects w)"
    using used_ids_update [OF i, of s] by (simp del: used_ids_single) (simp add: used_ids_def)
  then show ?thesis
    using inv new by (simp add: stream_inv_def list_all_update del: used_ids_append)
qed

lemma stream_inv_assign:
  assumes inv: "stream_inv n w" and i: "i < length (sw_objects w)" "j < length (sw_objects w)" "i \<noteq> j"
    and op: "stream_move_assign (sw_objects w ! i) (sw_objects w ! j) (sw_free w) = (this, s, free)"
  shows "stream_inv n (w\<lparr>sw_free := free, sw_objects := (sw_objects w)[i := this, j := s]\<rparr>)"
proof -
  let ?i = "sw_objects w ! i" and ?j = "sw_objects w ! j"
  obtain c free' where c: "stream_close ?i (sw_free w) = (c, free')" by (cases "stream_close ?i (sw_free w)")
  have has: "st_isValid ?i \<longrightarrow> st_hasFreeStreamIds ?i" "st_isValid ?j \<longrightarrow> st_hasFreeStreamIds ?j"
    using inv i by (simp_all add: stream_inv_def list_all_length)
  note acc = close_accounts [OF c has(1)]
  have moved: "used_ids [this] = used_ids [?j]" "st_isValid this \<longrightarrow> st_hasFreeStreamIds this"
    and s: "\<not> st_isValid s" and free: "free = free'"
    using op has c by (auto simp: stream_move_assign_def Let_def split: prod.splits)
  have u1: "used_ids ((sw_objects w)[i := this]) + used_ids [?i] = used_ids (sw_objects w) + used_ids [?j]"
    using used_ids_update [OF i(1), of this] moved(1) by simp
  have u2: "used_ids ((sw_objects w)[i := this, j := s]) + used_ids [?j] = used_ids ((sw_objects w)[i := this])"
    using used_ids_update [of j "(sw_objects w)[i := this]" s] i s by (simp add: used_ids_def)
  have "used_ids ((sw_objects w)[i := this, j := s]) + used_ids [?j] + used_ids [?i] =
      used_ids (sw_objects w) + used_ids [?j]"
    by (simp only: u2 u1)
  then have "used_ids ((sw_objects w)[i := this, j := s]) + used_ids [?i] + used_ids [?j] =
      used_ids (sw_objects w) + used_ids [?j]"
    by (simp only: ac_simps)
  then have sum: "used_ids ((sw_objects w)[i := this, j := s]) + used_ids [?i] = used_ids (sw_objects w)"
    by (rule add_right_imp_eq)
  have "used_ids [c] = {#}" using acc(2) by simp
  then have "mset free = mset (sw_free w) + used_ids [?i]"
    using acc(1) by (simp only: free add_0_right)
  then have "mset free + used_ids ((sw_objects w)[i := this, j := s]) =
      mset (sw_free w) + used_ids (sw_objects w)"
    by (simp only: sum [symmetric] ac_simps)
  then show ?thesis
    using inv moved(2) s by (simp add: stream_inv_def list_all_update)
qed

lemma stream_step_inv: "stream_step w w' \<Longrightarrow> stream_inv n w \<Longrightarrow> stream_inv n w'"
  by (erule stream_stepE) (auto intro: stream_inv_open stream_inv_close stream_inv_move stream_inv_assign)

lemma stream_reachable_inv: "stream_reachable n w \<Longrightarrow> stream_inv n w"
  by (induction rule: stream_reachable.induct) (auto intro: stream_inv_init stream_step_inv)

section \<open>No two streams share an id\<close>

lemma initial_free_distinct: "n \<le> 65536 \<Longrightarrow> distinct (initial_free n)"
proof -
  assume n: "n \<le> 65536"
  have "inj_on (\<lambda>i. word_of_nat (n - 1 - i) :: u16) {0..<n - 1}"
  proof (rule inj_onI)
    fix i j
    assume ij: "i \<in> {0..<n - 1}" "j \<in> {0..<n - 1}"
      and eq: "(word_of_nat (n - 1 - i) :: u16) = word_of_nat (n - 1 - j)"
    from arg_cong [OF eq, of unat] have "n - 1 - i = n - 1 - j"
      using n by (simp add: unat_of_nat take_bit_nat_eq_self)
    with ij show "i = j" by simp
  qed
  then show ?thesis by (simp add: initial_free_def Let_def distinct_map)
qed

lemma initial_free_nonzero: "n \<le> 65536 \<Longrightarrow> 0 \<notin> set (initial_free n)"
proof -
  assume n: "n \<le> 65536"
  have nz: "(word_of_nat k :: u16) \<noteq> 0" if "0 < k" "k < 65536" for k
    using that by (simp add: word_unat_eq_iff unat_of_nat take_bit_nat_eq_self)
  then have "(word_of_nat (n - 1 - i) :: u16) \<noteq> 0" if "i < n - 1" for i
    using that n by (intro nz) auto
  then show ?thesis unfolding initial_free_def Let_def set_map image_iff by (metis atLeastLessThan_iff set_upt)
qed

lemma length_initial_free [simp]: "length (initial_free n) = n - 1"
  by (simp add: initial_free_def Let_def)

text \<open>
  C25: No two stream objects of a connection hold the same stream id, and no id in use is free: every
  id is held by one stream or is in the free list, once.
\<close>

theorem stream_ids_distinct:
  assumes "stream_reachable n w" "n \<le> 65536"
  shows "distinct (sw_free w @ map st_streamId (filter st_isValid (sw_objects w)))"
proof -
  have "mset (sw_free w @ map st_streamId (filter st_isValid (sw_objects w))) = mset (initial_free n)"
    using stream_reachable_inv [OF assms(1)] by (simp add: stream_inv_def used_ids_def all_ids_def)
  then show ?thesis using initial_free_distinct [OF assms(2)] by (metis mset_eq_imp_distinct_iff)
qed

text \<open>
  The test by which the pool decides to drop a connection is exact: all streams count as free
  when and only when no valid stream object is left.
\<close>

lemma all_free_iff_no_stream:
  assumes "stream_reachable n w" "1 \<le> n"
  shows "connection_isAllStreamsFree n (sw_free w) \<longleftrightarrow> (\<forall>s \<in> set (sw_objects w). \<not> st_isValid s)"
proof -
  have "mset (sw_free w) + used_ids (sw_objects w) = all_ids n"
    using stream_reachable_inv [OF assms(1)] by (simp add: stream_inv_def)
  then have "size (mset (sw_free w) + used_ids (sw_objects w)) = size (all_ids n)" by simp
  then have sum: "length (sw_free w) + length (filter st_isValid (sw_objects w)) = n - 1"
    by (simp only: used_ids_def all_ids_def size_union size_mset length_map length_initial_free)
  have "connection_isAllStreamsFree n (sw_free w) \<longleftrightarrow> length (filter st_isValid (sw_objects w)) = 0"
    using sum assms(2) unfolding connection_isAllStreamsFree_def by linarith
  also have "\<dots> \<longleftrightarrow> (\<forall>s \<in> set (sw_objects w). \<not> st_isValid s)"
    by (simp add: filter_empty_conv)
  finally show ?thesis .
qed

text \<open>One stream opened on a connection with four ids.\<close>

definition one_stream_open :: stream_world where
  "one_stream_open = \<lparr>sw_free = [3, 2], sw_objects = [stream_new 1]\<rparr>"

lemma one_stream_open_reachable: "stream_reachable 4 one_stream_open"
proof -
  have "stream_step (sw_init 4) ((sw_init 4)\<lparr>sw_free := [3, 2], sw_objects := sw_objects (sw_init 4) @ [stream_new 1]\<rparr>)"
    by (rule step_open) (simp add: sw_init_def initial_free_def connection_openStream_def upt_rec numeral_eq_Suc)
  moreover have "(sw_init 4)\<lparr>sw_free := [3, 2], sw_objects := sw_objects (sw_init 4) @ [stream_new 1]\<rparr> = one_stream_open"
    by (simp add: sw_init_def one_stream_open_def)
  ultimately show ?thesis using reach_step [OF reach_init] by simp
qed

theorem stream_ids_distinct_witness:
  "distinct (sw_free one_stream_open @ map st_streamId (filter st_isValid (sw_objects one_stream_open)))"
  by (rule stream_ids_distinct [OF one_stream_open_reachable]) simp

lemma all_free_iff_no_stream_witness:
  "\<not> connection_isAllStreamsFree 4 (sw_free one_stream_open)"
  using all_free_iff_no_stream [OF one_stream_open_reachable]
  by (simp add: one_stream_open_def stream_new_def)

end
