(* ===== verification/Batch_Command.thy ===== *)
theory Batch_Command
  imports Command
begin

text \<open>
  \<^verbatim>\<open>BatchCommand\<close>: a list of queries, each with the sets of parameters it is
  executed with, built by calls that all work on the last query and its last parameter set.
\<close>

record batch_query_data =
  bq_queryStr :: string_holder
  bq_needPrepare :: "bool option"
  bq_parameterSets :: "(u64 \<times> bytes) list"

definition batch_query_of_ref :: "bytes \<Rightarrow> batch_query_data" where
  "batch_query_of_ref query = \<lparr>bq_queryStr = sh_of_ref query, bq_needPrepare = None, bq_parameterSets = []\<rparr>"

definition batch_query_of_string :: "bytes \<Rightarrow> batch_query_data" where
  "batch_query_of_string query = \<lparr>bq_queryStr = sh_of_string query, bq_needPrepare = None, bq_parameterSets = []\<rparr>"

record batch_command_data =
  bd_batchType :: u32
  bd_consistencyLevel :: "u32 option"
  bd_queries :: "batch_query_data list"
  bd_serialConsistencyLevel :: "u32 option"
  bd_defaultTimestamp :: "time_point option"
  bd_maxRetries :: u64

definition batch_command_data_init :: batch_command_data where
  "batch_command_data_init =
     \<lparr>bd_batchType = BT_Logged, bd_consistencyLevel = None, bd_queries = [],
      bd_serialConsistencyLevel = None, bd_defaultTimestamp = None, bd_maxRetries = 0\<rparr>"

definition batch_command_data_reset :: "batch_command_data \<Rightarrow> batch_command_data" where
  "batch_command_data_reset d =
     d\<lparr>bd_batchType := BT_Logged, bd_consistencyLevel := None, bd_queries := [],
       bd_serialConsistencyLevel := None, bd_defaultTimestamp := None, bd_maxRetries := 0\<rparr>"

definition batch_command_data_freeResources :: "batch_command_data \<Rightarrow> batch_command_data" where
  "batch_command_data_freeResources d = d"

lemmas batch_command_data_ops =
  batch_command_data_init_def batch_command_data_reset_def batch_command_data_freeResources_def

interpretation batch_command_reusable: reusable_object batch_command_data_init batch_command_data_reset
    batch_command_data_freeResources "\<lambda>_. True" "\<lambda>d. d"
  by unfold_locales (simp_all add: batch_command_data_ops)

type_synonym batch_command = "batch_command_data option"

definition batch_isValid :: "batch_command \<Rightarrow> bool" where
  "batch_isValid c \<longleftrightarrow> c \<noteq> None"

definition batch_null :: batch_command where
  "batch_null = None"

definition batch_new :: "batch_command_data reusable_storage \<Rightarrow> batch_command \<times> batch_command_data reusable_storage" where
  "batch_new st =
     (let (d, st) = make_reusable batch_command_data_reset batch_command_data_init st in (Some d, st))"

definition batch_fresh :: batch_command where
  "batch_fresh = Some batch_command_data_init"

lemma batch_new_eq: "fst (batch_new st) = batch_fresh"
  by (auto simp: batch_new_def batch_fresh_def make_reusable_def batch_command_data_ops)

definition on_batch :: "(batch_command_data \<Rightarrow> batch_command_data) \<Rightarrow> batch_command \<Rightarrow> batch_command result" where
  "on_batch f c = rbind (deref c) (\<lambda>d. Inr (Some (f d)))"

definition batch_setType :: "u32 \<Rightarrow> batch_command \<Rightarrow> batch_command result" where
  "batch_setType t = on_batch (\<lambda>d. d\<lparr>bd_batchType := t\<rparr>)"

definition batch_setConsistency :: "u32 \<Rightarrow> batch_command \<Rightarrow> batch_command result" where
  "batch_setConsistency level = on_batch (\<lambda>d. d\<lparr>bd_consistencyLevel := Some level\<rparr>)"

definition batch_addQuery :: "bytes \<Rightarrow> batch_command \<Rightarrow> batch_command result" where
  "batch_addQuery query = on_batch (\<lambda>d. d\<lparr>bd_queries := bd_queries d @ [batch_query_of_string query]\<rparr>)"

definition batch_addQuery_ref :: "bytes \<Rightarrow> batch_command \<Rightarrow> batch_command result" where
  "batch_addQuery_ref query = on_batch (\<lambda>d. d\<lparr>bd_queries := bd_queries d @ [batch_query_of_ref query]\<rparr>)"

text \<open>The operations on the last query, which throw when there is none.\<close>

definition update_last :: "('a \<Rightarrow> 'a) \<Rightarrow> 'a list \<Rightarrow> 'a list" where
  "update_last f xs = butlast xs @ [f (last xs)]"

definition on_last_query :: "(batch_query_data \<Rightarrow> batch_query_data) \<Rightarrow> batch_command \<Rightarrow> batch_command result" where
  "on_last_query f c =
     rbind (deref c) (\<lambda>d.
       if bd_queries d = [] then Inl LogicException
       else Inr (Some (d\<lparr>bd_queries := update_last f (bd_queries d)\<rparr>)))"

definition batch_prepareQuery :: "bool \<Rightarrow> batch_command \<Rightarrow> batch_command result" where
  "batch_prepareQuery v = on_last_query (\<lambda>q. q\<lparr>bq_needPrepare := Some v\<rparr>)"

definition batch_openParameterSet :: "batch_command \<Rightarrow> batch_command result" where
  "batch_openParameterSet = on_last_query (\<lambda>q. q\<lparr>bq_parameterSets := bq_parameterSets q @ [(0, [])]\<rparr>)"

definition batch_setSerialConsistency :: "u32 \<Rightarrow> batch_command \<Rightarrow> batch_command result" where
  "batch_setSerialConsistency level = on_batch (\<lambda>d. d\<lparr>bd_serialConsistencyLevel := Some level\<rparr>)"

definition batch_setDefaultTimestamp :: "time_point \<Rightarrow> batch_command \<Rightarrow> batch_command result" where
  "batch_setDefaultTimestamp t = on_batch (\<lambda>d. d\<lparr>bd_defaultTimestamp := Some t\<rparr>)"

definition batch_setMaxRetries :: "u64 \<Rightarrow> batch_command \<Rightarrow> batch_command result" where
  "batch_setMaxRetries n = on_batch (\<lambda>d. d\<lparr>bd_maxRetries := n\<rparr>)"

definition batch_getType :: "batch_command \<Rightarrow> u32 result" where
  "batch_getType c = rbind (deref c) (\<lambda>d. Inr (bd_batchType d))"

definition batch_getConsistency :: "batch_command \<Rightarrow> u32 option result" where
  "batch_getConsistency c = rbind (deref c) (\<lambda>d. Inr (bd_consistencyLevel d))"

definition batch_getQueries :: "batch_command \<Rightarrow> batch_query_data list result" where
  "batch_getQueries c = rbind (deref c) (\<lambda>d. Inr (bd_queries d))"

definition batch_getSerialConsistency :: "batch_command \<Rightarrow> u32 option result" where
  "batch_getSerialConsistency c = rbind (deref c) (\<lambda>d. Inr (bd_serialConsistencyLevel d))"

definition batch_getDefaultTimestamp :: "batch_command \<Rightarrow> time_point option result" where
  "batch_getDefaultTimestamp c = rbind (deref c) (\<lambda>d. Inr (bd_defaultTimestamp d))"

definition batch_getMaxRetries :: "batch_command \<Rightarrow> u64 result" where
  "batch_getMaxRetries c = rbind (deref c) (\<lambda>d. Inr (bd_maxRetries d))"

text \<open>
  \<^verbatim>\<open>getParameterCountOfLastSet\<close> and \<^verbatim>\<open>getParametersOfLastSet\<close>
  return a reference into the last parameter set, opening one when there is none; the model
  passes the update done through the reference.
\<close>

definition with_last_set :: "(u64 \<times> bytes \<Rightarrow> u64 \<times> bytes) \<Rightarrow> batch_query_data \<Rightarrow> batch_query_data" where
  "with_last_set f q =
     (let sets = (if bq_parameterSets q = [] then [(0, [])] else bq_parameterSets q)
      in q\<lparr>bq_parameterSets := update_last f sets\<rparr>)"

definition batch_parameterCountOfLastSet :: "(u64 \<Rightarrow> u64) \<Rightarrow> batch_command \<Rightarrow> batch_command result" where
  "batch_parameterCountOfLastSet f = on_last_query (with_last_set (\<lambda>(n, ps). (f n, ps)))"

definition batch_parametersOfLastSet :: "(bytes \<Rightarrow> bytes result) \<Rightarrow> batch_command \<Rightarrow> batch_command result" where
  "batch_parametersOfLastSet f c =
     rbind (on_last_query (with_last_set (\<lambda>set. set)) c) (\<lambda>c.
     rbind (deref c) (\<lambda>d.
     rbind (f (snd (last (bq_parameterSets (last (bd_queries d)))))) (\<lambda>ps.
       on_last_query (with_last_set (\<lambda>(n, _). (n, ps))) c)))"

definition batch_addParameter :: "'a encoder \<Rightarrow> 'a \<Rightarrow> batch_command \<Rightarrow> batch_command result" where
  "batch_addParameter enc p c =
     rbind (batch_parametersOfLastSet (enc p) c) (batch_parameterCountOfLastSet (\<lambda>n. n + 1))"

definition batch_addParameters :: "(bytes \<Rightarrow> bytes result) list \<Rightarrow> batch_command \<Rightarrow> batch_command result" where
  "batch_addParameters encs c =
     rbind (batch_parametersOfLastSet (addParametersEncode encs) c)
       (batch_parameterCountOfLastSet (\<lambda>n. n + word_of_nat (length encs)))"

lemmas batch_command_ops [model_defs] =
  on_batch_def on_last_query_def batch_setType_def batch_setConsistency_def batch_addQuery_def
  batch_addQuery_ref_def batch_prepareQuery_def batch_openParameterSet_def
  batch_setSerialConsistency_def batch_setDefaultTimestamp_def batch_setMaxRetries_def
  batch_getType_def batch_getConsistency_def batch_getQueries_def batch_getSerialConsistency_def
  batch_getDefaultTimestamp_def batch_getMaxRetries_def batch_isValid_def batch_null_def

lemma update_last_snoc [simp]: "update_last f (xs @ [x]) = xs @ [f x]"
  by (simp add: update_last_def)

lemma length_update_last [simp]: "xs \<noteq> [] \<Longrightarrow> length (update_last f xs) = length xs"
  by (cases xs rule: rev_cases) simp_all

section \<open>The invariant of the parameter sets\<close>

text \<open>Every set holds the encodings of as many values as it counts.\<close>

definition parameter_set_ok :: "u64 \<times> bytes \<Rightarrow> bool" where
  "parameter_set_ok s \<longleftrightarrow>
     (\<exists>vs. snd s = concat (map long_wire vs) \<and> fst s = word_of_nat (length vs) \<and> list_all value_ok vs)"

definition batch_inv :: "batch_command \<Rightarrow> bool" where
  "batch_inv c \<longleftrightarrow>
     (case c of None \<Rightarrow> True
      | Some d \<Rightarrow> list_all (\<lambda>q. list_all parameter_set_ok (bq_parameterSets q)) (bd_queries d))"

lemma parameter_set_ok_empty [simp]: "parameter_set_ok (0, [])"
  by (auto simp: parameter_set_ok_def intro!: exI [of _ "[]"])

lemma batch_fresh_inv: "batch_inv batch_fresh"
  by (simp add: batch_inv_def batch_fresh_def batch_command_data_init_def)

lemma list_all_update_last: "list_all P xs \<Longrightarrow> xs \<noteq> [] \<Longrightarrow> (P (last xs) \<Longrightarrow> P (f (last xs))) \<Longrightarrow> list_all P (update_last f xs)"
  by (cases xs rule: rev_cases) simp_all

lemma on_last_query_inv:
  assumes "batch_inv c" "on_last_query f c = Inr c'"
    and "\<And>q. list_all parameter_set_ok (bq_parameterSets q) \<Longrightarrow> list_all parameter_set_ok (bq_parameterSets (f q))"
  shows "batch_inv c'"
  using assms
  by (auto simp: batch_inv_def on_last_query_def rbind_eq_Inr deref_def intro!: list_all_update_last
      split: option.splits if_splits)

lemma batch_addQuery_inv:
  "batch_inv c \<Longrightarrow> batch_addQuery q c = Inr c' \<Longrightarrow> batch_inv c'"
  "batch_inv c \<Longrightarrow> batch_addQuery_ref q c = Inr c' \<Longrightarrow> batch_inv c'"
  by (auto simp: batch_inv_def batch_command_ops rbind_eq_Inr deref_def batch_query_of_string_def
      batch_query_of_ref_def split: option.splits)

lemma batch_openParameterSet_inv: "batch_inv c \<Longrightarrow> batch_openParameterSet c = Inr c' \<Longrightarrow> batch_inv c'"
  unfolding batch_openParameterSet_def by (erule (1) on_last_query_inv) simp

lemma batch_addParameters_run:
  assumes enc: "list_all2 (\<lambda>enc v. \<forall>data. enc data = Inr (data @ long_wire v)) encs ws"
    and d: "c = Some d" "bd_queries d = qs @ [q]"
  shows "batch_addParameters encs c = Inr (Some (d\<lparr>bd_queries := qs @ [with_last_set (\<lambda>(n, ps).
      (n + word_of_nat (length ws), ps @ concat (map long_wire ws))) q]\<rparr>))"
  using addParametersEncode_wires [OF enc] list_all2_lengthD [OF enc] d
  by (cases "bq_parameterSets q" rule: rev_cases)
    (auto simp: batch_addParameters_def batch_parametersOfLastSet_def batch_parameterCountOfLastSet_def
      on_last_query_def with_last_set_def update_last_def)

lemma with_last_set_inv:
  assumes q: "list_all parameter_set_ok (bq_parameterSets q)" and ws: "list_all value_ok ws"
  shows "list_all parameter_set_ok (bq_parameterSets (with_last_set (\<lambda>(n, ps).
      (n + word_of_nat (length ws), ps @ concat (map long_wire ws))) q))"
proof -
  have step: "parameter_set_ok (fst s + word_of_nat (length ws), snd s @ concat (map long_wire ws))"
    if "parameter_set_ok s" for s
  proof -
    from that obtain vs where "snd s = concat (map long_wire vs)" "fst s = word_of_nat (length vs)"
      "list_all value_ok vs" by (auto simp: parameter_set_ok_def)
    then show ?thesis using ws unfolding parameter_set_ok_def by (intro exI [of _ "vs @ ws"]) simp
  qed
  show ?thesis
  proof (cases "bq_parameterSets q" rule: rev_cases)
    case Nil
    then show ?thesis using step [of "(0, [])"] by (simp add: with_last_set_def update_last_def)
  next
    case (snoc sets s)
    then show ?thesis using q step [of s] by (simp add: with_last_set_def case_prod_beta)
  qed
qed

lemma batch_addParameters_inv:
  assumes "batch_inv c" "list_all value_ok ws"
    and "list_all2 (\<lambda>enc v. \<forall>data. enc data = Inr (data @ long_wire v)) encs ws"
    and "batch_addParameters encs c = Inr c'"
  shows "batch_inv c'"
proof -
  from assms(4) obtain d where c: "c = Some d"
    by (cases c) (simp_all add: batch_addParameters_def batch_parametersOfLastSet_def on_last_query_def)
  from assms(4) obtain qs q where q: "bd_queries d = qs @ [q]"
    by (cases "bd_queries d" rule: rev_cases)
      (simp_all add: c batch_addParameters_def batch_parametersOfLastSet_def on_last_query_def)
  from assms(1) c q have "list_all parameter_set_ok (bq_parameterSets q)"
    by (simp add: batch_inv_def)
  note with_last_set_inv [OF this assms(2)]
  with assms(1,4) batch_addParameters_run [OF assms(3) c q] show ?thesis
    by (auto simp: batch_inv_def c q)
qed

text \<open>Before the first query every operation on the last one is refused.\<close>

lemma batch_no_query:
  assumes "c = Some d" "bd_queries d = []"
  shows "batch_prepareQuery v c = Inl LogicException"
    and "batch_openParameterSet c = Inl LogicException"
    and "batch_addParameters encs c = Inl LogicException"
  using assms
  by (simp_all add: batch_command_ops batch_addParameters_def batch_parametersOfLastSet_def)

end
