(* ===== verification/Protocol_Parameters.thy ===== *)
theory Protocol_Parameters
  imports Batch_Command "HOL-Library.Signed_Division"
begin

text \<open>
  \<^verbatim>\<open>ProtocolConsistency\<close>, \<^verbatim>\<open>ProtocolTimestamp\<close>,
  \<^verbatim>\<open>ProtocolQueryParameters\<close> and \<^verbatim>\<open>ProtocolBatchParameters\<close>: the part of a
  query or batch request that follows the query text. Their \<^verbatim>\<open>flags_\<close> say which
  optional components are present; the setters compute them from the command, the encoders and
  decoders follow them.
\<close>

section \<open>Consistency and timestamp\<close>

definition consistency_encode :: "u32 encoder" where
  "consistency_encode level = int_encode (ucast level :: u16)"

definition consistency_decode :: "u32 decoder" where
  "consistency_decode bs = rbind (int_decode bs) (\<lambda>(v :: u16, bs). Inr (ucast v, bs))"

definition in_int64 :: "int \<Rightarrow> bool" where
  "in_int64 x \<longleftrightarrow> - (2 ^ 63) \<le> x \<and> x < 2 ^ 63"

text \<open>
  Microseconds on the wire, nanoseconds in a time point: \<^verbatim>\<open>duration_cast\<close> rounds
  towards zero, and the multiplication back is undefined when it leaves the range of the
  representation.
\<close>

definition timestamp_get :: "u64 \<Rightarrow> time_point result" where
  "timestamp_get v = (if in_int64 (sint v * 1000) then Inr (sint v * 1000) else Inl UndefinedBehaviour)"

definition timestamp_set :: "time_point \<Rightarrow> u64" where
  "timestamp_set t = word_of_int (t sdiv 1000)"

lemma consistency_encode_wire: "consistency_encode l data = Inr (data @ int_wire (ucast l :: u16))"
  by (simp add: consistency_encode_def codec_simps)

lemma consistency_decode_wire:
  "unat (l :: u32) < 65536 \<Longrightarrow> consistency_decode (int_wire (ucast l :: u16) @ rest) = Inr (l, rest)"
  by (simp add: consistency_decode_def codec_simps word_unat_eq_iff unsigned_ucast_eq
      unsigned_take_bit_eq take_bit_nat_eq_self)

lemma sdiv_1000: "1000 dvd t \<Longrightarrow> t sdiv 1000 = (t :: int) div 1000"
  by (auto simp: signed_divide_int_def sgn_if dvd_neg_div)

lemma timestamp_get_set:
  assumes "1000 dvd t" "in_int64 t"
  shows "timestamp_get (timestamp_set t) = Inr t"
proof -
  from assms(1) obtain k where t: "t = 1000 * k" by (elim dvdE)
  have "sint (word_of_int k :: u64) = k"
    using assms(2) unfolding t in_int64_def by (simp add: signed_of_int signed_take_bit_int_eq_self)
  then show ?thesis
    using assms by (simp add: timestamp_get_def timestamp_set_def sdiv_1000 t mult.commute)
qed

section \<open>Query parameters\<close>

text \<open>
  The parameters own a command and refer to one: their own, or one that lives in the caller.
  Commands of callers are found in an environment that maps their addresses to them.
\<close>

datatype command_ref = RefOwn | RefExt nat

record query_parameters =
  qp_flags :: u8
  qp_command :: command
  qp_commandRef :: command_ref

type_synonym command_env = "nat \<Rightarrow> command"

definition qp_init :: query_parameters where
  "qp_init = \<lparr>qp_flags = ucast QPF_None, qp_command = command_null, qp_commandRef = RefOwn\<rparr>"

definition qp_reset :: "query_parameters \<Rightarrow> query_parameters" where
  "qp_reset qp = qp\<lparr>qp_flags := ucast QPF_None, qp_command := command_null, qp_commandRef := RefOwn\<rparr>"

definition qp_getFlags :: "query_parameters \<Rightarrow> u32" where
  "qp_getFlags qp = ucast (qp_flags qp)"

definition qp_getCommand :: "query_parameters \<Rightarrow> command_env \<Rightarrow> command" where
  "qp_getCommand qp env = (case qp_commandRef qp of RefOwn \<Rightarrow> qp_command qp | RefExt a \<Rightarrow> env a)"

definition qp_setSkipMetadata :: "bool \<Rightarrow> query_parameters \<Rightarrow> query_parameters" where
  "qp_setSkipMetadata v qp =
     (if v then qp\<lparr>qp_flags := ucast (enum_or (qp_getFlags qp) QPF_SkipMetadata)\<rparr>
      else qp\<lparr>qp_flags := ucast (enum_and (qp_getFlags qp) (enum_not QPF_SkipMetadata))\<rparr>)"

definition qp_command_flags :: "u32 \<Rightarrow> command_data \<Rightarrow> u32" where
  "qp_command_flags flags d =
     (let flags = enum_and flags QPF_SkipMetadata;
          flags = (if cd_parameterCount d > 0 then enum_or flags QPF_WithValues else flags);
          flags = (if cd_pageSize d \<noteq> None
                   then let flags = enum_or flags QPF_WithPageSize in
                        if cd_pagingState d \<noteq> [] then enum_or flags QPF_WithPagingState else flags
                   else flags);
          flags = (if cd_serialConsistencyLevel d \<noteq> None then enum_or flags QPF_WithSerialConsistency else flags)
      in if cd_defaultTimestamp d \<noteq> None then enum_or flags QPF_WithDefaultTimestamp else flags)"

definition qp_setCommandRef :: "command_ref \<Rightarrow> command_env \<Rightarrow> query_parameters \<Rightarrow> query_parameters result" where
  "qp_setCommandRef r env qp =
     (case qp_getCommand (qp\<lparr>qp_commandRef := r\<rparr>) env of
        None \<Rightarrow> Inl LogicException
      | Some d \<Rightarrow>
          if cd_consistencyLevel d = None then Inl LogicException
          else Inr (qp\<lparr>qp_flags := ucast (qp_command_flags (qp_getFlags qp) d), qp_commandRef := r\<rparr>))"

definition qp_setCommand :: "command \<Rightarrow> command_env \<Rightarrow> query_parameters \<Rightarrow> query_parameters result" where
  "qp_setCommand c env qp = qp_setCommandRef RefOwn env (qp\<lparr>qp_command := c\<rparr>)"

definition qp_encode :: "command_env \<Rightarrow> query_parameters encoder" where
  "qp_encode env qp data =
     (case qp_getCommand qp env of
        None \<Rightarrow> Inl LogicException
      | Some d \<Rightarrow>
        rbind (deref (cd_consistencyLevel d)) (\<lambda>level.
        rbind (consistency_encode level data) (\<lambda>data.
        rbind (int_encode (qp_flags qp) data) (\<lambda>data.
        let flags = qp_getFlags qp in
        rbind (if enumTrue (enum_and flags QPF_WithValues)
               then let parameterCount = ucast (cd_parameterCount d) :: u16 in
                    if ucast parameterCount \<noteq> cd_parameterCount d then Inl LogicException
                    else rbind (int_encode parameterCount data) (\<lambda>data. Inr (data @ cd_parameters d))
               else Inr data) (\<lambda>data.
        rbind (if enumTrue (enum_and flags QPF_WithPageSize)
               then rbind (deref (cd_pageSize d)) (\<lambda>n. int_encode (ucast n :: u32) data)
               else Inr data) (\<lambda>data.
        rbind (if enumTrue (enum_and flags QPF_WithPagingState)
               then rbind (int_encode (word_of_nat (length (cd_pagingState d)) :: u32) data)
                      (\<lambda>data. Inr (data @ cd_pagingState d))
               else Inr data) (\<lambda>data.
        rbind (if enumTrue (enum_and flags QPF_WithSerialConsistency)
               then rbind (deref (cd_serialConsistencyLevel d)) (\<lambda>l. consistency_encode l data)
               else Inr data) (\<lambda>data.
        if enumTrue (enum_and flags QPF_WithDefaultTimestamp)
        then rbind (deref (cd_defaultTimestamp d)) (\<lambda>t. int_encode (timestamp_set t) data)
        else Inr data))))))))"

text \<open>The parameters are copied, size by size, into the encoded parameters of the command.\<close>

fun qp_decode_values :: "nat \<Rightarrow> bytes \<Rightarrow> bytes \<Rightarrow> (bytes \<times> bytes) result" where
  "qp_decode_values 0 acc bs = Inr (acc, bs)"
| "qp_decode_values (Suc n) acc bs =
     rbind (int_decode bs) (\<lambda>(parameterSize :: u32, bs).
     rbind (int_encode parameterSize acc) (\<lambda>acc.
       if sint parameterSize \<le> 0 then qp_decode_values n acc bs
       else if length bs < unat parameterSize then Inl DecodeException
       else qp_decode_values n (acc @ take (unat parameterSize) bs) (drop (unat parameterSize) bs)))"

definition qp_decode_command :: "bytes \<Rightarrow> (command_data \<times> u8 \<times> bytes) result" where
  "qp_decode_command bs =
     (let d = command_data_init\<lparr>cd_queryStr := sh_of_ref []\<rparr> in
      rbind (consistency_decode bs) (\<lambda>(level, bs).
      let d = d\<lparr>cd_consistencyLevel := Some level\<rparr> in
      rbind (int_decode bs) (\<lambda>(flagsByte :: u8, bs).
      let flags = ucast flagsByte :: u32 in
      rbind (if enumTrue (enum_and flags QPF_WithValues)
             then if enumTrue (enum_and flags QPF_WithNamesForValue) then Inl NotImplementedException
                  else rbind (int_decode bs) (\<lambda>(parameterCount :: u16, bs).
                    rbind (qp_decode_values (unat parameterCount) [] bs) (\<lambda>(ps, bs).
                      Inr (d\<lparr>cd_parameterCount := ucast parameterCount, cd_parameters := ps\<rparr>, bs)))
             else Inr (d, bs)) (\<lambda>(d, bs).
      rbind (if enumTrue (enum_and flags QPF_WithPageSize)
             then rbind (int_decode bs) (\<lambda>(pageSize :: u32, bs).
               Inr (d\<lparr>cd_pageSize := Some (scast pageSize)\<rparr>, bs))
             else Inr (d, bs)) (\<lambda>(d, bs).
      rbind (if enumTrue (enum_and flags QPF_WithPagingState)
             then rbind (bytes_decode bs) (\<lambda>(pagingState, bs).
               Inr (d\<lparr>cd_pagingState := ss_value pagingState\<rparr>, bs))
             else Inr (d, bs)) (\<lambda>(d, bs).
      rbind (if enumTrue (enum_and flags QPF_WithSerialConsistency)
             then rbind (consistency_decode bs) (\<lambda>(l, bs).
               Inr (d\<lparr>cd_serialConsistencyLevel := Some l\<rparr>, bs))
             else Inr (d, bs)) (\<lambda>(d, bs).
      rbind (if enumTrue (enum_and flags QPF_WithDefaultTimestamp)
             then rbind (int_decode bs) (\<lambda>(v :: u64, bs).
               rbind (timestamp_get v) (\<lambda>t. Inr (d\<lparr>cd_defaultTimestamp := Some t\<rparr>, bs)))
             else Inr (d, bs)) (\<lambda>(d, bs).
      Inr (d, flagsByte, bs)))))))))"

definition qp_decode ::
  "query_parameters \<Rightarrow> command_env \<Rightarrow> bytes \<Rightarrow> ((query_parameters \<times> command_env) \<times> bytes) result" where
  "qp_decode qp env bs =
     rbind (qp_decode_command bs) (\<lambda>(d, flags, bs).
       Inr ((case qp_commandRef qp of
               RefOwn \<Rightarrow> (qp\<lparr>qp_flags := flags, qp_command := Some d\<rparr>, env)
             | RefExt a \<Rightarrow> (qp\<lparr>qp_flags := flags\<rparr>, env(a := Some d))), bs))"

text \<open>Moving query parameters; the moved-from object is reset.\<close>

definition qp_move_construct :: "query_parameters \<Rightarrow> query_parameters \<times> query_parameters" where
  "qp_move_construct other =
     ((case qp_commandRef other of
         RefOwn \<Rightarrow> \<lparr>qp_flags = qp_flags other, qp_command = qp_command other, qp_commandRef = RefOwn\<rparr>
       | RefExt a \<Rightarrow> \<lparr>qp_flags = qp_flags other, qp_command = command_null, qp_commandRef = RefExt a\<rparr>),
      qp_reset other)"

definition qp_move_assign :: "query_parameters \<Rightarrow> query_parameters \<Rightarrow> query_parameters \<times> query_parameters" where
  "qp_move_assign this other =
     ((case qp_commandRef other of
         RefOwn \<Rightarrow> this\<lparr>qp_flags := qp_flags other, qp_command := qp_command other, qp_commandRef := RefOwn\<rparr>
       | RefExt a \<Rightarrow> this\<lparr>qp_flags := qp_flags other, qp_command := command_null, qp_commandRef := RefExt a\<rparr>),
      qp_reset other)"

section \<open>What the flags say\<close>

lemma flag_bits:
  "(x :: u32) AND 1 = 0 \<longleftrightarrow> \<not> bit x 0" "x AND 2 = 0 \<longleftrightarrow> \<not> bit x 1" "x AND 4 = 0 \<longleftrightarrow> \<not> bit x 2"
  "x AND 8 = 0 \<longleftrightarrow> \<not> bit x 3" "x AND 16 = 0 \<longleftrightarrow> \<not> bit x 4" "x AND 32 = 0 \<longleftrightarrow> \<not> bit x 5"
  "x AND 64 = 0 \<longleftrightarrow> \<not> bit x 6"
  using and_exp_eq_0_iff_not_bit [of x 0] and_exp_eq_0_iff_not_bit [of x 1] and_exp_eq_0_iff_not_bit [of x 2]
    and_exp_eq_0_iff_not_bit [of x 3] and_exp_eq_0_iff_not_bit [of x 4] and_exp_eq_0_iff_not_bit [of x 5]
    and_exp_eq_0_iff_not_bit [of x 6]
  by simp_all

lemma qp_command_flags_bits:
  fixes d skip
  defines "f \<equiv> qp_command_flags skip d"
  shows "bit f 0 \<longleftrightarrow> cd_parameterCount d > 0"
    and "bit f 1 \<longleftrightarrow> bit skip 1"
    and "bit f 2 \<longleftrightarrow> cd_pageSize d \<noteq> None"
    and "bit f 3 \<longleftrightarrow> cd_pageSize d \<noteq> None \<and> cd_pagingState d \<noteq> []"
    and "bit f 4 \<longleftrightarrow> cd_serialConsistencyLevel d \<noteq> None"
    and "bit f 5 \<longleftrightarrow> cd_defaultTimestamp d \<noteq> None"
    and "\<not> bit f 6"
  unfolding f_def qp_command_flags_def
  by (simp_all add: Let_def enum_or_def enum_and_def QPF_defs bit_simps)

text \<open>The tests of the encoder and the decoder, as facts about the command.\<close>

lemma qp_flag_tests:
  fixes d skip
  defines "f \<equiv> (ucast (ucast (qp_command_flags skip d) :: u8) :: u32)"
  shows "enumTrue (enum_and f QPF_WithValues) \<longleftrightarrow> cd_parameterCount d > 0"
    and "enumTrue (enum_and f QPF_SkipMetadata) \<longleftrightarrow> bit skip 1"
    and "enumTrue (enum_and f QPF_WithPageSize) \<longleftrightarrow> cd_pageSize d \<noteq> None"
    and "enumTrue (enum_and f QPF_WithPagingState) \<longleftrightarrow> cd_pageSize d \<noteq> None \<and> cd_pagingState d \<noteq> []"
    and "enumTrue (enum_and f QPF_WithSerialConsistency) \<longleftrightarrow> cd_serialConsistencyLevel d \<noteq> None"
    and "enumTrue (enum_and f QPF_WithDefaultTimestamp) \<longleftrightarrow> cd_defaultTimestamp d \<noteq> None"
    and "\<not> enumTrue (enum_and f QPF_WithNamesForValue)"
  using qp_command_flags_bits [of skip d]
  by (simp_all add: f_def enumTrue_def enum_and_def QPF_defs flag_bits bit_simps)

section \<open>What is encoded is decoded\<close>

lemma long_wire_normal:
  "ss_state v = StateNormal \<Longrightarrow>
   long_wire v = int_wire (word_of_nat (length (ss_value v)) :: u32) @ ss_value v"
  by (simp add: sized_wire_def)

lemma long_wire_other:
  "ss_state v \<noteq> StateNormal \<Longrightarrow> long_wire v = int_wire (word_of_int (ss_state v) :: u32)"
  by (simp add: sized_wire_def)

lemma qp_decode_values_cons:
  assumes "value_ok v"
  shows "qp_decode_values (Suc n) acc (long_wire v @ bs) = qp_decode_values n (acc @ long_wire v) bs"
proof (cases "ss_state v = StateNormal")
  case True
  let ?n = "length (ss_value v)"
  have n: "?n \<le> length_max TYPE(32) True" using assms True by (auto simp: value_ok_def bytes_ok_def sized_ok_def)
  have "sint (word_of_nat ?n :: u32) = int ?n" "unat (word_of_nat ?n :: u32) = ?n"
    using n sint_u32_of_nat [of ?n] unat_length_word [of ?n True, where 'l=32]
    by (simp_all add: le_length_max_iff)
  then show ?thesis using True by (simp add: long_wire_normal codec_simps)
next
  case False
  then have "ss_state v = -1 \<or> ss_state v = -2"
    using assms by (auto simp: value_ok_def bytes_ok_def sized_ok_def)
  then show ?thesis using False by (auto simp: long_wire_other codec_simps)
qed

lemma qp_decode_values_wire:
  "list_all value_ok vs \<Longrightarrow>
   qp_decode_values (length vs) acc (concat (map long_wire vs) @ rest) = Inr (acc @ concat (map long_wire vs), rest)"
  by (induction vs arbitrary: acc) (simp_all add: qp_decode_values_cons del: qp_decode_values.simps(2))

text \<open>The commands that fit the wire format.\<close>

definition level_ok :: "u32 \<Rightarrow> bool" where
  "level_ok l \<longleftrightarrow> unat l < 65536"

definition timestamp_ok :: "time_point \<Rightarrow> bool" where
  "timestamp_ok t \<longleftrightarrow> 1000 dvd t \<and> in_int64 t"

definition qp_sendable :: "command_data \<Rightarrow> sized_string list \<Rightarrow> bool" where
  "qp_sendable d vs \<longleftrightarrow>
     (\<exists>l. cd_consistencyLevel d = Some l \<and> level_ok l) \<and>
     command_params_inv (Some d) vs \<and> length vs < 65536 \<and>
     (case cd_pageSize d of None \<Rightarrow> cd_pagingState d = [] | Some n \<Rightarrow> unat n < 2 ^ 31) \<and>
     length (cd_pagingState d) < 2 ^ 31 \<and>
     pred_option level_ok (cd_serialConsistencyLevel d) \<and>
     pred_option timestamp_ok (cd_defaultTimestamp d)"

text \<open>The optional components, each present exactly when its flag says so.\<close>

definition opt_wire :: "('a \<Rightarrow> bytes) \<Rightarrow> 'a option \<Rightarrow> bytes" where
  "opt_wire w x = (case x of None \<Rightarrow> [] | Some a \<Rightarrow> w a)"

definition qp_wire :: "u8 \<Rightarrow> command_data \<Rightarrow> sized_string list \<Rightarrow> bytes" where
  "qp_wire flags d vs =
     int_wire (ucast (the (cd_consistencyLevel d)) :: u16) @ int_wire flags @
     (if vs = [] then [] else int_wire (word_of_nat (length vs) :: u16) @ concat (map long_wire vs)) @
     opt_wire (\<lambda>n. int_wire (ucast n :: u32)) (cd_pageSize d) @
     (if cd_pagingState d = [] then [] else long_wire \<lparr>ss_value = cd_pagingState d, ss_state = StateNormal\<rparr>) @
     opt_wire (\<lambda>l. int_wire (ucast l :: u16)) (cd_serialConsistencyLevel d) @
     opt_wire (\<lambda>t. int_wire (timestamp_set t)) (cd_defaultTimestamp d)"

lemma param_count:
  assumes "cd_parameterCount d = word_of_nat (length vs)" "length vs < 65536"
  shows "cd_parameterCount d > 0 \<longleftrightarrow> vs \<noteq> []"
    and "(ucast (cd_parameterCount d) :: u16) = word_of_nat (length vs)"
    and "ucast (word_of_nat (length vs) :: u16) = cd_parameterCount d"
    and "unat (word_of_nat (length vs) :: u16) = length vs"
proof -
  have u: "unat (cd_parameterCount d) = length vs" "unat (word_of_nat (length vs) :: u16) = length vs"
    using assms by (simp_all add: unat_of_nat take_bit_nat_eq_self)
  then show "cd_parameterCount d > 0 \<longleftrightarrow> vs \<noteq> []"
    by (simp add: word_greater_zero_iff unat_eq_0 [symmetric] del: unat_eq_0)
  show "(ucast (cd_parameterCount d) :: u16) = word_of_nat (length vs)"
    using u assms(2) by (simp add: word_unat_eq_iff unsigned_ucast_eq unsigned_take_bit_eq take_bit_nat_eq_self)
  show "ucast (word_of_nat (length vs) :: u16) = cd_parameterCount d"
    using u assms(2) by (simp add: word_unat_eq_iff unsigned_ucast_eq unsigned_take_bit_eq take_bit_nat_eq_self)
  show "unat (word_of_nat (length vs) :: u16) = length vs" by (rule u)
qed

lemma page_size_roundtrip:
  assumes "unat (n :: u64) < 2 ^ 31"
  shows "scast (ucast n :: u32) = n"
proof -
  have "(ucast n :: u32) = word_of_nat (unat n)"
    by (simp add: word_unat_eq_iff unsigned_ucast_eq unsigned_take_bit_eq unat_of_nat)
  then have "sint (ucast n :: u32) = int (unat n)" using sint_u32_of_nat [OF assms] by simp
  then have "word_of_int (sint (ucast n :: u32)) = n" by simp
  then show ?thesis by (simp only: of_int_sint)
qed

lemma qp_encode_wire:
  assumes ok: "qp_sendable d vs" and cmd: "qp_getCommand qp env = Some d"
    and flags: "qp_flags qp = ucast (qp_command_flags skip d)"
  shows "qp_encode env qp data = Inr (data @ qp_wire (qp_flags qp) d vs)"
proof -
  from ok obtain l where l: "cd_consistencyLevel d = Some l" by (auto simp: qp_sendable_def)
  from ok have params: "cd_parameters d = concat (map long_wire vs)"
    and count: "cd_parameterCount d = word_of_nat (length vs)" and len: "length vs < 65536"
    and page: "cd_pageSize d = None \<longrightarrow> cd_pagingState d = []"
    by (auto simp: qp_sendable_def command_params_inv_def)
  note tests = qp_flag_tests [of skip d]
  have params0: "vs = [] \<Longrightarrow> cd_parameters d = []" by (simp add: params)
  show ?thesis
    using page param_count [OF count len] params0
    unfolding qp_encode_def qp_getFlags_def flags qp_wire_def
    by (cases "cd_pageSize d"; cases "cd_serialConsistencyLevel d"; cases "cd_defaultTimestamp d";
        cases "vs = []")
      (simp_all add: cmd tests l codec_simps consistency_encode_wire Let_def opt_wire_def params long_wire_normal)
qed

lemma qp_decode_command_wire:
  assumes ok: "qp_sendable d vs" and flags: "flags = ucast (qp_command_flags skip d)"
  shows "qp_decode_command (qp_wire flags d vs @ rest) =
     Inr (d\<lparr>cd_queryStr := sh_of_ref [], cd_needPrepare := None, cd_maxRetries := 0\<rparr>, flags, rest)"
proof -
  from ok obtain l where l: "cd_consistencyLevel d = Some l" "level_ok l" by (auto simp: qp_sendable_def)
  from ok have params: "cd_parameters d = concat (map long_wire vs)" and vs: "list_all value_ok vs"
    and count: "cd_parameterCount d = word_of_nat (length vs)" and len: "length vs < 65536"
    and page: "cd_pageSize d = None \<longrightarrow> cd_pagingState d = []"
    and state: "bytes_ok \<lparr>ss_value = cd_pagingState d, ss_state = StateNormal\<rparr>"
    by (auto simp: qp_sendable_def command_params_inv_def bytes_ok_def sized_ok_def le_length_max_iff)
  have size: "scast (ucast n :: u32) = n" if "cd_pageSize d = Some n" for n
    using ok that page_size_roundtrip by (simp add: qp_sendable_def)
  have serial: "consistency_decode (int_wire (ucast k :: u16) @ bs) = Inr (k, bs)"
    if "cd_serialConsistencyLevel d = Some k" for k bs
    using ok that by (simp add: qp_sendable_def level_ok_def consistency_decode_wire)
  have time: "timestamp_get (timestamp_set t) = Inr t" if "cd_defaultTimestamp d = Some t" for t
    using ok that timestamp_get_set by (simp add: qp_sendable_def timestamp_ok_def)
  have paging: "bytes_decode (long_wire \<lparr>ss_value = cd_pagingState d, ss_state = 0\<rparr> @ bs) =
      Inr (\<lparr>ss_value = cd_pagingState d, ss_state = 0\<rparr>, bs)" for bs
    using bytes_codec.dec_wire [OF state] by simp
  note tests = qp_flag_tests [of skip d, folded flags]
  note pc = param_count [OF count len]
  show ?thesis
    using page l pc
    unfolding qp_decode_command_def qp_wire_def
    by (cases "vs = []"; cases "cd_pageSize d"; cases "cd_serialConsistencyLevel d"; cases "cd_defaultTimestamp d";
        cases "cd_pagingState d = []")
      (simp_all add: tests codec_simps consistency_decode_wire level_ok_def Let_def opt_wire_def size serial time
        paging command_data_init_def params count qp_decode_values_wire vs)
qed

lemma qp_setCommandRef_flags:
  assumes "qp_setCommandRef r env qp = Inr qp1" "qp_getCommand qp1 env = Some d"
  shows "qp_flags qp1 = ucast (qp_command_flags (qp_getFlags qp) d)"
  using assms
  by (auto simp: qp_setCommandRef_def qp_getCommand_def split: option.splits if_splits command_ref.splits)

section \<open>Batch parameters\<close>

record batch_parameters =
  bp_flags :: u8
  bp_batchCommand :: batch_command
  bp_batchCommandRef :: command_ref

type_synonym batch_env = "nat \<Rightarrow> batch_command"

definition bp_init :: batch_parameters where
  "bp_init = \<lparr>bp_flags = ucast BPF_None, bp_batchCommand = batch_null, bp_batchCommandRef = RefOwn\<rparr>"

definition bp_reset :: "batch_parameters \<Rightarrow> batch_parameters" where
  "bp_reset bp = bp\<lparr>bp_flags := ucast BPF_None, bp_batchCommand := batch_null, bp_batchCommandRef := RefOwn\<rparr>"

definition bp_getFlags :: "batch_parameters \<Rightarrow> u32" where
  "bp_getFlags bp = ucast (bp_flags bp)"

definition bp_getBatchCommand :: "batch_parameters \<Rightarrow> batch_env \<Rightarrow> batch_command" where
  "bp_getBatchCommand bp env =
     (case bp_batchCommandRef bp of RefOwn \<Rightarrow> bp_batchCommand bp | RefExt a \<Rightarrow> env a)"

definition bp_command_flags :: "batch_command_data \<Rightarrow> u32" where
  "bp_command_flags d =
     (let flags = BPF_None;
          flags = (if bd_serialConsistencyLevel d \<noteq> None then enum_or flags BPF_WithSerialConsistency else flags)
      in if bd_defaultTimestamp d \<noteq> None then enum_or flags BPF_WithDefaultTimestamp else flags)"

definition bp_setBatchCommandRef :: "command_ref \<Rightarrow> batch_env \<Rightarrow> batch_parameters \<Rightarrow> batch_parameters result" where
  "bp_setBatchCommandRef r env bp =
     (case bp_getBatchCommand (bp\<lparr>bp_batchCommandRef := r\<rparr>) env of
        None \<Rightarrow> Inl LogicException
      | Some d \<Rightarrow>
          if bd_consistencyLevel d = None then Inl LogicException
          else Inr (bp\<lparr>bp_flags := ucast (bp_command_flags d), bp_batchCommandRef := r\<rparr>))"

definition bp_setBatchCommand :: "batch_command \<Rightarrow> batch_env \<Rightarrow> batch_parameters \<Rightarrow> batch_parameters result" where
  "bp_setBatchCommand c env bp = bp_setBatchCommandRef RefOwn env (bp\<lparr>bp_batchCommand := c\<rparr>)"

definition bp_encode :: "batch_env \<Rightarrow> batch_parameters encoder" where
  "bp_encode env bp data =
     (case bp_getBatchCommand bp env of
        None \<Rightarrow> Inl LogicException
      | Some d \<Rightarrow>
        rbind (deref (bd_consistencyLevel d)) (\<lambda>level.
        rbind (consistency_encode level data) (\<lambda>data.
        rbind (int_encode (bp_flags bp) data) (\<lambda>data.
        let flags = bp_getFlags bp in
        rbind (if enumTrue (enum_and flags BPF_WithSerialConsistency)
               then rbind (deref (bd_serialConsistencyLevel d)) (\<lambda>l. consistency_encode l data)
               else Inr data) (\<lambda>data.
        if enumTrue (enum_and flags BPF_WithDefaultTimestamp)
        then rbind (deref (bd_defaultTimestamp d)) (\<lambda>t. int_encode (timestamp_set t) data)
        else Inr data)))))"

text \<open>The command the decoder stores through \<^verbatim>\<open>batchCommandRef_\<close>.\<close>

definition bp_decode_command :: "bytes \<Rightarrow> (batch_command_data \<times> u8 \<times> bytes) result" where
  "bp_decode_command bs =
     (let d = batch_command_data_init in
      rbind (consistency_decode bs) (\<lambda>(level, bs).
      let d = d\<lparr>bd_consistencyLevel := Some level\<rparr> in
      rbind (int_decode bs) (\<lambda>(flagsByte :: u8, bs).
      let flags = ucast flagsByte :: u32 in
      rbind (if enumTrue (enum_and flags BPF_WithSerialConsistency)
             then rbind (consistency_decode bs) (\<lambda>(l, bs).
               Inr (d\<lparr>bd_serialConsistencyLevel := Some l\<rparr>, bs))
             else Inr (d, bs)) (\<lambda>(d, bs).
      rbind (if enumTrue (enum_and flags BPF_WithDefaultTimestamp)
             then rbind (int_decode bs) (\<lambda>(v :: u64, bs).
               rbind (timestamp_get v) (\<lambda>t. Inr (d\<lparr>bd_defaultTimestamp := Some t\<rparr>, bs)))
             else Inr (d, bs)) (\<lambda>(d, bs).
      Inr (d, flagsByte, bs))))))"

definition bp_decode ::
  "batch_parameters \<Rightarrow> batch_env \<Rightarrow> bytes \<Rightarrow> ((batch_parameters \<times> batch_env) \<times> bytes) result" where
  "bp_decode bp env bs =
     rbind (bp_decode_command bs) (\<lambda>(d, flags, bs).
       Inr ((case bp_batchCommandRef bp of
               RefOwn \<Rightarrow> (bp\<lparr>bp_flags := flags, bp_batchCommand := Some d\<rparr>, env)
             | RefExt a \<Rightarrow> (bp\<lparr>bp_flags := flags\<rparr>, env(a := Some d))), bs))"

definition bp_move_construct :: "batch_parameters \<Rightarrow> batch_parameters \<times> batch_parameters" where
  "bp_move_construct other =
     ((case bp_batchCommandRef other of
         RefOwn \<Rightarrow> \<lparr>bp_flags = bp_flags other, bp_batchCommand = bp_batchCommand other, bp_batchCommandRef = RefOwn\<rparr>
       | RefExt a \<Rightarrow> \<lparr>bp_flags = bp_flags other, bp_batchCommand = batch_null, bp_batchCommandRef = RefExt a\<rparr>),
      bp_reset other)"

definition bp_move_assign :: "batch_parameters \<Rightarrow> batch_parameters \<Rightarrow> batch_parameters \<times> batch_parameters" where
  "bp_move_assign this other =
     ((case bp_batchCommandRef other of
         RefOwn \<Rightarrow> this\<lparr>bp_flags := bp_flags other, bp_batchCommand := bp_batchCommand other, bp_batchCommandRef := RefOwn\<rparr>
       | RefExt a \<Rightarrow> this\<lparr>bp_flags := bp_flags other, bp_batchCommand := batch_null, bp_batchCommandRef := RefExt a\<rparr>),
      bp_reset other)"

lemma bp_flag_tests:
  fixes d
  defines "f \<equiv> (ucast (ucast (bp_command_flags d) :: u8) :: u32)"
  shows "enumTrue (enum_and f BPF_WithSerialConsistency) \<longleftrightarrow> bd_serialConsistencyLevel d \<noteq> None"
    and "enumTrue (enum_and f BPF_WithDefaultTimestamp) \<longleftrightarrow> bd_defaultTimestamp d \<noteq> None"
  by (simp_all add: f_def bp_command_flags_def enumTrue_def enum_and_def enum_or_def BPF_defs flag_bits
      bit_simps Let_def)

definition bp_sendable :: "batch_command_data \<Rightarrow> bool" where
  "bp_sendable d \<longleftrightarrow>
     (\<exists>l. bd_consistencyLevel d = Some l \<and> level_ok l) \<and>
     pred_option level_ok (bd_serialConsistencyLevel d) \<and>
     pred_option timestamp_ok (bd_defaultTimestamp d)"

definition bp_wire :: "u8 \<Rightarrow> batch_command_data \<Rightarrow> bytes" where
  "bp_wire flags d =
     int_wire (ucast (the (bd_consistencyLevel d)) :: u16) @ int_wire flags @
     opt_wire (\<lambda>l. int_wire (ucast l :: u16)) (bd_serialConsistencyLevel d) @
     opt_wire (\<lambda>t. int_wire (timestamp_set t)) (bd_defaultTimestamp d)"

lemma bp_encode_wire:
  assumes "bp_sendable d" and "bp_getBatchCommand bp env = Some d"
    and flags: "bp_flags bp = ucast (bp_command_flags d)"
  shows "bp_encode env bp data = Inr (data @ bp_wire (bp_flags bp) d)"
  using assms bp_flag_tests [of d] unfolding bp_encode_def bp_getFlags_def flags bp_wire_def
  by (cases "bd_serialConsistencyLevel d"; cases "bd_defaultTimestamp d")
    (auto simp: bp_sendable_def codec_simps consistency_encode_wire Let_def opt_wire_def)

lemma bp_decode_command_wire:
  assumes ok: "bp_sendable d" and flags: "flags = ucast (bp_command_flags d)"
  shows "bp_decode_command (bp_wire flags d @ rest) =
     Inr (d\<lparr>bd_batchType := BT_Logged, bd_queries := [], bd_maxRetries := 0\<rparr>, flags, rest)"
proof -
  from ok obtain l where l: "bd_consistencyLevel d = Some l" "level_ok l" by (auto simp: bp_sendable_def)
  have serial: "consistency_decode (int_wire (ucast k :: u16) @ bs) = Inr (k, bs)"
    if "bd_serialConsistencyLevel d = Some k" for k bs
    using ok that by (simp add: bp_sendable_def level_ok_def consistency_decode_wire)
  have time: "timestamp_get (timestamp_set t) = Inr t" if "bd_defaultTimestamp d = Some t" for t
    using ok that timestamp_get_set by (simp add: bp_sendable_def timestamp_ok_def)
  note tests = bp_flag_tests [of d, folded flags]
  show ?thesis
    using l unfolding bp_decode_command_def bp_wire_def
    by (cases "bd_serialConsistencyLevel d"; cases "bd_defaultTimestamp d")
      (simp_all add: tests codec_simps consistency_decode_wire level_ok_def Let_def opt_wire_def serial time
        batch_command_data_init_def)
qed

lemma bp_setBatchCommandRef_flags:
  assumes "bp_setBatchCommandRef r env bp = Inr bp1" "bp_getBatchCommand bp1 env = Some d"
  shows "bp_flags bp1 = ucast (bp_command_flags d)"
  using assms
  by (auto simp: bp_setBatchCommandRef_def bp_getBatchCommand_def split: option.splits if_splits command_ref.splits)

end
