(* ===== verification/Request_Messages.thy ===== *)
theory Request_Messages
  imports Message_Header Protocol_Parameters Configuration
begin

text \<open>
  The request messages and their factory. Every message is a record with the header of
  \<^verbatim>\<open>MessageBase\<close> and its own fields; \<^verbatim>\<open>reset\<close> is what
  \<^verbatim>\<open>makeReusable\<close> calls on an object from the free list, so every message type
  is shown to satisfy the contract of \<open>reusable_object\<close>.
\<close>

section \<open>Small messages\<close>

record auth_response_message =
  arm_header :: message_header
  arm_token :: sized_string

definition arm_init :: auth_response_message where
  "arm_init = \<lparr>arm_header = mh_init, arm_token = ss_init StateNull\<rparr>"

definition arm_reset :: "message_header \<Rightarrow> auth_response_message \<Rightarrow> auth_response_message" where
  "arm_reset h m = m\<lparr>arm_header := h, arm_token := ss_reset StateNull (arm_token m)\<rparr>"

definition arm_encodeBody :: "auth_response_message encoder" where
  "arm_encodeBody m = bytes_encode (arm_token m)"

record options_message =
  om_header :: message_header

definition om_encodeBody :: "options_message encoder" where
  "om_encodeBody m data = Inr data"

record prepare_message =
  pr_header :: message_header
  pr_query :: sized_string

definition pr_init :: prepare_message where
  "pr_init = \<lparr>pr_header = mh_init, pr_query = ss_init StateNormal\<rparr>"

definition pr_reset :: "message_header \<Rightarrow> prepare_message \<Rightarrow> prepare_message" where
  "pr_reset h m = m\<lparr>pr_header := h, pr_query := ss_reset StateNormal (pr_query m)\<rparr>"

definition pr_encodeBody :: "prepare_message encoder" where
  "pr_encodeBody m = long_string_encode (pr_query m)"

record register_message =
  rg_header :: message_header
  rg_events :: "sized_string list"

definition rg_init :: register_message where
  "rg_init = \<lparr>rg_header = mh_init, rg_events = []\<rparr>"

definition rg_reset :: "message_header \<Rightarrow> register_message \<Rightarrow> register_message" where
  "rg_reset h m = m\<lparr>rg_header := h, rg_events := []\<rparr>"

definition rg_encodeBody :: "register_message encoder" where
  "rg_encodeBody m = string_list_encode (rg_events m)"

record startup_message =
  su_header :: message_header
  su_options :: "(sized_string \<times> sized_string) list"

definition protocol_string :: "string \<Rightarrow> sized_string" where
  "protocol_string s = \<lparr>ss_value = ascii s, ss_state = StateNormal\<rparr>"

definition VersionKey :: sized_string where
  "VersionKey = protocol_string ''CQL_VERSION''"

definition CompressionKey :: sized_string where
  "CompressionKey = protocol_string ''COMPRESSION''"

definition VersionValue :: sized_string where
  "VersionValue = protocol_string ''3.0.0''"

definition su_init :: startup_message where
  "su_init = \<lparr>su_header = mh_init, su_options = []\<rparr>"

definition su_reset :: "message_header \<Rightarrow> startup_message \<Rightarrow> startup_message" where
  "su_reset h m = m\<lparr>su_header := h, su_options := map_emplace ss_value VersionKey VersionValue []\<rparr>"

definition su_setCompression :: "bytes option \<Rightarrow> startup_message \<Rightarrow> startup_message" where
  "su_setCompression algorithm m =
     (case algorithm of
        Some a \<Rightarrow> m\<lparr>su_options := map_emplace ss_value CompressionKey \<lparr>ss_value = a, ss_state = StateNormal\<rparr> (su_options m)\<rparr>
      | None \<Rightarrow> m\<lparr>su_options := map_erase ss_value (ss_value CompressionKey) (su_options m)\<rparr>)"

definition su_encodeBody :: "startup_message encoder" where
  "su_encodeBody m = string_map_encode (su_options m)"

section \<open>Query and execute\<close>

record query_message =
  qm_header :: message_header
  qm_queryParameters :: query_parameters

definition qm_init :: query_message where
  "qm_init = \<lparr>qm_header = mh_init, qm_queryParameters = qp_init\<rparr>"

definition qm_reset :: "message_header \<Rightarrow> query_message \<Rightarrow> query_message" where
  "qm_reset h m = m\<lparr>qm_header := h, qm_queryParameters := qp_reset (qm_queryParameters m)\<rparr>"

definition qm_encodeBody :: "command_env \<Rightarrow> query_message encoder" where
  "qm_encodeBody env m data =
     (case qp_getCommand (qm_queryParameters m) env of
        None \<Rightarrow> Inl LogicException
      | Some d \<Rightarrow>
          let query = sh_get (cd_queryStr d) in
          rbind (int_encode (word_of_nat (length query) :: u32) data) (\<lambda>data.
            qp_encode env (qm_queryParameters m) (data @ query)))"

record execute_message =
  em_header :: message_header
  em_preparedQueryId :: sized_string
  em_queryParameters :: query_parameters

definition em_init :: execute_message where
  "em_init = \<lparr>em_header = mh_init, em_preparedQueryId = ss_init StateNormal, em_queryParameters = qp_init\<rparr>"

definition em_reset :: "message_header \<Rightarrow> execute_message \<Rightarrow> execute_message" where
  "em_reset h m = m\<lparr>em_header := h, em_preparedQueryId := ss_reset StateNormal (em_preparedQueryId m),
     em_queryParameters := qp_reset (em_queryParameters m)\<rparr>"

definition em_encodeBody :: "command_env \<Rightarrow> execute_message encoder" where
  "em_encodeBody env m data =
     rbind (short_bytes_encode (em_preparedQueryId m) data) (qp_encode env (em_queryParameters m))"

section \<open>Batch\<close>

record batch_message =
  bm_header :: message_header
  bm_batchParameters :: batch_parameters
  bm_preparedQueryIds :: "bytes list"

definition bm_init :: batch_message where
  "bm_init = \<lparr>bm_header = mh_init, bm_batchParameters = bp_init, bm_preparedQueryIds = []\<rparr>"

definition bm_reset :: "message_header \<Rightarrow> batch_message \<Rightarrow> batch_message" where
  "bm_reset h m = m\<lparr>bm_header := h, bm_batchParameters := bp_reset (bm_batchParameters m), bm_preparedQueryIds := []\<rparr>"

definition bm_getPreparedQueryId :: "nat \<Rightarrow> batch_message \<Rightarrow> bytes" where
  "bm_getPreparedQueryId index m =
     (if index < length (bm_preparedQueryIds m) then bm_preparedQueryIds m ! index else [])"

text \<open>The mutable accessor, with the assignment through the reference it returns.\<close>

definition bm_setPreparedQueryId :: "batch_env \<Rightarrow> nat \<Rightarrow> bytes \<Rightarrow> batch_message \<Rightarrow> batch_message result" where
  "bm_setPreparedQueryId env index pid m =
     (if index < length (bm_preparedQueryIds m)
      then Inr (m\<lparr>bm_preparedQueryIds := (bm_preparedQueryIds m)[index := pid]\<rparr>)
      else
        let ids = (case bp_getBatchCommand (bm_batchParameters m) env of
            Some d \<Rightarrow> vector_resize [] (length (bd_queries d)) (bm_preparedQueryIds m)
          | None \<Rightarrow> bm_preparedQueryIds m)
        in if index < length ids then Inr (m\<lparr>bm_preparedQueryIds := ids[index := pid]\<rparr>) else Inl StdOutOfRange)"

fun bm_queryCount :: "batch_query_data list \<Rightarrow> nat" where
  "bm_queryCount [] = 0"
| "bm_queryCount (q # qs) =
     (if bq_parameterSets q = [] then 1 else length (bq_parameterSets q)) + bm_queryCount qs"

text \<open>\<^verbatim>\<open><kind><string_or_id>\<close>\<close>

definition bm_encode_head :: "bytes \<Rightarrow> bytes \<Rightarrow> bytes \<Rightarrow> bytes result" where
  "bm_encode_head query pid data =
     (if pid = [] then
        rbind (int_encode (ucast BQK_Query :: u8) data) (\<lambda>data.
        rbind (int_encode (word_of_nat (length query) :: u32) data) (\<lambda>data. Inr (data @ query)))
      else
        rbind (int_encode (ucast BQK_PreparedQueryId :: u8) data) (\<lambda>data.
        rbind (int_encode (word_of_nat (length pid) :: u16) data) (\<lambda>data. Inr (data @ pid))))"

fun bm_encode_sets :: "bytes \<Rightarrow> bytes \<Rightarrow> (u64 \<times> bytes) list \<Rightarrow> nat \<Rightarrow> bytes \<Rightarrow> (nat \<times> bytes) result" where
  "bm_encode_sets query pid [] verify data = Inr (verify, data)"
| "bm_encode_sets query pid ((n, ps) # sets) verify data =
     rbind (bm_encode_head query pid data) (\<lambda>data.
       let parameterCount = ucast n :: u16 in
       if ucast parameterCount \<noteq> n then Inl LogicException
       else rbind (int_encode parameterCount data) (\<lambda>data.
         bm_encode_sets query pid sets (Suc verify) (data @ ps)))"

fun bm_encode_queries :: "batch_message \<Rightarrow> nat \<Rightarrow> batch_query_data list \<Rightarrow> nat \<Rightarrow> bytes \<Rightarrow> (nat \<times> bytes) result" where
  "bm_encode_queries m i [] verify data = Inr (verify, data)"
| "bm_encode_queries m i (q # qs) verify data =
     (let query = sh_get (bq_queryStr q);
          pid = bm_getPreparedQueryId i m in
      rbind (if bq_parameterSets q = []
             then rbind (bm_encode_head query pid data) (\<lambda>data.
                  rbind (int_encode (0 :: u16) data) (\<lambda>data. Inr (Suc verify, data)))
             else bm_encode_sets query pid (bq_parameterSets q) verify data) (\<lambda>(verify, data).
      bm_encode_queries m (Suc i) qs verify data))"

definition bm_encodeBody :: "batch_env \<Rightarrow> batch_message encoder" where
  "bm_encodeBody env m data =
     (case bp_getBatchCommand (bm_batchParameters m) env of
        None \<Rightarrow> Inl LogicException
      | Some d \<Rightarrow>
        rbind (int_encode (ucast (bd_batchType d) :: u8) data) (\<lambda>data.
        let queryCountValue = bm_queryCount (bd_queries d);
            queryCount = word_of_nat queryCountValue :: u16 in
        if unat queryCount \<noteq> queryCountValue then Inl LogicException
        else
          rbind (int_encode queryCount data) (\<lambda>data.
          rbind (bm_encode_queries m 0 (bd_queries d) 0 data) (\<lambda>(queryCountVerify, data).
          if queryCountValue \<noteq> queryCountVerify then Inl LogicException
          else bp_encode env (bm_batchParameters m) data))))"

section \<open>The factory\<close>

definition request_header :: "u32 \<Rightarrow> message_header" where
  "request_header opCode = mh_setOpCode opCode MD_Request mh_init"

definition make_auth_response :: "auth_response_message reusable_storage \<Rightarrow> auth_response_message \<times> auth_response_message reusable_storage" where
  "make_auth_response = make_reusable (arm_reset (request_header MT_AuthResponse)) arm_init"

definition make_batch :: "batch_message reusable_storage \<Rightarrow> batch_message \<times> batch_message reusable_storage" where
  "make_batch = make_reusable (bm_reset (request_header MT_Batch)) bm_init"

definition make_execute :: "execute_message reusable_storage \<Rightarrow> execute_message \<times> execute_message reusable_storage" where
  "make_execute = make_reusable (em_reset (request_header MT_Execute)) em_init"

definition make_options :: "options_message reusable_storage \<Rightarrow> options_message \<times> options_message reusable_storage" where
  "make_options = make_reusable (\<lambda>m. m\<lparr>om_header := request_header MT_Options\<rparr>) \<lparr>om_header = mh_init\<rparr>"

definition make_prepare :: "prepare_message reusable_storage \<Rightarrow> prepare_message \<times> prepare_message reusable_storage" where
  "make_prepare = make_reusable (pr_reset (request_header MT_Prepare)) pr_init"

definition make_query :: "query_message reusable_storage \<Rightarrow> query_message \<times> query_message reusable_storage" where
  "make_query = make_reusable (qm_reset (request_header MT_Query)) qm_init"

definition make_register :: "register_message reusable_storage \<Rightarrow> register_message \<times> register_message reusable_storage" where
  "make_register = make_reusable (rg_reset (request_header MT_Register)) rg_init"

definition make_startup :: "startup_message reusable_storage \<Rightarrow> startup_message \<times> startup_message reusable_storage" where
  "make_startup = make_reusable (su_reset (request_header MT_Startup)) su_init"

text \<open>Every request message type keeps the contract of the free list.\<close>

interpretation arm_reusable: reusable_object arm_init "arm_reset h" "\<lambda>m. m" "\<lambda>_. True" "\<lambda>m. m"
  by unfold_locales (simp_all add: arm_reset_def arm_init_def ss_ops)

interpretation om_reusable: reusable_object "\<lparr>om_header = mh_init\<rparr>" "\<lambda>m. m\<lparr>om_header := h\<rparr>" "\<lambda>m. m" "\<lambda>_. True" "\<lambda>m. m"
  by unfold_locales simp_all

interpretation pr_reusable: reusable_object pr_init "pr_reset h" "\<lambda>m. m" "\<lambda>_. True" "\<lambda>m. m"
  by unfold_locales (simp_all add: pr_reset_def pr_init_def ss_ops)

interpretation rg_reusable: reusable_object rg_init "rg_reset h" "\<lambda>m. m" "\<lambda>_. True" "\<lambda>m. m"
  by unfold_locales (simp_all add: rg_reset_def rg_init_def)

interpretation su_reusable: reusable_object su_init "su_reset h" "\<lambda>m. m" "\<lambda>_. True" "\<lambda>m. m"
  by unfold_locales (simp_all add: su_reset_def su_init_def)

interpretation qm_reusable: reusable_object qm_init "qm_reset h" "\<lambda>m. m" "\<lambda>_. True" "\<lambda>m. m"
  by unfold_locales (simp_all add: qm_reset_def qm_init_def qp_reset_def qp_init_def)

interpretation em_reusable: reusable_object em_init "em_reset h" "\<lambda>m. m" "\<lambda>_. True" "\<lambda>m. m"
  by unfold_locales (simp_all add: em_reset_def em_init_def qp_reset_def qp_init_def ss_ops)

interpretation bm_reusable: reusable_object bm_init "bm_reset h" "\<lambda>m. m" "\<lambda>_. True" "\<lambda>m. m"
  by unfold_locales (simp_all add: bm_reset_def bm_init_def bp_reset_def bp_init_def)

section \<open>What the server reads\<close>

text \<open>
  The body of a BATCH message as section 4.1.7 of the protocol gives it: every query is sent
  once for each of its parameter sets, by text or by prepared id. The parser below reads that
  format; it is the specification the encoder is checked against.
\<close>

datatype batch_ref = ByText bytes | ById bytes

definition entry_decode :: "(batch_ref \<times> sized_string list) decoder" where
  "entry_decode bs =
     rbind (int_decode bs) (\<lambda>(kind :: u8, bs).
     rbind (if kind = 0 then rbind (long_string_decode bs) (\<lambda>(s, bs). Inr (ByText (ss_value s), bs))
            else if kind = 1 then rbind (short_bytes_decode bs) (\<lambda>(s, bs). Inr (ById (ss_value s), bs))
            else Inl DecodeException) (\<lambda>(ref, bs).
     rbind (int_decode bs) (\<lambda>(n :: u16, bs).
     rbind (decode_n value_decode (unat n) bs) (\<lambda>(vs, bs). Inr ((ref, vs), bs)))))"

definition batch_body_decode ::
  "bytes \<Rightarrow> (u8 \<times> (batch_ref \<times> sized_string list) list \<times> batch_command_data \<times> u8 \<times> bytes) result" where
  "batch_body_decode bs =
     rbind (int_decode bs) (\<lambda>(ty :: u8, bs).
     rbind (int_decode bs) (\<lambda>(n :: u16, bs).
     rbind (decode_n entry_decode (unat n) bs) (\<lambda>(es, bs).
     rbind (bp_decode_command bs) (\<lambda>(d, flags, bs). Inr (ty, es, d, flags, bs)))))"

definition ref_wire :: "batch_ref \<Rightarrow> bytes" where
  "ref_wire r =
     (case r of
        ByText q \<Rightarrow> int_wire (0 :: u8) @ long_wire \<lparr>ss_value = q, ss_state = StateNormal\<rparr>
      | ById i \<Rightarrow> int_wire (1 :: u8) @ short_wire \<lparr>ss_value = i, ss_state = StateNormal\<rparr>)"

definition entry_wire :: "batch_ref \<times> sized_string list \<Rightarrow> bytes" where
  "entry_wire e = ref_wire (fst e) @ int_wire (word_of_nat (length (snd e)) :: u16) @ concat (map long_wire (snd e))"

lemma entry_wire_pair [simp]:
  "entry_wire (r, vs) = ref_wire r @ int_wire (word_of_nat (length vs) :: u16) @ concat (map long_wire vs)"
  by (simp add: entry_wire_def)

definition entry_ok :: "batch_ref \<times> sized_string list \<Rightarrow> bool" where
  "entry_ok e \<longleftrightarrow>
     (case fst e of ByText q \<Rightarrow> length q < 2 ^ 31 | ById i \<Rightarrow> length i < 65536) \<and>
     length (snd e) < 65536 \<and> list_all value_ok (snd e)"

lemma entry_decode_wire: "entry_ok e \<Longrightarrow> entry_decode (entry_wire e @ rest) = Inr (e, rest)"
proof -
  assume ok: "entry_ok e"
  have str: "long_string_decode (long_wire \<lparr>ss_value = q, ss_state = 0\<rparr> @ bs) = Inr (\<lparr>ss_value = q, ss_state = 0\<rparr>, bs)"
    if "length q < 2 ^ 31" for q bs
    using that by (intro long_string_codec.dec_wire) (simp add: long_string_ok_def sized_ok_def le_length_max_iff)
  have pid: "short_bytes_decode (short_wire \<lparr>ss_value = q, ss_state = 0\<rparr> @ bs) = Inr (\<lparr>ss_value = q, ss_state = 0\<rparr>, bs)"
    if "length q < 65536" for q bs
    using that by (intro short_bytes_codec.dec_wire) (simp add: string_ok_def sized_ok_def le_length_max_iff)
  have n: "unat (word_of_nat (length (snd e)) :: u16) = length (snd e)"
    using ok by (simp add: entry_ok_def unat_of_nat take_bit_nat_eq_self)
  show ?thesis
    using ok by (cases "fst e"; cases e)
      (simp_all add: entry_ok_def entry_decode_def entry_wire_def ref_wire_def codec_simps str pid
        value_codec.decode_n_wire unat_of_nat take_bit_nat_eq_self)
qed

interpretation batch_entry_codec: codec "\<lambda>e data. Inr (data @ entry_wire e)" entry_decode entry_ok entry_wire
  by unfold_locales (simp_all add: entry_decode_wire)

text \<open>The entries the server should see, given the values each parameter set encodes.\<close>

definition query_ref :: "batch_message \<Rightarrow> nat \<Rightarrow> batch_query_data \<Rightarrow> batch_ref" where
  "query_ref m i q =
     (let pid = bm_getPreparedQueryId i m in if pid = [] then ByText (sh_get (bq_queryStr q)) else ById pid)"

definition query_entries :: "batch_ref \<Rightarrow> sized_string list list \<Rightarrow> (batch_ref \<times> sized_string list) list" where
  "query_entries ref vss = map (Pair ref) (if vss = [] then [[]] else vss)"

fun batch_entries :: "batch_message \<Rightarrow> nat \<Rightarrow> batch_query_data list \<Rightarrow> sized_string list list list \<Rightarrow> (batch_ref \<times> sized_string list) list" where
  "batch_entries m i (q # qs) (vss # vsss) = query_entries (query_ref m i q) vss @ batch_entries m (Suc i) qs vsss"
| "batch_entries m i _ _ = []"

definition set_holds :: "u64 \<times> bytes \<Rightarrow> sized_string list \<Rightarrow> bool" where
  "set_holds s vs \<longleftrightarrow> snd s = concat (map long_wire vs) \<and> fst s = word_of_nat (length vs) \<and>
     length vs < 65536 \<and> list_all value_ok vs"

definition query_holds :: "batch_query_data \<Rightarrow> sized_string list list \<Rightarrow> bool" where
  "query_holds q vss \<longleftrightarrow> list_all2 set_holds (bq_parameterSets q) vss \<and> length (sh_get (bq_queryStr q)) < 2 ^ 31"

lemma bm_encode_head_wire:
  "bm_encode_head (sh_get (bq_queryStr q)) (bm_getPreparedQueryId i m) data = Inr (data @ ref_wire (query_ref m i q))"
  by (simp add: bm_encode_head_def ref_wire_def query_ref_def codec_simps BQK_defs sized_wire_def Let_def)

lemma set_count:
  assumes "set_holds (n, ps) vs"
  shows "ucast (word_of_nat (length vs) :: u16) = n" "(ucast n :: u16) = word_of_nat (length vs)"
  using assms
  by (simp_all add: set_holds_def word_unat_eq_iff unsigned_ucast_eq unsigned_take_bit_eq unat_of_nat
      take_bit_nat_eq_self)

lemma bm_encode_sets_wire:
  "list_all2 set_holds sets vss \<Longrightarrow>
   bm_encode_sets (sh_get (bq_queryStr q)) (bm_getPreparedQueryId i m) sets verify data =
     Inr (verify + length sets, data @ concat (map entry_wire (map (Pair (query_ref m i q)) vss)))"
proof (induction sets vss arbitrary: verify data rule: list_all2_induct)
  case (Cons s sets vs vss)
  obtain n ps where s: "s = (n, ps)" by (cases s)
  note count = set_count [OF Cons.hyps(1) [unfolded s]]
  have ps: "ps = concat (map long_wire vs)" using Cons.hyps(1) by (simp add: s set_holds_def)
  show ?case
    using Cons.IH by (simp add: s bm_encode_head_wire count ps Let_def codec_simps)
qed simp

lemma bm_encode_queries_wire:
  "list_all2 query_holds qs vsss \<Longrightarrow>
   bm_encode_queries m i qs verify data =
     Inr (verify + bm_queryCount qs, data @ concat (map entry_wire (batch_entries m i qs vsss)))"
proof (induction qs vsss arbitrary: i verify data rule: list_all2_induct)
  case (Cons q qs vss vsss)
  have sets: "list_all2 set_holds (bq_parameterSets q) vss" using Cons.hyps(1) by (simp add: query_holds_def)
  then have empty: "bq_parameterSets q = [] \<longleftrightarrow> vss = []" by auto
  show ?case
    using Cons.IH empty bm_encode_sets_wire [OF sets] bm_encode_head_wire
    by (cases "vss = []") (simp_all add: Let_def codec_simps query_entries_def)
qed simp

lemma length_batch_entries: "list_all2 query_holds qs vsss \<Longrightarrow> length (batch_entries m i qs vsss) = bm_queryCount qs"
proof (induction qs vsss arbitrary: i rule: list_all2_induct)
  case (Cons q qs vss vsss)
  then have "length (bq_parameterSets q) = length vss" by (auto simp: query_holds_def dest: list_all2_lengthD)
  with Cons show ?case by (auto simp: query_entries_def)
qed simp

lemma batch_entries_ok:
  assumes "list_all (\<lambda>pid. length pid < 65536) (bm_preparedQueryIds m)"
  shows "list_all2 query_holds qs vsss \<Longrightarrow> list_all entry_ok (batch_entries m i qs vsss)"
proof (induction qs vsss arbitrary: i rule: list_all2_induct)
  case (Cons q qs vss vsss)
  have ref: "case query_ref m i q of ByText q \<Rightarrow> length q < 2 ^ 31 | ById i \<Rightarrow> length i < 65536"
    using Cons.hyps(1) assms by (auto simp: query_ref_def Let_def query_holds_def bm_getPreparedQueryId_def list_all_iff)
  have "list_all (\<lambda>vs. length vs < 65536 \<and> list_all value_ok vs) vss"
    using Cons.hyps(1) by (auto simp: query_holds_def list_all2_conv_all_nth list_all_length set_holds_def)
  then have "list_all entry_ok (query_entries (query_ref m i q) vss)"
    using ref by (auto simp: query_entries_def entry_ok_def list_all_iff)
  with Cons.IH show ?case by simp
qed simp

lemma batch_body_parsed:
  assumes cmd: "bp_getBatchCommand (bm_batchParameters m) env = Some d" and ok: "bp_sendable d"
    and flags: "bp_flags (bm_batchParameters m) = ucast (bp_command_flags d)"
    and qs: "list_all2 query_holds (bd_queries d) vsss" and count: "bm_queryCount (bd_queries d) < 65536"
    and ids: "list_all (\<lambda>pid. length pid < 65536) (bm_preparedQueryIds m)"
  shows "\<exists>w. bm_encodeBody env m data = Inr (data @ w) \<and>
    batch_body_decode (w @ rest) =
      Inr (ucast (bd_batchType d), batch_entries m 0 (bd_queries d) vsss,
           d\<lparr>bd_batchType := BT_Logged, bd_queries := [], bd_maxRetries := 0\<rparr>, ucast (bp_command_flags d), rest)"
proof -
  let ?n = "bm_queryCount (bd_queries d)"
  let ?es = "batch_entries m 0 (bd_queries d) vsss"
  have n: "unat (word_of_nat ?n :: u16) = ?n" using count by (simp add: unat_of_nat take_bit_nat_eq_self)
  let ?w = "int_wire (ucast (bd_batchType d) :: u8) @ int_wire (word_of_nat ?n :: u16) @
    concat (map entry_wire ?es) @ bp_wire (ucast (bp_command_flags d)) d"
  have "bm_encodeBody env m data = Inr (data @ ?w)"
    using n bp_encode_wire [OF ok cmd flags]
    by (simp add: bm_encodeBody_def cmd codec_simps Let_def bm_encode_queries_wire [OF qs] flags)
  moreover have "decode_n entry_decode ?n (concat (map entry_wire ?es) @ bs) = Inr (?es, bs)" for bs
    using batch_entry_codec.decode_n_wire [OF batch_entries_ok [OF ids qs]] length_batch_entries [OF qs] by metis
  then have "batch_body_decode (?w @ rest) =
      Inr (ucast (bd_batchType d), ?es,
           d\<lparr>bd_batchType := BT_Logged, bd_queries := [], bd_maxRetries := 0\<rparr>, ucast (bp_command_flags d), rest)"
    using n by (simp add: batch_body_decode_def codec_simps bp_decode_command_wire [OF ok])
  ultimately show ?thesis by blast
qed

text \<open>The bodies of QUERY and EXECUTE: the text or the prepared id, then the query parameters.\<close>

definition command_received :: "command_data \<Rightarrow> command_data" where
  "command_received d = d\<lparr>cd_queryStr := sh_of_ref [], cd_needPrepare := None, cd_maxRetries := 0\<rparr>"

lemma query_body_parsed:
  assumes cmd: "qp_getCommand (qm_queryParameters m) env = Some d" and ok: "qp_sendable d vs"
    and flags: "qp_flags (qm_queryParameters m) = ucast (qp_command_flags skip d)"
    and len: "length (sh_get (cd_queryStr d)) < 2 ^ 31"
  shows "\<exists>w. qm_encodeBody env m data = Inr (data @ w) \<and>
    rbind (long_string_decode (w @ rest)) (\<lambda>(q, bs). rbind (qp_decode_command bs) (\<lambda>r. Inr (ss_value q, r))) =
      Inr (sh_get (cd_queryStr d), command_received d, ucast (qp_command_flags skip d), rest)"
proof -
  let ?q = "\<lparr>ss_value = sh_get (cd_queryStr d), ss_state = StateNormal\<rparr>"
  let ?flags = "ucast (qp_command_flags skip d) :: u8"
  have q: "long_string_ok ?q" using len by (simp add: long_string_ok_def sized_ok_def le_length_max_iff)
  have "qm_encodeBody env m data = Inr (data @ long_wire ?q @ qp_wire ?flags d vs)"
    using qp_encode_wire [OF ok cmd flags]
    by (simp add: qm_encodeBody_def cmd codec_simps Let_def flags sized_wire_def)
  then show ?thesis
    using long_string_codec.dec_wire [OF q] qp_decode_command_wire [OF ok]
    by (intro exI [of _ "long_wire ?q @ qp_wire ?flags d vs"]) (simp add: command_received_def)
qed

lemma execute_body_parsed:
  assumes cmd: "qp_getCommand (em_queryParameters m) env = Some d" and ok: "qp_sendable d vs"
    and flags: "qp_flags (em_queryParameters m) = ucast (qp_command_flags skip d)"
    and pid: "string_ok (em_preparedQueryId m)"
  shows "\<exists>w. em_encodeBody env m data = Inr (data @ w) \<and>
    rbind (short_bytes_decode (w @ rest)) (\<lambda>(i, bs). rbind (qp_decode_command bs) (\<lambda>r. Inr (i, r))) =
      Inr (em_preparedQueryId m, command_received d, ucast (qp_command_flags skip d), rest)"
proof -
  let ?flags = "ucast (qp_command_flags skip d) :: u8"
  have "em_encodeBody env m data = Inr (data @ short_wire (em_preparedQueryId m) @ qp_wire ?flags d vs)"
    using qp_encode_wire [OF ok cmd flags]
    by (simp add: em_encodeBody_def short_bytes_codec.enc_wire [OF pid] flags)
  then show ?thesis
    using short_bytes_codec.dec_wire [OF pid] qp_decode_command_wire [OF ok]
    by (intro exI [of _ "short_wire (em_preparedQueryId m) @ qp_wire ?flags d vs"]) (simp add: command_received_def)
qed

section \<open>The properties of requests\<close>

lemma query_body_of_ref:
  assumes cmd: "env a = Some d" and ok: "qp_sendable d vs" and len: "length (sh_get (cd_queryStr d)) < 2 ^ 31"
  shows "\<exists>qp w. qp_setCommandRef (RefExt a) env (qp_setSkipMetadata True (qm_queryParameters m)) = Inr qp \<and>
    qm_encodeBody env (m\<lparr>qm_queryParameters := qp\<rparr>) data = Inr (data @ w) \<and>
    rbind (long_string_decode (w @ rest)) (\<lambda>(q, bs). rbind (qp_decode_command bs) (\<lambda>r. Inr (ss_value q, r))) =
      Inr (sh_get (cd_queryStr d), command_received d,
        ucast (qp_command_flags (qp_getFlags (qp_setSkipMetadata True (qm_queryParameters m))) d), rest)"
proof -
  let ?old = "qp_setSkipMetadata True (qm_queryParameters m)"
  let ?flags = "ucast (qp_command_flags (qp_getFlags ?old) d)"
  let ?qp = "?old\<lparr>qp_flags := ?flags, qp_commandRef := RefExt a\<rparr>"
  have "cd_consistencyLevel d \<noteq> None" using ok by (auto simp: qp_sendable_def)
  then have set: "qp_setCommandRef (RefExt a) env ?old = Inr ?qp"
    using cmd unfolding qp_setCommandRef_def qp_getCommand_def by simp
  have "qp_getCommand (qm_queryParameters (m\<lparr>qm_queryParameters := ?qp\<rparr>)) env = Some d"
    by (simp add: qp_getCommand_def cmd)
  from query_body_parsed [OF this ok _ len, of "qp_getFlags ?old" data rest] set show ?thesis by simp
qed

definition command_example :: command_data where
  "command_example = command_data_init\<lparr>cd_queryStr := sh_of_string (ascii ''q''), cd_consistencyLevel := Some CL_One,
     cd_pageSize := Some 100\<rparr>"

lemma command_example_ok: "qp_sendable command_example []"
  by (simp add: command_example_def command_data_init_def qp_sendable_def command_params_inv_def level_ok_def CL_defs)

text \<open>
  C36: A BATCH message encodes to a body in the format of the protocol: every query is sent once for
  each of its parameter sets, once without values when it has none, by its prepared id when it has
  one and by its text otherwise, in the order of the command.
\<close>

theorem batch_message_parsed:
  assumes cmd: "env a = Some d" and ok: "bp_sendable d"
    and qs: "list_all2 query_holds (bd_queries d) vsss" and count: "bm_queryCount (bd_queries d) < 65536"
    and ids: "list_all (\<lambda>pid. length pid < 65536) (bm_preparedQueryIds m)"
  shows "\<exists>bp w. bp_setBatchCommandRef (RefExt a) env (bm_batchParameters m) = Inr bp \<and>
    bm_encodeBody env (m\<lparr>bm_batchParameters := bp\<rparr>) data = Inr (data @ w) \<and>
    batch_body_decode (w @ rest) =
      Inr (ucast (bd_batchType d), batch_entries m 0 (bd_queries d) vsss,
           d\<lparr>bd_batchType := BT_Logged, bd_queries := [], bd_maxRetries := 0\<rparr>, ucast (bp_command_flags d), rest)"
proof -
  let ?bp = "(bm_batchParameters m)\<lparr>bp_flags := ucast (bp_command_flags d), bp_batchCommandRef := RefExt a\<rparr>"
  let ?m = "m\<lparr>bm_batchParameters := ?bp\<rparr>"
  have set: "bp_setBatchCommandRef (RefExt a) env (bm_batchParameters m) = Inr ?bp"
    using cmd ok by (auto simp: bp_setBatchCommandRef_def bp_getBatchCommand_def bp_sendable_def)
  have get: "bp_getBatchCommand (bm_batchParameters ?m) env = Some d"
    by (simp add: bp_getBatchCommand_def cmd)
  have "batch_entries ?m i qs vs = batch_entries m i qs vs" for i qs vs
    by (induction m i qs vs rule: batch_entries.induct)
      (simp_all add: query_ref_def bm_getPreparedQueryId_def)
  with batch_body_parsed [OF get ok _ qs count, of data rest] ids set show ?thesis by auto
qed

definition batch_example :: batch_command_data where
  "batch_example = batch_command_data_init\<lparr>bd_consistencyLevel := Some CL_One,
     bd_queries := [(batch_query_of_string (ascii ''a''))\<lparr>bq_parameterSets := [(0, [])]\<rparr>, batch_query_of_string (ascii ''b'')]\<rparr>"

theorem batch_message_parsed_witness:
  "\<exists>bp w. bp_setBatchCommandRef (RefExt 0) [0 \<mapsto> batch_example] (bm_batchParameters (bm_init\<lparr>bm_preparedQueryIds := [[1, 2]]\<rparr>)) = Inr bp \<and>
    bm_encodeBody [0 \<mapsto> batch_example] (bm_init\<lparr>bm_preparedQueryIds := [[1, 2]], bm_batchParameters := bp\<rparr>) [] = Inr ([] @ w) \<and>
    batch_body_decode (w @ []) =
      Inr (ucast (bd_batchType batch_example), [(ById [1, 2], []), (ByText (ascii ''b''), [])],
           batch_example\<lparr>bd_batchType := BT_Logged, bd_queries := [], bd_maxRetries := 0\<rparr>,
           ucast (bp_command_flags batch_example), [])"
proof -
  let ?m = "bm_init\<lparr>bm_preparedQueryIds := [[1, 2]]\<rparr>"
  have 1: "bp_sendable batch_example" and 2: "list_all2 query_holds (bd_queries batch_example) [[[]], []]"
    and 3: "bm_queryCount (bd_queries batch_example) < 65536"
    and 4: "list_all (\<lambda>pid. length pid < 65536) (bm_preparedQueryIds ?m)"
    and 5: "batch_entries ?m 0 (bd_queries batch_example) [[[]], []] = [(ById [1, 2], []), (ByText (ascii ''b''), [])]"
    by (simp_all add: batch_example_def batch_command_data_init_def bp_sendable_def level_ok_def CL_defs query_holds_def
        set_holds_def batch_query_of_string_def ascii_def query_entries_def query_ref_def bm_getPreparedQueryId_def)
  from batch_message_parsed [OF _ 1 2 3 4, of "[0 \<mapsto> batch_example]" 0 "[]" "[]"] show ?thesis
    by (simp add: 5)
qed

end
