(* ===== verification/Protocol_Net.thy ===== *)
theory Protocol_Net
  imports Protocol_Container
begin

text \<open>
  \<^verbatim>\<open>ProtocolUUID\<close>, \<^verbatim>\<open>ProtocolInetAddr\<close> and
  \<^verbatim>\<open>ProtocolInet\<close>. An \<^verbatim>\<open>inet_address\<close> is represented by its raw
  bytes: four for IPv4, sixteen for IPv6, none when undefined.
\<close>

section \<open>UUID\<close>

type_synonym uuid = "u64 \<times> u64"

definition uuid_encode :: "uuid encoder" where
  "uuid_encode v data = rbind (int_encode (fst v) data) (int_encode (snd v))"

definition uuid_decode :: "uuid decoder" where
  "uuid_decode bs =
     (if length bs < 16 then Inl DecodeException
      else rbind (int_decode bs) (\<lambda>(hi, bs). rbind (int_decode bs) (\<lambda>(lo, bs). Inr ((hi, lo), bs))))"

definition uuid_wire :: "uuid \<Rightarrow> bytes" where
  "uuid_wire v = int_wire (fst v) @ int_wire (snd v)"

interpretation uuid_codec: exact_codec uuid_encode uuid_decode "\<lambda>_. True" uuid_wire
proof
  fix v :: uuid and data
  show "uuid_encode v data = Inr (data @ uuid_wire v)"
    by (simp add: uuid_encode_def uuid_wire_def codec_simps)
next
  fix v :: uuid and rest
  show "uuid_decode (uuid_wire v @ rest) = Inr (v, rest)"
    by (simp add: uuid_decode_def uuid_wire_def codec_simps)
next
  fix bs v rest assume "uuid_decode bs = Inr (v, rest)"
  then show "True \<and> bs = uuid_wire v @ rest"
    by (auto simp: uuid_decode_def uuid_wire_def rbind_eq_Inr long_codec.dec_iff split: if_splits)
qed

section \<open>Addresses\<close>

type_synonym inet_address = bytes

definition inet_addr_encode :: "inet_address encoder" where
  "inet_addr_encode v data =
     (let sz = word_of_nat (length v) :: u8 in
      if sz = 0 then Inl EncodeException
      else Inr (data @ [sz] @ take (unat sz) v))"

definition inet_addr_decode :: "inet_address decoder" where
  "inet_addr_decode bs =
     (case bs of
        [] \<Rightarrow> Inl DecodeException
      | sz # bs \<Rightarrow>
          if length bs < unat sz then Inl DecodeException
          else if sz = 4 then Inr (take 4 bs, drop 4 bs)
          else if sz = 16 then Inr (take 16 bs, drop 16 bs)
          else Inl DecodeException)"

definition inet_addr_ok :: "inet_address \<Rightarrow> bool" where
  "inet_addr_ok v \<longleftrightarrow> length v = 4 \<or> length v = 16"

definition inet_addr_wire :: "inet_address \<Rightarrow> bytes" where
  "inet_addr_wire v = word_of_nat (length v) # v"

interpretation inet_addr_codec: exact_codec inet_addr_encode inet_addr_decode inet_addr_ok inet_addr_wire
proof
  fix v data assume "inet_addr_ok v"
  then show "inet_addr_encode v data = Inr (data @ inet_addr_wire v)"
    by (auto simp: inet_addr_ok_def inet_addr_encode_def inet_addr_wire_def)
next
  fix v rest assume "inet_addr_ok v"
  then show "inet_addr_decode (inet_addr_wire v @ rest) = Inr (v, rest)"
    by (auto simp: inet_addr_ok_def inet_addr_decode_def inet_addr_wire_def)
next
  fix bs v rest assume "inet_addr_decode bs = Inr (v, rest)"
  then show "inet_addr_ok v \<and> bs = inet_addr_wire v @ rest"
    by (auto simp: inet_addr_ok_def inet_addr_decode_def inet_addr_wire_def split: list.splits if_splits)
qed

definition inet_get :: "inet_address \<times> u32 \<Rightarrow> inet_address \<times> u16" where
  "inet_get v = (fst v, ucast (snd v))"

definition inet_set :: "inet_address \<times> u16 \<Rightarrow> inet_address \<times> u32" where
  "inet_set v = (fst v, ucast (snd v))"

definition inet_reset :: "inet_address \<times> u32 \<Rightarrow> inet_address \<times> u32" where
  "inet_reset v = ([], 0)"

definition inet_encode :: "(inet_address \<times> u32) encoder" where
  "inet_encode v data = rbind (inet_addr_encode (fst v) data) (int_encode (snd v))"

definition inet_decode :: "(inet_address \<times> u32) decoder" where
  "inet_decode bs =
     rbind (inet_addr_decode bs) (\<lambda>(a, bs). rbind (int_decode bs) (\<lambda>(p, bs). Inr ((a, p), bs)))"

definition inet_wire :: "inet_address \<times> u32 \<Rightarrow> bytes" where
  "inet_wire v = inet_addr_wire (fst v) @ int_wire (snd v)"

interpretation inet_codec: exact_codec inet_encode inet_decode "\<lambda>v. inet_addr_ok (fst v)" inet_wire
proof
  fix v :: "inet_address \<times> u32" and data assume "inet_addr_ok (fst v)"
  then show "inet_encode v data = Inr (data @ inet_wire v)"
    by (simp add: inet_encode_def inet_wire_def inet_addr_codec.enc_wire codec_simps)
next
  fix v :: "inet_address \<times> u32" and rest assume "inet_addr_ok (fst v)"
  then show "inet_decode (inet_wire v @ rest) = Inr (v, rest)"
    by (simp add: inet_decode_def inet_wire_def inet_addr_codec.dec_wire codec_simps)
next
  fix bs v rest assume "inet_decode bs = Inr (v, rest)"
  then show "inet_addr_ok (fst v) \<and> bs = inet_wire v @ rest"
    by (auto simp: inet_decode_def inet_wire_def rbind_eq_Inr inet_addr_codec.dec_iff int_codec.dec_iff)
qed

lemma inet_get_set: "inet_get (inet_set v) = v"
proof -
  have "ucast (ucast p :: u32) = (p :: u16)" for p
    by (simp add: unsigned_ucast_eq word_unat_eq_iff take_bit_word_eq_self)
  then show ?thesis by (simp add: inet_get_def inet_set_def prod_eq_iff)
qed

end
