(* ===== verification/Connection_Codec.thy ===== *)
theory Connection_Codec
  imports Request_Messages Response_Messages Protocol_Net
begin

text \<open>
  Compressors and the two functions of \<^verbatim>\<open>Connection\<close> that turn a request into
  the bytes of a frame and the body of a frame into a response. The LZ4 library is a parameter:
  \<open>compress\<close> and \<open>decompress\<close> give the bytes its functions write, or
  \<open>None\<close> when they report an error.
\<close>

section \<open>LZ4Compressor\<close>

record lz4_library =
  lz4_compress :: "bytes \<Rightarrow> bytes option"
  lz4_decompress :: "bytes \<Rightarrow> nat \<Rightarrow> bytes option"

definition lz4_name :: bytes where
  "lz4_name = ascii ''lz4''"

text \<open>\<^verbatim>\<open>LZ4Compressor::compress\<close>: the length, big endian, then the block.\<close>

definition compressor_compress :: "lz4_library \<Rightarrow> bytes \<Rightarrow> bytes \<Rightarrow> bytes result" where
  "compressor_compress lz4 source output =
     (let sourceSize = word_of_nat (length source) :: u32 in
      case lz4_compress lz4 source of
        None \<Rightarrow> Inl LogicException
      | Some block \<Rightarrow> Inr (output @ int_wire sourceSize @ block))"

definition compressor_decompress :: "lz4_library \<Rightarrow> connection_info \<Rightarrow> bytes \<Rightarrow> bytes result" where
  "compressor_decompress lz4 info source =
     (if length source < 4 then Inr []
      else rbind (int_decode source) (\<lambda>(outputSize :: u32, block).
        if unat outputSize > ci_maximumMessageBodySize info then Inl LogicException
        else case lz4_decompress lz4 block (unat outputSize) of
            None \<Rightarrow> Inl LogicException
          | Some output \<Rightarrow> if length output \<noteq> unat outputSize then Inl LogicException else Inr output))"

text \<open>What the library documents: a block decompresses to the source it was made from.\<close>

definition lz4_lossless :: "lz4_library \<Rightarrow> bool" where
  "lz4_lossless lz4 \<longleftrightarrow>
     (\<forall>source block. lz4_compress lz4 source = Some block \<longrightarrow>
        lz4_decompress lz4 block (length source) = Some source)"

lemma compressor_roundtrip:
  assumes "lz4_lossless lz4" "compressor_compress lz4 source output = Inr out"
    and "length source \<le> ci_maximumMessageBodySize info" "ci_maximumMessageBodySize info < 2 ^ 32"
  shows "\<exists>w. out = output @ w \<and> compressor_decompress lz4 info w = Inr source"
proof -
  obtain block where block: "lz4_compress lz4 source = Some block"
    and out: "out = output @ int_wire (word_of_nat (length source) :: u32) @ block"
    using assms(2) by (auto simp: compressor_compress_def Let_def split: option.splits)
  have n: "unat (word_of_nat (length source) :: u32) = length source"
    using assms(3,4) by (simp add: unat_of_nat take_bit_nat_eq_self)
  have "compressor_decompress lz4 info (int_wire (word_of_nat (length source) :: u32) @ block) = Inr source"
    using assms(1,3) block n by (simp add: compressor_decompress_def codec_simps lz4_lossless_def)
  then show ?thesis using out by blast
qed

text \<open>\<^verbatim>\<open>CompressorFactory::getCompressor\<close>: whether the server offers LZ4.\<close>

definition getCompressor :: "(sized_string \<times> sized_string list) list \<Rightarrow> bool" where
  "getCompressor options =
     (case map_find ss_value (ss_value CompressionKey) options of
        None \<Rightarrow> False
      | Some algorithms \<Rightarrow> list_ex (\<lambda>a. ss_value a = lz4_name) algorithms)"

section \<open>Encoding a request\<close>

text \<open>
  The message is given by its header and its \<^verbatim>\<open>encodeBody\<close>; \<open>compressor\<close>
  is \<open>None\<close> while none was negotiated.
\<close>

definition connection_encodeMessage ::
  "bool \<Rightarrow> lz4_library option \<Rightarrow> connection_info \<Rightarrow> message_header \<Rightarrow> (bytes \<Rightarrow> bytes result) \<Rightarrow> bytes result" where
  "connection_encodeMessage isReady compressor info header encodeBody =
     (case (isReady, compressor) of
        (True, Some lz4) \<Rightarrow>
          let header = mh_setFlags (enum_or (mh_getFlags header) MHF_Compression) header in
          rbind (mh_encodeHeaderPre info header []) (\<lambda>sendingBuffer.
          rbind (encodeBody []) (\<lambda>preCompress.
          rbind (compressor_compress lz4 preCompress sendingBuffer) (mh_encodeHeaderPost info)))
      | _ \<Rightarrow>
          rbind (mh_encodeHeaderPre info header []) (\<lambda>sendingBuffer.
          rbind (encodeBody sendingBuffer) (mh_encodeHeaderPost info)))"

text \<open>Splitting a frame the way a receiver does: nine bytes of header, then the body.\<close>

definition frame_parse :: "bytes \<Rightarrow> (message_header \<times> bytes) result" where
  "frame_parse bs =
     rbind (mh_decodeHeader mh_init (take 9 bs)) (\<lambda>h.
     rbind (mh_getBodyLength h) (\<lambda>n.
       if length bs = 9 + n then Inr (h, drop 9 bs) else Inl DecodeException))"

lemma frame_parse_wire:
  assumes "mh_direction h = MD_Request \<or> mh_direction h = MD_Response" "length body < 2 ^ 31"
  shows "frame_parse (header_wire ci_v4 h (word_of_nat (length body)) @ body) =
     Inr (h\<lparr>mh_bodyLength := word_of_nat (length body)\<rparr>, body)"
  using decodeHeader_wire [of ci_v4 h mh_init "word_of_nat (length body)"] assms
  by (simp add: frame_parse_def mh_getBodyLength_small)

lemma encodeMessage_plain:
  assumes "\<not> isReady \<or> compressor = None"
    and body: "\<And>data. encodeBody data = Inr (data @ body)"
  shows "connection_encodeMessage isReady compressor ci_v4 h encodeBody =
     Inr (header_wire ci_v4 h (word_of_nat (length body)) @ body)"
  using assms
  by (auto simp: connection_encodeMessage_def encodeHeaderPre_wire encodeHeaderPost_wire split: bool.splits option.splits)

lemma encodeMessage_compressed:
  assumes body: "encodeBody [] = Inr body" and block: "lz4_compress lz4 body = Some block"
  defines "w \<equiv> int_wire (word_of_nat (length body) :: u32) @ block"
  shows "connection_encodeMessage True (Some lz4) ci_v4 h encodeBody =
     Inr (header_wire ci_v4 (mh_setFlags (enum_or (mh_getFlags h) MHF_Compression) h) (word_of_nat (length w)) @ w)"
  using assms
  by (simp add: connection_encodeMessage_def encodeHeaderPre_wire encodeHeaderPost_wire compressor_compress_def Let_def)

section \<open>Decoding a response\<close>

text \<open>The part of the body in front of the message: tracing id, custom payload and warnings.\<close>

definition strip_tracing :: "u32 \<Rightarrow> bytes \<Rightarrow> bytes result" where
  "strip_tracing flags buffer =
     (if enumTrue (enum_and flags MHF_Tracing) then rbind (uuid_decode buffer) (\<lambda>(_, bs). Inr bs)
      else Inr buffer)"

definition strip_customPayload :: "u32 \<Rightarrow> bytes \<Rightarrow> bytes result" where
  "strip_customPayload flags buffer =
     (if enumTrue (enum_and flags MHF_CustomPayload) then rbind (bytes_map_decode buffer) (\<lambda>(_, bs). Inr bs)
      else Inr buffer)"

definition strip_warnings :: "u32 \<Rightarrow> sized_string list \<Rightarrow> bytes \<Rightarrow> bytes result" where
  "strip_warnings flags warnings buffer =
     (if enumTrue (enum_and flags MHF_Warning) then rbind (string_list_decode warnings buffer) (\<lambda>(_, bs). Inr bs)
      else Inr buffer)"

definition connection_decodeMessage ::
  "lz4_library option \<Rightarrow> connection_info \<Rightarrow> sized_string list \<Rightarrow> response \<Rightarrow> bytes \<Rightarrow> option_store \<Rightarrow>
   (response \<times> option_store) result" where
  "connection_decodeMessage compressor info warnings message buffer st =
     (let flags = mh_getFlags (response_header message) in
      rbind (strip_tracing flags buffer) (\<lambda>buffer.
      rbind (strip_customPayload flags buffer) (\<lambda>buffer.
      rbind (strip_warnings flags warnings buffer) (\<lambda>buffer.
      if enumTrue (enum_and flags MHF_Compression) then
        (case compressor of
           None \<Rightarrow> Inl LogicException
         | Some lz4 \<Rightarrow> rbind (compressor_decompress lz4 info buffer) (\<lambda>output. response_decodeBody output message st))
      else response_decodeBody buffer message st))))"

text \<open>
  One frame: header, size check, factory, body. This is the receiver's sequence up to the point
  where it looks for the waiter.
\<close>

definition connection_receiveFrame ::
  "lz4_library option \<Rightarrow> connection_info \<Rightarrow> sized_string list \<Rightarrow> bytes \<Rightarrow> (nat \<Rightarrow> bytes) \<Rightarrow> response_pools \<Rightarrow>
   option_store \<Rightarrow> (response \<times> response_pools \<times> option_store) result" where
  "connection_receiveFrame compressor info warnings headerBytes readBody pools st =
     rbind (mh_decodeHeader mh_init headerBytes) (\<lambda>header.
     rbind (mh_getBodyLength header) (\<lambda>bodyLength.
       if bodyLength > ci_maximumMessageBodySize info then Inl LogicException
       else rbind (makeResponseMessage header pools) (\<lambda>(message, pools).
            rbind (connection_decodeMessage compressor info warnings message (readBody bodyLength) st)
              (\<lambda>(message, st). Inr (message, pools, st)))))"

lemma response_decodeBody_header:
  "response_decodeBody b m st = Inr (m', st') \<Longrightarrow> response_header m' = response_header m"
  by (induction b m st rule: response_decodeBody.induct)
    (auto simp: rbind_eq_Inr re_decodeBody_def er_decodeBody_def ev_decodeBody_def rd_decodeBody_def
      sp_decodeBody_def au_decodeBody_def as_decodeBody_def ac_decodeBody_def Let_def split: if_splits)

lemma decodeMessage_header:
  "connection_decodeMessage c info ws m b st = Inr (m', st') \<Longrightarrow> response_header m' = response_header m"
  by (auto simp: connection_decodeMessage_def Let_def rbind_eq_Inr split: if_splits option.splits
      dest: response_decodeBody_header)

lemma response_decodeBody_opcode:
  "response_decodeBody b m st = Inr (m', st') \<Longrightarrow> response_opcode m' = response_opcode m"
  by (induction b m st rule: response_decodeBody.induct) (auto simp: rbind_eq_Inr)

lemma decodeMessage_opcode:
  "connection_decodeMessage c info ws m b st = Inr (m', st') \<Longrightarrow> response_opcode m' = response_opcode m"
  by (auto simp: connection_decodeMessage_def Let_def rbind_eq_Inr split: if_splits option.splits
      dest: response_decodeBody_opcode)

lemma receiveFrame_faithful:
  assumes "connection_receiveFrame c info ws hb readBody po st = Inr (m, po', st')"
  obtains header where "mh_decodeHeader mh_init hb = Inr header"
    and "response_header m = header" and "response_opcode m = mh_getOpCode header"
    and "\<exists>n \<le> ci_maximumMessageBodySize info. mh_getBodyLength header = Inr n"
proof -
  from assms obtain header n message st1 where
    h: "mh_decodeHeader mh_init hb = Inr header" and n: "mh_getBodyLength header = Inr n"
    and le: "\<not> n > ci_maximumMessageBodySize info"
    and mk: "makeResponseMessage header po = Inr (message, po')"
    and dec: "connection_decodeMessage c info ws message (readBody n) st = Inr (m, st')"
    by (auto simp: connection_receiveFrame_def rbind_eq_Inr split: if_splits)
  show thesis
  proof (rule that [OF h])
    show "response_header m = header"
      using decodeMessage_header [OF dec] makeResponse_header [OF mk] by simp
    show "response_opcode m = mh_getOpCode header"
      using decodeMessage_opcode [OF dec] makeResponse_opcode [OF mk] by simp
    show "\<exists>n \<le> ci_maximumMessageBodySize info. mh_getBodyLength header = Inr n"
      using n le by (auto simp: not_less)
  qed
qed

text \<open>Without flags the body is decoded as it is.\<close>

lemma decodeMessage_plain:
  "mh_getFlags (response_header m) = 0 \<Longrightarrow>
   connection_decodeMessage c info ws m b st = response_decodeBody b m st"
  by (simp add: connection_decodeMessage_def strip_tracing_def strip_customPayload_def strip_warnings_def
      enumTrue_def enum_and_def)

section \<open>The properties of frames\<close>

text \<open>
  C35: Once compression is negotiated, the frame of a request carries the compression flag and the length
  of what follows, and decompressing its body gives back what the message encoded, for every library
  whose blocks decompress to their source.
\<close>

theorem compressed_frame_read_back:
  assumes lib: "lz4_lossless lz4" and body: "encodeBody [] = Inr body" and block: "lz4_compress lz4 body = Some block"
    and len: "length body \<le> ci_maximumMessageBodySize ci_v4" and size: "length block + 4 < 2 ^ 31"
    and dir: "mh_direction h = MD_Request"
  shows "\<exists>frame sent. connection_encodeMessage True (Some lz4) ci_v4 h encodeBody = Inr frame \<and>
    frame_parse frame = Inr ((mh_setFlags (enum_or (mh_getFlags h) MHF_Compression) h)\<lparr>mh_bodyLength := word_of_nat (length sent)\<rparr>, sent) \<and>
    compressor_decompress lz4 ci_v4 sent = Inr body"
proof -
  let ?w = "int_wire (word_of_nat (length body) :: u32) @ block"
  have "mh_direction (mh_setFlags (enum_or (mh_getFlags h) MHF_Compression) h) = MD_Request"
    using dir by (simp add: mh_setFlags_def)
  with size frame_parse_wire [of "mh_setFlags (enum_or (mh_getFlags h) MHF_Compression) h" ?w]
  have parse: "frame_parse (header_wire ci_v4 (mh_setFlags (enum_or (mh_getFlags h) MHF_Compression) h) (word_of_nat (length ?w)) @ ?w) =
      Inr ((mh_setFlags (enum_or (mh_getFlags h) MHF_Compression) h)\<lparr>mh_bodyLength := word_of_nat (length ?w)\<rparr>, ?w)"
    by simp
  have "compressor_compress lz4 body [] = Inr ([] @ ?w)"
    by (simp add: compressor_compress_def block Let_def)
  from compressor_roundtrip [OF lib this len] have "compressor_decompress lz4 ci_v4 ?w = Inr body" by simp
  with parse encodeMessage_compressed [of encodeBody body lz4 block h] body block show ?thesis by metis
qed

text \<open>A library that stores blocks as they are.\<close>

definition stored_blocks :: lz4_library where
  "stored_blocks = \<lparr>lz4_compress = Some, lz4_decompress = (\<lambda>block n. Some block)\<rparr>"

theorem compressed_frame_read_back_witness:
  "\<exists>frame sent. connection_encodeMessage True (Some stored_blocks) ci_v4 (request_header MT_Query) (\<lambda>data. Inr (data @ [1, 2])) = Inr frame \<and>
    frame_parse frame = Inr ((mh_setFlags (enum_or (mh_getFlags (request_header MT_Query)) MHF_Compression) (request_header MT_Query))
      \<lparr>mh_bodyLength := word_of_nat (length sent)\<rparr>, sent) \<and>
    compressor_decompress stored_blocks ci_v4 sent = Inr [1, 2]"
  by (rule compressed_frame_read_back [where block = "[1, 2]"])
    (simp_all add: lz4_lossless_def stored_blocks_def request_header_def mh_setOpCode_def ci_v4_def)

text \<open>
  A frame that is received becomes a message of the type its opcode names with the header that was
  read, and its body is at most as long as the maximum the driver accepts.
\<close>

lemma received_frame_faithful:
  assumes "connection_receiveFrame c info ws hb readBody po st = Inr (m, po', st')"
  shows "\<exists>header n. mh_decodeHeader mh_init hb = Inr header \<and> response_header m = header \<and>
     response_opcode m = mh_getOpCode header \<and> mh_getBodyLength header = Inr n \<and> n \<le> ci_maximumMessageBodySize info"
  by (rule receiveFrame_faithful [OF assms]) blast

definition pools_init :: response_pools where
  "pools_init = \<lparr>po_result = storage_init, po_error = storage_init, po_event = storage_init, po_ready = storage_init,
     po_supported = storage_init, po_authenticate = storage_init, po_authSuccess = storage_init, po_authChallenge = storage_init\<rparr>"

lemma ready_frame:
  "connection_receiveFrame None ci_v4 [] (header_wire ci_v4 (mh_setOpCode MT_Ready MD_Response mh_init) 0) (\<lambda>n. []) pools_init os_init =
     Inr (RespReady \<lparr>rd_header = mh_setOpCode MT_Ready MD_Response mh_init\<rparr>, pools_init, os_init)"
proof -
  let ?h = "mh_setOpCode MT_Ready MD_Response mh_init"
  have h: "mh_decodeHeader mh_init (header_wire ci_v4 ?h 0) = Inr ?h"
    using decodeHeader_wire [of ci_v4 ?h mh_init 0] by (simp add: mh_setOpCode_def mh_init_def)
  have len: "mh_getBodyLength ?h = Inr 0" by (simp add: mh_getBodyLength_def mh_setOpCode_def mh_init_def)
  have mk: "makeResponseMessage ?h pools_init = Inr (RespReady \<lparr>rd_header = ?h\<rparr>, pools_init)"
    by (simp add: makeResponseMessage_def make_reusable_def pools_init_def storage_init_def MT_defs mh_getOpCode_def
        mh_setOpCode_def Let_def)
  have "mh_getFlags ?h = 0" by (simp add: mh_getFlags_def mh_setOpCode_def mh_init_def)
  then show ?thesis
    by (simp add: connection_receiveFrame_def h len mk decodeMessage_plain rd_decodeBody_def)
qed

lemma received_frame_faithful_witness:
  "\<exists>header n. mh_decodeHeader mh_init (header_wire ci_v4 (mh_setOpCode MT_Ready MD_Response mh_init) 0) = Inr header \<and>
     response_header (RespReady \<lparr>rd_header = mh_setOpCode MT_Ready MD_Response mh_init\<rparr>) = header \<and>
     response_opcode (RespReady \<lparr>rd_header = mh_setOpCode MT_Ready MD_Response mh_init\<rparr>) = mh_getOpCode header \<and>
     mh_getBodyLength header = Inr n \<and> n \<le> ci_maximumMessageBodySize ci_v4"
  by (rule received_frame_faithful [OF ready_frame])

end
