(* ===== verification/Seastar_Queue.thy ===== *)
theory Seastar_Queue
  imports Cql_Prelude
begin

text \<open>
  \<^verbatim>\<open>seastar::queue\<close> is library code: a queue with a maximal size whose
  \<^verbatim>\<open>push\<close> answers whether there was room. The model takes the library's operations as
  a parameter, and \<open>queue_laws\<close> states what its documentation promises, in terms of
  the items a queue holds and its maximal size. \<open>list_queue\<close> is an instance on which the
  model can be run.
\<close>

record ('a, 'q) queue_library =
  sq_new :: "nat \<Rightarrow> 'q"
  sq_empty :: "'q \<Rightarrow> bool"
  sq_size :: "'q \<Rightarrow> nat"
  sq_push :: "'a \<Rightarrow> 'q \<Rightarrow> bool \<times> 'q"
  sq_pop :: "'q \<Rightarrow> 'a \<times> 'q"

definition queue_laws :: "('a, 'q) queue_library \<Rightarrow> ('q \<Rightarrow> 'a list) \<Rightarrow> ('q \<Rightarrow> nat) \<Rightarrow> bool" where
  "queue_laws Q items cap \<longleftrightarrow>
     (\<forall>n. items (sq_new Q n) = [] \<and> cap (sq_new Q n) = n) \<and>
     (\<forall>q. sq_empty Q q \<longleftrightarrow> items q = []) \<and>
     (\<forall>q. sq_size Q q = length (items q)) \<and>
     (\<forall>x q. cap (snd (sq_push Q x q)) = cap q \<and>
        (if length (items q) < cap q
         then fst (sq_push Q x q) \<and> items (snd (sq_push Q x q)) = items q @ [x]
         else \<not> fst (sq_push Q x q) \<and> items (snd (sq_push Q x q)) = items q)) \<and>
     (\<forall>q x xs. items q = x # xs \<longrightarrow>
        fst (sq_pop Q q) = x \<and> items (snd (sq_pop Q q)) = xs \<and> cap (snd (sq_pop Q q)) = cap q)"

definition list_queue :: "('a, nat \<times> 'a list) queue_library" where
  "list_queue = \<lparr>
     sq_new = (\<lambda>n. (n, [])),
     sq_empty = (\<lambda>(n, xs). xs = []),
     sq_size = (\<lambda>(n, xs). length xs),
     sq_push = (\<lambda>x (n, xs). if length xs < n then (True, n, xs @ [x]) else (False, n, xs)),
     sq_pop = (\<lambda>(n, xs). (hd xs, n, tl xs))\<rparr>"

lemma list_queue_laws: "queue_laws list_queue snd fst"
  by (auto simp: queue_laws_def list_queue_def)

lemma queue_new:
  "queue_laws Q items cap \<Longrightarrow> items (sq_new Q n) = []"
  "queue_laws Q items cap \<Longrightarrow> cap (sq_new Q n) = n"
  by (simp_all add: queue_laws_def)

lemma queue_empty: "queue_laws Q items cap \<Longrightarrow> sq_empty Q q \<longleftrightarrow> items q = []"
  by (simp add: queue_laws_def)

lemma queue_size: "queue_laws Q items cap \<Longrightarrow> sq_size Q q = length (items q)"
  by (simp add: queue_laws_def)

lemma queue_push:
  assumes "queue_laws Q items cap" "sq_push Q x q = (b, q')"
  shows "b \<longleftrightarrow> length (items q) < cap q"
    and "items q' = (if b then items q @ [x] else items q)" and "cap q' = cap q"
  using assms by (auto simp: queue_laws_def dest!: spec [of _ q] spec [of _ x] split: if_splits)

lemma queue_pop:
  assumes "queue_laws Q items cap" "sq_pop Q q = (x, q')" "items q \<noteq> []"
  shows "items q = x # items q'" and "cap q' = cap q"
proof -
  obtain y ys where ys: "items q = y # ys"
    using assms(3) by (cases "items q") auto
  have "fst (sq_pop Q q) = y \<and> items (snd (sq_pop Q q)) = ys \<and> cap (snd (sq_pop Q q)) = cap q"
    using assms(1) ys unfolding queue_laws_def by blast
  then show "items q = x # items q'" and "cap q' = cap q"
    using ys assms(2) by simp_all
qed

end
