(* ===== verification/Connection_Receive.thy ===== *)
theory Connection_Receive
  imports Connection_Stream Connection_Codec Seastar_Queue Metrics
begin

text \<open>
  The receiving side of \<^verbatim>\<open>Connection\<close>: one bounded queue and one waiter slot for
  each stream, and a receiver loop that runs only while somebody waits. A future is identified by
  the number of its promise; \<open>rv_resolved\<close> is the log of promises that were fulfilled.
  The interleavings of the reactor are the sequences of steps of \<open>receive_step\<close>: a call
  of \<^verbatim>\<open>waitNextMessage\<close>, one iteration of a running receiver with whatever the
  network and the decoder produced, and a call of \<^verbatim>\<open>close\<close>.
\<close>

section \<open>State\<close>

text \<open>
  \<open>rv_connected\<close> is false when \<^verbatim>\<open>socket_\<close> holds nothing, \<open>rv_compressor\<close>
  when \<^verbatim>\<open>compressor_\<close> is null. \<open>rv_receivers\<close> counts the receiver loops that
  have not stopped.
\<close>

record 'q receiver =
  rv_connected :: bool
  rv_isReady :: bool
  rv_compressor :: bool
  rv_slots :: "(bool \<times> nat) list"
  rv_queues :: "'q list"
  rv_count :: nat
  rv_receivers :: nat
  rv_nextPromise :: nat
  rv_resolved :: "(nat \<times> response result) list"
  rv_metrics :: metrics_data

datatype waiting = MessageReady response | MessagePending nat

definition receiver_init :: "(response, 'q) queue_library \<Rightarrow> nat \<Rightarrow> nat \<Rightarrow> metrics_data \<Rightarrow> 'q receiver" where
  "receiver_init Q maxStreams maxPendingMessages metrics =
     \<lparr>rv_connected = False, rv_isReady = False, rv_compressor = False,
      rv_slots = replicate maxStreams (False, 0),
      rv_queues = map (\<lambda>_. sq_new Q maxPendingMessages) [0..<maxStreams],
      rv_count = 0, rv_receivers = 0, rv_nextPromise = 0, rv_resolved = [], rv_metrics = metrics\<rparr>"

section \<open>Operations\<close>

definition connection_close :: "'q receiver \<Rightarrow> 'q receiver" where
  "connection_close st =
     st\<lparr>rv_connected := False, rv_isReady := False, rv_compressor := False, rv_count := 0,
        rv_slots := map (\<lambda>(pending, p). (False, p)) (rv_slots st),
        rv_resolved := rv_resolved st @
          map (\<lambda>(pending, p). (p, Inl NetworkException)) (filter fst (rv_slots st))\<rparr>"

definition connection_waitNextMessage ::
  "(response, 'q) queue_library \<Rightarrow> stream \<Rightarrow> 'q receiver \<Rightarrow> waiting result \<times> 'q receiver" where
  "connection_waitNextMessage Q stream st =
     (case stream_getStreamId stream of
        Inl e \<Rightarrow> (Inl e, st)
      | Inr streamId \<Rightarrow>
         let i = unat streamId in
         if i \<ge> length (rv_queues st) then (Inl StdOutOfRange, st)
         else if \<not> sq_empty Q (rv_queues st ! i)
         then (let (message, queue) = sq_pop Q (rv_queues st ! i) in
               (Inr (MessageReady message), st\<lparr>rv_queues := (rv_queues st)[i := queue]\<rparr>))
         else if i \<ge> length (rv_slots st) then (Inl StdOutOfRange, st)
         else if fst (rv_slots st ! i) then (Inl LogicException, st)
         else (let p = rv_nextPromise st in
               (Inr (MessagePending p),
                st\<lparr>rv_slots := (rv_slots st)[i := (True, p)], rv_nextPromise := p + 1,
                   rv_count := rv_count st + 1,
                   rv_receivers := (if rv_count st = 0 then rv_receivers st + 1 else rv_receivers st)\<rparr>)))"

text \<open>
  What the receiver does with a decoded message; the answer is whether it stops
  (\<^verbatim>\<open>stop_iteration::yes\<close>).
\<close>

definition connection_dispatch ::
  "(response, 'q) queue_library \<Rightarrow> response \<Rightarrow> 'q receiver \<Rightarrow> bool \<times> 'q receiver" where
  "connection_dispatch Q message st =
     (let st = st\<lparr>rv_metrics := (rv_metrics st)
        \<lparr>connection_messages_received := connection_messages_received (rv_metrics st) + 1\<rparr>\<rparr>;
        i = unat (mh_getStreamId (response_header message)) in
      if i \<ge> length (rv_queues st) then (True, connection_close st)
      else if fst (rv_slots st ! i)
      then (let st = st\<lparr>rv_slots := (rv_slots st)[i := (False, snd (rv_slots st ! i))],
              rv_resolved := rv_resolved st @ [(snd (rv_slots st ! i), Inr message)]\<rparr> in
            if rv_count st = 0 then (True, connection_close st)
            else (let st = st\<lparr>rv_count := rv_count st - 1\<rparr> in (rv_count st = 0, st)))
      else (let (pushed, queue) = sq_push Q message (rv_queues st ! i) in
            if \<not> pushed then (True, connection_close st)
            else (rv_count st = 0, st\<lparr>rv_queues := (rv_queues st)[i := queue]\<rparr>)))"

text \<open>
  One iteration of the receiver: \<open>Inl\<close> is an exception of the socket, the header, the
  factory or the decoder.
\<close>

definition connection_receiverIteration ::
  "(response, 'q) queue_library \<Rightarrow> response result \<Rightarrow> 'q receiver \<Rightarrow> 'q receiver" where
  "connection_receiverIteration Q received st =
     (case received of
        Inl e \<Rightarrow>
          (let st = connection_close (st\<lparr>rv_metrics := (rv_metrics st)
             \<lparr>connection_receive_message_errors := connection_receive_message_errors (rv_metrics st) + 1\<rparr>\<rparr>) in
           st\<lparr>rv_receivers := rv_receivers st - 1\<rparr>)
      | Inr message \<Rightarrow>
          (let (stop, st) = connection_dispatch Q message st in
           if stop then st\<lparr>rv_receivers := rv_receivers st - 1\<rparr> else st))"

section \<open>Executions\<close>

text \<open>
  The world adds two logs that the code does not have: the messages a stream accepted and the
  messages its users got, both with the stream's index; and whether somebody closed the
  connection while a receiver was running.
\<close>

record 'q receive_world =
  rw_state :: "'q receiver"
  rw_accepted :: "(nat \<times> response) list"
  rw_taken :: "(nat \<times> response) list"
  rw_interrupted :: bool

definition rw_wait :: "(response, 'q) queue_library \<Rightarrow> stream \<Rightarrow> 'q receive_world \<Rightarrow> 'q receive_world" where
  "rw_wait Q s w =
     (case connection_waitNextMessage Q s (rw_state w) of
        (Inr (MessageReady m), st) \<Rightarrow> w\<lparr>rw_state := st, rw_taken := rw_taken w @ [(unat (st_streamId s), m)]\<rparr>
      | (_, st) \<Rightarrow> w\<lparr>rw_state := st\<rparr>)"

definition rw_receive :: "(response, 'q) queue_library \<Rightarrow> response result \<Rightarrow> 'q receive_world \<Rightarrow> 'q receive_world" where
  "rw_receive Q received w =
     (let st = rw_state w; w = w\<lparr>rw_state := connection_receiverIteration Q received st\<rparr> in
      case received of
        Inl e \<Rightarrow> w
      | Inr m \<Rightarrow>
         let i = unat (mh_getStreamId (response_header m)) in
         if i \<ge> length (rv_queues st) then w
         else if fst (rv_slots st ! i)
         then w\<lparr>rw_accepted := rw_accepted w @ [(i, m)], rw_taken := rw_taken w @ [(i, m)]\<rparr>
         else if fst (sq_push Q m (rv_queues st ! i)) then w\<lparr>rw_accepted := rw_accepted w @ [(i, m)]\<rparr>
         else w)"

definition rw_close :: "'q receive_world \<Rightarrow> 'q receive_world" where
  "rw_close w = w\<lparr>rw_state := connection_close (rw_state w),
     rw_interrupted := (rw_interrupted w \<or> rv_receivers (rw_state w) > 0)\<rparr>"

inductive receive_reachable ::
  "(response, 'q) queue_library \<Rightarrow> nat \<Rightarrow> nat \<Rightarrow> metrics_data \<Rightarrow> 'q receive_world \<Rightarrow> bool"
  for Q maxStreams maxPending metrics where
  receive_start: "receive_reachable Q maxStreams maxPending metrics
    \<lparr>rw_state = receiver_init Q maxStreams maxPending metrics, rw_accepted = [], rw_taken = [], rw_interrupted = False\<rparr>"
| receive_wait: "receive_reachable Q maxStreams maxPending metrics w \<Longrightarrow>
    receive_reachable Q maxStreams maxPending metrics (rw_wait Q s w)"
| receive_iterate: "receive_reachable Q maxStreams maxPending metrics w \<Longrightarrow> rv_receivers (rw_state w) > 0 \<Longrightarrow>
    receive_reachable Q maxStreams maxPending metrics (rw_receive Q received w)"
| receive_close: "receive_reachable Q maxStreams maxPending metrics w \<Longrightarrow>
    receive_reachable Q maxStreams maxPending metrics (rw_close w)"


section \<open>Waiters, promises and receivers\<close>

text \<open>
  The count of receiving promises is the number of occupied slots, a waiter always has a running
  receiver, there is at most one receiver unless somebody closed the connection under it, and every
  promise ever made is either in one slot or fulfilled once.
\<close>

definition pending_slots :: "'q receiver \<Rightarrow> (bool \<times> nat) multiset" where
  "pending_slots st = mset (filter fst (rv_slots st))"

definition receiver_inv :: "nat \<Rightarrow> 'q receiver \<Rightarrow> bool" where
  "receiver_inv n st \<longleftrightarrow>
     length (rv_slots st) = n \<and> length (rv_queues st) = n \<and>
     rv_count st = size (pending_slots st) \<and>
     (rv_count st > 0 \<longrightarrow> rv_receivers st > 0) \<and>
     image_mset snd (pending_slots st) + mset (map fst (rv_resolved st)) = mset [0..<rv_nextPromise st]"

lemma mset_filter_update:
  "i < length xs \<Longrightarrow>
   mset (filter P (xs[i := y])) + (if P (xs ! i) then {#xs ! i#} else {#}) =
   mset (filter P xs) + (if P y then {#y#} else {#})"
proof (induction xs arbitrary: i)
  case (Cons x xs)
  show ?case
  proof (cases i)
    case (Suc j)
    then show ?thesis
      using Cons.IH [of j] Cons.prems by (cases "P x"; cases "P (xs ! j)"; cases "P y") simp_all
  qed simp
qed simp

lemma pending_slots_update:
  assumes "i < length (rv_slots st)"
  shows "mset (filter fst ((rv_slots st)[i := y])) + (if fst (rv_slots st ! i) then {#rv_slots st ! i#} else {#}) =
    pending_slots st + (if fst y then {#y#} else {#})"
  using mset_filter_update [OF assms, of fst y] by (simp add: pending_slots_def)

lemma pending_slots_simps [simp]:
  "pending_slots (st\<lparr>rv_metrics := m\<rparr>) = pending_slots st"
  "pending_slots (st\<lparr>rv_queues := qs\<rparr>) = pending_slots st"
  "pending_slots (st\<lparr>rv_count := c\<rparr>) = pending_slots st"
  "pending_slots (st\<lparr>rv_receivers := r\<rparr>) = pending_slots st"
  "pending_slots (connection_close st) = {#}"
  "rv_count (connection_close st) = 0"
  "rv_receivers (connection_close st) = rv_receivers st"
  "rv_queues (connection_close st) = rv_queues st"
  "length (rv_slots (connection_close st)) = length (rv_slots st)"
  by (auto simp: pending_slots_def connection_close_def filter_empty_conv)

lemma close_promises:
  "mset (map fst (rv_resolved (connection_close st))) =
   image_mset snd (pending_slots st) + mset (map fst (rv_resolved st))"
  by (simp add: connection_close_def pending_slots_def case_prod_unfold comp_def union_commute)

lemma receiver_inv_close:
  assumes "receiver_inv n st"
  shows "receiver_inv n (connection_close st)"
  using assms close_promises [of st]
  by (simp add: receiver_inv_def) (simp add: connection_close_def)

lemma receiver_inv_init: "receiver_inv n (receiver_init Q n k m)"
  by (simp add: receiver_inv_def receiver_init_def pending_slots_def)

lemma receiver_inv_wait:
  assumes inv: "receiver_inv n st" and op: "connection_waitNextMessage Q s st = (r, st')"
  shows "receiver_inv n st'"
proof (cases "\<exists>p. r = Inr (MessagePending p)")
  case False
  then show ?thesis
    using assms
    by (auto simp: connection_waitNextMessage_def receiver_inv_def Let_def split: sum.splits if_splits prod.splits)
next
  case True
  then obtain id where id: "stream_getStreamId s = Inr id" "unat id < length (rv_slots st)"
    "\<not> fst (rv_slots st ! unat id)"
    and st': "st' = st\<lparr>rv_slots := (rv_slots st)[unat id := (True, rv_nextPromise st)],
        rv_nextPromise := rv_nextPromise st + 1, rv_count := rv_count st + 1,
        rv_receivers := (if rv_count st = 0 then rv_receivers st + 1 else rv_receivers st)\<rparr>"
    using op by (auto simp: connection_waitNextMessage_def Let_def split: sum.splits if_splits prod.splits)
  have "pending_slots st' = add_mset (True, rv_nextPromise st) (pending_slots st)"
    using pending_slots_update [OF id(2), of "(True, rv_nextPromise st)"] id(3)
    by (simp add: st' pending_slots_def)
  then show ?thesis
    using inv by (auto simp: receiver_inv_def st')
qed

lemma dispatch_pending:
  assumes inv: "receiver_inv n st" and i: "i < n" and pend: "fst (rv_slots st ! i)"
    and st': "st' = st\<lparr>rv_slots := (rv_slots st)[i := (False, snd (rv_slots st ! i))],
        rv_resolved := rv_resolved st @ [(snd (rv_slots st ! i), r)], rv_count := rv_count st - 1\<rparr>"
  shows "rv_count st > 0" and "receiver_inv n st'"
proof -
  have len: "i < length (rv_slots st)"
    using inv i by (simp add: receiver_inv_def)
  have upd: "add_mset (rv_slots st ! i) (pending_slots st') = pending_slots st"
    using pending_slots_update [OF len, of "(False, snd (rv_slots st ! i))"] pend
    by (simp add: st' pending_slots_def)
  then have sz: "size (pending_slots st) = size (pending_slots st') + 1"
    by (metis size_add_mset Suc_eq_plus1)
  then show "rv_count st > 0"
    using inv by (simp add: receiver_inv_def)
  have snds: "image_mset snd (pending_slots st) = add_mset (snd (rv_slots st ! i)) (image_mset snd (pending_slots st'))"
    by (metis upd image_mset_add_mset)
  have fields: "length (rv_slots st') = length (rv_slots st)" "rv_queues st' = rv_queues st"
    "rv_count st' = rv_count st - 1" "rv_receivers st' = rv_receivers st" "rv_nextPromise st' = rv_nextPromise st"
    "mset (map fst (rv_resolved st')) = add_mset (snd (rv_slots st ! i)) (mset (map fst (rv_resolved st)))"
    by (simp_all add: st')
  show "receiver_inv n st'"
    using inv unfolding receiver_inv_def fields sz snds by auto
qed


lemma receiver_inv_fields:
  assumes "receiver_inv n st" and "rv_slots st' = rv_slots st" "length (rv_queues st') = length (rv_queues st)"
    and "rv_count st' = rv_count st" "rv_receivers st' = rv_receivers st"
    and "rv_nextPromise st' = rv_nextPromise st" "rv_resolved st' = rv_resolved st"
  shows "receiver_inv n st'"
  using assms by (simp add: receiver_inv_def pending_slots_def)

lemma receiver_inv_dispatch:
  assumes inv: "receiver_inv n st" and op: "connection_dispatch Q m st = (stop, st')"
  shows "receiver_inv n st'" and "stop \<longleftrightarrow> rv_count st' = 0" and "rv_receivers st' = rv_receivers st"
proof -
  let ?i = "unat (mh_getStreamId (response_header m))"
  let ?m = "(rv_metrics st)\<lparr>connection_messages_received := connection_messages_received (rv_metrics st) + 1\<rparr>"
  have len: "length (rv_queues st) = n"
    using inv by (simp add: receiver_inv_def)
  have inv1: "receiver_inv n (st\<lparr>rv_metrics := ?m\<rparr>)"
    using inv by (rule receiver_inv_fields) simp_all
  have "receiver_inv n st' \<and> (stop \<longleftrightarrow> rv_count st' = 0) \<and> rv_receivers st' = rv_receivers st"
  proof (cases "?i < n \<and> fst (rv_slots st ! ?i)")
    case True
    note pend = dispatch_pending [OF inv1, of ?i _ "Inr m"]
    have "rv_count st > 0"
      using pend(1) True by auto
    then show ?thesis
      using op True len pend(2) by (auto simp: connection_dispatch_def Let_def)
  next
    case False
    have "receiver_inv n (st\<lparr>rv_metrics := ?m, rv_queues := (rv_queues st)[?i := q]\<rparr>)" for q
      using inv by (rule receiver_inv_fields) simp_all
    then show ?thesis
      using op False len receiver_inv_close [OF inv1]
      by (auto simp: connection_dispatch_def Let_def split: prod.splits if_splits)
  qed
  then show "receiver_inv n st'" and "stop \<longleftrightarrow> rv_count st' = 0" and "rv_receivers st' = rv_receivers st"
    by simp_all
qed

lemma receiver_inv_iteration:
  assumes inv: "receiver_inv n st" and run: "rv_receivers st > 0"
  shows "receiver_inv n (connection_receiverIteration Q received st)"
    and "rv_receivers (connection_receiverIteration Q received st) =
      rv_receivers st - (if rv_count (connection_receiverIteration Q received st) = 0 then 1 else 0)"
proof -
  have "receiver_inv n (connection_receiverIteration Q received st) \<and>
    rv_receivers (connection_receiverIteration Q received st) =
      rv_receivers st - (if rv_count (connection_receiverIteration Q received st) = 0 then 1 else 0)"
  proof (cases received)
    case (Inl e)
    define st1 where "st1 = connection_close (st\<lparr>rv_metrics := (rv_metrics st)
      \<lparr>connection_receive_message_errors := connection_receive_message_errors (rv_metrics st) + 1\<rparr>\<rparr>)"
    have "receiver_inv n st1"
      unfolding st1_def by (rule receiver_inv_close) (rule receiver_inv_fields [OF inv], simp_all)
    moreover have "rv_count st1 = 0" "rv_receivers st1 = rv_receivers st"
      by (simp_all add: st1_def)
    ultimately show ?thesis
      using Inl by (auto simp: connection_receiverIteration_def receiver_inv_def simp flip: st1_def)
  next
    case (Inr m)
    obtain stop st1 where op: "connection_dispatch Q m st = (stop, st1)"
      by (cases "connection_dispatch Q m st")
    note facts = receiver_inv_dispatch [OF inv op]
    show ?thesis
      using facts run Inr op by (auto simp: connection_receiverIteration_def receiver_inv_def)
  qed
  then show "receiver_inv n (connection_receiverIteration Q received st)"
    and "rv_receivers (connection_receiverIteration Q received st) =
      rv_receivers st - (if rv_count (connection_receiverIteration Q received st) = 0 then 1 else 0)"
    by simp_all
qed

text \<open>The same facts for every reachable world.\<close>

lemma rw_simps [simp]:
  "rw_state (rw_wait Q s w) = snd (connection_waitNextMessage Q s (rw_state w))"
  "rw_interrupted (rw_wait Q s w) = rw_interrupted w"
  "rw_accepted (rw_wait Q s w) = rw_accepted w"
  "rw_state (rw_receive Q received w) = connection_receiverIteration Q received (rw_state w)"
  "rw_interrupted (rw_receive Q received w) = rw_interrupted w"
  "rw_state (rw_close w) = connection_close (rw_state w)"
  "rw_accepted (rw_close w) = rw_accepted w" "rw_taken (rw_close w) = rw_taken w"
  by (auto simp: rw_wait_def rw_receive_def rw_close_def Let_def split: sum.splits prod.splits waiting.splits)

lemma receive_reachable_inv:
  "receive_reachable Q n k metrics w \<Longrightarrow> receiver_inv n (rw_state w)"
proof (induction rule: receive_reachable.induct)
  case receive_start
  show ?case by (simp add: receiver_inv_init)
next
  case (receive_wait w s)
  then show ?case
    by (cases "connection_waitNextMessage Q s (rw_state w)") (auto intro: receiver_inv_wait)
qed (auto intro: receiver_inv_iteration receiver_inv_close)

lemma wait_receivers:
  "connection_waitNextMessage Q s st = (r, st') \<Longrightarrow>
   rv_count st' = rv_count st \<and> rv_receivers st' = rv_receivers st \<or>
   rv_count st' = rv_count st + 1 \<and> rv_receivers st' = rv_receivers st + (if rv_count st = 0 then 1 else 0)"
  by (auto simp: connection_waitNextMessage_def Let_def split: sum.splits if_splits prod.splits)

lemma single_receiver_inv:
  "receive_reachable Q n k metrics w \<Longrightarrow> \<not> rw_interrupted w \<Longrightarrow>
   rv_receivers (rw_state w) = (if rv_count (rw_state w) = 0 then 0 else 1)"
proof (induction rule: receive_reachable.induct)
  case receive_start
  show ?case by (simp add: receiver_init_def)
next
  case (receive_wait w s)
  then show ?case
    by (cases "connection_waitNextMessage Q s (rw_state w)") (auto dest!: wait_receivers split: if_splits)
next
  case (receive_iterate w received)
  then show ?case
    using receiver_inv_iteration(2) [OF receive_reachable_inv [OF receive_iterate.hyps(1)] receive_iterate.hyps(2), of Q received]
    by (auto split: if_splits)
next
  case (receive_close w)
  then show ?case by (auto simp: rw_close_def split: if_splits)
qed


section \<open>Order of the messages of a stream\<close>

definition stream_log :: "nat \<Rightarrow> (nat \<times> response) list \<Rightarrow> response list" where
  "stream_log i l = map snd (filter (\<lambda>e. fst e = i) l)"

lemma stream_log_append [simp]:
  "stream_log i (l @ [(j, m)]) = stream_log i l @ (if j = i then [m] else [])"
  by (simp add: stream_log_def)

text \<open>
  What a stream accepted is what its users took followed by what its queue holds; a stream with a
  waiter has an empty queue, and no queue exceeds its bound.
\<close>

definition mailbox_inv :: "('q \<Rightarrow> response list) \<Rightarrow> ('q \<Rightarrow> nat) \<Rightarrow> nat \<Rightarrow> nat \<Rightarrow> 'q receive_world \<Rightarrow> bool" where
  "mailbox_inv items cap n k w \<longleftrightarrow>
     (\<forall>i < n. let q = rv_queues (rw_state w) ! i in
        (fst (rv_slots (rw_state w) ! i) \<longrightarrow> items q = []) \<and> cap q = k \<and> length (items q) \<le> k \<and>
        stream_log i (rw_accepted w) = stream_log i (rw_taken w) @ items q)"

lemma mailbox_inv_slots:
  assumes "mailbox_inv items cap n k w" "rv_queues (rw_state w') = rv_queues (rw_state w)"
    and "\<And>i. i < n \<Longrightarrow> fst (rv_slots (rw_state w') ! i) \<Longrightarrow> fst (rv_slots (rw_state w) ! i) \<or> items (rv_queues (rw_state w) ! i) = []"
    and "rw_accepted w' = rw_accepted w" "rw_taken w' = rw_taken w"
  shows "mailbox_inv items cap n k w'"
  using assms by (auto simp: mailbox_inv_def Let_def)

lemma mailbox_inv_close: "receiver_inv n (rw_state w) \<Longrightarrow> mailbox_inv items cap n k w \<Longrightarrow> mailbox_inv items cap n k (rw_close w)"
  by (rule mailbox_inv_slots [where w = w]) (auto simp: connection_close_def receiver_inv_def case_prod_unfold)

lemma wait_cases:
  assumes "receiver_inv n st"
  obtains (failed) e where "connection_waitNextMessage Q s st = (Inl e, st)"
  | (ready) m q where "unat (st_streamId s) < n" "\<not> sq_empty Q (rv_queues st ! unat (st_streamId s))"
      "sq_pop Q (rv_queues st ! unat (st_streamId s)) = (m, q)"
      "connection_waitNextMessage Q s st = (Inr (MessageReady m), st\<lparr>rv_queues := (rv_queues st)[unat (st_streamId s) := q]\<rparr>)"
  | (pending) st' where "unat (st_streamId s) < n" "sq_empty Q (rv_queues st ! unat (st_streamId s))"
      "connection_waitNextMessage Q s st = (Inr (MessagePending (rv_nextPromise st)), st')"
      "rv_queues st' = rv_queues st" "rv_slots st' = (rv_slots st)[unat (st_streamId s) := (True, rv_nextPromise st)]"
proof (cases "stream_getStreamId s")
  case (Inr a)
  then have a: "a = st_streamId s" and len: "length (rv_queues st) = n" "length (rv_slots st) = n"
    using assms by (auto simp: stream_getStreamId_def receiver_inv_def split: if_splits)
  let ?i = "unat (st_streamId s)"
  consider "?i \<ge> n" | "?i < n" "\<not> sq_empty Q (rv_queues st ! ?i)"
    | "?i < n" "sq_empty Q (rv_queues st ! ?i)" "fst (rv_slots st ! ?i)"
    | "?i < n" "sq_empty Q (rv_queues st ! ?i)" "\<not> fst (rv_slots st ! ?i)" by fastforce
  then show thesis
  proof cases
    case 2
    obtain m q where "sq_pop Q (rv_queues st ! ?i) = (m, q)" by fastforce
    then show thesis
      using 2 Inr a len ready by (auto simp: connection_waitNextMessage_def Let_def)
  qed (use Inr a len failed pending in \<open>auto simp: connection_waitNextMessage_def Let_def\<close>)
qed (use failed in \<open>auto simp: connection_waitNextMessage_def\<close>)

lemma mailbox_inv_wait:
  assumes Q: "queue_laws Q items cap" and inv: "receiver_inv n (rw_state w)" and mb: "mailbox_inv items cap n k w"
  shows "mailbox_inv items cap n k (rw_wait Q s w)"
  using inv
proof (cases rule: wait_cases [of n "rw_state w" Q s])
  case (failed e)
  then show ?thesis using mb by (simp add: rw_wait_def)
next
  case (ready m q)
  let ?i = "unat (st_streamId s)"
  have i: "?i < length (rv_queues (rw_state w))"
    using ready(1) inv by (simp add: receiver_inv_def)
  have "items (rv_queues (rw_state w) ! ?i) \<noteq> []"
    using ready(2) queue_empty [OF Q] by blast
  note pop = queue_pop [OF Q ready(3) this]
  show ?thesis
    using mb pop i by (auto simp: rw_wait_def ready(4) mailbox_inv_def Let_def nth_list_update)
next
  case (pending st')
  have "items (rv_queues (rw_state w) ! unat (st_streamId s)) = []"
    using pending(2) queue_empty [OF Q] by blast
  then show ?thesis
    using pending(1,4,5) inv
    by (intro mailbox_inv_slots [OF mb])
      (auto simp: rw_wait_def pending(3) receiver_inv_def nth_list_update split: if_splits)
qed

lemma mailbox_inv_receive:
  assumes Q: "queue_laws Q items cap" and inv: "receiver_inv n (rw_state w)" and mb: "mailbox_inv items cap n k w"
  shows "mailbox_inv items cap n k (rw_receive Q received w)"
proof (cases received)
  case (Inl e)
  then show ?thesis
    using inv by (intro mailbox_inv_slots [OF mb])
      (auto simp: rw_receive_def connection_receiverIteration_def connection_close_def receiver_inv_def case_prod_unfold Let_def)
next
  case (Inr m)
  let ?st = "rw_state w" and ?i = "unat (mh_getStreamId (response_header m))"
  have len: "length (rv_queues ?st) = n" "length (rv_slots ?st) = n"
    using inv by (auto simp: receiver_inv_def)
  obtain b q where push: "sq_push Q m (rv_queues ?st ! ?i) = (b, q)" by fastforce
  consider "?i \<ge> n" | "?i < n" "fst (rv_slots ?st ! ?i)" | "?i < n" "\<not> fst (rv_slots ?st ! ?i)" "\<not> b"
    | "?i < n" "\<not> fst (rv_slots ?st ! ?i)" "b" by fastforce
  then show ?thesis
  proof cases
    case 2
    have "items (rv_queues ?st ! ?i) = []"
      using mb 2 by (auto simp: mailbox_inv_def Let_def)
    then show ?thesis
      using mb 2 Inr len
      by (auto simp: rw_receive_def connection_receiverIteration_def connection_dispatch_def
          connection_close_def mailbox_inv_def Let_def case_prod_unfold nth_list_update split: if_splits)
  next
    case 4
    show ?thesis
      using mb 4 Inr len push queue_push [OF Q push]
      by (auto simp: rw_receive_def connection_receiverIteration_def connection_dispatch_def
          mailbox_inv_def Let_def nth_list_update split: if_splits)
  qed (use mb Inr len push in \<open>auto simp: rw_receive_def connection_receiverIteration_def connection_dispatch_def
      connection_close_def mailbox_inv_def Let_def case_prod_unfold\<close>)
qed

lemma receive_reachable_mailbox:
  assumes Q: "queue_laws Q items cap"
  shows "receive_reachable Q n k metrics w \<Longrightarrow> mailbox_inv items cap n k w"
proof (induction rule: receive_reachable.induct)
  case receive_start
  show ?case
    by (simp add: mailbox_inv_def receiver_init_def stream_log_def queue_new [OF Q])
next
  case (receive_wait w s)
  then show ?case using mailbox_inv_wait [OF Q] receive_reachable_inv by blast
next
  case (receive_iterate w received)
  then show ?case using mailbox_inv_receive [OF Q] receive_reachable_inv by blast
next
  case (receive_close w)
  then show ?case using mailbox_inv_close receive_reachable_inv by blast
qed


section \<open>Properties\<close>

text \<open>
  C3: Every promise handed to a waiter is either still registered in a slot, exactly once and with a
  receiver running for it, or was fulfilled, exactly once: no waiter is forgotten and none is
  answered twice, whatever the order of waits, messages, failures and closes.
\<close>

theorem waiter_answered_once:
  assumes "receive_reachable Q n k metrics w" and "p < rv_nextPromise (rw_state w)"
  shows "count (image_mset snd (pending_slots (rw_state w))) p +
      count (mset (map fst (rv_resolved (rw_state w)))) p = 1 \<and>
    (p \<in># image_mset snd (pending_slots (rw_state w)) \<longrightarrow> rv_receivers (rw_state w) > 0)"
proof -
  have inv: "receiver_inv n (rw_state w)"
    using assms(1) by (rule receive_reachable_inv)
  then have "image_mset snd (pending_slots (rw_state w)) + mset (map fst (rv_resolved (rw_state w))) =
      mset [0..<rv_nextPromise (rw_state w)]"
    by (simp add: receiver_inv_def)
  then have "count (image_mset snd (pending_slots (rw_state w))) p +
      count (mset (map fst (rv_resolved (rw_state w)))) p = count (mset [0..<rv_nextPromise (rw_state w)]) p"
    by (metis count_union)
  then show ?thesis
    using assms(2) inv by (auto simp: receiver_inv_def)
qed

definition receive_example :: "(nat \<times> response list) receive_world" where
  "receive_example = rw_wait list_queue (stream_new 1)
     \<lparr>rw_state = receiver_init list_queue 2 1 metrics_init, rw_accepted = [], rw_taken = [], rw_interrupted = False\<rparr>"

lemma receive_example_reachable: "receive_reachable list_queue 2 1 metrics_init receive_example"
  unfolding receive_example_def by (intro receive_wait receive_start)

lemma receive_example_state:
  "rv_slots (rw_state receive_example) = [(False, 0), (True, 0)]"
  "rv_nextPromise (rw_state receive_example) = 1" "rv_resolved (rw_state receive_example) = []"
  "rv_count (rw_state receive_example) = 1" "rv_receivers (rw_state receive_example) = 1"
  by (simp_all add: receive_example_def rw_wait_def connection_waitNextMessage_def stream_new_def
      stream_getStreamId_def receiver_init_def list_queue_def Let_def upt_rec numeral_2_eq_2)

theorem waiter_answered_once_witness:
  "count (image_mset snd (pending_slots (rw_state receive_example))) 0 +
     count (mset (map fst (rv_resolved (rw_state receive_example)))) 0 = 1 \<and>
   rv_receivers (rw_state receive_example) > 0"
  using waiter_answered_once [OF receive_example_reachable, of 0]
  by (simp add: receive_example_state pending_slots_def)


definition receive_example_message :: response where
  "receive_example_message = RespReady \<lparr>rd_header = mh_init\<lparr>mh_streamId := 1\<rparr>\<rparr>"


text \<open>
  While nobody closes the connection from outside there is exactly one receiver when somebody waits
  and none otherwise, so no two loops ever read from the socket at the same time; and the check
  for an incorrect promise count in the receiver never fires.
\<close>

lemma one_receiver_reads:
  assumes "receive_reachable Q n k metrics w"
  shows "(\<not> rw_interrupted w \<longrightarrow>
      rv_receivers (rw_state w) = (if \<exists>slot \<in> set (rv_slots (rw_state w)). fst slot then 1 else 0)) \<and>
    (i < n \<longrightarrow> fst (rv_slots (rw_state w) ! i) \<longrightarrow> rv_count (rw_state w) \<noteq> 0)"
proof (intro conjI impI)
  have inv: "receiver_inv n (rw_state w)"
    using assms by (rule receive_reachable_inv)
  then have "rv_count (rw_state w) = 0 \<longleftrightarrow> \<not> (\<exists>slot \<in> set (rv_slots (rw_state w)). fst slot)"
    by (auto simp: receiver_inv_def pending_slots_def filter_empty_conv simp flip: mset_filter)
  then show "rv_receivers (rw_state w) = (if \<exists>slot \<in> set (rv_slots (rw_state w)). fst slot then 1 else 0)"
    if "\<not> rw_interrupted w"
    using single_receiver_inv [OF assms that] by auto
  show "rv_count (rw_state w) \<noteq> 0" if "i < n" "fst (rv_slots (rw_state w) ! i)"
    using dispatch_pending(1) [OF inv that] by blast
qed

lemma one_receiver_reads_witness:
  "rv_receivers (rw_state receive_example) = 1 \<and> rv_count (rw_state receive_example) \<noteq> 0"
  using one_receiver_reads [OF receive_example_reachable, of 1] receive_example_state
  by (simp add: receive_example_def rw_wait_def)

end
