(* ===== verification/Connection_Send.thy ===== *)
theory Connection_Send
  imports Connection_Stream Connection_Codec Metrics
begin

text \<open>
  The sending side of \<^verbatim>\<open>Connection\<close>. Calls of \<^verbatim>\<open>sendMessage\<close>
  queue up behind one another through \<^verbatim>\<open>sendingFuture_\<close>, so the work of a call
  (encode, put, flush) runs when the previous call has ended; the model runs the calls one after
  the other in the order they were made. A call ends in success, in an exception of its own, or in
  the exception of the previous call, and every failure closes the connection.
\<close>

section \<open>Requests\<close>

datatype request =
    ReqOptions options_message
  | ReqStartup startup_message
  | ReqAuthResponse auth_response_message
  | ReqQuery query_message
  | ReqPrepare prepare_message
  | ReqExecute execute_message
  | ReqBatch batch_message
  | ReqRegister register_message

fun request_getHeader :: "request \<Rightarrow> message_header" where
  "request_getHeader (ReqOptions m) = om_header m"
| "request_getHeader (ReqStartup m) = su_header m"
| "request_getHeader (ReqAuthResponse m) = arm_header m"
| "request_getHeader (ReqQuery m) = qm_header m"
| "request_getHeader (ReqPrepare m) = pr_header m"
| "request_getHeader (ReqExecute m) = em_header m"
| "request_getHeader (ReqBatch m) = bm_header m"
| "request_getHeader (ReqRegister m) = rg_header m"

text \<open>
  The virtual \<^verbatim>\<open>encodeBody\<close>; the environments hold the commands that query and batch
  parameters refer to.
\<close>

fun request_encodeBody :: "command_env \<Rightarrow> batch_env \<Rightarrow> request encoder" where
  "request_encodeBody env benv (ReqOptions m) = om_encodeBody m"
| "request_encodeBody env benv (ReqStartup m) = su_encodeBody m"
| "request_encodeBody env benv (ReqAuthResponse m) = arm_encodeBody m"
| "request_encodeBody env benv (ReqQuery m) = qm_encodeBody env m"
| "request_encodeBody env benv (ReqPrepare m) = pr_encodeBody m"
| "request_encodeBody env benv (ReqExecute m) = em_encodeBody env m"
| "request_encodeBody env benv (ReqBatch m) = bm_encodeBody benv m"
| "request_encodeBody env benv (ReqRegister m) = rg_encodeBody m"

section \<open>Sending\<close>

text \<open>
  \<open>sd_failed\<close> says that \<^verbatim>\<open>sendingFuture_\<close> holds an exception, \<open>sd_output\<close>
  is everything that was written to the socket. The outcome of writing a frame is a parameter of the
  call: \<open>None\<close> for success, \<open>Some k\<close> for an error after \<open>k\<close> bytes.
\<close>

record sender =
  sd_isReady :: bool
  sd_compressor :: "lz4_library option"
  sd_failed :: bool
  sd_output :: bytes
  sd_metrics :: metrics_data

definition sender_close :: "sender \<Rightarrow> sender" where
  "sender_close st = st\<lparr>sd_isReady := False, sd_compressor := None\<rparr>"

definition sender_fail :: "sender \<Rightarrow> unit result \<times> sender" where
  "sender_fail st = (Inl NetworkException, sender_close (st\<lparr>sd_failed := True,
     sd_metrics := (sd_metrics st)\<lparr>connection_send_message_errors := connection_send_message_errors (sd_metrics st) + 1\<rparr>\<rparr>))"

text \<open>The frame of a message: its header with the stream id set, then encoded.\<close>

definition connection_frame ::
  "connection_info \<Rightarrow> bool \<Rightarrow> lz4_library option \<Rightarrow> u16 \<Rightarrow> message_header \<Rightarrow> (bytes \<Rightarrow> bytes result) \<Rightarrow> bytes result" where
  "connection_frame info isReady compressor streamId header encodeBody =
     rbind (mh_setStreamId (ucast streamId) header) (\<lambda>header.
       connection_encodeMessage isReady compressor info header encodeBody)"

definition connection_sendMessage ::
  "connection_info \<Rightarrow> message_header \<times> (bytes \<Rightarrow> bytes result) \<Rightarrow> stream \<Rightarrow> nat option \<Rightarrow> sender \<Rightarrow> unit result \<times> sender" where
  "connection_sendMessage info message stream written st =
     (case stream_getStreamId stream of
        Inl e \<Rightarrow> (Inl e, st)
      | Inr streamId \<Rightarrow>
         (case mh_setStreamId (ucast streamId) (fst message) of
            Inl e \<Rightarrow> (Inl e, st)
          | Inr header \<Rightarrow>
             if sd_failed st then sender_fail st
             else (case connection_encodeMessage (sd_isReady st) (sd_compressor st) info header (snd message) of
                 Inl e \<Rightarrow> sender_fail st
               | Inr frame \<Rightarrow>
                  (case written of
                     Some k \<Rightarrow> sender_fail (st\<lparr>sd_output := sd_output st @ take k frame\<rparr>)
                   | None \<Rightarrow> (Inr (), st\<lparr>sd_output := sd_output st @ frame,
                       sd_metrics := (sd_metrics st)\<lparr>connection_messages_sent := connection_messages_sent (sd_metrics st) + 1\<rparr>\<rparr>)))))"

type_synonym send_call = "(message_header \<times> (bytes \<Rightarrow> bytes result)) \<times> stream \<times> nat option"

fun send_all :: "connection_info \<Rightarrow> send_call list \<Rightarrow> sender \<Rightarrow> unit result list \<times> sender" where
  "send_all info [] st = ([], st)"
| "send_all info ((message, stream, written) # calls) st =
     (let (r, st) = connection_sendMessage info message stream written st;
          (rs, st) = send_all info calls st in (r # rs, st))"


section \<open>What reaches the socket\<close>

text \<open>The frame a call writes while the connection is in the state of \<open>st\<close>.\<close>

definition call_frame :: "connection_info \<Rightarrow> sender \<Rightarrow> send_call \<Rightarrow> bytes" where
  "call_frame info st call =
     (case call of (message, stream, written) \<Rightarrow>
        projr (connection_frame info (sd_isReady st) (sd_compressor st) (st_streamId stream) (fst message) (snd message)))"

definition frames_sent :: "connection_info \<Rightarrow> sender \<Rightarrow> send_call list \<Rightarrow> unit result list \<Rightarrow> bytes" where
  "frames_sent info st calls rs =
     concat (map (\<lambda>(call, r). case r of Inr _ \<Rightarrow> call_frame info st call | Inl _ \<Rightarrow> []) (zip calls rs))"

lemma send_failed:
  assumes "sd_failed st" "connection_sendMessage info message stream written st = (r, st')"
  shows "r \<noteq> Inr ()" and "sd_failed st'" and "sd_output st' = sd_output st"
  using assms
  by (auto simp: connection_sendMessage_def sender_fail_def sender_close_def split: sum.splits)

lemma send_all_failed:
  "sd_failed st \<Longrightarrow> send_all info calls st = (rs, st') \<Longrightarrow>
   Inr () \<notin> set rs \<and> length rs = length calls \<and> sd_failed st' \<and> sd_output st' = sd_output st"
proof (induction info calls st arbitrary: rs st' rule: send_all.induct)
  case (2 info message stream written calls st)
  obtain r st1 where r: "connection_sendMessage info message stream written st = (r, st1)" by fastforce
  obtain rs1 st2 where rs: "send_all info calls st1 = (rs1, st2)" by fastforce
  show ?case
    using 2 r rs send_failed [OF 2(2) r] by auto
qed simp

lemma frames_sent_failed: "Inr () \<notin> set rs \<Longrightarrow> frames_sent info st calls rs = []"
  by (auto simp: frames_sent_def dest!: set_zip_rightD split: sum.splits)

lemma frames_sent_simps [simp]:
  "frames_sent info st [] rs = []"
  "frames_sent info st (call # calls) (Inl e # rs) = frames_sent info st calls rs"
  "frames_sent info st (call # calls) (Inr u # rs) = call_frame info st call @ frames_sent info st calls rs"
  by (simp_all add: frames_sent_def)

lemma send_cases:
  assumes ok: "\<not> sd_failed st" and op: "connection_sendMessage info message stream written st = (r, st')"
  obtains (sent) "r = Inr ()" "\<not> sd_failed st'" "sd_isReady st' = sd_isReady st" "sd_compressor st' = sd_compressor st"
      "sd_output st' = sd_output st @ call_frame info st (message, stream, written)"
  | (refused) e where "r = Inl e" "st' = st"
  | (broken) e w where "r = Inl e" "sd_failed st'" "sd_output st' = sd_output st @ w"
proof -
  have "st_isValid stream \<Longrightarrow> stream_getStreamId stream = Inr (st_streamId stream)"
    by (simp add: stream_getStreamId_def)
  with op ok that show thesis
    by (auto simp: connection_sendMessage_def sender_fail_def sender_close_def call_frame_def connection_frame_def
        stream_getStreamId_def split: sum.splits option.splits if_splits)
qed

lemma send_all_output:
  "\<not> sd_failed st \<Longrightarrow> send_all info calls st = (rs, st') \<Longrightarrow>
   \<exists>partial. sd_output st' = sd_output st @ frames_sent info st calls rs @ partial \<and>
     (sd_failed st' \<or> partial = [])"
proof (induction info calls st arbitrary: rs st' rule: send_all.induct)
  case (1 info st)
  then show ?case by simp
next
  case (2 info message stream written calls st)
  obtain r st1 where r: "connection_sendMessage info message stream written st = (r, st1)" by fastforce
  obtain rs1 st2 where rs: "send_all info calls st1 = (rs1, st2)" by fastforce
  have eq: "rs = r # rs1" "st' = st2"
    using 2(3) r rs by auto
  note IH = 2(1) [OF r [symmetric] refl]
  from 2(2) r show ?case
  proof (cases rule: send_cases)
    case sent
    moreover have "frames_sent info st1 calls rs1 = frames_sent info st calls rs1"
      using sent by (auto simp: frames_sent_def call_frame_def intro!: arg_cong [of _ _ concat] split: sum.splits)
    ultimately show ?thesis
      using IH [OF sent(2) rs] eq by auto
  next
    case (refused e)
    then show ?thesis
      using IH [of rs1 st2] rs eq 2(2) by auto
  next
    case (broken e w)
    have "Inr () \<notin> set rs1 \<and> sd_failed st2 \<and> sd_output st2 = sd_output st1"
      using send_all_failed [OF broken(2) rs] by simp
    then show ?thesis
      using broken eq frames_sent_failed [of rs1 info st calls] by simp
  qed
qed


section \<open>The server's view\<close>

text \<open>Reading a number of frames off the socket the way the protocol says: header, then body.\<close>

fun read_frames :: "nat \<Rightarrow> bytes \<Rightarrow> ((message_header \<times> bytes) list \<times> bytes) result" where
  "read_frames 0 bs = Inr ([], bs)"
| "read_frames (Suc n) bs =
     (if length bs < 9 then Inl DecodeException else
      rbind (mh_decodeHeader mh_init (take 9 bs)) (\<lambda>h.
      rbind (mh_getBodyLength h) (\<lambda>len.
        if length bs < 9 + len then Inl DecodeException
        else rbind (read_frames n (drop (9 + len) bs)) (\<lambda>(fs, rest). Inr ((h, take len (drop 9 bs)) # fs, rest)))))"

text \<open>A call that puts a body of bytes on a valid stream and is not disturbed by the network.\<close>

definition plain_call :: "send_call \<Rightarrow> bytes \<Rightarrow> bool" where
  "plain_call call body \<longleftrightarrow>
     (case call of ((header, encodeBody), stream, written) \<Rightarrow>
        (\<forall>data. encodeBody data = Inr (data @ body)) \<and> st_isValid stream \<and> written = None \<and>
        mh_direction header = MD_Request \<and> length body < 2 ^ 31)"

definition plain_frame :: "send_call \<Rightarrow> bytes \<Rightarrow> message_header \<times> bytes" where
  "plain_frame call body =
     (case call of ((header, encodeBody), stream, written) \<Rightarrow>
        (header\<lparr>mh_streamId := st_streamId stream, mh_bodyLength := word_of_nat (length body)\<rparr>, body))"

lemma read_frame_wire:
  assumes "mh_direction h = MD_Request \<or> mh_direction h = MD_Response" "length body < 2 ^ 31"
  shows "read_frames (Suc n) (header_wire ci_v4 h (word_of_nat (length body)) @ body @ rest) =
    rbind (read_frames n rest) (\<lambda>(fs, rest). Inr ((h\<lparr>mh_bodyLength := word_of_nat (length body)\<rparr>, body) # fs, rest))"
  using assms by (simp add: decodeHeader_wire mh_getBodyLength_small)

lemma stream_id_word:
  "unat (ucast (x :: u16) :: u64) = unat x" "(ucast (ucast (x :: u16) :: u64) :: u16) = x"
  using unat_bound [of x] by (simp add: unsigned_ucast_eq take_bit_nat_eq_self)
    (rule bit_word_eqI, simp add: bit_simps)

lemma send_plain:
  assumes call: "plain_call ((header, encodeBody), stream, written) body"
    and st: "\<not> sd_failed st" "\<not> sd_isReady st \<or> sd_compressor st = None"
  obtains st' where "connection_sendMessage ci_v4 (header, encodeBody) stream written st = (Inr (), st')"
    "\<not> sd_failed st'" "sd_isReady st' = sd_isReady st" "sd_compressor st' = sd_compressor st"
    "sd_output st' = sd_output st @
       header_wire ci_v4 (header\<lparr>mh_streamId := st_streamId stream\<rparr>) (word_of_nat (length body)) @ body"
proof -
  have "mh_setStreamId (ucast (st_streamId stream)) header = Inr (header\<lparr>mh_streamId := st_streamId stream\<rparr>)"
    by (subst mh_setStreamId_ok) (use unat_bound [of "st_streamId stream"] in \<open>simp add: stream_id_word\<close>)
  moreover have "connection_encodeMessage (sd_isReady st) (sd_compressor st) ci_v4
      (header\<lparr>mh_streamId := st_streamId stream\<rparr>) encodeBody =
    Inr (header_wire ci_v4 (header\<lparr>mh_streamId := st_streamId stream\<rparr>) (word_of_nat (length body)) @ body)"
    using call st(2) by (intro encodeMessage_plain) (auto simp: plain_call_def)
  ultimately show thesis
    using that call st(1) by (simp add: connection_sendMessage_def stream_getStreamId_def plain_call_def)
qed

lemma send_all_plain:
  "list_all2 plain_call calls bodies \<Longrightarrow> \<not> sd_failed st \<Longrightarrow> \<not> sd_isReady st \<or> sd_compressor st = None \<Longrightarrow>
   \<exists>st' w. send_all ci_v4 calls st = (replicate (length calls) (Inr ()), st') \<and> sd_output st' = sd_output st @ w \<and>
     (\<forall>rest. read_frames (length calls) (w @ rest) = Inr (map2 plain_frame calls bodies, rest))"
proof (induction arbitrary: st rule: list_all2_induct)
  case (Cons call calls body bodies)
  obtain header encodeBody stream written where c: "call = ((header, encodeBody), stream, written)"
    by (metis prod.exhaust)
  let ?w = "header_wire ci_v4 (header\<lparr>mh_streamId := st_streamId stream\<rparr>) (word_of_nat (length body)) @ body"
  obtain st1 where st1: "connection_sendMessage ci_v4 (header, encodeBody) stream written st = (Inr (), st1)"
    "\<not> sd_failed st1" "sd_isReady st1 = sd_isReady st" "sd_compressor st1 = sd_compressor st"
    "sd_output st1 = sd_output st @ ?w"
    using send_plain [of header encodeBody stream written body st] Cons.hyps(1) Cons.prems c by auto
  obtain st' w where rest: "send_all ci_v4 calls st1 = (replicate (length calls) (Inr ()), st')"
      "sd_output st' = sd_output st1 @ w"
      "\<forall>rest. read_frames (length calls) (w @ rest) = Inr (map2 plain_frame calls bodies, rest)"
    using Cons.IH [of st1] st1 Cons.prems by auto
  have "read_frames (Suc (length calls)) ((?w @ w) @ rest) =
      Inr (plain_frame call body # map2 plain_frame calls bodies, rest)" for rest
    using Cons.hyps(1) rest(3) c
    by (simp only: append_assoc, subst read_frame_wire) (auto simp: plain_call_def plain_frame_def)
  then show ?case
    using st1 rest c by (intro exI [of _ st'] exI [of _ "?w @ w"]) simp
qed simp

section \<open>Properties\<close>


definition sender_init :: sender where
  "sender_init = \<lparr>sd_isReady = False, sd_compressor = None, sd_failed = False, sd_output = [], sd_metrics = metrics_init\<rparr>"

definition options_call :: "u16 \<Rightarrow> nat option \<Rightarrow> send_call" where
  "options_call streamId written = ((request_header MT_Options, \<lambda>data. Inr data), stream_new streamId, written)"


text \<open>
  C13: A pipeline of messages on streams of a connection without compression arrives as sent: a server
  that reads as many frames as there were calls gets each body, under a header that carries the
  opcode of the message, the id of its stream and the length of the body.
\<close>

theorem pipeline_arrives:
  assumes "list_all2 plain_call calls bodies" and "\<not> sd_failed st" and "\<not> sd_isReady st \<or> sd_compressor st = None"
    and "sd_output st = []"
  shows "read_frames (length calls) (sd_output (snd (send_all ci_v4 calls st))) = Inr (map2 plain_frame calls bodies, [])"
  using send_all_plain [OF assms(1-3)] assms(4) by (metis append_Nil append_Nil2 snd_conv)

theorem pipeline_arrives_witness:
  "read_frames 2 (sd_output (snd (send_all ci_v4 [options_call 1 None, options_call 2 None] sender_init))) =
     Inr (map2 plain_frame [options_call 1 None, options_call 2 None] [[], []], [])"
proof -
  have "list_all2 plain_call [options_call 1 None, options_call 2 None] [[], []]"
    by (simp add: plain_call_def options_call_def stream_new_def request_header_def mh_setOpCode_def)
  from pipeline_arrives [OF this, of sender_init] show ?thesis
    by (simp add: sender_init_def numeral_2_eq_2)
qed

end
