(* ===== verification/Handshake.thy ===== *)
theory Handshake
  imports Connection_Send
begin

text \<open>
  \<^verbatim>\<open>Connection::ready\<close>: the chain of futures that connects, negotiates
  compression, authenticates and selects the key space, with the authenticators and the factories it
  uses. The chain is modelled as a program over the state of the connection; each wait for the
  outside world (name resolution, connecting, writing a request, the next message of stream zero) is
  answered by an environment. \<open>hs_sent\<close> records the requests that were written.
\<close>

section \<open>Connectors and authenticators\<close>

datatype connector = SSLConnector | TCPConnector

definition getConnector :: "node_configuration \<Rightarrow> connector" where
  "getConnector c = (if nc_useSSL c then SSLConnector else TCPConnector)"

datatype authenticator = AllowAllAuthenticator | PasswordAuthenticator

definition getAuthenticator :: "node_configuration \<Rightarrow> authenticator result" where
  "getAuthenticator c =
     (if nc_authenticatorClass c = [] \<or> nc_authenticatorClass c = AllowAllAuthenticatorClass
      then Inr AllowAllAuthenticator
      else if nc_authenticatorClass c = PasswordAuthenticatorClass then Inr PasswordAuthenticator
      else Inl NotImplementedException)"

section \<open>State and environment\<close>

datatype resolved_address = ResolvedInet bytes | ResolvedOther

record handshake_env =
  he_now :: time_point
  he_resolve :: "bytes \<Rightarrow> resolved_address result"
  he_connect :: "connector \<Rightarrow> bytes \<times> u16 \<Rightarrow> unit result"
  he_send :: "nat \<Rightarrow> unit result"
  he_recv :: "nat \<Rightarrow> response result"

record handshake =
  hs_node :: node_configuration
  hs_connected :: bool
  hs_isReady :: bool
  hs_compressor :: bool
  hs_sent :: "request list"
  hs_received :: nat
  hs_metrics :: metrics_data

type_synonym 'a hs = "handshake \<Rightarrow> 'a result \<times> handshake"

definition hs_send :: "handshake_env \<Rightarrow> request \<Rightarrow> unit hs" where
  "hs_send env r s =
     (case he_send env (length (hs_sent s)) of
        Inl e \<Rightarrow> (Inl NetworkException, s)
      | Inr u \<Rightarrow> (Inr (), s\<lparr>hs_sent := hs_sent s @ [r]\<rparr>))"

definition hs_recv :: "handshake_env \<Rightarrow> response hs" where
  "hs_recv env s = (he_recv env (hs_received s), s\<lparr>hs_received := hs_received s + 1\<rparr>)"

definition hs_opcode :: "response \<Rightarrow> u32" where
  "hs_opcode m = mh_getOpCode (response_header m)"

section \<open>The steps\<close>

definition hs_connect :: "handshake_env \<Rightarrow> session_configuration \<Rightarrow> connector \<Rightarrow> unit hs" where
  "hs_connect env cfg connector s =
     (let (r, s) =
        (case nc_getIpAddress (he_now env) (sc_dnsCacheTime cfg) (hs_node s) of
           Some address \<Rightarrow> (he_connect env connector address, s)
         | None \<Rightarrow>
            (case he_resolve env (fst (nc_address (hs_node s))) of
               Inl e \<Rightarrow> (Inl e, s)
             | Inr ResolvedOther \<Rightarrow> (Inl NotImplementedException, s)
             | Inr (ResolvedInet ip) \<Rightarrow>
                 let address = (ip, snd (nc_address (hs_node s))) in
                 (case nc_updateIpAddress (he_now env) address (hs_node s) of
                    Inl e \<Rightarrow> (Inl e, s)
                  | Inr node \<Rightarrow> (he_connect env connector address, s\<lparr>hs_node := node\<rparr>))))
      in case r of Inl e \<Rightarrow> (Inl NetworkException, s) | Inr u \<Rightarrow> (Inr (), s\<lparr>hs_connected := True\<rparr>))"

definition new_options :: options_message where
  "new_options = \<lparr>om_header = request_header MT_Options\<rparr>"

definition new_startup :: startup_message where
  "new_startup = su_reset (request_header MT_Startup) su_init"

definition new_auth_response :: auth_response_message where
  "new_auth_response = arm_reset (request_header MT_AuthResponse) arm_init"

definition new_query :: query_message where
  "new_query = qm_reset (request_header MT_Query) qm_init"

text \<open>The reply to OPTIONS decides on compression; a failed cast is undefined.\<close>

definition hs_supported :: "response \<Rightarrow> unit hs" where
  "hs_supported message s =
     (if hs_opcode message \<noteq> MT_Supported then (Inl LogicException, s)
      else if nc_useCompression (hs_node s)
      then (case message of
              RespSupported m \<Rightarrow> (Inr (), s\<lparr>hs_compressor := getCompressor (sp_options m)\<rparr>)
            | _ \<Rightarrow> (Inl UndefinedBehaviour, s))
      else (Inr (), s))"

definition startup_request :: "bool \<Rightarrow> request" where
  "startup_request compressed =
     ReqStartup (if compressed then su_setCompression (Some lz4_name) new_startup else new_startup)"

definition auth_request :: "node_configuration \<Rightarrow> request" where
  "auth_request c = ReqAuthResponse (new_auth_response
     \<lparr>arm_token := ss_set (nc_authenticatorData c) (arm_token new_auth_response)\<rparr>)"

text \<open>How the password authenticator answers the reply to STARTUP.\<close>

definition hs_password_reply :: "handshake_env \<Rightarrow> response \<Rightarrow> unit hs" where
  "hs_password_reply env message =
     (if hs_opcode message = MT_Ready then fut_throw AuthenticateException
      else if hs_opcode message \<noteq> MT_Authenticate then fut_throw AuthenticateException
      else (case message of
          RespAuthenticate m \<Rightarrow>
            if ss_value (au_authenticatorClass m) \<noteq> PasswordAuthenticatorClass
            then fut_throw AuthenticateException
            else (\<lambda>s. hs_send env (auth_request (hs_node s)) s)
        | _ \<Rightarrow> fut_throw UndefinedBehaviour))"

fun hs_authenticate :: "handshake_env \<Rightarrow> authenticator \<Rightarrow> unit hs" where
  "hs_authenticate env AllowAllAuthenticator =
     fut_then (hs_recv env) (\<lambda>message.
       if hs_opcode message = MT_Authenticate then fut_throw AuthenticateException
       else if hs_opcode message \<noteq> MT_Ready then fut_throw AuthenticateException
       else fut_return ())"
| "hs_authenticate env PasswordAuthenticator =
     fut_then (hs_recv env) (\<lambda>message.
     fut_then (hs_password_reply env message) (\<lambda>_.
     fut_then (hs_recv env) (\<lambda>message.
       if hs_opcode message \<noteq> MT_AuthSuccess then fut_throw AuthenticateException
       else fut_return ())))"

definition use_keyspace_text :: "bytes \<Rightarrow> bytes" where
  "use_keyspace_text keySpace = ascii ''use '' @ keySpace @ ascii '';''"

definition use_keyspace_request :: "bytes \<Rightarrow> request result" where
  "use_keyspace_request keySpace =
     rbind (command_setConsistency CL_LocalOne (command_of_string (use_keyspace_text keySpace))) (\<lambda>command.
     rbind (qp_setCommand command (\<lambda>_. None) (qm_queryParameters new_query)) (\<lambda>qp.
       Inr (ReqQuery (new_query\<lparr>qm_queryParameters := qp\<rparr>))))"

text \<open>
  A RESULT of another kind is reported with \<^verbatim>\<open>message->toString()\<close> after
  \<^verbatim>\<open>message\<close> was moved into \<^verbatim>\<open>resultMessage\<close>: a call through a null
  pointer.
\<close>

definition hs_keyspace_reply :: "response \<Rightarrow> unit hs" where
  "hs_keyspace_reply message =
     (if hs_opcode message \<noteq> MT_Result then fut_throw ResponseErrorException
      else (case message of
          RespResult m \<Rightarrow> if re_getKind m \<noteq> RK_SetKeySpace then fut_throw UndefinedBehaviour else fut_return ()
        | _ \<Rightarrow> fut_throw UndefinedBehaviour))"

definition hs_useKeySpace :: "handshake_env \<Rightarrow> bytes \<Rightarrow> unit hs" where
  "hs_useKeySpace env keySpace =
     (if keySpace = [] then fut_return ()
      else fut_then (fut_lift (use_keyspace_request keySpace)) (\<lambda>request.
           fut_then (hs_send env request) (\<lambda>_.
           fut_then (hs_recv env) hs_keyspace_reply)))"

definition hs_chain :: "handshake_env \<Rightarrow> session_configuration \<Rightarrow> connector \<Rightarrow> authenticator \<Rightarrow> unit hs" where
  "hs_chain env cfg connector authenticator =
     fut_then (hs_connect env cfg connector) (\<lambda>_.
     fut_then (hs_send env (ReqOptions new_options)) (\<lambda>_.
     fut_then (hs_recv env) (\<lambda>message.
     fut_then (hs_supported message) (\<lambda>_.
     fut_then (\<lambda>s. hs_send env (startup_request (hs_compressor s)) s) (\<lambda>_.
     fut_then (hs_authenticate env authenticator) (\<lambda>_.
     fut_then (hs_useKeySpace env (sc_defaultKeySpace cfg)) (\<lambda>_ s.
       (Inr (), s\<lparr>hs_isReady := True\<rparr>))))))))"

definition connection_ready :: "handshake_env \<Rightarrow> session_configuration \<Rightarrow> connector \<Rightarrow> authenticator \<Rightarrow> unit hs" where
  "connection_ready env cfg connector authenticator s =
     (if hs_isReady s then (Inr (), s)
      else (case hs_chain env cfg connector authenticator s of
          (Inr u, s) \<Rightarrow> (Inr (), s)
        | (Inl e, s) \<Rightarrow>
            if e = UndefinedBehaviour then (Inl UndefinedBehaviour, s)
            else (Inl ConnectionInitializeException,
              s\<lparr>hs_connected := False, hs_isReady := False, hs_compressor := False,
                hs_metrics := (hs_metrics s)\<lparr>connection_initialize_errors := connection_initialize_errors (hs_metrics s) + 1\<rparr>\<rparr>)))"


section \<open>What a run of the chain does\<close>

lemma hs_send_Inr: "hs_send env r s = (Inr u, s') \<longleftrightarrow>
    (\<exists>v. he_send env (length (hs_sent s)) = Inr v) \<and> s' = s\<lparr>hs_sent := hs_sent s @ [r]\<rparr>"
  by (auto simp: hs_send_def split: sum.splits)

lemma hs_send_Inl: "hs_send env r s = (Inl e, s') \<Longrightarrow> e = NetworkException \<and> s' = s"
  by (auto simp: hs_send_def split: sum.splits)

lemma hs_recv_eq: "hs_recv env s = (r, s') \<longleftrightarrow> he_recv env (hs_received s) = r \<and> s' = s\<lparr>hs_received := hs_received s + 1\<rparr>"
  by (auto simp: hs_recv_def)

lemma hs_connect_state:
  assumes "hs_connect env cfg connector s = (r, s')"
  obtains node c where "s' = s\<lparr>hs_node := node, hs_connected := c\<rparr>"
    and "nc_useCompression node = nc_useCompression (hs_node s)"
    and "nc_authenticatorData node = nc_authenticatorData (hs_node s)"
    and "\<And>e. r = Inl e \<Longrightarrow> e = NetworkException"
proof (rule that)
  show "s' = s\<lparr>hs_node := hs_node s', hs_connected := hs_connected s'\<rparr>"
    and "nc_useCompression (hs_node s') = nc_useCompression (hs_node s)"
    and "nc_authenticatorData (hs_node s') = nc_authenticatorData (hs_node s)"
    and "\<And>e. r = Inl e \<Longrightarrow> e = NetworkException"
    using assms
    by (auto simp: hs_connect_def nc_updateIpAddress_def Let_def
        split: option.splits sum.splits if_splits resolved_address.splits prod.splits)
qed

lemma hs_supported_ok:
  "hs_supported m s = (Inr u, s') \<Longrightarrow>
   hs_opcode m = MT_Supported \<and>
   (if nc_useCompression (hs_node s)
    then \<exists>sm. m = RespSupported sm \<and> s' = s\<lparr>hs_compressor := getCompressor (sp_options sm)\<rparr>
    else s' = s)"
  by (auto simp: hs_supported_def split: if_splits response.splits)

lemma use_keyspace_request_ok: "\<exists>r. use_keyspace_request keySpace = Inr r"
  by (simp add: use_keyspace_request_def command_setConsistency_def on_command_def command_of_string_def
      qp_setCommand_def qp_setCommandRef_def qp_getCommand_def)

definition authenticate_replies :: "authenticator \<Rightarrow> u32 list" where
  "authenticate_replies a = (case a of AllowAllAuthenticator \<Rightarrow> [MT_Ready] | PasswordAuthenticator \<Rightarrow> [MT_Authenticate, MT_AuthSuccess])"

definition authenticate_requests :: "authenticator \<Rightarrow> node_configuration \<Rightarrow> request list" where
  "authenticate_requests a c = (case a of AllowAllAuthenticator \<Rightarrow> [] | PasswordAuthenticator \<Rightarrow> [auth_request c])"

definition keyspace_requests :: "bytes \<Rightarrow> request list" where
  "keyspace_requests keySpace = (if keySpace = [] then [] else [projr (use_keyspace_request keySpace)])"

text \<open>The opcodes of the replies number \<open>i\<close> and following.\<close>

definition replies :: "handshake_env \<Rightarrow> nat \<Rightarrow> u32 list \<Rightarrow> bool" where
  "replies env i ops \<longleftrightarrow> (\<forall>j < length ops. \<exists>m. he_recv env (i + j) = Inr m \<and> hs_opcode m = ops ! j)"

lemma replies_simps [simp]:
  "replies env i []"
  "replies env i (op # ops) \<longleftrightarrow> (\<exists>m. he_recv env i = Inr m \<and> hs_opcode m = op) \<and> replies env (Suc i) ops"
  by (auto simp: replies_def nth_Cons split: nat.splits)

lemma replies_append [simp]:
  "replies env i (xs @ ys) \<longleftrightarrow> replies env i xs \<and> replies env (i + length xs) ys"
  by (induction xs arbitrary: i) auto

lemma hs_password_reply_ok:
  "hs_password_reply env m s = (Inr u, s') \<Longrightarrow>
   s' = s\<lparr>hs_sent := hs_sent s @ [auth_request (hs_node s)]\<rparr> \<and> hs_opcode m = MT_Authenticate \<and>
   (\<exists>am. m = RespAuthenticate am \<and> ss_value (au_authenticatorClass am) = PasswordAuthenticatorClass)"
  by (cases m) (auto simp: hs_password_reply_def hs_send_Inr split: if_splits)

lemma hs_password_reply_fail: "hs_password_reply env m s = (Inl e, s') \<Longrightarrow> s' = s"
  by (cases m) (auto simp: hs_password_reply_def dest: hs_send_Inl split: if_splits)

lemma hs_authenticate_ok:
  assumes "hs_authenticate env a s = (Inr u, s')"
  shows "s' = s\<lparr>hs_sent := hs_sent s @ authenticate_requests a (hs_node s),
      hs_received := hs_received s + length (authenticate_replies a)\<rparr>"
    and "replies env (hs_received s) (authenticate_replies a)"
proof -
  have "s' = s\<lparr>hs_sent := hs_sent s @ authenticate_requests a (hs_node s),
      hs_received := hs_received s + length (authenticate_replies a)\<rparr> \<and>
    replies env (hs_received s) (authenticate_replies a)"
  proof (cases a)
    case AllowAllAuthenticator
    then show ?thesis
      using assms
      by (auto simp: fut_then_Inr hs_recv_eq authenticate_requests_def authenticate_replies_def split: if_splits)
  next
    case PasswordAuthenticator
    then show ?thesis
      using assms
      by (auto simp: fut_then_Inr hs_recv_eq authenticate_requests_def authenticate_replies_def
          dest!: hs_password_reply_ok split: if_splits)
  qed
  then show "s' = s\<lparr>hs_sent := hs_sent s @ authenticate_requests a (hs_node s),
      hs_received := hs_received s + length (authenticate_replies a)\<rparr>"
    and "replies env (hs_received s) (authenticate_replies a)" by simp_all
qed


lemma hs_keyspace_reply_state: "hs_keyspace_reply m s = (r, s') \<Longrightarrow> s' = s"
  by (cases m) (auto simp: hs_keyspace_reply_def split: if_splits)

lemma hs_keyspace_reply_ok:
  "hs_keyspace_reply m s = (Inr u, s') \<Longrightarrow>
   s' = s \<and> hs_opcode m = MT_Result \<and> (\<exists>rm. m = RespResult rm \<and> re_getKind rm = RK_SetKeySpace)"
  by (cases m) (auto simp: hs_keyspace_reply_def split: if_splits)

lemma use_keyspace_request_query: "use_keyspace_request keySpace = Inr r \<Longrightarrow> \<exists>q. r = ReqQuery q"
  by (auto simp: use_keyspace_request_def rbind_eq_Inr)

lemma hs_useKeySpace_ok:
  assumes "hs_useKeySpace env keySpace s = (Inr u, s')"
  shows "s' = s\<lparr>hs_sent := hs_sent s @ keyspace_requests keySpace,
      hs_received := hs_received s + length (keyspace_requests keySpace)\<rparr> \<and>
    replies env (hs_received s) (map (\<lambda>_. MT_Result) (keyspace_requests keySpace)) \<and>
    (keySpace \<noteq> [] \<longrightarrow> (\<exists>m. he_recv env (hs_received s) = Inr (RespResult m) \<and> re_getKind m = RK_SetKeySpace))"
  using assms use_keyspace_request_ok [of keySpace]
  by (auto simp: hs_useKeySpace_def fut_then_Inr hs_recv_eq hs_send_Inr keyspace_requests_def
      dest!: hs_keyspace_reply_ok split: if_splits)

lemma hs_useKeySpace_sent:
  assumes "hs_useKeySpace env keySpace s = (r, s')" "ReqAuthResponse m \<in> set (hs_sent s')"
  shows "ReqAuthResponse m \<in> set (hs_sent s)"
  using assms
  by (cases r) (auto simp: hs_useKeySpace_def fut_then_Inr fut_then_Inl hs_recv_eq hs_send_Inr split: if_splits
      dest!: hs_keyspace_reply_state use_keyspace_request_query hs_send_Inl)

lemma hs_authenticate_sent:
  assumes run: "hs_authenticate env a s = (r, s')" and "ReqAuthResponse m \<in> set (hs_sent s')" "ReqAuthResponse m \<notin> set (hs_sent s)"
  shows "a = PasswordAuthenticator \<and> ReqAuthResponse m = auth_request (hs_node s) \<and>
    (\<exists>am. he_recv env (hs_received s) = Inr (RespAuthenticate am) \<and> ss_value (au_authenticatorClass am) = PasswordAuthenticatorClass)"
proof (cases a)
  case AllowAllAuthenticator
  then show ?thesis
    using assms by (cases r) (auto simp: fut_then_Inr fut_then_Inl hs_recv_eq split: if_splits)
next
  case PasswordAuthenticator
  then show ?thesis
    using assms
    by (cases r) (auto simp: fut_then_Inr fut_then_Inl hs_recv_eq dest!: hs_password_reply_ok hs_password_reply_fail split: if_splits)
qed

definition hs_begin :: "handshake_env \<Rightarrow> unit hs" where
  "hs_begin env = fut_then (hs_send env (ReqOptions new_options)) (\<lambda>_. fut_then (hs_recv env) (\<lambda>message.
     fut_then (hs_supported message) (\<lambda>_ s. hs_send env (startup_request (hs_compressor s)) s)))"

lemma hs_then_assoc: "fut_then (fut_then m f) g = fut_then m (\<lambda>x. fut_then (f x) g)"
  by (rule ext) (auto simp: fut_then_def split: prod.splits sum.splits)

lemma hs_chain_begin:
  "hs_chain env cfg connector a = fut_then (hs_connect env cfg connector) (\<lambda>_. fut_then (hs_begin env) (\<lambda>_.
     fut_then (hs_authenticate env a) (\<lambda>_. fut_then (hs_useKeySpace env (sc_defaultKeySpace cfg)) (\<lambda>_ s.
       (Inr (), s\<lparr>hs_isReady := True\<rparr>)))))"
  by (simp add: hs_chain_def hs_begin_def hs_then_assoc)

lemma hs_supported_sent: "hs_supported m s = (r, s') \<Longrightarrow> hs_sent s' = hs_sent s \<and> hs_node s' = hs_node s \<and> hs_received s' = hs_received s"
  by (cases m) (auto simp: hs_supported_def split: if_splits)

lemma startup_not_auth [simp]: "ReqAuthResponse m \<noteq> startup_request c"
  by (simp add: startup_request_def)

lemma hs_begin_sent:
  assumes "hs_begin env s = (r, s')"
  shows "hs_node s' = hs_node s \<and> (ReqAuthResponse m \<in> set (hs_sent s') \<longrightarrow> ReqAuthResponse m \<in> set (hs_sent s)) \<and>
    (\<forall>u. r = Inr u \<longrightarrow> hs_received s' = Suc (hs_received s))"
  using assms
  by (cases r) (auto simp: hs_begin_def fut_then_Inr fut_then_Inl hs_recv_eq hs_send_Inr dest!: hs_send_Inl hs_supported_sent)

lemma hs_chain_sent:
  assumes run: "hs_chain env cfg connector a s = (r, s')" and start: "hs_sent s = []" "hs_received s = 0"
    and sent: "ReqAuthResponse m \<in> set (hs_sent s')"
  shows "a = PasswordAuthenticator \<and> (\<exists>node. ReqAuthResponse m = auth_request node \<and> nc_authenticatorData node = nc_authenticatorData (hs_node s)) \<and>
    (\<exists>am. he_recv env 1 = Inr (RespAuthenticate am) \<and> ss_value (au_authenticatorClass am) = PasswordAuthenticatorClass)"
proof -
  obtain r1 s1 where 1: "hs_connect env cfg connector s = (r1, s1)" by fastforce
  then obtain node c where s1: "s1 = s\<lparr>hs_node := node, hs_connected := c\<rparr>"
    and node: "nc_authenticatorData node = nc_authenticatorData (hs_node s)"
    by (rule hs_connect_state)
  have s1_sent: "hs_sent s1 = []" "hs_received s1 = 0" "hs_node s1 = node"
    using s1 start by simp_all
  show ?thesis
  proof (cases r1)
    case (Inl e)
    then show ?thesis
      using run 1 sent s1_sent by (auto simp: hs_chain_begin fut_then_def)
  next
    case (Inr u1)
    obtain r4 s4 where 4: "hs_begin env s1 = (r4, s4)" by fastforce
    have s4: "hs_node s4 = node" "ReqAuthResponse m \<notin> set (hs_sent s4)" "\<And>u. r4 = Inr u \<Longrightarrow> hs_received s4 = 1"
      using hs_begin_sent [OF 4, of m] s1_sent by auto
    obtain r5 s5 where 5: "hs_authenticate env a s4 = (r5, s5)" by fastforce
    obtain r6 s6 where 6: "hs_useKeySpace env (sc_defaultKeySpace cfg) s5 = (r6, s6)" by fastforce
    have "(\<exists>u. r4 = Inr u) \<and> ReqAuthResponse m \<in> set (hs_sent s5)"
      using run sent s4 1 Inr 4 5 6 hs_useKeySpace_sent [OF 6, of m]
      by (cases r4; cases r5; cases r6) (auto simp: hs_chain_begin fut_then_def)
    then show ?thesis
      using hs_authenticate_sent [OF 5, of m] s4 node by auto
  qed
qed

lemma hs_chain_ok:
  assumes run: "hs_chain env cfg connector a s = (Inr u, s')" and start: "hs_sent s = []" "hs_received s = 0" "\<not> hs_compressor s"
  shows "hs_isReady s' \<and>
    hs_sent s' = [ReqOptions new_options, startup_request (hs_compressor s')] @
      authenticate_requests a (hs_node s') @ keyspace_requests (sc_defaultKeySpace cfg) \<and>
    replies env 0 ([MT_Supported] @ authenticate_replies a @ map (\<lambda>_. MT_Result) (keyspace_requests (sc_defaultKeySpace cfg))) \<and>
    (hs_compressor s' \<longrightarrow> nc_useCompression (hs_node s) \<and>
       (\<exists>sm. he_recv env 0 = Inr (RespSupported sm) \<and> getCompressor (sp_options sm)))"
proof -
  obtain s1 s2 m s3 s4 s5 s6 where
    1: "hs_connect env cfg connector s = (Inr (), s1)" and
    2: "s2 = s1\<lparr>hs_sent := hs_sent s1 @ [ReqOptions new_options]\<rparr>" and
    m: "he_recv env (hs_received s2) = Inr m" and
    3: "hs_supported m (s2\<lparr>hs_received := hs_received s2 + 1\<rparr>) = (Inr (), s3)" and
    4: "s4 = s3\<lparr>hs_sent := hs_sent s3 @ [startup_request (hs_compressor s3)]\<rparr>" and
    5: "hs_authenticate env a s4 = (Inr (), s5)" and
    6: "hs_useKeySpace env (sc_defaultKeySpace cfg) s5 = (Inr (), s6)" and
    7: "s' = s6\<lparr>hs_isReady := True\<rparr>"
    using run unfolding hs_chain_def by (auto simp: fut_then_Inr hs_send_Inr hs_recv_eq)
  obtain node c where s1: "s1 = s\<lparr>hs_node := node, hs_connected := c\<rparr>" and
    node: "nc_useCompression node = nc_useCompression (hs_node s)"
    using 1 by (rule hs_connect_state)
  have recv: "hs_received s2 = 0" using 2 s1 start by simp
  note sup = hs_supported_ok [OF 3]
  have s3: "hs_node s3 = node" "hs_sent s3 = [ReqOptions new_options]" "hs_received s3 = 1" "hs_opcode m = MT_Supported"
    "hs_compressor s3 \<longrightarrow> nc_useCompression (hs_node s) \<and> (\<exists>sm. m = RespSupported sm \<and> getCompressor (sp_options sm))"
    using sup 2 s1 start node recv by (auto split: if_splits)
  note au = hs_authenticate_ok [OF 5] and ks = hs_useKeySpace_ok [OF 6]
  show ?thesis
    using s3 au ks 4 7 m recv by auto
qed


text \<open>
  The factory makes the class that belongs to the opcode, so messages of the network satisfy
  \<open>env_faithful\<close>. Then the only undefined step left is the report of an unexpected kind of
  result to the key space query.
\<close>

definition env_faithful :: "handshake_env \<Rightarrow> bool" where
  "env_faithful env \<longleftrightarrow> (\<forall>i. he_recv env i \<noteq> Inl UndefinedBehaviour \<and>
     (\<forall>m. he_recv env i = Inr m \<longrightarrow> response_opcode m = hs_opcode m))"

lemma env_faithful_recv:
  "env_faithful env \<Longrightarrow> he_recv env i = Inr m \<Longrightarrow> response_opcode m = hs_opcode m"
  "env_faithful env \<Longrightarrow> he_recv env i \<noteq> Inl UndefinedBehaviour"
  by (auto simp: env_faithful_def)

lemma supported_defined:
  "hs_supported m s = (Inl UndefinedBehaviour, s') \<Longrightarrow> response_opcode m \<noteq> hs_opcode m"
  by (cases m) (auto simp: hs_supported_def MT_defs split: if_splits)

lemma password_reply_defined:
  "hs_password_reply env m s = (Inl UndefinedBehaviour, s') \<Longrightarrow> response_opcode m \<noteq> hs_opcode m"
  by (cases m) (auto simp: hs_password_reply_def MT_defs dest: hs_send_Inl split: if_splits)

lemma authenticate_defined:
  "env_faithful env \<Longrightarrow> hs_authenticate env a s \<noteq> (Inl UndefinedBehaviour, s')"
  by (cases a) (auto simp: fut_then_Inl hs_recv_eq env_faithful_recv(2) dest: password_reply_defined env_faithful_recv(1) split: if_splits)

lemma begin_defined: "env_faithful env \<Longrightarrow> hs_begin env s \<noteq> (Inl UndefinedBehaviour, s')"
  by (auto simp: hs_begin_def fut_then_Inl hs_recv_eq env_faithful_recv(2)
      dest: hs_send_Inl supported_defined env_faithful_recv(1))

lemma useKeySpace_undefined:
  assumes "env_faithful env" "hs_useKeySpace env keySpace s = (Inl UndefinedBehaviour, s')"
  shows "keySpace \<noteq> [] \<and> (\<exists>i rm. he_recv env i = Inr (RespResult rm) \<and> re_getKind rm \<noteq> RK_SetKeySpace)"
proof -
  have reply: "\<exists>i rm. he_recv env i = Inr (RespResult rm) \<and> re_getKind rm \<noteq> RK_SetKeySpace"
    if "hs_keyspace_reply m s1 = (Inl UndefinedBehaviour, s2)" "he_recv env i = Inr m" for i m s1 s2
    using that env_faithful_recv(1) [OF assms(1) that(2)]
    by (cases m) (auto simp: hs_keyspace_reply_def MT_defs split: if_splits)
  show ?thesis
    using assms use_keyspace_request_ok [of keySpace]
    by (auto simp: hs_useKeySpace_def fut_then_Inl hs_recv_eq env_faithful_recv(2)
        dest: hs_send_Inl reply split: if_splits)
qed

lemma hs_chain_undefined:
  assumes "env_faithful env" "hs_chain env cfg connector a s = (Inl UndefinedBehaviour, s')"
  shows "sc_defaultKeySpace cfg \<noteq> [] \<and> (\<exists>i rm. he_recv env i = Inr (RespResult rm) \<and> re_getKind rm \<noteq> RK_SetKeySpace)"
proof -
  have "hs_connect env cfg connector s1 \<noteq> (Inl UndefinedBehaviour, s2)" for s1 s2
    using hs_connect_state [of env cfg connector s1 "Inl UndefinedBehaviour" s2] by blast
  then show ?thesis
    using assms begin_defined [OF assms(1)] authenticate_defined [OF assms(1)]
    by (auto simp: hs_chain_begin fut_then_Inl dest: useKeySpace_undefined [OF assms(1)])
qed

section \<open>Properties\<close>

text \<open>
  C18: A connection becomes ready only after the complete exchange on stream zero: OPTIONS answered by
  SUPPORTED, STARTUP answered as the configured authenticator demands, and with a default key space
  one USE query answered by a result. Exactly these requests are written, in this order, and STARTUP
  announces compression only if it is configured and the server offered LZ4.
\<close>

theorem handshake_complete:
  assumes "connection_ready env cfg connector a s = (Inr (), s')" and "\<not> hs_isReady s"
    and "hs_sent s = []" and "hs_received s = 0" and "\<not> hs_compressor s"
  shows "hs_isReady s' \<and>
    hs_sent s' = [ReqOptions new_options, startup_request (hs_compressor s')] @
      authenticate_requests a (hs_node s') @ keyspace_requests (sc_defaultKeySpace cfg) \<and>
    replies env 0 ([MT_Supported] @ authenticate_replies a @ map (\<lambda>_. MT_Result) (keyspace_requests (sc_defaultKeySpace cfg))) \<and>
    (hs_compressor s' \<longrightarrow> nc_useCompression (hs_node s) \<and>
       (\<exists>sm. he_recv env 0 = Inr (RespSupported sm) \<and> getCompressor (sp_options sm)))"
  using assms hs_chain_ok [of env cfg connector a s _ s']
  by (auto simp: connection_ready_def split: prod.splits sum.splits if_splits)

definition reply_header :: "u32 \<Rightarrow> message_header" where
  "reply_header opCode = mh_setOpCode opCode MD_Response mh_init"

definition example_reply :: "nat \<Rightarrow> response result" where
  "example_reply i =
     (if i = 0 then Inr (RespSupported (sp_init\<lparr>sp_header := reply_header MT_Supported,
        sp_options := [(CompressionKey, [protocol_string ''snappy'', protocol_string ''lz4''])]\<rparr>))
      else if i = 1 then Inr (RespAuthenticate (au_init\<lparr>au_header := reply_header MT_Authenticate,
        au_authenticatorClass := protocol_string ''org.apache.cassandra.auth.PasswordAuthenticator''\<rparr>))
      else if i = 2 then Inr (RespAuthSuccess (at_init\<lparr>at_header := reply_header MT_AuthSuccess\<rparr>))
      else Inr (RespResult (re_init\<lparr>re_header := reply_header MT_Result, re_kind := RK_Void\<rparr>)))"

definition example_env :: handshake_env where
  "example_env = \<lparr>he_now = 0, he_resolve = (\<lambda>_. Inr (ResolvedInet [127, 0, 0, 1])), he_connect = (\<lambda>_ _. Inr ()),
     he_send = (\<lambda>_. Inr ()), he_recv = example_reply\<rparr>"

definition example_start :: handshake where
  "example_start = \<lparr>hs_node = nc_setPasswordAuthentication [117] [112] (nc_setUseCompression True nc_init),
     hs_connected = False, hs_isReady = False, hs_compressor = False, hs_sent = [], hs_received = 0,
     hs_metrics = metrics_init\<rparr>"

lemmas example_defs = example_start_def example_env_def example_reply_def reply_header_def connection_ready_def hs_chain_def
  hs_connect_def fut_then_def hs_send_def hs_recv_def hs_supported_def hs_opcode_def hs_password_reply_def hs_useKeySpace_def
  nc_getIpAddress_def nc_updateIpAddress_def nc_setPasswordAuthentication_def nc_setUseCompression_def nc_init_def sc_init_def
  mh_setOpCode_def mh_getOpCode_def mh_init_def sp_init_def au_init_def at_init_def protocol_string_def PasswordAuthenticatorClass_def

lemma example_ready: "fst (connection_ready example_env sc_init TCPConnector PasswordAuthenticator example_start) = Inr ()"
  by (simp add: example_defs MT_defs)


theorem handshake_complete_witness:
  "hs_isReady (snd (connection_ready example_env sc_init TCPConnector PasswordAuthenticator example_start)) \<and>
   length (hs_sent (snd (connection_ready example_env sc_init TCPConnector PasswordAuthenticator example_start))) = 3"
proof -
  have "connection_ready example_env sc_init TCPConnector PasswordAuthenticator example_start =
      (Inr (), snd (connection_ready example_env sc_init TCPConnector PasswordAuthenticator example_start))"
    using example_ready by (metis prod.collapse)
  from handshake_complete [OF this] show ?thesis
    by (simp add: example_start_def authenticate_requests_def keyspace_requests_def sc_init_def)
qed

text \<open>
  C19: The credentials leave the client only if the configured authenticator is the password
  authenticator and the server answered STARTUP by demanding exactly that class; what is sent is
  the configured authenticator data. This holds whether or not the handshake succeeds.
\<close>

theorem credentials_only_on_demand:
  assumes "connection_ready env cfg connector a s = (r, s')" and "hs_sent s = []" and "hs_received s = 0"
    and "ReqAuthResponse m \<in> set (hs_sent s')"
  shows "a = PasswordAuthenticator \<and>
    (\<exists>node. ReqAuthResponse m = auth_request node \<and> nc_authenticatorData node = nc_authenticatorData (hs_node s)) \<and>
    (\<exists>am. he_recv env 1 = Inr (RespAuthenticate am) \<and> ss_value (au_authenticatorClass am) = PasswordAuthenticatorClass)"
proof -
  obtain r1 s1 where run: "hs_chain env cfg connector a s = (r1, s1)" by fastforce
  have "hs_isReady s \<Longrightarrow> s' = s"
    using assms(1) by (simp add: connection_ready_def)
  then have "ReqAuthResponse m \<in> set (hs_sent s1)"
    using assms run by (auto simp: connection_ready_def split: sum.splits if_splits)
  then show ?thesis
    using hs_chain_sent [OF run assms(2,3)] by simp
qed

lemma example_auth_sent:
  "hs_sent (snd (connection_ready example_env sc_init TCPConnector PasswordAuthenticator example_start)) =
   [ReqOptions new_options, startup_request True, auth_request (hs_node example_start)]"
  by (simp add: example_defs MT_defs getCompressor_def map_find_def lz4_name_def auth_request_def CompressionKey_def)

theorem credentials_only_on_demand_witness:
  "\<exists>am. he_recv example_env 1 = Inr (RespAuthenticate am) \<and> ss_value (au_authenticatorClass am) = PasswordAuthenticatorClass"
  using credentials_only_on_demand [of example_env sc_init TCPConnector PasswordAuthenticator example_start _ _
      "new_auth_response\<lparr>arm_token := ss_set (nc_authenticatorData (hs_node example_start)) (arm_token new_auth_response)\<rparr>",
      OF prod.collapse [symmetric]]
  unfolding example_auth_sent by (simp add: auth_request_def example_start_def)

text \<open>
  C22: A handshake that fails ends in \<^verbatim>\<open>ConnectionInitializeException\<close> with the connection
  closed, not ready, without compressor and with the error counted. The one exception: when the
  server answers the USE query with a result of another kind, the report of it goes through a null
  pointer.
\<close>

theorem handshake_failure:
  assumes "env_faithful env" and "connection_ready env cfg connector a s = (Inl e, s')"
  shows "e = ConnectionInitializeException \<and> \<not> hs_connected s' \<and> \<not> hs_isReady s' \<and> \<not> hs_compressor s' \<or>
    e = UndefinedBehaviour \<and> sc_defaultKeySpace cfg \<noteq> [] \<and>
      (\<exists>i rm. he_recv env i = Inr (RespResult rm) \<and> re_getKind rm \<noteq> RK_SetKeySpace)"
  using assms hs_chain_undefined [OF assms(1)]
  by (auto simp: connection_ready_def split: sum.splits if_splits prod.splits)

definition refused_env :: handshake_env where
  "refused_env = example_env\<lparr>he_connect := (\<lambda>_ _. Inl NetworkException)\<rparr>"

lemma example_faithful: "env_faithful refused_env"
  by (simp add: env_faithful_def refused_env_def example_defs MT_defs)

lemma refused_result:
  "connection_ready refused_env sc_init TCPConnector PasswordAuthenticator example_start =
   (Inl ConnectionInitializeException, snd (connection_ready refused_env sc_init TCPConnector PasswordAuthenticator example_start))"
  by (simp add: refused_env_def example_defs)

theorem handshake_failure_witness:
  "\<not> hs_isReady (snd (connection_ready refused_env sc_init TCPConnector PasswordAuthenticator example_start))"
  using handshake_failure [OF example_faithful refused_result] by simp


end
