(* ===== verification/Node_Collection.thy ===== *)
theory Node_Collection
  imports Seastar_Queue "HOL-Library.Multiset"
begin

text \<open>
  \<^verbatim>\<open>NodeCollectionImpl\<close>: which node the next connection is made to. A node is
  identified by its address (the value of the shared pointer), by which the records are sorted. The
  indexes of the nodes marked as fault wait in a queue, one of which is tried again after each round
  over all nodes.
\<close>

record node_record =
  nr_node :: nat
  nr_isFault :: bool

record 'q node_collection =
  nl_allNodes :: "node_record list"
  nl_nextIndex :: nat
  nl_faultNodeIndexes :: 'q

section \<open>Operations\<close>

text \<open>
  The constructor: \<open>addresses\<close> are the addresses of the copies made of the initial nodes.
\<close>

definition nl_create :: "(nat, 'q) queue_library \<Rightarrow> nat list \<Rightarrow> 'q node_collection result" where
  "nl_create Q addresses =
     (if addresses = [] then Inl LogicException
      else Inr \<lparr>nl_allNodes = sort_key nr_node (map (\<lambda>a. \<lparr>nr_node = a, nr_isFault = False\<rparr>) addresses),
        nl_nextIndex = 0, nl_faultNodeIndexes = sq_new Q (length addresses)\<rparr>)"

text \<open>\<^verbatim>\<open>std::lower_bound\<close> on the sorted records, then the comparison for equality.\<close>

definition nl_getNodeRecord :: "nat \<Rightarrow> 'q node_collection \<Rightarrow> nat" where
  "nl_getNodeRecord node c =
     (let it = length (takeWhile (\<lambda>r. nr_node r < node) (nl_allNodes c)) in
      if it \<noteq> length (nl_allNodes c) \<and> nr_node (nl_allNodes c ! it) \<noteq> node
      then length (nl_allNodes c) else it)"

definition nl_getNodesCount :: "'q node_collection \<Rightarrow> nat" where
  "nl_getNodesCount c = length (nl_allNodes c)"

text \<open>\<open>n\<close> is the number of iterations left.\<close>

fun nl_choose_loop :: "(nat, 'q) queue_library \<Rightarrow> nat \<Rightarrow> 'q node_collection \<Rightarrow> nat result \<times> 'q node_collection" where
  "nl_choose_loop Q 0 c = (Inl LogicException, c)"
| "nl_choose_loop Q (Suc n) c =
     (let j = length (nl_allNodes c);
          wrap = nl_nextIndex c \<ge> j;
          c = (if wrap then c\<lparr>nl_nextIndex := 0\<rparr> else c) in
      if wrap \<and> \<not> sq_empty Q (nl_faultNodeIndexes c)
      then (let (faultNodeIndex, q) = sq_pop Q (nl_faultNodeIndexes c);
                (pushed, q) = sq_push Q faultNodeIndex q;
                c = c\<lparr>nl_faultNodeIndexes := q\<rparr> in
            (if faultNodeIndex < j then Inr (nr_node (nl_allNodes c ! faultNodeIndex)) else Inl StdOutOfRange, c))
      else if nl_nextIndex c \<ge> j then (Inl UndefinedBehaviour, c)
      else (let nodeRecord = nl_allNodes c ! nl_nextIndex c;
                c = c\<lparr>nl_nextIndex := nl_nextIndex c + 1\<rparr> in
            if \<not> nr_isFault nodeRecord then (Inr (nr_node nodeRecord), c)
            else nl_choose_loop Q n c))"

definition nl_chooseOneNode :: "(nat, 'q) queue_library \<Rightarrow> 'q node_collection \<Rightarrow> nat result \<times> 'q node_collection" where
  "nl_chooseOneNode Q c = nl_choose_loop Q (length (nl_allNodes c) + 1) c"

definition nl_reportFailure :: "(nat, 'q) queue_library \<Rightarrow> nat \<Rightarrow> 'q node_collection \<Rightarrow> 'q node_collection result" where
  "nl_reportFailure Q node c =
     (let i = nl_getNodeRecord node c in
      if i = length (nl_allNodes c) then Inl LogicException
      else if \<not> nr_isFault (nl_allNodes c ! i)
      then Inr (c\<lparr>nl_allNodes := (nl_allNodes c)[i := (nl_allNodes c ! i)\<lparr>nr_isFault := True\<rparr>],
             nl_faultNodeIndexes := snd (sq_push Q i (nl_faultNodeIndexes c))\<rparr>)
      else Inr c)"

fun nl_remove_loop :: "(nat, 'q) queue_library \<Rightarrow> nat \<Rightarrow> nat \<Rightarrow> 'q \<Rightarrow> 'q" where
  "nl_remove_loop Q 0 index q = q"
| "nl_remove_loop Q (Suc n) index q =
     (let (faultNodeIndex, q) = sq_pop Q q in
      nl_remove_loop Q n index (if faultNodeIndex \<noteq> index then snd (sq_push Q faultNodeIndex q) else q))"

definition nl_reportSuccess :: "(nat, 'q) queue_library \<Rightarrow> nat \<Rightarrow> 'q node_collection \<Rightarrow> 'q node_collection result" where
  "nl_reportSuccess Q node c =
     (let i = nl_getNodeRecord node c in
      if i = length (nl_allNodes c) then Inl LogicException
      else if nr_isFault (nl_allNodes c ! i)
      then Inr (c\<lparr>nl_allNodes := (nl_allNodes c)[i := (nl_allNodes c ! i)\<lparr>nr_isFault := False\<rparr>],
             nl_faultNodeIndexes := nl_remove_loop Q (sq_size Q (nl_faultNodeIndexes c)) i (nl_faultNodeIndexes c)\<rparr>)
      else Inr c)"

section \<open>Invariant\<close>

definition nl_addresses :: "'q node_collection \<Rightarrow> nat list" where
  "nl_addresses c = map nr_node (nl_allNodes c)"

definition nl_faults :: "'q node_collection \<Rightarrow> nat set" where
  "nl_faults c = {i. i < length (nl_allNodes c) \<and> nr_isFault (nl_allNodes c ! i)}"

definition nl_inv :: "('q \<Rightarrow> nat list) \<Rightarrow> ('q \<Rightarrow> nat) \<Rightarrow> 'q node_collection \<Rightarrow> bool" where
  "nl_inv items cap c \<longleftrightarrow>
     nl_allNodes c \<noteq> [] \<and> sorted (nl_addresses c) \<and> distinct (nl_addresses c) \<and>
     nl_nextIndex c \<le> length (nl_allNodes c) \<and>
     distinct (items (nl_faultNodeIndexes c)) \<and> set (items (nl_faultNodeIndexes c)) = nl_faults c \<and>
     cap (nl_faultNodeIndexes c) = length (nl_allNodes c)"

lemma nl_faults_bound: "card (nl_faults c) \<le> length (nl_allNodes c)"
  using card_mono [of "{..<length (nl_allNodes c)}" "nl_faults c"] by (auto simp: nl_faults_def)


lemma nl_getNodeRecord_found:
  assumes "sorted (nl_addresses c)" "distinct (nl_addresses c)" "i < length (nl_allNodes c)"
  shows "nl_getNodeRecord (nr_node (nl_allNodes c ! i)) c = i"
proof -
  have less: "nr_node (nl_allNodes c ! j) < nr_node (nl_allNodes c ! i)" if "j < i" for j
    using sorted_nth_mono [OF assms(1), of j i] nth_eq_iff_index_eq [OF assms(2), of j i] assms(3) that
    by (simp add: nl_addresses_def order_le_less)
  have "takeWhile (\<lambda>r. nr_node r < nr_node (nl_allNodes c ! i)) (nl_allNodes c) = take i (nl_allNodes c)"
    by (rule takeWhile_eq_take_P_nth) (simp_all add: less)
  then show ?thesis
    using assms(3) by (simp add: nl_getNodeRecord_def)
qed

lemma nl_getNodeRecord_node:
  assumes "nl_getNodeRecord node c \<noteq> length (nl_allNodes c)"
  shows "nl_getNodeRecord node c < length (nl_allNodes c)"
    and "nr_node (nl_allNodes c ! nl_getNodeRecord node c) = node"
proof -
  have "length (takeWhile (\<lambda>r. nr_node r < node) (nl_allNodes c)) \<le> length (nl_allNodes c)"
    by (rule length_takeWhile_le)
  then show "nl_getNodeRecord node c < length (nl_allNodes c)"
    and "nr_node (nl_allNodes c ! nl_getNodeRecord node c) = node"
    using assms by (auto simp: nl_getNodeRecord_def Let_def split: if_splits)
qed

lemma nl_getNodeRecord_missing:
  "node \<notin> set (nl_addresses c) \<Longrightarrow> nl_getNodeRecord node c = length (nl_allNodes c)"
  unfolding nl_addresses_def using nl_getNodeRecord_node [of node c] by (metis image_eqI nth_mem set_map)

lemma mset_rotate1: "mset (rotate1 xs) = mset xs"
  by (cases xs) simp_all

text \<open>Taking the first fault node and queueing it again.\<close>

lemma nl_rotate:
  assumes Q: "queue_laws Q items cap" and inv: "nl_inv items cap c"
    and pop: "sq_pop Q (nl_faultNodeIndexes c) = (i, q1)" and push: "sq_push Q i q1 = (b, q2)"
    and ne: "items (nl_faultNodeIndexes c) \<noteq> []"
  shows "items q2 = rotate1 (items (nl_faultNodeIndexes c))" and "i = hd (items (nl_faultNodeIndexes c))"
    and "cap q2 = length (nl_allNodes c)" and "i \<in> nl_faults c"
proof -
  note p = queue_pop [OF Q pop ne] and u = queue_push [OF Q push]
  have "length (items (nl_faultNodeIndexes c)) = card (nl_faults c)"
    using inv by (metis nl_inv_def distinct_card)
  then have "length (items q1) < cap q1"
    using nl_faults_bound [of c] inv p by (simp add: nl_inv_def)
  then show "items q2 = rotate1 (items (nl_faultNodeIndexes c))"
    using p u by simp
  show "i = hd (items (nl_faultNodeIndexes c))" "cap q2 = length (nl_allNodes c)"
    using p u inv by (simp_all add: nl_inv_def)
  have "i \<in> set (items (nl_faultNodeIndexes c))"
    using p by simp
  then show "i \<in> nl_faults c"
    using inv by (simp add: nl_inv_def)
qed

lemma nl_inv_fields:
  assumes "nl_inv items cap c" "nl_allNodes c' = nl_allNodes c" "nl_nextIndex c' \<le> length (nl_allNodes c)"
    and "mset (items (nl_faultNodeIndexes c')) = mset (items (nl_faultNodeIndexes c))"
    and "cap (nl_faultNodeIndexes c') = length (nl_allNodes c)"
  shows "nl_inv items cap c'"
  using assms mset_eq_imp_distinct_iff [OF assms(4)] mset_eq_setD [OF assms(4)]
  by (simp add: nl_inv_def nl_addresses_def nl_faults_def)

definition chosen :: "('q \<Rightarrow> nat list) \<Rightarrow> ('q \<Rightarrow> nat) \<Rightarrow> 'q node_collection \<Rightarrow> nat result \<times> 'q node_collection \<Rightarrow> bool" where
  "chosen items cap c res \<longleftrightarrow>
     (\<exists>a c'. res = (Inr a, c') \<and> nl_inv items cap c' \<and> a \<in> set (nl_addresses c) \<and> nl_allNodes c' = nl_allNodes c)"

lemma nl_choose_loop_ok:
  assumes Q: "queue_laws Q items cap"
  shows "nl_inv items cap c \<Longrightarrow> length (nl_allNodes c) - nl_nextIndex c < n \<Longrightarrow> chosen items cap c (nl_choose_loop Q n c)"
proof (induction n arbitrary: c)
  case (Suc n)
  let ?j = "length (nl_allNodes c)"
  have inv: "nl_inv items cap c" and j: "0 < ?j"
    using Suc.prems(1) by (auto simp: nl_inv_def)
  have step: "nl_inv items cap (c\<lparr>nl_nextIndex := k\<rparr>)" if "k \<le> ?j" for k
    using inv by (rule nl_inv_fields) (use that inv in \<open>simp_all add: nl_inv_def\<close>)
  consider (retry) "nl_nextIndex c \<ge> ?j" "items (nl_faultNodeIndexes c) \<noteq> []"
    | (first) "nl_nextIndex c \<ge> ?j" "items (nl_faultNodeIndexes c) = []"
    | (good) "nl_nextIndex c < ?j" "\<not> nr_isFault (nl_allNodes c ! nl_nextIndex c)"
    | (bad) "nl_nextIndex c < ?j" "nr_isFault (nl_allNodes c ! nl_nextIndex c)"
    by fastforce
  then show ?case
  proof cases
    case retry
    obtain i q1 where pop: "sq_pop Q (nl_faultNodeIndexes c) = (i, q1)" by fastforce
    obtain b q2 where push: "sq_push Q i q1 = (b, q2)" by fastforce
    note rot = nl_rotate [OF Q inv pop push retry(2)]
    have "nl_inv items cap (c\<lparr>nl_nextIndex := 0, nl_faultNodeIndexes := q2\<rparr>)"
      using inv by (rule nl_inv_fields) (simp_all add: rot mset_rotate1)
    moreover have "i < ?j"
      using rot(4) by (simp add: nl_faults_def)
    ultimately show ?thesis
      using retry pop push by (simp add: chosen_def queue_empty [OF Q] nl_addresses_def Let_def)
  next
    case first
    then have "nl_faults c = {}"
      using inv by (simp add: nl_inv_def)
    then have "\<not> nr_isFault (nl_allNodes c ! 0)"
      using j by (auto simp: nl_faults_def)
    moreover have "nl_inv items cap (c\<lparr>nl_nextIndex := Suc 0\<rparr>)"
      by (rule step) (use j in linarith)
    ultimately show ?thesis
      using first j by (simp add: chosen_def queue_empty [OF Q] nl_addresses_def Let_def)
  next
    case good
    then show ?thesis
      using step [of "nl_nextIndex c + 1"] by (simp add: chosen_def nl_addresses_def Let_def)
  next
    case bad
    then have "chosen items cap (c\<lparr>nl_nextIndex := nl_nextIndex c + 1\<rparr>) (nl_choose_loop Q n (c\<lparr>nl_nextIndex := nl_nextIndex c + 1\<rparr>))"
      using Suc.prems step [of "nl_nextIndex c + 1"] by (intro Suc.IH) auto
    then show ?thesis
      using bad by (simp add: chosen_def nl_addresses_def Let_def)
  qed
qed simp

lemma nl_choose_ok:
  "queue_laws Q items cap \<Longrightarrow> nl_inv items cap c \<Longrightarrow> chosen items cap c (nl_chooseOneNode Q c)"
  unfolding nl_chooseOneNode_def by (rule nl_choose_loop_ok) (auto simp: nl_inv_def)

lemma nl_remove_loop_items:
  assumes Q: "queue_laws Q items cap"
  shows "length (items q) \<le> cap q \<Longrightarrow> n \<le> length (items q) \<Longrightarrow>
    items (nl_remove_loop Q n i q) = drop n (items q) @ filter (\<lambda>k. k \<noteq> i) (take n (items q)) \<and>
    cap (nl_remove_loop Q n i q) = cap q"
proof (induction n arbitrary: q)
  case (Suc n)
  obtain k q1 where pop: "sq_pop Q q = (k, q1)" by fastforce
  obtain b q2 where push: "sq_push Q k q1 = (b, q2)" by fastforce
  have ne: "items q \<noteq> []" using Suc.prems by auto
  note p = queue_pop [OF Q pop ne] and u = queue_push [OF Q push]
  have len: "length (items q1) < cap q1"
    using p Suc.prems by simp
  then show ?case
    using Suc.IH [of q1] Suc.IH [of q2] Suc.prems p u pop push by simp
qed simp


definition nl_mark :: "nat \<Rightarrow> bool \<Rightarrow> 'q \<Rightarrow> 'q node_collection \<Rightarrow> 'q node_collection" where
  "nl_mark i b q c = c\<lparr>nl_allNodes := (nl_allNodes c)[i := (nl_allNodes c ! i)\<lparr>nr_isFault := b\<rparr>], nl_faultNodeIndexes := q\<rparr>"

lemma nl_mark_inv:
  assumes inv: "nl_inv items cap c" and i: "i < length (nl_allNodes c)" and d: "distinct (items q)"
    and set: "set (items q) = (if b then insert i (nl_faults c) else nl_faults c - {i})"
    and cap: "cap q = length (nl_allNodes c)"
  shows "nl_inv items cap (nl_mark i b q c) \<and> nl_addresses (nl_mark i b q c) = nl_addresses c \<and>
    nl_faults (nl_mark i b q c) = (if b then insert i (nl_faults c) else nl_faults c - {i})"
proof -
  have faults: "nl_faults (nl_mark i b q c) = (if b then insert i (nl_faults c) else nl_faults c - {i})"
    using i by (auto simp: nl_faults_def nl_mark_def nth_list_update)
  have addresses: "nl_addresses (nl_mark i b q c) = nl_addresses c"
    using i by (simp add: nl_addresses_def nl_mark_def map_update list_update_same_conv)
  have fields: "length (nl_allNodes (nl_mark i b q c)) = length (nl_allNodes c)"
    "nl_nextIndex (nl_mark i b q c) = nl_nextIndex c" "nl_faultNodeIndexes (nl_mark i b q c) = q"
    by (simp_all add: nl_mark_def)
  have "nl_allNodes (nl_mark i b q c) \<noteq> []"
    using i fields(1) by auto
  then show ?thesis
    using inv unfolding nl_inv_def faults addresses fields using d set cap by simp
qed

lemma nl_reportFailure_inv:
  assumes Q: "queue_laws Q items cap" and inv: "nl_inv items cap c" and op: "nl_reportFailure Q node c = Inr c'"
  shows "nl_inv items cap c'" and "nl_addresses c' = nl_addresses c"
    and "nl_faults c' = insert (nl_getNodeRecord node c) (nl_faults c)"
proof -
  let ?i = "nl_getNodeRecord node c"
  have i: "?i < length (nl_allNodes c)"
    using op nl_getNodeRecord_node(1) by (auto simp: nl_reportFailure_def Let_def split: if_splits)
  have "nl_inv items cap c' \<and> nl_addresses c' = nl_addresses c \<and> nl_faults c' = insert ?i (nl_faults c)"
  proof (cases "nr_isFault (nl_allNodes c ! ?i)")
    case True
    then show ?thesis
      using op i inv by (auto simp: nl_reportFailure_def Let_def nl_faults_def)
  next
    case False
    obtain b q where push: "sq_push Q ?i (nl_faultNodeIndexes c) = (b, q)" by fastforce
    have c': "c' = nl_mark ?i True q c"
      using op i False push by (simp add: nl_reportFailure_def nl_mark_def Let_def)
    have new: "?i \<notin> nl_faults c"
      using False by (simp add: nl_faults_def)
    have "card (insert ?i (nl_faults c)) \<le> length (nl_allNodes c)"
      using i card_mono [of "{..<length (nl_allNodes c)}" "insert ?i (nl_faults c)"] by (auto simp: nl_faults_def)
    then have "card (nl_faults c) < length (nl_allNodes c)"
      using new by (simp add: nl_faults_def)
    moreover have "length (items (nl_faultNodeIndexes c)) = card (nl_faults c)"
      using inv by (metis nl_inv_def distinct_card)
    ultimately have "length (items (nl_faultNodeIndexes c)) < cap (nl_faultNodeIndexes c)"
      using inv by (simp add: nl_inv_def)
    then have "items q = items (nl_faultNodeIndexes c) @ [?i]" "cap q = cap (nl_faultNodeIndexes c)"
      using queue_push [OF Q push] by auto
    then show ?thesis
      using nl_mark_inv [OF inv i, of q True] inv new by (simp add: nl_inv_def c')
  qed
  then show "nl_inv items cap c'" and "nl_addresses c' = nl_addresses c"
    and "nl_faults c' = insert ?i (nl_faults c)" by simp_all
qed

lemma nl_reportSuccess_inv:
  assumes Q: "queue_laws Q items cap" and inv: "nl_inv items cap c" and op: "nl_reportSuccess Q node c = Inr c'"
  shows "nl_inv items cap c'" and "nl_addresses c' = nl_addresses c"
    and "nl_faults c' = nl_faults c - {nl_getNodeRecord node c}"
proof -
  let ?i = "nl_getNodeRecord node c"
  have i: "?i < length (nl_allNodes c)"
    using op nl_getNodeRecord_node(1) by (auto simp: nl_reportSuccess_def Let_def split: if_splits)
  have "nl_inv items cap c' \<and> nl_addresses c' = nl_addresses c \<and> nl_faults c' = nl_faults c - {?i}"
  proof (cases "nr_isFault (nl_allNodes c ! ?i)")
    case False
    then show ?thesis
      using op i inv by (auto simp: nl_reportSuccess_def Let_def nl_faults_def)
  next
    case True
    define q where "q = nl_remove_loop Q (sq_size Q (nl_faultNodeIndexes c)) ?i (nl_faultNodeIndexes c)"
    have c': "c' = nl_mark ?i False q c"
      using op i True by (simp add: nl_reportSuccess_def nl_mark_def Let_def q_def)
    have "length (items (nl_faultNodeIndexes c)) = card (nl_faults c)"
      using inv by (metis nl_inv_def distinct_card)
    then have "items q = filter (\<lambda>k. k \<noteq> ?i) (items (nl_faultNodeIndexes c))" "cap q = cap (nl_faultNodeIndexes c)"
      using nl_remove_loop_items [OF Q, of "nl_faultNodeIndexes c" "length (items (nl_faultNodeIndexes c))" ?i]
        nl_faults_bound [of c] inv by (simp_all add: q_def queue_size [OF Q] nl_inv_def)
    then have "distinct (items q)" "set (items q) = nl_faults c - {?i}" "cap q = length (nl_allNodes c)"
      using inv by (auto simp: nl_inv_def)
    then show ?thesis
      using nl_mark_inv [OF inv i, of q False] by (simp add: c')
  qed
  then show "nl_inv items cap c'" and "nl_addresses c' = nl_addresses c"
    and "nl_faults c' = nl_faults c - {?i}" by simp_all
qed

lemma nl_create_inv:
  assumes Q: "queue_laws Q items cap" and "distinct addresses" "nl_create Q addresses = Inr c"
  shows "nl_inv items cap c" and "nl_addresses c = sort addresses" and "nl_faults c = {}" and "nl_nextIndex c = 0"
proof -
  let ?records = "map (\<lambda>a. \<lparr>nr_node = a, nr_isFault = False\<rparr>) addresses"
  have c: "c = \<lparr>nl_allNodes = sort_key nr_node ?records, nl_nextIndex = 0, nl_faultNodeIndexes = sq_new Q (length addresses)\<rparr>"
    and ne: "addresses \<noteq> []"
    using assms(3) by (simp_all add: nl_create_def split: if_splits)
  have all: "nl_allNodes c = sort_key nr_node ?records"
    by (simp add: c)
  have sorted: "sorted (nl_addresses c)"
    unfolding nl_addresses_def all by simp
  have "mset (nl_addresses c) = mset (map nr_node ?records)"
    unfolding nl_addresses_def all mset_map mset_sort ..
  also have "map nr_node ?records = addresses"
    by (simp add: comp_def)
  finally have eq: "mset (nl_addresses c) = mset addresses" .
  then have dist: "distinct (nl_addresses c)"
    using assms(2) mset_eq_imp_distinct_iff by blast
  show "nl_addresses c = sort addresses"
    using properties_for_sort [OF eq sorted] by simp
  have "nr_isFault r = False" if "r \<in> set (nl_allNodes c)" for r
    using that unfolding all by auto
  then show faults: "nl_faults c = {}"
    by (auto simp: nl_faults_def)
  have len: "length (nl_allNodes c) = length addresses"
    unfolding all by simp
  then have "nl_allNodes c \<noteq> []"
    using ne by force
  then show "nl_inv items cap c"
    unfolding nl_inv_def faults len using sorted dist queue_new [OF Q, of "length addresses"] by (simp add: c)
  show "nl_nextIndex c = 0" by (simp add: c)
qed


section \<open>Histories\<close>

datatype nl_event = ChooseNode | NodeFailed nat | NodeSucceeded nat

text \<open>A report about a node that is not in the collection throws and changes nothing.\<close>

fun nl_event_step :: "(nat, 'q) queue_library \<Rightarrow> nl_event \<Rightarrow> 'q node_collection \<Rightarrow> 'q node_collection" where
  "nl_event_step Q ChooseNode c = snd (nl_chooseOneNode Q c)"
| "nl_event_step Q (NodeFailed node) c = (case nl_reportFailure Q node c of Inl e \<Rightarrow> c | Inr c' \<Rightarrow> c')"
| "nl_event_step Q (NodeSucceeded node) c = (case nl_reportSuccess Q node c of Inl e \<Rightarrow> c | Inr c' \<Rightarrow> c')"

definition nl_run :: "(nat, 'q) queue_library \<Rightarrow> nl_event list \<Rightarrow> 'q node_collection \<Rightarrow> 'q node_collection" where
  "nl_run Q events c = fold (nl_event_step Q) events c"

lemma nl_event_inv:
  assumes Q: "queue_laws Q items cap" and "nl_inv items cap c"
  shows "nl_inv items cap (nl_event_step Q e c) \<and> nl_addresses (nl_event_step Q e c) = nl_addresses c"
proof (cases e)
  case ChooseNode
  then show ?thesis
    using nl_choose_ok [OF assms] by (auto simp: chosen_def nl_addresses_def)
qed (use assms in \<open>auto split: sum.splits dest: nl_reportFailure_inv nl_reportSuccess_inv\<close>)

lemma nl_run_inv:
  assumes Q: "queue_laws Q items cap"
  shows "nl_inv items cap c \<Longrightarrow> nl_inv items cap (nl_run Q events c) \<and> nl_addresses (nl_run Q events c) = nl_addresses c"
  using nl_event_inv [OF Q] by (induction events arbitrary: c) (simp_all add: nl_run_def)

lemma nl_choose_good:
  assumes "nl_inv items cap c" "queue_laws Q items cap" "nl_faults c = {}"
  shows "nl_chooseOneNode Q c =
    (let i = (if nl_nextIndex c \<ge> length (nl_allNodes c) then 0 else nl_nextIndex c) in
     (Inr (nl_addresses c ! i), c\<lparr>nl_nextIndex := i + 1\<rparr>))"
proof -
  have "items (nl_faultNodeIndexes c) = []" and ne: "0 < length (nl_allNodes c)"
    using assms(1,3) by (simp_all add: nl_inv_def)
  moreover have good: "\<And>i. i < length (nl_allNodes c) \<Longrightarrow> \<not> nr_isFault (nl_allNodes c ! i)"
    using assms(3) by (auto simp: nl_faults_def)
  ultimately show ?thesis
    using good [OF ne] good [of "nl_nextIndex c"] queue_empty [OF assms(2)]
    by (simp add: nl_chooseOneNode_def nl_addresses_def Let_def)
qed

section \<open>Properties\<close>

text \<open>
  C23: Choosing a node never fails: after any sequence of choices and reports on a collection made of
  distinct nodes, the next choice returns one of these nodes, so the exception behind the loop is
  unreachable even when every node is marked as fault.
\<close>

theorem choose_never_fails:
  assumes "queue_laws Q items cap" and "distinct addresses" and "nl_create Q addresses = Inr c"
  shows "\<exists>a \<in> set addresses. fst (nl_chooseOneNode Q (nl_run Q events c)) = Inr a"
proof -
  note create = nl_create_inv [OF assms]
  note run = nl_run_inv [OF assms(1) create(1), of events]
  then have "chosen items cap (nl_run Q events c) (nl_chooseOneNode Q (nl_run Q events c))"
    using nl_choose_ok [OF assms(1)] by blast
  then show ?thesis
    using run create(2) by (auto simp: chosen_def)
qed

theorem choose_never_fails_witness:
  "\<exists>a \<in> {5, 3, 9}. fst (nl_chooseOneNode list_queue (nl_run list_queue
     [ChooseNode, NodeFailed 3, NodeFailed 5, ChooseNode, NodeFailed 9, NodeSucceeded 5]
     (projr (nl_create list_queue [5, 3, 9])))) = Inr a"
  using choose_never_fails [OF list_queue_laws, of "[5, 3, 9]"] by (auto simp: nl_create_def)

text \<open>
  C24: The fault queue holds exactly the nodes marked as fault, each once: a reported failure adds the
  node, a reported success takes it out wherever it waits, and the other nodes keep their marks.
\<close>

theorem fault_reports:
  assumes "queue_laws Q items cap" and "nl_inv items cap c" and "i < length (nl_allNodes c)"
  shows "\<exists>c1 c2. nl_reportFailure Q (nl_addresses c ! i) c = Inr c1 \<and> nl_reportSuccess Q (nl_addresses c ! i) c = Inr c2 \<and>
    nl_inv items cap c1 \<and> set (items (nl_faultNodeIndexes c1)) = insert i (nl_faults c) \<and>
    nl_inv items cap c2 \<and> set (items (nl_faultNodeIndexes c2)) = nl_faults c - {i}"
proof -
  have rec: "nl_getNodeRecord (nl_addresses c ! i) c = i"
    using nl_getNodeRecord_found [of c i] assms(2,3) by (simp add: nl_inv_def nl_addresses_def)
  obtain c1 c2 where op: "nl_reportFailure Q (nl_addresses c ! i) c = Inr c1" "nl_reportSuccess Q (nl_addresses c ! i) c = Inr c2"
    using assms(3) by (cases "nr_isFault (nl_allNodes c ! i)") (auto simp: nl_reportFailure_def nl_reportSuccess_def rec Let_def)
  show ?thesis
    using nl_reportFailure_inv [OF assms(1,2) op(1)] nl_reportSuccess_inv [OF assms(1,2) op(2)] rec op
    by (auto simp: nl_inv_def)
qed

theorem fault_reports_witness:
  "\<exists>c1. nl_reportFailure list_queue 3 (projr (nl_create list_queue [5, 3, 9])) = Inr c1 \<and>
     set (snd (nl_faultNodeIndexes c1)) = {0}"
proof -
  have "nl_create list_queue [5, 3, 9] = Inr (projr (nl_create list_queue [5, 3, 9]))"
    by (simp add: nl_create_def)
  note create = nl_create_inv [OF list_queue_laws _ this]
  have "0 < length (nl_allNodes (projr (nl_create list_queue [5, 3, 9])))"
    by (simp add: nl_create_def)
  from fault_reports [OF list_queue_laws create(1) this] show ?thesis
    using create(2,3) by auto
qed

text \<open>The results of a number of choices in a row.\<close>

fun nl_choices :: "(nat, 'q) queue_library \<Rightarrow> nat \<Rightarrow> 'q node_collection \<Rightarrow> nat result list" where
  "nl_choices Q 0 c = []"
| "nl_choices Q (Suc n) c = (let (r, c) = nl_chooseOneNode Q c in r # nl_choices Q n c)"

lemma nl_choices_good:
  assumes Q: "queue_laws Q items cap"
  shows "nl_inv items cap c \<Longrightarrow> nl_faults c = {} \<Longrightarrow>
    nl_choices Q n c = map (\<lambda>k. Inr (nl_addresses c ! ((nl_nextIndex c + k) mod length (nl_addresses c)))) [0..<n]"
proof (induction n arbitrary: c)
  case (Suc n)
  let ?j = "length (nl_allNodes c)"
  define i where "i = (if nl_nextIndex c \<ge> ?j then 0 else nl_nextIndex c)"
  define c1 where "c1 = c\<lparr>nl_nextIndex := i + 1\<rparr>"
  have le: "nl_nextIndex c \<le> ?j" "0 < ?j"
    using Suc.prems(1) by (simp_all add: nl_inv_def)
  have i: "i < ?j" "i = nl_nextIndex c mod ?j"
    using le unfolding i_def by (cases "nl_nextIndex c = ?j"; simp)+
  have "nl_inv items cap c1"
    using Suc.prems(1) by (rule nl_inv_fields) (use i(1) Suc.prems(1) in \<open>simp_all add: c1_def nl_inv_def\<close>)
  moreover have "nl_faults c1 = {}" and addr: "nl_addresses c1 = nl_addresses c"
    using Suc.prems(2) by (simp_all add: c1_def nl_faults_def nl_addresses_def)
  ultimately have "nl_choices Q n c1 = map (\<lambda>k. Inr (nl_addresses c ! ((i + 1 + k) mod length (nl_addresses c)))) [0..<n]"
    using Suc.IH [of c1] by (simp add: c1_def)
  moreover have "nl_chooseOneNode Q c = (Inr (nl_addresses c ! i), c1)"
    using nl_choose_good [OF Suc.prems(1) Q Suc.prems(2)] by (simp add: i_def c1_def Let_def)
  moreover have "(i + 1 + k) mod ?j = (nl_nextIndex c + Suc k) mod ?j" for k
    unfolding i(2) by (metis add.commute add_Suc_right mod_add_left_eq plus_1_eq_Suc)
  ultimately show ?case
    using i(2) by (simp add: nl_addresses_def map_upt_Suc del: upt_Suc)
qed simp

text \<open>
  Without faults the nodes are chosen in turn, each once in every round.\<close>

lemma round_robin:
  assumes "queue_laws Q items cap" and "distinct addresses" and "nl_create Q addresses = Inr c"
  shows "nl_choices Q n c = map (\<lambda>k. Inr (sort addresses ! (k mod length addresses))) [0..<n]"
proof -
  note create = nl_create_inv [OF assms]
  show ?thesis
    using nl_choices_good [OF assms(1) create(1,3)] by (simp add: create(2,4))
qed

lemma round_robin_witness:
  "nl_choices list_queue 4 (projr (nl_create list_queue [5, 3, 9])) = [Inr 3, Inr 5, Inr 9, Inr 3]"
proof -
  have "nl_create list_queue [5, 3, 9] = Inr (projr (nl_create list_queue [5, 3, 9]))"
    by (simp add: nl_create_def)
  from round_robin [OF list_queue_laws _ this, of 4] show ?thesis
    by (simp add: upt_rec)
qed

end
