(* ===== verification/Connection_Pool.thy ===== *)
theory Connection_Pool
  imports Connection_Stream Seastar_Queue Metrics
begin

text \<open>
  \<^verbatim>\<open>ConnectionPool\<close>. Connections live in a heap; the pool refers to them by
  address. Futures are numbered by their promises as in the receiver. The fibers the pool starts
  (one for each new connection, the two timers) are resumed by the reactor: the steps of
  \<open>pool_reachable\<close> interleave them with the calls of clients and with connections that
  close or get streams back.
\<close>

section \<open>State\<close>

record pooled_connection =
  pc_isReady :: bool
  pc_free :: "u16 list"
  pc_maxStreams :: nat

record 'q pool =
  pl_heap :: "nat \<Rightarrow> pooled_connection"
  pl_nextConnection :: nat
  pl_allConnections :: "nat list"
  pl_connectingCount :: nat
  pl_waiters :: 'q
  pl_nextPromise :: nat
  pl_resolved :: "(nat \<times> (nat \<times> stream) result) list"
  pl_findIdleRunning :: bool
  pl_dropIdleRunning :: bool
  pl_metrics :: metrics_data

datatype pool_answer = ConnectionReady nat stream | ConnectionPending nat

definition pool_init :: "(nat, 'q) queue_library \<Rightarrow> 'q pool" where
  "pool_init Q = \<lparr>pl_heap = (\<lambda>_. \<lparr>pc_isReady = False, pc_free = [], pc_maxStreams = 0\<rparr>), pl_nextConnection = 0,
     pl_allConnections = [], pl_connectingCount = 0, pl_waiters = sq_new Q (2 ^ 64 - 1), pl_nextPromise = 0,
     pl_resolved = [], pl_findIdleRunning = False, pl_dropIdleRunning = False, pl_metrics = metrics_init\<rparr>"

section \<open>Taking a connection\<close>

text \<open>\<^verbatim>\<open>std::max_element\<close>: the first of the largest elements.\<close>

fun max_element :: "('a \<Rightarrow> nat) \<Rightarrow> 'a \<Rightarrow> 'a list \<Rightarrow> 'a" where
  "max_element f largest [] = largest"
| "max_element f largest (x # xs) = max_element f (if f largest < f x then x else largest) xs"

lemma max_element_in: "max_element f x xs \<in> insert x (set xs)"
  by (induction xs arbitrary: x) auto

lemma max_element_ge: "\<forall>y \<in> insert x (set xs). f y \<le> f (max_element f x xs)"
proof (induction xs arbitrary: x)
  case (Cons z zs)
  show ?case
    using Cons.IH [of z] Cons.IH [of x] by (cases "f x < f z") auto
qed simp

lemma length_remove_max: "length (remove1 (max_element f c cs) (c # cs)) < Suc (length cs)"
  using max_element_in [of f c cs] length_remove1 [of "max_element f c cs" "c # cs"] by auto

definition set_connection :: "nat \<Rightarrow> pooled_connection \<Rightarrow> 'q pool \<Rightarrow> 'q pool" where
  "set_connection c v p = p\<lparr>pl_heap := (pl_heap p)(c := v)\<rparr>"

definition pool_set_current :: "'q pool \<Rightarrow> 'q pool" where
  "pool_set_current p = p\<lparr>pl_metrics := (pl_metrics p)\<lparr>pool_connections_current := word_of_nat (length (pl_allConnections p))\<rparr>\<rparr>"

text \<open>The loop over \<open>all\<close>, the contents of \<^verbatim>\<open>allConnections_\<close>.\<close>

function pool_find :: "nat list \<Rightarrow> 'q pool \<Rightarrow> (nat \<times> stream) option \<times> 'q pool" where
  "pool_find [] p = (None, p)"
| "pool_find (c # cs) p =
     (let it = max_element (\<lambda>c. connection_getFreeStreamsCount (pc_free (pl_heap p c))) c cs in
      if pc_isReady (pl_heap p it)
      then (let (s, free) = connection_openStream (pc_free (pl_heap p it)) in
            if \<not> st_isValid s then (None, p)
            else (Some (it, s), set_connection it ((pl_heap p it)\<lparr>pc_free := free\<rparr>) p))
      else pool_find (remove1 it (c # cs)) (pool_set_current (p\<lparr>pl_allConnections := remove1 it (c # cs)\<rparr>)))"
  by pat_completeness auto

termination
  by (relation "measure (\<lambda>(all, p). length all)") (simp_all del: remove1.simps add: length_remove_max)

definition pool_tryGetConnection :: "'q pool \<Rightarrow> (nat \<times> stream) option \<times> 'q pool" where
  "pool_tryGetConnection p = pool_find (pl_allConnections p) p"


section \<open>Waiters\<close>

definition pool_addWaiter :: "(nat, 'q) queue_library \<Rightarrow> 'q pool \<Rightarrow> nat result \<times> 'q pool" where
  "pool_addWaiter Q p =
     (let (pushed, q) = sq_push Q (pl_nextPromise p) (pl_waiters p) in
      if \<not> pushed then (Inl LogicException, p)
      else (Inr (pl_nextPromise p), p\<lparr>pl_waiters := q, pl_nextPromise := pl_nextPromise p + 1\<rparr>))"

definition pool_resolve :: "nat \<Rightarrow> (nat \<times> stream) result \<Rightarrow> 'q pool \<Rightarrow> 'q pool" where
  "pool_resolve promise r p = p\<lparr>pl_resolved := pl_resolved p @ [(promise, r)]\<rparr>"

text \<open>
  The loops run while waiters are left; \<open>n\<close> is the number of waiters at their start, of
  which each iteration takes one.
\<close>

fun pool_feed_loop :: "(nat, 'q) queue_library \<Rightarrow> nat \<Rightarrow> 'q pool \<Rightarrow> 'q pool" where
  "pool_feed_loop Q 0 p = p"
| "pool_feed_loop Q (Suc n) p =
     (if sq_empty Q (pl_waiters p) then p
      else (case pool_tryGetConnection p of
          (None, p) \<Rightarrow> p
        | (Some (c, s), p) \<Rightarrow>
            let (promise, q) = sq_pop Q (pl_waiters p) in
            pool_feed_loop Q n (pool_resolve promise (Inr (c, s)) (p\<lparr>pl_waiters := q\<rparr>))))"

definition pool_feedWaiters :: "(nat, 'q) queue_library \<Rightarrow> 'q pool \<Rightarrow> 'q pool" where
  "pool_feedWaiters Q p = pool_feed_loop Q (sq_size Q (pl_waiters p)) p"

fun pool_clean_loop :: "(nat, 'q) queue_library \<Rightarrow> cql_error \<Rightarrow> nat \<Rightarrow> 'q pool \<Rightarrow> 'q pool" where
  "pool_clean_loop Q e 0 p = p"
| "pool_clean_loop Q e (Suc n) p =
     (if sq_empty Q (pl_waiters p) then p
      else (let (promise, q) = sq_pop Q (pl_waiters p) in
            pool_clean_loop Q e n (pool_resolve promise (Inl e) (p\<lparr>pl_waiters := q\<rparr>))))"

definition pool_cleanWaiters :: "(nat, 'q) queue_library \<Rightarrow> cql_error \<Rightarrow> 'q pool \<Rightarrow> 'q pool" where
  "pool_cleanWaiters Q e p = pool_clean_loop Q e (sq_size Q (pl_waiters p)) p"

section \<open>Getting and returning connections\<close>

text \<open>The fiber of a spawned connection and the fibers of the timers are the steps further down.\<close>

definition pool_spawnConnection :: "'q pool \<Rightarrow> 'q pool" where
  "pool_spawnConnection p = p\<lparr>pl_connectingCount := pl_connectingCount p + 1\<rparr>"

definition pool_findIdleConnectionTimer :: "'q pool \<Rightarrow> 'q pool" where
  "pool_findIdleConnectionTimer p = (if pl_findIdleRunning p then p else p\<lparr>pl_findIdleRunning := True\<rparr>)"

definition pool_dropIdleConnectionTimer :: "'q pool \<Rightarrow> 'q pool" where
  "pool_dropIdleConnectionTimer p = (if pl_dropIdleRunning p then p else p\<lparr>pl_dropIdleRunning := True\<rparr>)"

definition waiting_answer :: "nat result \<Rightarrow> pool_answer result" where
  "waiting_answer r = (case r of Inl e \<Rightarrow> Inl e | Inr promise \<Rightarrow> Inr (ConnectionPending promise))"

definition pool_getConnection ::
  "(nat, 'q) queue_library \<Rightarrow> session_configuration \<Rightarrow> 'q pool \<Rightarrow> pool_answer result \<times> 'q pool" where
  "pool_getConnection Q cfg p =
     (if length (pl_allConnections p) < sc_minPoolSize cfg
      then (let (future, p) = pool_addWaiter Q p in
            (waiting_answer future,
             if length (pl_allConnections p) + pl_connectingCount p < sc_minPoolSize cfg
             then pool_spawnConnection p else pool_findIdleConnectionTimer p))
      else (case pool_tryGetConnection p of
          (Some (c, s), p) \<Rightarrow> (Inr (ConnectionReady c s), p)
        | (None, p) \<Rightarrow>
            let poolIsFull = length (pl_allConnections p) + pl_connectingCount p \<ge> sc_maxPoolSize cfg in
            if poolIsFull \<and> sq_size Q (pl_waiters p) \<ge> sc_maxWaitersAfterConnectionsExhausted cfg
            then (Inl ConnectionNotAvailableException, p)
            else (let (future, p) = pool_addWaiter Q p in
                  (waiting_answer future,
                   if \<not> poolIsFull then pool_dropIdleConnectionTimer (pool_spawnConnection p)
                   else pool_findIdleConnectionTimer p))))"

definition pool_returnConnection ::
  "(nat, 'q) queue_library \<Rightarrow> nat \<Rightarrow> stream \<Rightarrow> 'q pool \<Rightarrow> 'q pool" where
  "pool_returnConnection Q c s p =
     (let (s, free) = stream_close s (pc_free (pl_heap p c));
          p = set_connection c ((pl_heap p c)\<lparr>pc_free := free\<rparr>) p in
      if \<not> sq_empty Q (pl_waiters p)
      then (let (promise, q) = sq_pop Q (pl_waiters p);
                (s, free) = connection_openStream (pc_free (pl_heap p c));
                p = set_connection c ((pl_heap p c)\<lparr>pc_free := free\<rparr>) (p\<lparr>pl_waiters := q\<rparr>) in
            pool_resolve promise (if \<not> st_isValid s then Inl LogicException else Inr (c, s)) p)
      else p)"

section \<open>The fibers\<close>

text \<open>A connection attempt that succeeded: the new connection has all its streams free.\<close>

definition pool_spawned :: "(nat, 'q) queue_library \<Rightarrow> nat \<Rightarrow> 'q pool \<Rightarrow> 'q pool" where
  "pool_spawned Q maxStreams p =
     (let c = pl_nextConnection p;
          p = set_connection c \<lparr>pc_isReady = True, pc_free = initial_free maxStreams, pc_maxStreams = maxStreams\<rparr> p;
          p = p\<lparr>pl_nextConnection := c + 1, pl_allConnections := pl_allConnections p @ [c]\<rparr>;
          p = pool_feedWaiters Q p;
          p = p\<lparr>pl_metrics := (pl_metrics p)\<lparr>pool_connections_total := pool_connections_total (pl_metrics p) + 1\<rparr>\<rparr> in
      pool_set_current p)"

text \<open>An attempt that failed: whether the fiber gives up, and its new count of failures.\<close>

definition pool_spawn_failed ::
  "(nat, 'q) queue_library \<Rightarrow> nat \<Rightarrow> cql_error \<Rightarrow> nat \<Rightarrow> 'q pool \<Rightarrow> nat option \<times> 'q pool" where
  "pool_spawn_failed Q nodesCount e tried p =
     (let tried = tried + 1 in
      if tried \<ge> nodesCount then (None, pool_cleanWaiters Q e p) else (Some tried, p))"

text \<open>One tick of the timer that looks for idle connections; the answer is whether it stops.\<close>

definition pool_findIdle_tick :: "(nat, 'q) queue_library \<Rightarrow> session_configuration \<Rightarrow> 'q pool \<Rightarrow> bool \<times> 'q pool" where
  "pool_findIdle_tick Q cfg p =
     (let p = pool_feedWaiters Q p in
      if sq_empty Q (pl_waiters p) then (True, p)
      else if length (pl_allConnections p) + pl_connectingCount p < sc_minPoolSize cfg
      then (False, pool_spawnConnection p)
      else (False, p))"

definition pool_findIdle_finally :: "(nat, 'q) queue_library \<Rightarrow> 'q pool \<Rightarrow> 'q pool" where
  "pool_findIdle_finally Q p =
     (let p = p\<lparr>pl_findIdleRunning := False\<rparr> in
      if \<not> sq_empty Q (pl_waiters p) then pool_findIdleConnectionTimer p else p)"

text \<open>
  \<^verbatim>\<open>std::remove_if\<close> with the predicate that counts down \<open>existCount\<close>.
\<close>

fun pool_remove_if :: "'q pool \<Rightarrow> nat \<Rightarrow> nat \<Rightarrow> nat list \<Rightarrow> nat list \<times> nat" where
  "pool_remove_if p minCount existCount [] = ([], existCount)"
| "pool_remove_if p minCount existCount (c # cs) =
     (if \<not> pc_isReady (pl_heap p c) \<or>
         (existCount > minCount \<and> connection_isAllStreamsFree (pc_maxStreams (pl_heap p c)) (pc_free (pl_heap p c)))
      then pool_remove_if p minCount (existCount - 1) cs
      else (let (kept, existCount) = pool_remove_if p minCount existCount cs in (c # kept, existCount)))"

definition pool_dropIdle_tick :: "session_configuration \<Rightarrow> 'q pool \<Rightarrow> bool \<times> 'q pool" where
  "pool_dropIdle_tick cfg p =
     (let existCount = length (pl_allConnections p); minCount = sc_minPoolSize cfg in
      if existCount \<le> minCount then (True, p)
      else (let (kept, existCount) = pool_remove_if p minCount existCount (pl_allConnections p) in
            (existCount \<le> minCount, pool_set_current (p\<lparr>pl_allConnections := kept\<rparr>))))"

definition pool_dropIdle_finally :: "'q pool \<Rightarrow> 'q pool" where
  "pool_dropIdle_finally p = p\<lparr>pl_dropIdleRunning := False\<rparr>"


section \<open>Looking for a connection\<close>

definition usable :: "'q pool \<Rightarrow> nat \<Rightarrow> bool" where
  "usable p c \<longleftrightarrow> pc_isReady (pl_heap p c) \<and> pc_free (pl_heap p c) \<noteq> []"

text \<open>What a search leaves alone.\<close>

definition pool_search_frame :: "'q pool \<Rightarrow> 'q pool \<Rightarrow> bool" where
  "pool_search_frame p p' \<longleftrightarrow>
     pl_nextConnection p' = pl_nextConnection p \<and> pl_connectingCount p' = pl_connectingCount p \<and>
     pl_waiters p' = pl_waiters p \<and> pl_nextPromise p' = pl_nextPromise p \<and> pl_resolved p' = pl_resolved p \<and>
     pl_findIdleRunning p' = pl_findIdleRunning p \<and> pl_dropIdleRunning p' = pl_dropIdleRunning p \<and>
     length (pl_allConnections p') \<le> length (pl_allConnections p) \<and>
     set (pl_allConnections p') \<subseteq> set (pl_allConnections p)"

lemma pool_search_frame_refl [simp]: "pool_search_frame p p"
  by (simp add: pool_search_frame_def)

lemma pool_search_frame_trans: "pool_search_frame p p1 \<Longrightarrow> pool_search_frame p1 p2 \<Longrightarrow> pool_search_frame p p2"
  by (auto simp: pool_search_frame_def)

lemma openStream_valid: "connection_openStream free = (s, free') \<Longrightarrow> st_isValid s \<longleftrightarrow> free \<noteq> []"
  by (auto simp: connection_openStream_def stream_new_def stream_invalid_def split: if_splits)

lemma pool_find_step:
  assumes "it = max_element (\<lambda>c. connection_getFreeStreamsCount (pc_free (pl_heap p c))) c cs"
  shows "it \<in> set (c # cs)"
    and "pc_isReady (pl_heap p it) \<Longrightarrow> pc_free (pl_heap p it) = [] \<Longrightarrow> d \<in> set (c # cs) \<Longrightarrow> \<not> usable p d"
  using max_element_in [of "\<lambda>c. connection_getFreeStreamsCount (pc_free (pl_heap p c))" c cs]
    max_element_ge [of c cs "\<lambda>c. connection_getFreeStreamsCount (pc_free (pl_heap p c))"] assms
  by (auto simp: usable_def connection_getFreeStreamsCount_def)

lemma pool_find_spec:
  "pool_find all p = (r, p') \<Longrightarrow> pl_allConnections p = all \<Longrightarrow>
   pool_search_frame p p' \<and>
   (\<forall>c \<in> set all - set (pl_allConnections p'). \<not> pc_isReady (pl_heap p c)) \<and>
   (case r of
      None \<Rightarrow> (\<forall>c \<in> set all. \<not> usable p c) \<and> pl_heap p' = pl_heap p
    | Some (c, s) \<Rightarrow> c \<in> set (pl_allConnections p') \<and> usable p c \<and> s = stream_new (last (pc_free (pl_heap p c))) \<and>
        pl_heap p' = (pl_heap p)(c := (pl_heap p c)\<lparr>pc_free := butlast (pc_free (pl_heap p c))\<rparr>) \<and>
        (\<forall>d \<in> set (pl_allConnections p'). length (pc_free (pl_heap p d)) \<le> length (pc_free (pl_heap p c))))"
proof (induction all p arbitrary: r p' rule: pool_find.induct)
  case (1 p)
  then show ?case by simp
next
  case (2 c cs p)
  define it where "it = max_element (\<lambda>c. connection_getFreeStreamsCount (pc_free (pl_heap p c))) c cs"
  note step = pool_find_step [OF it_def]
  have ge: "\<forall>d \<in> set (c # cs). length (pc_free (pl_heap p d)) \<le> length (pc_free (pl_heap p it))"
    using max_element_ge [of c cs "\<lambda>c. connection_getFreeStreamsCount (pc_free (pl_heap p c))"]
    by (simp add: it_def connection_getFreeStreamsCount_def)
  show ?case
  proof (cases "pc_isReady (pl_heap p it)")
    case True
    obtain s free where open_it: "connection_openStream (pc_free (pl_heap p it)) = (s, free)" by fastforce
    show ?thesis
    proof (cases "pc_free (pl_heap p it) = []")
      case empty: True
      then have "r = None" "p' = p"
        using 2(2) True open_it openStream_valid [OF open_it]
        by (auto simp: it_def [symmetric] Let_def simp del: remove1.simps)
      then show ?thesis
        using step(2) [OF True empty] 2(3) by simp
    next
      case False
      then have "r = Some (it, s)" "p' = set_connection it ((pl_heap p it)\<lparr>pc_free := free\<rparr>) p"
        using 2(2) True open_it openStream_valid [OF open_it]
        by (auto simp: it_def [symmetric] Let_def simp del: remove1.simps)
      moreover have "s = stream_new (last (pc_free (pl_heap p it)))" "free = butlast (pc_free (pl_heap p it))"
        using False open_it by (auto simp: connection_openStream_def)
      ultimately show ?thesis
        using step(1) ge True False 2(3) by (simp add: set_connection_def pool_search_frame_def usable_def)
    qed
  next
    case False
    define p1 where "p1 = pool_set_current (p\<lparr>pl_allConnections := remove1 it (c # cs)\<rparr>)"
    have p1: "pl_allConnections p1 = remove1 it (c # cs)" "pl_heap p1 = pl_heap p"
      by (simp_all add: p1_def pool_set_current_def)
    have rest: "pool_find (remove1 it (c # cs)) p1 = (r, p')"
      using 2(2) False by (simp add: it_def [symmetric] p1_def Let_def del: remove1.simps)
    have IH: "pool_search_frame p1 p' \<and>
       (\<forall>c' \<in> set (remove1 it (c # cs)) - set (pl_allConnections p'). \<not> pc_isReady (pl_heap p1 c')) \<and>
       (case r of
          None \<Rightarrow> (\<forall>c' \<in> set (remove1 it (c # cs)). \<not> usable p1 c') \<and> pl_heap p' = pl_heap p1
        | Some (c', s) \<Rightarrow> c' \<in> set (pl_allConnections p') \<and> usable p1 c' \<and> s = stream_new (last (pc_free (pl_heap p1 c'))) \<and>
            pl_heap p' = (pl_heap p1)(c' := (pl_heap p1 c')\<lparr>pc_free := butlast (pc_free (pl_heap p1 c'))\<rparr>) \<and>
            (\<forall>d \<in> set (pl_allConnections p'). length (pc_free (pl_heap p1 d)) \<le> length (pc_free (pl_heap p1 c'))))"
      using 2(1) [of it, OF it_def False, of r p'] rest p1 unfolding p1_def by simp
    have mono: "set (c # cs) \<subseteq> insert it (set (remove1 it (c # cs)))" "set (remove1 it (c # cs)) \<subseteq> set (c # cs)"
      "length (remove1 it (c # cs)) \<le> length (c # cs)"
      using in_set_remove1 [of _ it "c # cs"] set_remove1_subset [of it "c # cs"] length_remove1 [of it "c # cs"] by (auto split: if_splits)
    have "pool_search_frame p p1"
      using mono 2(3) by (simp add: pool_search_frame_def p1_def pool_set_current_def del: remove1.simps)
    then show ?thesis
      using IH mono False unfolding p1(2) usable_def
      by (auto dest: pool_search_frame_trans split: option.splits prod.splits simp del: remove1.simps)
  qed
qed

lemma pool_tryGet_spec:
  assumes "pool_tryGetConnection p = (r, p')"
  shows "pool_search_frame p p'" and "r = None \<longleftrightarrow> (\<forall>c \<in> set (pl_allConnections p). \<not> usable p c)"
  using pool_find_spec [of "pl_allConnections p" p r p'] assms
  by (auto simp: pool_tryGetConnection_def pool_search_frame_def split: option.splits prod.splits)


section \<open>Feeding the waiters\<close>

lemma pool_feed_loop_spec:
  assumes Q: "queue_laws Q items cap"
  shows "pool_feed_loop Q n p = p' \<Longrightarrow> n = length (items (pl_waiters p)) \<Longrightarrow>
    (\<exists>k \<le> n. items (pl_waiters p') = drop k (items (pl_waiters p)) \<and>
       map fst (pl_resolved p') = map fst (pl_resolved p) @ take k (items (pl_waiters p)) \<and>
       (n > 0 \<longrightarrow> (\<exists>c \<in> set (pl_allConnections p). usable p c) \<longrightarrow> k > 0)) \<and>
    cap (pl_waiters p') = cap (pl_waiters p) \<and>
    pl_connectingCount p' = pl_connectingCount p \<and> pl_nextPromise p' = pl_nextPromise p \<and>
    pl_findIdleRunning p' = pl_findIdleRunning p \<and> length (pl_allConnections p') \<le> length (pl_allConnections p)"
proof (induction n arbitrary: p p')
  case 0
  then show ?case by auto
next
  case (Suc n)
  have ne: "items (pl_waiters p) \<noteq> []"
    using Suc.prems(2) by auto
  then have busy: "\<not> sq_empty Q (pl_waiters p)"
    using queue_empty [OF Q] by blast
  obtain r p1 where got: "pool_tryGetConnection p = (r, p1)" by fastforce
  note spec = pool_tryGet_spec [OF got]
  show ?case
  proof (cases r)
    case None
    then have "p' = p1"
      using Suc.prems(1) busy got by simp
    then show ?thesis
      using spec None by (intro conjI exI [of _ 0]) (simp_all add: pool_search_frame_def)
  next
    case (Some cs)
    obtain c s where cs: "cs = (c, s)" by fastforce
    obtain promise q where pop: "sq_pop Q (pl_waiters p1) = (promise, q)" by fastforce
    have w: "pl_waiters p1 = pl_waiters p"
      using spec(1) by (simp add: pool_search_frame_def)
    note pp = queue_pop [OF Q pop, unfolded w, OF ne]
    define p2 where "p2 = pool_resolve promise (Inr (c, s)) (p1\<lparr>pl_waiters := q\<rparr>)"
    have p2: "pl_waiters p2 = q" "map fst (pl_resolved p2) = map fst (pl_resolved p) @ [promise]"
      "pl_connectingCount p2 = pl_connectingCount p" "pl_nextPromise p2 = pl_nextPromise p"
      "pl_findIdleRunning p2 = pl_findIdleRunning p" "length (pl_allConnections p2) \<le> length (pl_allConnections p)"
      using spec(1) by (simp_all add: p2_def pool_resolve_def pool_search_frame_def)
    have run: "pool_feed_loop Q n p2 = p'"
      using Suc.prems(1) busy got Some cs pop by (simp add: p2_def Let_def)
    have "n = length (items (pl_waiters p2))"
      using Suc.prems(2) pp(1) p2(1) by simp
    note IH = Suc.IH [OF run this]
    then obtain k where k: "k \<le> n" "items (pl_waiters p') = drop k (items q)"
        "map fst (pl_resolved p') = map fst (pl_resolved p2) @ take k (items q)"
      unfolding p2(1) by blast
    then have "items (pl_waiters p') = drop (Suc k) (items (pl_waiters p))"
      "map fst (pl_resolved p') = map fst (pl_resolved p) @ take (Suc k) (items (pl_waiters p))"
      using pp(1) p2(2) by simp_all
    then show ?thesis
      using IH k(1) p2 pp(2) by (intro conjI exI [of _ "Suc k"]) simp_all
  qed
qed

lemma pool_feed_spec:
  assumes Q: "queue_laws Q items cap" and "pool_feedWaiters Q p = p'"
  obtains k where "k \<le> length (items (pl_waiters p))" "items (pl_waiters p') = drop k (items (pl_waiters p))"
    "map fst (pl_resolved p') = map fst (pl_resolved p) @ take k (items (pl_waiters p))"
    "items (pl_waiters p) \<noteq> [] \<Longrightarrow> \<exists>c \<in> set (pl_allConnections p). usable p c \<Longrightarrow> k > 0"
    "pl_connectingCount p' = pl_connectingCount p" "pl_nextPromise p' = pl_nextPromise p"
    "pl_findIdleRunning p' = pl_findIdleRunning p" "length (pl_allConnections p') \<le> length (pl_allConnections p)"
  using pool_feed_loop_spec [OF Q, of "sq_size Q (pl_waiters p)" p p'] assms(2)
  by (auto simp: pool_feedWaiters_def queue_size [OF Q])

lemma pool_clean_loop_spec:
  assumes Q: "queue_laws Q items cap"
  shows "n = length (items (pl_waiters p)) \<Longrightarrow>
    items (pl_waiters (pool_clean_loop Q e n p)) = [] \<and>
    map fst (pl_resolved (pool_clean_loop Q e n p)) = map fst (pl_resolved p) @ items (pl_waiters p) \<and>
    pl_connectingCount (pool_clean_loop Q e n p) = pl_connectingCount p \<and>
    pl_nextPromise (pool_clean_loop Q e n p) = pl_nextPromise p \<and>
    pl_findIdleRunning (pool_clean_loop Q e n p) = pl_findIdleRunning p \<and>
    pl_allConnections (pool_clean_loop Q e n p) = pl_allConnections p"
proof (induction n arbitrary: p)
  case (Suc n)
  have ne: "items (pl_waiters p) \<noteq> []"
    using Suc.prems by auto
  then have busy: "\<not> sq_empty Q (pl_waiters p)"
    using queue_empty [OF Q] by blast
  obtain promise q where pop: "sq_pop Q (pl_waiters p) = (promise, q)" by fastforce
  note pp = queue_pop [OF Q pop ne]
  define p1 where "p1 = pool_resolve promise (Inl e) (p\<lparr>pl_waiters := q\<rparr>)"
  have p1: "pl_waiters p1 = q" "map fst (pl_resolved p1) = map fst (pl_resolved p) @ [promise]"
    "pl_connectingCount p1 = pl_connectingCount p" "pl_nextPromise p1 = pl_nextPromise p"
    "pl_findIdleRunning p1 = pl_findIdleRunning p" "pl_allConnections p1 = pl_allConnections p"
    by (simp_all add: p1_def pool_resolve_def)
  have run: "pool_clean_loop Q e (Suc n) p = pool_clean_loop Q e n p1"
    using busy pop by (simp add: p1_def)
  have "n = length (items (pl_waiters p1))"
    using Suc.prems pp(1) p1(1) by simp
  from Suc.IH [OF this] show ?case
    unfolding run using p1 pp(1) by simp
qed simp

lemma pool_clean_spec:
  assumes Q: "queue_laws Q items cap"
  shows "items (pl_waiters (pool_cleanWaiters Q e p)) = []"
    and "map fst (pl_resolved (pool_cleanWaiters Q e p)) = map fst (pl_resolved p) @ items (pl_waiters p)"
    and "pl_connectingCount (pool_cleanWaiters Q e p) = pl_connectingCount p"
    and "pl_nextPromise (pool_cleanWaiters Q e p) = pl_nextPromise p"
    and "pl_findIdleRunning (pool_cleanWaiters Q e p) = pl_findIdleRunning p"
    and "pl_allConnections (pool_cleanWaiters Q e p) = pl_allConnections p"
  using pool_clean_loop_spec [OF Q refl, of e p] by (simp_all add: pool_cleanWaiters_def queue_size [OF Q])

section \<open>Executions\<close>

text \<open>
  \<open>pw_spawning\<close> are the fibers still trying to connect, each with its number of failures;
  \<open>pw_finishing\<close> counts those between their last iteration and their
  \<^verbatim>\<open>finally\<close>; \<open>pw_findStopping\<close> says the same of the timer. Connections
  change under the pool in any way (\<open>pool_environment\<close>).
\<close>

record 'q pool_world =
  pw_pool :: "'q pool"
  pw_spawning :: "nat list"
  pw_finishing :: nat
  pw_findStopping :: bool

definition pw_after :: "'q pool_world \<Rightarrow> 'q pool \<Rightarrow> 'q pool_world" where
  "pw_after w p = w\<lparr>pw_pool := p,
     pw_spawning := pw_spawning w @ replicate (pl_connectingCount p - pl_connectingCount (pw_pool w)) 0\<rparr>"

definition remove_at :: "nat \<Rightarrow> 'a list \<Rightarrow> 'a list" where
  "remove_at i xs = take i xs @ drop (Suc i) xs"

lemma length_remove_at [simp]: "i < length xs \<Longrightarrow> length (remove_at i xs) = length xs - 1"
  by (simp add: remove_at_def)

inductive pool_step ::
  "(nat, 'q) queue_library \<Rightarrow> session_configuration \<Rightarrow> 'q pool_world \<Rightarrow> 'q pool_world \<Rightarrow> bool"
  for Q cfg where
  pool_get: "pool_getConnection Q cfg (pw_pool w) = (r, p) \<Longrightarrow> pool_step Q cfg w (pw_after w p)"
| pool_return: "pool_step Q cfg w (w\<lparr>pw_pool := pool_returnConnection Q c s (pw_pool w)\<rparr>)"
| pool_connected: "i < length (pw_spawning w) \<Longrightarrow> 2 \<le> maxStreams \<Longrightarrow>
    pool_step Q cfg w (w\<lparr>pw_pool := pool_spawned Q maxStreams (pw_pool w),
      pw_spawning := remove_at i (pw_spawning w), pw_finishing := pw_finishing w + 1\<rparr>)"
| pool_retry: "i < length (pw_spawning w) \<Longrightarrow>
    pool_spawn_failed Q nodesCount e (pw_spawning w ! i) (pw_pool w) = (Some tried, p) \<Longrightarrow>
    pool_step Q cfg w (w\<lparr>pw_pool := p, pw_spawning := (pw_spawning w)[i := tried]\<rparr>)"
| pool_give_up: "i < length (pw_spawning w) \<Longrightarrow>
    pool_spawn_failed Q nodesCount e (pw_spawning w ! i) (pw_pool w) = (None, p) \<Longrightarrow>
    pool_step Q cfg w (w\<lparr>pw_pool := p, pw_spawning := remove_at i (pw_spawning w), pw_finishing := pw_finishing w + 1\<rparr>)"
| pool_finally: "pw_finishing w > 0 \<Longrightarrow>
    pool_step Q cfg w (w\<lparr>pw_pool := (pw_pool w)\<lparr>pl_connectingCount := pl_connectingCount (pw_pool w) - 1\<rparr>,
      pw_finishing := pw_finishing w - 1\<rparr>)"
| pool_find_tick: "pl_findIdleRunning (pw_pool w) \<Longrightarrow> \<not> pw_findStopping w \<Longrightarrow>
    pool_findIdle_tick Q cfg (pw_pool w) = (stop, p) \<Longrightarrow>
    pool_step Q cfg w ((pw_after w p)\<lparr>pw_findStopping := stop\<rparr>)"
| pool_find_finally: "pw_findStopping w \<Longrightarrow>
    pool_step Q cfg w (w\<lparr>pw_pool := pool_findIdle_finally Q (pw_pool w), pw_findStopping := False\<rparr>)"
| pool_drop_tick: "pool_dropIdle_tick cfg (pw_pool w) = (stop, p) \<Longrightarrow> pool_step Q cfg w (w\<lparr>pw_pool := p\<rparr>)"
| pool_drop_finally: "pool_step Q cfg w (w\<lparr>pw_pool := pool_dropIdle_finally (pw_pool w)\<rparr>)"
| pool_environment: "pool_step Q cfg w (w\<lparr>pw_pool := set_connection c v (pw_pool w)\<rparr>)"

inductive pool_reachable :: "(nat, 'q) queue_library \<Rightarrow> session_configuration \<Rightarrow> 'q pool_world \<Rightarrow> bool"
  for Q cfg where
  pool_start: "pool_reachable Q cfg \<lparr>pw_pool = pool_init Q, pw_spawning = [], pw_finishing = 0, pw_findStopping = False\<rparr>"
| pool_next: "pool_reachable Q cfg w \<Longrightarrow> pool_step Q cfg w w' \<Longrightarrow> pool_reachable Q cfg w'"

inductive_cases pool_stepE: "pool_step Q cfg w w'"


section \<open>Invariants of the pool\<close>

definition pool_inv :: "(nat, 'q) queue_library \<Rightarrow> ('q \<Rightarrow> nat list) \<Rightarrow> session_configuration \<Rightarrow> 'q pool_world \<Rightarrow> bool" where
  "pool_inv Q items cfg w \<longleftrightarrow>
     (let p = pw_pool w in
      pl_connectingCount p = length (pw_spawning w) + pw_finishing w \<and>
      length (pl_allConnections p) + length (pw_spawning w) \<le> max (sc_minPoolSize cfg) (sc_maxPoolSize cfg) \<and>
      (\<not> pl_findIdleRunning p \<longrightarrow> length (items (pl_waiters p)) \<le> length (pw_spawning w)) \<and>
      (pw_findStopping w \<longrightarrow> pl_findIdleRunning p) \<and>
      mset (items (pl_waiters p)) + mset (map fst (pl_resolved p)) = mset [0..<pl_nextPromise p])"

lemma pool_addWaiter_spec:
  assumes Q: "queue_laws Q items cap" and op: "pool_addWaiter Q p = (r, p')"
  shows "p' = p \<and> r = Inl LogicException \<or>
    r = Inr (pl_nextPromise p) \<and> (\<exists>q. p' = p\<lparr>pl_waiters := q, pl_nextPromise := pl_nextPromise p + 1\<rparr> \<and> items q = items (pl_waiters p) @ [pl_nextPromise p])"
  using op queue_push [OF Q, of "pl_nextPromise p" "pl_waiters p"]
  by (auto simp: pool_addWaiter_def Let_def split: prod.splits if_splits)

lemmas pool_small_ops = pool_spawnConnection_def pool_findIdleConnectionTimer_def pool_dropIdleConnectionTimer_def

text \<open>What \<^verbatim>\<open>getConnection\<close> does to the state, by the branch it takes.\<close>

lemma pool_get_cases:
  assumes Q: "queue_laws Q items cap" and op: "pool_getConnection Q cfg p = (r, p')"
  obtains (served) "pool_search_frame p p'"
  | (waiting) p1 p2 where "pool_search_frame p p1" "p2 = p1 \<or> (\<exists>q. p2 = p1\<lparr>pl_waiters := q, pl_nextPromise := pl_nextPromise p1 + 1\<rparr> \<and> items q = items (pl_waiters p1) @ [pl_nextPromise p1])"
      "p' = pool_findIdleConnectionTimer p2"
  | (spawning) p1 p2 d where "pool_search_frame p p1" "p2 = p1 \<or> (\<exists>q. p2 = p1\<lparr>pl_waiters := q, pl_nextPromise := pl_nextPromise p1 + 1\<rparr> \<and> items q = items (pl_waiters p1) @ [pl_nextPromise p1])"
      "p' = (pool_spawnConnection p2)\<lparr>pl_dropIdleRunning := d\<rparr>"
      "length (pl_allConnections p2) + pl_connectingCount p2 < max (sc_minPoolSize cfg) (sc_maxPoolSize cfg)"
proof (cases "length (pl_allConnections p) < sc_minPoolSize cfg")
  case True
  obtain r1 p1 where add: "pool_addWaiter Q p = (r1, p1)" by fastforce
  note spec = pool_addWaiter_spec [OF Q add]
  then have w: "p1 = p \<or> (\<exists>q. p1 = p\<lparr>pl_waiters := q, pl_nextPromise := pl_nextPromise p + 1\<rparr> \<and> items q = items (pl_waiters p) @ [pl_nextPromise p])"
    by blast
  show thesis
  proof (cases "length (pl_allConnections p1) + pl_connectingCount p1 < sc_minPoolSize cfg")
    case spawn: True
    then have "p' = (pool_spawnConnection p1)\<lparr>pl_dropIdleRunning := pl_dropIdleRunning p1\<rparr>"
      using True op add by (auto simp: pool_getConnection_def Let_def pool_spawnConnection_def)
    then show thesis
      using spawning [OF pool_search_frame_refl w] spawn by (simp add: max_def)
  next
    case False
    then have "p' = pool_findIdleConnectionTimer p1"
      using True op add by (auto simp: pool_getConnection_def Let_def)
    then show thesis by (rule waiting [OF pool_search_frame_refl w])
  qed
next
  case False
  obtain found p1 where got: "pool_tryGetConnection p = (found, p1)" by fastforce
  note frame = pool_tryGet_spec(1) [OF got]
  obtain r1 p2 where add: "pool_addWaiter Q p1 = (r1, p2)" by fastforce
  have w: "p2 = p1 \<or> (\<exists>q. p2 = p1\<lparr>pl_waiters := q, pl_nextPromise := pl_nextPromise p1 + 1\<rparr> \<and> items q = items (pl_waiters p1) @ [pl_nextPromise p1])"
    using pool_addWaiter_spec [OF Q add] by blast
  then have same: "pl_allConnections p2 = pl_allConnections p1" "pl_connectingCount p2 = pl_connectingCount p1"
    by auto
  let ?full = "length (pl_allConnections p1) + pl_connectingCount p1 \<ge> sc_maxPoolSize cfg"
  consider "found \<noteq> None" | "found = None" "p' = p1" | "found = None" "?full" "p' = pool_findIdleConnectionTimer p2"
    | "found = None" "\<not> ?full" "p' = pool_dropIdleConnectionTimer (pool_spawnConnection p2)"
    using op False got add by (cases ?full) (auto simp: pool_getConnection_def Let_def split: if_splits option.splits)
  then show thesis
  proof cases
    case 1
    then have "p' = p1"
      using op False got by (auto simp: pool_getConnection_def split: option.splits prod.splits)
    then show thesis using served frame by simp
  next
    case 2
    then show thesis using served frame by simp
  next
    case 3
    then show thesis using waiting [OF frame w] by simp
  next
    case 4
    have "p' = (pool_spawnConnection p2)\<lparr>pl_dropIdleRunning := True\<rparr>"
      unfolding 4(3) by (simp add: pool_small_ops)
    then show thesis
      using spawning [OF frame w] 4(2) same by (simp add: max_def)
  qed
qed

lemma mset_set_Suc [simp]: "mset_set {0..<Suc n} = add_mset n (mset_set {0..<n})"
  by (simp add: atLeast0_lessThan_Suc)

lemma pool_inv_get:
  assumes Q: "queue_laws Q items cap" and inv: "pool_inv Q items cfg w" and op: "pool_getConnection Q cfg (pw_pool w) = (r, p)"
  shows "pool_inv Q items cfg (pw_after w p)"
  using Q op
proof (cases rule: pool_get_cases)
  case served
  then show ?thesis
    using inv by (auto simp: pool_inv_def pw_after_def pool_search_frame_def Let_def)
next
  case (waiting p1 p2)
  then show ?thesis
    using inv by (auto simp: pool_inv_def pw_after_def pool_search_frame_def pool_findIdleConnectionTimer_def Let_def)
next
  case (spawning p1 p2 d)
  then show ?thesis
    using inv by (auto simp: pool_inv_def pw_after_def pool_search_frame_def pool_spawnConnection_def Let_def)
qed


lemma pool_spawned_spec:
  assumes Q: "queue_laws Q items cap" and n: "2 \<le> n"
  shows "length (items (pl_waiters (pool_spawned Q n p))) \<le> length (items (pl_waiters p)) - 1"
    and "mset (items (pl_waiters (pool_spawned Q n p))) + mset (map fst (pl_resolved (pool_spawned Q n p))) =
      mset (items (pl_waiters p)) + mset (map fst (pl_resolved p))"
    and "pl_connectingCount (pool_spawned Q n p) = pl_connectingCount p"
    and "pl_nextPromise (pool_spawned Q n p) = pl_nextPromise p"
    and "pl_findIdleRunning (pool_spawned Q n p) = pl_findIdleRunning p"
    and "length (pl_allConnections (pool_spawned Q n p)) \<le> length (pl_allConnections p) + 1"
proof -
  let ?c = "pl_nextConnection p"
  define p1 where "p1 = (set_connection ?c \<lparr>pc_isReady = True, pc_free = initial_free n, pc_maxStreams = n\<rparr> p)
    \<lparr>pl_nextConnection := ?c + 1, pl_allConnections := pl_allConnections p @ [?c]\<rparr>"
  have p1: "pl_waiters p1 = pl_waiters p" "pl_resolved p1 = pl_resolved p" "pl_connectingCount p1 = pl_connectingCount p"
    "pl_nextPromise p1 = pl_nextPromise p" "pl_findIdleRunning p1 = pl_findIdleRunning p"
    "length (pl_allConnections p1) = length (pl_allConnections p) + 1"
    by (simp_all add: p1_def set_connection_def)
  have "initial_free n \<noteq> []"
    using n length_initial_free [of n] by force
  then have "usable p1 ?c" "?c \<in> set (pl_allConnections p1)"
    by (simp_all add: p1_def set_connection_def usable_def)
  then have usable: "\<exists>c \<in> set (pl_allConnections p1). usable p1 c" by blast
  obtain k where k: "k \<le> length (items (pl_waiters p1))" "items (pl_waiters (pool_feedWaiters Q p1)) = drop k (items (pl_waiters p1))"
    "map fst (pl_resolved (pool_feedWaiters Q p1)) = map fst (pl_resolved p1) @ take k (items (pl_waiters p1))"
    "items (pl_waiters p1) \<noteq> [] \<Longrightarrow> \<exists>c \<in> set (pl_allConnections p1). usable p1 c \<Longrightarrow> k > 0"
    "pl_connectingCount (pool_feedWaiters Q p1) = pl_connectingCount p1" "pl_nextPromise (pool_feedWaiters Q p1) = pl_nextPromise p1"
    "pl_findIdleRunning (pool_feedWaiters Q p1) = pl_findIdleRunning p1"
    "length (pl_allConnections (pool_feedWaiters Q p1)) \<le> length (pl_allConnections p1)"
    using pool_feed_spec [OF Q refl] by blast
  have fields: "pl_waiters (pool_spawned Q n p) = pl_waiters (pool_feedWaiters Q p1)"
    "pl_resolved (pool_spawned Q n p) = pl_resolved (pool_feedWaiters Q p1)"
    "pl_connectingCount (pool_spawned Q n p) = pl_connectingCount (pool_feedWaiters Q p1)"
    "pl_nextPromise (pool_spawned Q n p) = pl_nextPromise (pool_feedWaiters Q p1)"
    "pl_findIdleRunning (pool_spawned Q n p) = pl_findIdleRunning (pool_feedWaiters Q p1)"
    "pl_allConnections (pool_spawned Q n p) = pl_allConnections (pool_feedWaiters Q p1)"
    by (simp_all add: pool_spawned_def pool_set_current_def p1_def set_connection_def Let_def)
  have "mset (drop k (items (pl_waiters p))) + mset (take k (items (pl_waiters p))) = mset (items (pl_waiters p))"
    by (metis append_take_drop_id mset_append add.commute)
  then show "mset (items (pl_waiters (pool_spawned Q n p))) + mset (map fst (pl_resolved (pool_spawned Q n p))) =
      mset (items (pl_waiters p)) + mset (map fst (pl_resolved p))"
    unfolding fields k(2,3) p1 mset_append by (simp add: ac_simps)
  have "k > 0" if "items (pl_waiters p) \<noteq> []"
    using k(4) usable that p1(1) by simp
  then show "length (items (pl_waiters (pool_spawned Q n p))) \<le> length (items (pl_waiters p)) - 1"
    using k(1,2) p1(1) fields(1) by (cases "items (pl_waiters p) = []") auto
  show "pl_connectingCount (pool_spawned Q n p) = pl_connectingCount p"
    and "pl_nextPromise (pool_spawned Q n p) = pl_nextPromise p"
    and "pl_findIdleRunning (pool_spawned Q n p) = pl_findIdleRunning p"
    and "length (pl_allConnections (pool_spawned Q n p)) \<le> length (pl_allConnections p) + 1"
    using k(5-8) p1 fields by simp_all
qed


lemma pool_inv_connected:
  assumes Q: "queue_laws Q items cap" and inv: "pool_inv Q items cfg w" and i: "i < length (pw_spawning w)" and n: "2 \<le> n"
  shows "pool_inv Q items cfg (w\<lparr>pw_pool := pool_spawned Q n (pw_pool w),
      pw_spawning := remove_at i (pw_spawning w), pw_finishing := pw_finishing w + 1\<rparr>)"
  using inv i pool_spawned_spec [OF Q n, of "pw_pool w"]
  by (auto simp: pool_inv_def Let_def simp del: mset_map)

lemma pool_inv_give_up:
  assumes Q: "queue_laws Q items cap" and inv: "pool_inv Q items cfg w" and i: "i < length (pw_spawning w)"
    and op: "pool_spawn_failed Q nodes e (pw_spawning w ! i) (pw_pool w) = (None, p)"
  shows "pool_inv Q items cfg (w\<lparr>pw_pool := p, pw_spawning := remove_at i (pw_spawning w), pw_finishing := pw_finishing w + 1\<rparr>)"
proof -
  have p: "p = pool_cleanWaiters Q e (pw_pool w)"
    using op by (auto simp: pool_spawn_failed_def Let_def split: if_splits)
  show ?thesis
    using inv i by (auto simp: pool_inv_def Let_def p pool_clean_spec [OF Q] ac_simps simp del: mset_map)
qed

lemma pool_inv_tick:
  assumes Q: "queue_laws Q items cap" and inv: "pool_inv Q items cfg w" and run: "pl_findIdleRunning (pw_pool w)"
    and op: "pool_findIdle_tick Q cfg (pw_pool w) = (stop, p)"
  shows "pool_inv Q items cfg ((pw_after w p)\<lparr>pw_findStopping := stop\<rparr>)"
proof -
  define p1 where "p1 = pool_feedWaiters Q (pw_pool w)"
  obtain k where k: "k \<le> length (items (pl_waiters (pw_pool w)))" "items (pl_waiters p1) = drop k (items (pl_waiters (pw_pool w)))"
    "map fst (pl_resolved p1) = map fst (pl_resolved (pw_pool w)) @ take k (items (pl_waiters (pw_pool w)))"
    "pl_connectingCount p1 = pl_connectingCount (pw_pool w)" "pl_nextPromise p1 = pl_nextPromise (pw_pool w)"
    "pl_findIdleRunning p1 = pl_findIdleRunning (pw_pool w)" "length (pl_allConnections p1) \<le> length (pl_allConnections (pw_pool w))"
    using pool_feed_spec [OF Q p1_def [symmetric]] by blast
  have all: "mset (drop k (items (pl_waiters (pw_pool w)))) + mset (take k (items (pl_waiters (pw_pool w)))) = mset (items (pl_waiters (pw_pool w)))"
    by (metis append_take_drop_id mset_append add.commute)
  have account: "mset (items (pl_waiters p1)) + mset (map fst (pl_resolved p1)) = mset [0..<pl_nextPromise p1]"
    using inv all unfolding k(2,3,5) mset_append by (simp add: pool_inv_def Let_def ac_simps del: mset_map)
  have "p = p1 \<or> p = pool_spawnConnection p1 \<and> length (pl_allConnections p1) + pl_connectingCount p1 < sc_minPoolSize cfg"
    using op by (auto simp: pool_findIdle_tick_def p1_def Let_def split: if_splits)
  then show ?thesis
  proof
    assume "p = p1"
    then show ?thesis
      using inv k(4-7) run account by (auto simp: pool_inv_def pw_after_def Let_def simp del: mset_map)
  next
    assume "p = pool_spawnConnection p1 \<and> length (pl_allConnections p1) + pl_connectingCount p1 < sc_minPoolSize cfg"
    then show ?thesis
      using inv k(4-7) run account by (auto simp: pool_inv_def pw_after_def pool_spawnConnection_def Let_def simp del: mset_map)
  qed
qed

lemma pool_return_spec:
  assumes Q: "queue_laws Q items cap"
  shows "length (items (pl_waiters (pool_returnConnection Q c s p))) \<le> length (items (pl_waiters p))"
    and "mset (items (pl_waiters (pool_returnConnection Q c s p))) + mset (map fst (pl_resolved (pool_returnConnection Q c s p))) =
      mset (items (pl_waiters p)) + mset (map fst (pl_resolved p))"
    and "pl_connectingCount (pool_returnConnection Q c s p) = pl_connectingCount p"
    and "pl_nextPromise (pool_returnConnection Q c s p) = pl_nextPromise p"
    and "pl_findIdleRunning (pool_returnConnection Q c s p) = pl_findIdleRunning p"
    and "pl_allConnections (pool_returnConnection Q c s p) = pl_allConnections p"
proof -
  obtain promise q where pop: "sq_pop Q (pl_waiters p) = (promise, q)" by fastforce
  note pp = queue_pop [OF Q pop]
  have "length (items (pl_waiters (pool_returnConnection Q c s p))) \<le> length (items (pl_waiters p)) \<and>
    mset (items (pl_waiters (pool_returnConnection Q c s p))) + mset (map fst (pl_resolved (pool_returnConnection Q c s p))) =
      mset (items (pl_waiters p)) + mset (map fst (pl_resolved p))"
    using pp pop queue_empty [OF Q, of "pl_waiters p"]
    by (auto simp: pool_returnConnection_def pool_resolve_def set_connection_def Let_def split: prod.splits)
  then show "length (items (pl_waiters (pool_returnConnection Q c s p))) \<le> length (items (pl_waiters p))"
    and "mset (items (pl_waiters (pool_returnConnection Q c s p))) + mset (map fst (pl_resolved (pool_returnConnection Q c s p))) =
      mset (items (pl_waiters p)) + mset (map fst (pl_resolved p))" by simp_all
qed (auto simp: pool_returnConnection_def pool_resolve_def set_connection_def Let_def split: prod.splits)

lemma pool_remove_if_kept:
  "pool_remove_if p m n cs = (kept, n') \<Longrightarrow> set kept \<subseteq> set cs \<and> length kept \<le> length cs"
  by (induction cs arbitrary: n kept n') (force split: if_splits prod.splits)+

lemma pool_step_inv:
  assumes Q: "queue_laws Q items cap" and inv: "pool_inv Q items cfg w" and step: "pool_step Q cfg w w'"
  shows "pool_inv Q items cfg w'"
  using step
proof (cases rule: pool_step.cases)
  case (pool_get r p)
  then show ?thesis using pool_inv_get [OF Q inv] by simp
next
  case (pool_return c s)
  then show ?thesis
    using inv pool_return_spec [OF Q, of c s "pw_pool w"] by (auto simp: pool_inv_def Let_def simp del: mset_map)
next
  case (pool_connected i maxStreams)
  then show ?thesis using pool_inv_connected [OF Q inv] by simp
next
  case (pool_retry i nodes e tried p)
  then show ?thesis
    using inv by (auto simp: pool_inv_def pool_spawn_failed_def Let_def split: if_splits)
next
  case (pool_give_up i nodes e p)
  then show ?thesis using pool_inv_give_up [OF Q inv] by simp
next
  case pool_finally
  then show ?thesis using inv by (auto simp: pool_inv_def Let_def)
next
  case (pool_find_tick stop p)
  then show ?thesis using pool_inv_tick [OF Q inv] by simp
next
  case pool_find_finally
  then show ?thesis
    using inv queue_empty [OF Q] by (auto simp: pool_inv_def pool_findIdle_finally_def pool_findIdleConnectionTimer_def Let_def)
next
  case (pool_drop_tick stop p)
  then show ?thesis
    using inv by (auto simp: pool_inv_def pool_dropIdle_tick_def pool_set_current_def Let_def
        dest!: pool_remove_if_kept split: if_splits prod.splits)
next
  case pool_drop_finally
  then show ?thesis using inv by (simp add: pool_inv_def pool_dropIdle_finally_def Let_def)
next
  case (pool_environment c v)
  then show ?thesis using inv by (simp add: pool_inv_def set_connection_def Let_def)
qed

lemma pool_reachable_inv:
  assumes Q: "queue_laws Q items cap"
  shows "pool_reachable Q cfg w \<Longrightarrow> pool_inv Q items cfg w"
proof (induction rule: pool_reachable.induct)
  case pool_start
  show ?case by (simp add: pool_inv_def pool_init_def queue_new [OF Q])
next
  case (pool_next w w')
  then show ?case using pool_step_inv [OF Q] by blast
qed


lemma pool_remove_if_busy:
  "pool_remove_if p m n cs = (kept, n') \<Longrightarrow> c \<in> set cs \<Longrightarrow> pc_isReady (pl_heap p c) \<Longrightarrow>
   \<not> connection_isAllStreamsFree (pc_maxStreams (pl_heap p c)) (pc_free (pl_heap p c)) \<Longrightarrow> c \<in> set kept"
  by (induction cs arbitrary: n kept n') (force split: if_splits prod.splits)+

section \<open>Properties\<close>

text \<open>
  C16: The pool never grows beyond its bound: in every interleaving the established connections together
  with those being established are at most the maximum pool size (or the minimum, if that is
  larger).
\<close>

theorem pool_size_bounded:
  assumes "queue_laws Q items cap" and "pool_reachable Q cfg w"
  shows "length (pl_allConnections (pw_pool w)) + length (pw_spawning w) \<le> max (sc_minPoolSize cfg) (sc_maxPoolSize cfg)"
  using pool_reachable_inv [OF assms] by (simp add: pool_inv_def Let_def)

definition pool_example :: "(nat \<times> nat list) pool_world" where
  "pool_example = pw_after \<lparr>pw_pool = pool_init list_queue, pw_spawning = [], pw_finishing = 0, pw_findStopping = False\<rparr>
     (snd (pool_getConnection list_queue sc_init (pool_init list_queue)))"

lemma pool_example_reachable: "pool_reachable list_queue sc_init pool_example"
  unfolding pool_example_def
  by (rule pool_next [OF pool_start], rule pool_get) (simp add: prod_eq_iff)

lemma pool_example_state:
  "pl_nextPromise (pw_pool pool_example) = 1" "snd (pl_waiters (pw_pool pool_example)) = [0]"
  "pl_resolved (pw_pool pool_example) = []" "pw_spawning pool_example = [0]"
  "pl_findIdleRunning (pw_pool pool_example) = False"
  by (simp_all add: pool_example_def pw_after_def pool_getConnection_def pool_init_def sc_init_def pool_addWaiter_def
      list_queue_def pool_spawnConnection_def waiting_answer_def Let_def)

theorem pool_size_bounded_witness:
  "length (pl_allConnections (pw_pool pool_example)) + length (pw_spawning pool_example) \<le> 100"
  using pool_size_bounded [OF list_queue_laws pool_example_reachable] by (simp add: sc_init_def)

text \<open>
  C17: No caller of \<^verbatim>\<open>getConnection\<close> is forgotten: every promise is in the queue of waiters
  or was fulfilled, exactly once in total, and while somebody waits the timer that looks for idle
  connections runs or a connection is being made.
\<close>

theorem pool_waiters_served:
  assumes "queue_laws Q items cap" and "pool_reachable Q cfg w" and "promise < pl_nextPromise (pw_pool w)"
  shows "count (mset (items (pl_waiters (pw_pool w)))) promise + count (mset (map fst (pl_resolved (pw_pool w)))) promise = 1 \<and>
    (promise \<in> set (items (pl_waiters (pw_pool w))) \<longrightarrow> pl_findIdleRunning (pw_pool w) \<or> pw_spawning w \<noteq> [])"
proof -
  have inv: "pool_inv Q items cfg w"
    by (rule pool_reachable_inv [OF assms(1,2)])
  then have "mset (items (pl_waiters (pw_pool w))) + mset (map fst (pl_resolved (pw_pool w))) = mset [0..<pl_nextPromise (pw_pool w)]"
    by (simp add: pool_inv_def Let_def)
  then have "count (mset (items (pl_waiters (pw_pool w)))) promise + count (mset (map fst (pl_resolved (pw_pool w)))) promise =
      count (mset [0..<pl_nextPromise (pw_pool w)]) promise"
    by (metis count_union)
  moreover have "promise \<in> set (items (pl_waiters (pw_pool w))) \<longrightarrow> pl_findIdleRunning (pw_pool w) \<or> pw_spawning w \<noteq> []"
    using inv by (auto simp: pool_inv_def Let_def)
  ultimately show ?thesis
    using assms(3) by simp
qed

theorem pool_waiters_served_witness:
  "count (mset (snd (pl_waiters (pw_pool pool_example)))) 0 + count (mset (map fst (pl_resolved (pw_pool pool_example)))) 0 = 1 \<and>
   pw_spawning pool_example \<noteq> []"
  using pool_waiters_served [OF list_queue_laws pool_example_reachable, of 0] by (simp add: pool_example_state)

text \<open>
  \<^verbatim>\<open>tryGetConnection\<close> gives a stream whenever a ready connection of the pool has one,
  takes it from the ready connection with the most free streams, and only ever removes closed
  connections.
\<close>

lemma try_get_best:
  assumes "pool_tryGetConnection p = (r, p')"
  shows "(\<forall>c \<in> set (pl_allConnections p) - set (pl_allConnections p'). \<not> pc_isReady (pl_heap p c)) \<and>
    (case r of
       None \<Rightarrow> \<forall>c \<in> set (pl_allConnections p). \<not> usable p c
     | Some (c, s) \<Rightarrow> c \<in> set (pl_allConnections p) \<and> usable p c \<and> st_isValid s \<and>
         st_streamId s \<in> set (pc_free (pl_heap p c)) \<and>
         (\<forall>d \<in> set (pl_allConnections p). usable p d \<longrightarrow> length (pc_free (pl_heap p d)) \<le> length (pc_free (pl_heap p c))))"
  using pool_find_spec [of "pl_allConnections p" p r p'] assms
  by (auto simp: pool_tryGetConnection_def pool_search_frame_def usable_def stream_new_def split: option.splits prod.splits)

definition three_connections :: "(nat \<times> nat list) pool" where
  "three_connections = (pool_init list_queue)\<lparr>pl_allConnections := [0, 1, 2],
     pl_heap := (\<lambda>c. if c = 0 then \<lparr>pc_isReady = False, pc_free = [1, 2, 3], pc_maxStreams = 4\<rparr>
       else if c = 1 then \<lparr>pc_isReady = True, pc_free = [2], pc_maxStreams = 4\<rparr>
       else \<lparr>pc_isReady = True, pc_free = [3, 1], pc_maxStreams = 4\<rparr>)\<rparr>"

lemma try_get_best_witness:
  "fst (pool_tryGetConnection three_connections) = Some (2, stream_new 1) \<and> usable three_connections 2"
proof -
  have eq: "pool_tryGetConnection three_connections = (Some (2, stream_new 1), snd (pool_tryGetConnection three_connections))"
    by (simp add: three_connections_def pool_tryGetConnection_def pool_init_def connection_getFreeStreamsCount_def
        connection_openStream_def stream_new_def pool_set_current_def set_connection_def Let_def)
  from try_get_best [OF eq] show ?thesis
    by (subst eq) simp
qed

text \<open>
  The timer that drops idle connections keeps every ready connection with a stream in use, and
  never adds one.
\<close>

lemma drop_idle_keeps_busy:
  assumes "pool_dropIdle_tick cfg p = (stop, p')"
  shows "set (pl_allConnections p') \<subseteq> set (pl_allConnections p) \<and>
    (\<forall>c \<in> set (pl_allConnections p). pc_isReady (pl_heap p c) \<and>
       \<not> connection_isAllStreamsFree (pc_maxStreams (pl_heap p c)) (pc_free (pl_heap p c)) \<longrightarrow> c \<in> set (pl_allConnections p'))"
  using assms pool_remove_if_kept [of p "sc_minPoolSize cfg" "length (pl_allConnections p)" "pl_allConnections p"]
    pool_remove_if_busy [of p "sc_minPoolSize cfg" "length (pl_allConnections p)" "pl_allConnections p"]
  by (auto simp: pool_dropIdle_tick_def pool_set_current_def Let_def split: if_splits prod.splits)

lemma drop_idle_keeps_busy_example:
  "1 \<in> set (pl_allConnections (snd (pool_dropIdle_tick (sc_setMinPoolSize 1 sc_init) three_connections)))"
  using drop_idle_keeps_busy [of "sc_setMinPoolSize 1 sc_init" three_connections, OF prod.collapse [symmetric]]
  by (auto simp: three_connections_def connection_isAllStreamsFree_def)


end
