(* ===== verification/Session_Retry.thy ===== *)
theory Session_Retry
  imports Handshake Batch_Command
begin

text \<open>
  The retry flow of \<^verbatim>\<open>Session\<close>: which errors are retried, and the loop that runs an
  attempt, counts its outcome, decides on another round and gives the connection back. The pool and
  the connections are reached through an interface whose state is opaque; the configurations of the
  nodes, which hold the prepared statements, belong to the session's view of the world.
\<close>

section \<open>Errors and retry flow\<close>

text \<open>
  \<open>UnexpectedMessage\<close> and \<open>UnexpectedResultKind\<close> are the two uses of
  \<^verbatim>\<open>LogicException\<close> that name the request type; \<open>ResponseError\<close> carries the text
  the user sees, and \<open>LowerError\<close> whatever the pool, the connection or a message threw.
\<close>

datatype session_error =
    RetryException
  | ResponseError bytes
  | UnexpectedMessage string
  | UnexpectedResultKind string
  | LowerError cql_error

record retry_flow =
  rf_maxRetries :: u64
  rf_unPreparedErrorCount :: u64

definition retry_init :: "u64 \<Rightarrow> retry_flow" where
  "retry_init maxRetries = \<lparr>rf_maxRetries = maxRetries, rf_unPreparedErrorCount = 0\<rparr>"

definition UserErrorCodeBegin :: u64 where "UserErrorCodeBegin = 0x2000"
definition UserErrorCodeEnd :: u64 where "UserErrorCodeEnd = 0x3000"

text \<open>The code is an \<^verbatim>\<open>int\<close>, converted to \<^verbatim>\<open>std::size_t\<close>.\<close>

definition shouldRetryFor :: "u32 \<Rightarrow> bool" where
  "shouldRetryFor errorCode =
     (let errorCodeValue = scast errorCode;
          isUserError = errorCodeValue \<ge> UserErrorCodeBegin \<and> errorCodeValue < UserErrorCodeEnd
      in \<not> isUserError)"

definition retry_determinate :: "session_error \<Rightarrow> retry_flow \<Rightarrow> (session_error + unit) \<times> retry_flow" where
  "retry_determinate ex rf =
     (if rf_maxRetries rf > 0 then (Inr (), rf\<lparr>rf_maxRetries := rf_maxRetries rf - 1\<rparr>) else (Inl ex, rf))"

section \<open>State\<close>

text \<open>
  \<open>sn_nodes\<close> are the node configurations by index; \<open>sn_lower\<close> is the state of the pool, the
  connections and the network. The interface gives the node a connection leads to and the calls the
  session makes: \<open>io_returnConnection\<close> answers whether the pool moved the pointer on to a waiter.
\<close>

record 's session_io =
  io_node :: "nat \<Rightarrow> nat"
  io_getConnection :: "'s \<Rightarrow> (nat \<times> stream) result \<times> 's"
  io_sendMessage :: "nat \<Rightarrow> command_env \<Rightarrow> batch_env \<Rightarrow> request \<Rightarrow> stream \<Rightarrow> 's \<Rightarrow> unit result \<times> 's"
  io_waitNextMessage :: "nat \<Rightarrow> stream \<Rightarrow> 's \<Rightarrow> response result \<times> 's"
  io_returnConnection :: "nat \<Rightarrow> stream \<Rightarrow> 's \<Rightarrow> bool \<times> 's"

record 's session =
  sn_retryFlow :: retry_flow
  sn_connection :: "nat option"
  sn_stream :: stream
  sn_nodes :: "nat \<Rightarrow> node_configuration"
  sn_metrics :: metrics_data
  sn_lower :: 's

type_synonym ('s, 'a) sn = "'s session \<Rightarrow> (session_error + 'a) \<times> 's session"

definition sn_call :: "('s \<Rightarrow> 'a result \<times> 's) \<Rightarrow> ('s, 'a) sn" where
  "sn_call f s =
     (let (r, lower) = f (sn_lower s) in
      (case r of Inl e \<Rightarrow> Inl (LowerError e) | Inr x \<Rightarrow> Inr x, s\<lparr>sn_lower := lower\<rparr>))"

definition sn_lift :: "'a result \<Rightarrow> ('s, 'a) sn" where
  "sn_lift r s = (case r of Inl e \<Rightarrow> (Inl (LowerError e), s) | Inr x \<Rightarrow> (Inr x, s))"

definition sn_getConnection :: "'s session_io \<Rightarrow> ('s, nat \<times> stream) sn" where
  "sn_getConnection io =
     fut_then (sn_call (io_getConnection io)) (\<lambda>(c, stream) s.
       (Inr (c, stream), s\<lparr>sn_connection := Some c, sn_stream := stream\<rparr>))"

definition sn_send :: "'s session_io \<Rightarrow> nat \<Rightarrow> command_env \<Rightarrow> batch_env \<Rightarrow> request \<Rightarrow> stream \<Rightarrow> ('s, unit) sn" where
  "sn_send io c env benv r stream = sn_call (io_sendMessage io c env benv r stream)"

definition sn_wait :: "'s session_io \<Rightarrow> nat \<Rightarrow> stream \<Rightarrow> ('s, response) sn" where
  "sn_wait io c stream = sn_call (io_waitNextMessage io c stream)"

definition sn_node :: "'s session_io \<Rightarrow> nat \<Rightarrow> 's session \<Rightarrow> node_configuration" where
  "sn_node io c s = sn_nodes s (io_node io c)"

definition sn_setNode :: "'s session_io \<Rightarrow> nat \<Rightarrow> node_configuration \<Rightarrow> 's session \<Rightarrow> 's session" where
  "sn_setNode io c node s = s\<lparr>sn_nodes := (sn_nodes s)(io_node io c := node)\<rparr>"

text \<open>Evicting a prepared statement: the id becomes the empty string.\<close>

definition sn_evict :: "'s session_io \<Rightarrow> nat \<Rightarrow> string_holder \<Rightarrow> 's session \<Rightarrow> 's session" where
  "sn_evict io c query s = sn_setNode io c (nc_setPreparedQueryId query [] (sn_node io c s)) s"

section \<open>Handling errors\<close>

definition response_error_text :: "error_message \<Rightarrow> string \<Rightarrow> bytes \<Rightarrow> bytes" where
  "response_error_text m label queries =
     ascii (enum_describe EC_descriptions (er_errorCode m)) @ ascii '': '' @ ss_value (er_errorMessage m) @
     ascii label @ queries"

text \<open>The part the two overloads share; \<open>evict\<close> forgets the prepared statements of the command.\<close>

definition handleError :: "('s session \<Rightarrow> 's session) \<Rightarrow> bytes \<Rightarrow> error_message \<Rightarrow> ('s, 'a) sn" where
  "handleError evict text m s =
     (let errorCode = er_errorCode m; rf = sn_retryFlow s;
          s = (if errorCode = EC_UnPreparedQuery \<and> rf_unPreparedErrorCount rf = 0
               then (evict s)\<lparr>sn_retryFlow := \<lparr>rf_maxRetries = rf_maxRetries rf + 1,
                 rf_unPreparedErrorCount = rf_unPreparedErrorCount rf + 1\<rparr>\<rparr>
               else if \<not> shouldRetryFor errorCode then s\<lparr>sn_retryFlow := rf\<lparr>rf_maxRetries := 0\<rparr>\<rparr>
               else s) in
      if rf_maxRetries (sn_retryFlow s) > 0 then (Inl RetryException, s) else (Inl (ResponseError text), s))"

text \<open>\<^verbatim>\<open>*command.getNeedPrepare()\<close> is only reached after the default was filled in.\<close>

definition handleErrorMessage :: "'s session_io \<Rightarrow> nat \<Rightarrow> command_data \<Rightarrow> error_message \<Rightarrow> ('s, 'a) sn" where
  "handleErrorMessage io c d m =
     handleError (if cd_needPrepare d = Some True then sn_evict io c (cd_queryStr d) else (\<lambda>s. s))
       (response_error_text m '', query: '' (sh_get (cd_queryStr d))) m"

definition batch_evict :: "'s session_io \<Rightarrow> nat \<Rightarrow> batch_command_data \<Rightarrow> 's session \<Rightarrow> 's session" where
  "batch_evict io c d =
     fold (\<lambda>q s. if bq_needPrepare q = Some True then sn_evict io c (bq_queryStr q) s else s) (bd_queries d)"

definition all_queries :: "batch_command_data \<Rightarrow> bytes" where
  "all_queries d =
     (let allQueries = concat (map (\<lambda>q. sh_get (bq_queryStr q) @ ascii ''; '') (bd_queries d))
      in if allQueries \<noteq> [] then take (length allQueries - 1) allQueries else allQueries)"

definition handleBatchErrorMessage :: "'s session_io \<Rightarrow> nat \<Rightarrow> batch_command_data \<Rightarrow> error_message \<Rightarrow> ('s, 'a) sn" where
  "handleBatchErrorMessage io c d m =
     handleError (batch_evict io c d) (response_error_text m '', queries: '' (all_queries d)) m"

definition handleUnexpectMessage :: "string \<Rightarrow> ('s, 'a) sn" where
  "handleUnexpectMessage requestType s =
     (Inl (UnexpectedMessage requestType), s\<lparr>sn_retryFlow := (sn_retryFlow s)\<lparr>rf_maxRetries := 0\<rparr>\<rparr>)"

definition handleUnexpectResultKind :: "string \<Rightarrow> ('s, 'a) sn" where
  "handleUnexpectResultKind requestType s =
     (Inl (UnexpectedResultKind requestType), s\<lparr>sn_retryFlow := (sn_retryFlow s)\<lparr>rf_maxRetries := 0\<rparr>\<rparr>)"

section \<open>The loop\<close>

text \<open>
  \<^verbatim>\<open>finally\<close>: the connection goes back to the pool if there is one with a valid stream.
  \<^verbatim>\<open>returnConnection\<close> closes the stream and moves the pointer only to give it to a waiter.
\<close>

definition sn_finally :: "'s session_io \<Rightarrow> 's session \<Rightarrow> 's session" where
  "sn_finally io s =
     (case sn_connection s of
        Some c \<Rightarrow>
          if st_isValid (sn_stream s)
          then (let (moved, lower) = io_returnConnection io c (sn_stream s) (sn_lower s) in
                s\<lparr>sn_lower := lower, sn_stream := (sn_stream s)\<lparr>st_isValid := False\<rparr>,
                  sn_connection := (if moved then None else Some c)\<rparr>)
          else s
      | None \<Rightarrow> s)"

text \<open>
  One round: \<open>Inr (Some x)\<close> ends the loop with a result, \<open>Inr None\<close> asks for another round,
  \<open>Inl\<close> ends it with an exception. Undefined behaviour ends everything at once.
\<close>

definition sn_iteration ::
  "'s session_io \<Rightarrow> (metrics_data \<Rightarrow> metrics_data) \<Rightarrow> (metrics_data \<Rightarrow> metrics_data) \<Rightarrow> ('s, 'a) sn \<Rightarrow> ('s, 'a option) sn" where
  "sn_iteration io succeeded failed attempt s =
     (case attempt s of
        (Inr x, s) \<Rightarrow> (Inr (Some x), sn_finally io (s\<lparr>sn_metrics := succeeded (sn_metrics s)\<rparr>))
      | (Inl ex, s) \<Rightarrow>
          if ex = LowerError UndefinedBehaviour then (Inl ex, s)
          else (case retry_determinate ex (sn_retryFlow s) of
              (r, rf) \<Rightarrow> (case r of Inl ex \<Rightarrow> Inl ex | Inr u \<Rightarrow> Inr None,
                sn_finally io (s\<lparr>sn_metrics := failed (sn_metrics s), sn_retryFlow := rf\<rparr>))))"

text \<open>\<^verbatim>\<open>seastar::repeat\<close>: a loop that never stops has the value \<open>None\<close>.\<close>

partial_function (option) sn_repeat ::
  "'s session_io \<Rightarrow> (metrics_data \<Rightarrow> metrics_data) \<Rightarrow> (metrics_data \<Rightarrow> metrics_data) \<Rightarrow> ('s, 'a) sn \<Rightarrow>
   's session \<Rightarrow> ((session_error + 'a) \<times> 's session) option" where
  "sn_repeat io succeeded failed attempt s =
     (case sn_iteration io succeeded failed attempt s of
        (Inr None, s) \<Rightarrow> sn_repeat io succeeded failed attempt s
      | (Inr (Some x), s) \<Rightarrow> Some (Inr x, s)
      | (Inl ex, s) \<Rightarrow> Some (Inl ex, s))"

definition command_succeeded :: "metrics_data \<Rightarrow> metrics_data" where
  "command_succeeded m = m\<lparr>session_command_successful := session_command_successful m + 1\<rparr>"

definition command_failed :: "metrics_data \<Rightarrow> metrics_data" where
  "command_failed m = m\<lparr>session_command_failed := session_command_failed m + 1\<rparr>"

definition batch_succeeded :: "metrics_data \<Rightarrow> metrics_data" where
  "batch_succeeded m = m\<lparr>session_batch_command_successful := session_batch_command_successful m + 1\<rparr>"

definition batch_failed :: "metrics_data \<Rightarrow> metrics_data" where
  "batch_failed m = m\<lparr>session_batch_command_failed := session_batch_command_failed m + 1\<rparr>"

section \<open>Laws of attempts\<close>

lemma sn_setNode_frame [simp]:
  "sn_retryFlow (sn_setNode io c node s) = sn_retryFlow s" "sn_metrics (sn_setNode io c node s) = sn_metrics s"
  "sn_connection (sn_setNode io c node s) = sn_connection s" "sn_stream (sn_setNode io c node s) = sn_stream s"
  "sn_lower (sn_setNode io c node s) = sn_lower s"
  by (simp_all add: sn_setNode_def)

lemma batch_evict_retryFlow [simp]: "sn_retryFlow (batch_evict io c d s) = sn_retryFlow s"
proof -
  have frame: "sn_retryFlow (fold f qs s) = sn_retryFlow s"
    if "f = (\<lambda>q s. if bq_needPrepare q = Some True then sn_evict io c (bq_queryStr q) s else s)" for f qs
    by (induction qs arbitrary: s) (simp_all add: that sn_evict_def)
  show ?thesis by (simp only: batch_evict_def frame [OF refl])
qed

text \<open>
  How a failure may change the retry flow: not at all, by granting one extra round for the first
  UNPREPARED, or by forbidding further rounds.
\<close>

definition retry_step :: "retry_flow \<Rightarrow> retry_flow \<Rightarrow> bool" where
  "retry_step rf rf' \<longleftrightarrow>
     rf' = rf \<or> rf' = rf\<lparr>rf_maxRetries := 0\<rparr> \<or>
     rf_unPreparedErrorCount rf = 0 \<and> rf' = \<lparr>rf_maxRetries = rf_maxRetries rf + 1, rf_unPreparedErrorCount = 1\<rparr>"

definition sn_error :: "session_error + 'a \<Rightarrow> session_error option" where
  "sn_error r = (case r of Inl e \<Rightarrow> Some e | Inr x \<Rightarrow> None)"

lemma sn_error_simps [simp]: "sn_error (Inl e) = Some e" "sn_error (Inr x) = None"
  by (simp_all add: sn_error_def)

text \<open>
  A relation between the state before and after part of an attempt, and the error it ended with, that
  holds for everything an attempt does once it has a connection: it composes, and it allows the two
  calls to the connection, any change of a node's prepared statements, and failures that treat the
  retry flow as described.
\<close>

locale attempt_relation =
  fixes io :: "'s session_io" and R :: "'s session \<Rightarrow> session_error option \<Rightarrow> 's session \<Rightarrow> bool"
  assumes skip: "R s None s"
    and seq: "R s None t \<Longrightarrow> R t e u \<Longrightarrow> R s e u"
    and send: "sn_send io c env benv request stream s = (r, s') \<Longrightarrow> R s (sn_error r) s'"
    and wait: "sn_wait io c stream s = (m, s') \<Longrightarrow> R s (sn_error m) s'"
    and node: "R s None (sn_setNode io c n s)"
    and failure: "retry_step (sn_retryFlow s) rf \<Longrightarrow> (ex = RetryException \<Longrightarrow> 0 < rf_maxRetries rf) \<Longrightarrow>
      R s (Some ex) (s\<lparr>sn_retryFlow := rf\<rparr>)"
begin

definition holds :: "('s, 'a) sn \<Rightarrow> bool" where
  "holds m \<longleftrightarrow> (\<forall>s r s'. m s = (r, s') \<longrightarrow> R s (sn_error r) s')"

lemma holdsI: "(\<And>s r s'. m s = (r, s') \<Longrightarrow> R s (sn_error r) s') \<Longrightarrow> holds m"
  by (simp add: holds_def)

lemma holdsD: "holds m \<Longrightarrow> m s = (r, s') \<Longrightarrow> R s (sn_error r) s'"
  by (simp add: holds_def)

lemma fail_plain: "e \<noteq> RetryException \<Longrightarrow> R s (Some e) s"
  using failure [of s "sn_retryFlow s" e] by (simp add: retry_step_def)

lemma holds_then:
  assumes m: "holds m" and f: "\<And>x. holds (f x)"
  shows "holds (fut_then m f)"
proof (rule holdsI)
  fix s r s' assume run: "fut_then m f s = (r, s')"
  obtain r1 s1 where m1: "m s = (r1, s1)" by fastforce
  show "R s (sn_error r) s'"
  proof (cases r1)
    case (Inl e)
    with run m1 holdsD [OF m m1] show ?thesis by (auto simp: fut_then_def)
  next
    case (Inr x)
    with run m1 have "f x s1 = (r, s')" by (simp add: fut_then_def)
    from holdsD [OF f this] holdsD [OF m m1] Inr show ?thesis by (auto intro: seq)
  qed
qed

lemma holds_basic:
  "holds (fut_return x)" "e \<noteq> RetryException \<Longrightarrow> holds (fut_throw e)" "holds (sn_lift v)"
  "holds (sn_send io c env benv request stream)" "holds (sn_wait io c stream)"
  by (auto intro!: holdsI skip fail_plain simp: sn_lift_def send wait split: sum.splits)

lemma holds_unexpected: "holds (handleUnexpectMessage ty)" "holds (handleUnexpectResultKind ty)"
  by (auto intro!: holdsI failure simp: handleUnexpectMessage_def handleUnexpectResultKind_def retry_step_def)

lemma holds_after: "(\<And>s. R s None (g s)) \<Longrightarrow> holds m \<Longrightarrow> holds (\<lambda>s. m (g s))"
  by (rule holdsI) (auto intro: seq dest: holdsD)

lemma holds_node: "holds m \<Longrightarrow> holds (\<lambda>s. m (sn_setNode io c (f s) s))"
  by (rule holds_after) (rule node)

lemma holds_pointwise: "(\<And>s. \<exists>m'. holds m' \<and> m s = m' s) \<Longrightarrow> holds m"
  unfolding holds_def by metis

lemma holds_handleError:
  assumes "\<And>s. R s None (evict s)" "\<And>s. sn_retryFlow (evict s) = sn_retryFlow s"
  shows "holds (handleError evict text m)"
proof (rule holdsI)
  fix s r s' assume run: "handleError evict text m s = (r, s')"
  let ?rf = "sn_retryFlow s"
  have step: "R s (Some e) (t\<lparr>sn_retryFlow := rf\<rparr>)"
    if "R s None t" "sn_retryFlow t = ?rf" "retry_step ?rf rf" "e = RetryException \<Longrightarrow> 0 < rf_maxRetries rf" for e t rf
    by (rule seq [OF that(1) failure]) (use that in auto)
  show "R s (sn_error r) s'"
  proof (cases "er_errorCode m = EC_UnPreparedQuery \<and> rf_unPreparedErrorCount ?rf = 0")
    case True
    with run show ?thesis
      by (auto simp: handleError_def Let_def retry_step_def assms split: if_splits intro!: step)
  next
    case False
    show ?thesis
    proof (cases "shouldRetryFor (er_errorCode m)")
      case True
      with False run have "s' = s \<and> (r = Inl RetryException \<and> 0 < rf_maxRetries ?rf \<or> r = Inl (ResponseError text))"
        by (auto simp: handleError_def Let_def split: if_splits)
      then show ?thesis
        using failure [of s ?rf RetryException] failure [of s ?rf "ResponseError text"]
        by (auto simp: retry_step_def)
    next
      case no: False
      with False run have "s' = s\<lparr>sn_retryFlow := ?rf\<lparr>rf_maxRetries := 0\<rparr>\<rparr> \<and> r = Inl (ResponseError text)"
        by (auto simp: handleError_def Let_def split: if_splits)
      then show ?thesis using step [OF skip refl] by (auto simp: retry_step_def)
    qed
  qed
qed

lemma evict_step: "R s None (sn_evict io c q s)"
  unfolding sn_evict_def by (rule node)

lemma batch_evict_step: "R s None (batch_evict io c d s)"
proof -
  have frame: "R s None (fold f qs s)"
    if "f = (\<lambda>q s. if bq_needPrepare q = Some True then sn_evict io c (bq_queryStr q) s else s)" for f qs
    by (induction qs arbitrary: s) (auto simp: that skip intro: seq evict_step)
  show ?thesis unfolding batch_evict_def by (rule frame [OF refl])
qed

lemma holds_errors: "holds (handleErrorMessage io c d m)" "holds (handleBatchErrorMessage io c bd m)"
  unfolding handleErrorMessage_def handleBatchErrorMessage_def
  by (auto intro!: holds_handleError batch_evict_step simp: evict_step skip sn_evict_def node)

end

section \<open>The law of retries\<close>

text \<open>
  What the loop relies on: success leaves the retry flow alone, a failure changes it as described and
  throws \<open>RetryException\<close> only while rounds are left, and the counters change in the loop only.
\<close>

definition retry_rel :: "'s session \<Rightarrow> session_error option \<Rightarrow> 's session \<Rightarrow> bool" where
  "retry_rel s e s' \<longleftrightarrow> sn_metrics s' = sn_metrics s \<and>
     (case e of
        None \<Rightarrow> sn_retryFlow s' = sn_retryFlow s
      | Some e \<Rightarrow> retry_step (sn_retryFlow s) (sn_retryFlow s') \<and> (e = RetryException \<longrightarrow> 0 < rf_maxRetries (sn_retryFlow s')))"

lemma retry_rel_call: "sn_call f s = (r, s') \<Longrightarrow> retry_rel s (sn_error r) s'"
  by (auto simp: retry_rel_def retry_step_def sn_call_def Let_def split: sum.splits prod.splits)

interpretation retry: attempt_relation io retry_rel
proof unfold_locales
  fix s :: "'s session" and t u e assume "retry_rel s None t" "retry_rel t e u"
  then show "retry_rel s e u" by (auto simp: retry_rel_def split: option.splits)
qed (auto simp: retry_rel_def retry_step_def sn_send_def sn_wait_def dest!: retry_rel_call)

lemma retry_law_getConnection: "retry.holds (sn_getConnection io)"
  by (rule retry.holdsI)
    (auto simp: sn_getConnection_def fut_then_def retry_rel_def split: prod.splits sum.splits dest!: retry_rel_call)

section \<open>The loop ends\<close>

definition retry_measure :: "retry_flow \<Rightarrow> nat" where
  "retry_measure rf = unat (rf_maxRetries rf) + (if rf_unPreparedErrorCount rf = 0 then 1 else 0)"

lemma unat_Suc_nonzero: "(w :: u64) + 1 \<noteq> 0 \<Longrightarrow> unat (w + 1) = unat w + 1"
  by (simp add: unatSuc add.commute)

lemma retry_step_measure:
  assumes "retry_step rf rf1" "retry_determinate e rf1 = (Inr u, rf2)"
  shows "retry_measure rf2 < retry_measure rf"
proof -
  from assms(2) have pos: "rf_maxRetries rf1 > 0" and rf2: "rf2 = rf1\<lparr>rf_maxRetries := rf_maxRetries rf1 - 1\<rparr>"
    by (auto simp: retry_determinate_def split: if_splits)
  have less: "unat (rf_maxRetries rf1 - 1) < unat (rf_maxRetries rf1)"
    using pos by (simp add: unat_gt_0 unat_minus_one word_neq_0_conv)
  consider "rf1 = rf" | "rf_unPreparedErrorCount rf = 0"
    "rf1 = \<lparr>rf_maxRetries = rf_maxRetries rf + 1, rf_unPreparedErrorCount = 1\<rparr>"
    using assms(1) pos by (auto simp: retry_step_def)
  then show ?thesis
  proof cases
    case 1
    with less show ?thesis by (simp add: rf2 retry_measure_def)
  next
    case 2
    with pos unat_Suc_nonzero [of "rf_maxRetries rf"] less show ?thesis
      by (simp add: rf2 retry_measure_def)
  qed
qed

lemma sn_finally_frame [simp]:
  "sn_retryFlow (sn_finally io s) = sn_retryFlow s" "sn_metrics (sn_finally io s) = sn_metrics s"
  "sn_nodes (sn_finally io s) = sn_nodes s"
  by (auto simp: sn_finally_def split: option.splits prod.splits)

text \<open>
  The interface between the loop and an attempt: the loop relies on nothing but the law of retries.
\<close>

locale retry_attempt =
  fixes attempt :: "('s, 'a) sn"
  assumes law: "attempt s = (r, s') \<Longrightarrow> retry_rel s (sn_error r) s'"
begin

lemma retry_lawD:
  assumes "attempt s = (r, s')"
  shows "sn_metrics s' = sn_metrics s"
    and "r = Inr x \<Longrightarrow> sn_retryFlow s' = sn_retryFlow s"
    and "r = Inl e \<Longrightarrow> retry_step (sn_retryFlow s) (sn_retryFlow s')"
    and "r = Inl RetryException \<Longrightarrow> 0 < rf_maxRetries (sn_retryFlow s')"
  using law [OF assms] by (auto simp: retry_rel_def)

lemma repeat_outcome:
  assumes "retry_measure (sn_retryFlow s) = n"
  shows "\<exists>r s' k. sn_repeat io succeeded failed attempt s = Some (r, s') \<and> k \<le> n \<and> r \<noteq> Inl RetryException \<and>
    sn_metrics s' = (case r of
        Inr x \<Rightarrow> succeeded ((failed ^^ k) (sn_metrics s))
      | Inl e \<Rightarrow> if e = LowerError UndefinedBehaviour then (failed ^^ k) (sn_metrics s)
                 else (failed ^^ Suc k) (sn_metrics s))"
  using assms
proof (induction n arbitrary: s rule: less_induct)
  case (less n)
  obtain r1 s1 where run: "attempt s = (r1, s1)" by fastforce
  note laws = retry_lawD [OF run]
  show ?case
  proof (cases r1)
    case (Inr x)
    with run laws(1) show ?thesis
      by (subst sn_repeat.simps) (auto simp: sn_iteration_def intro!: exI [of _ 0])
  next
    case (Inl e)
    show ?thesis
    proof (cases "e = LowerError UndefinedBehaviour")
      case True
      with run Inl laws(1) show ?thesis
        by (subst sn_repeat.simps) (auto simp: sn_iteration_def intro!: exI [of _ 0])
    next
      case ub: False
      obtain r2 rf where det: "retry_determinate e (sn_retryFlow s1) = (r2, rf)" by fastforce
      let ?s2 = "sn_finally io (s1\<lparr>sn_metrics := failed (sn_metrics s1), sn_retryFlow := rf\<rparr>)"
      show ?thesis
      proof (cases r2)
        case (Inl e2)
        with det have "e2 = e" "\<not> 0 < rf_maxRetries (sn_retryFlow s1)"
          by (auto simp: retry_determinate_def split: if_splits)
        with laws(4) \<open>r1 = Inl e\<close> have "e \<noteq> RetryException" by auto
        with run \<open>r1 = Inl e\<close> ub det Inl \<open>e2 = e\<close> laws(1) show ?thesis
          by (subst sn_repeat.simps) (auto simp: sn_iteration_def intro!: exI [of _ 0])
      next
        case (Inr u)
        have dec: "retry_measure rf < n"
          using retry_step_measure [OF laws(3) [OF \<open>r1 = Inl e\<close>]] det Inr less.prems by auto
        have step: "sn_repeat io succeeded failed attempt s = sn_repeat io succeeded failed attempt ?s2"
          using run \<open>r1 = Inl e\<close> ub det Inr by (subst sn_repeat.simps) (simp add: sn_iteration_def)
        obtain r s' k where rec: "sn_repeat io succeeded failed attempt ?s2 = Some (r, s')" "k \<le> retry_measure rf"
            "r \<noteq> Inl RetryException"
          and m: "sn_metrics s' = (case r of
              Inr x \<Rightarrow> succeeded ((failed ^^ k) (sn_metrics ?s2))
            | Inl e \<Rightarrow> if e = LowerError UndefinedBehaviour then (failed ^^ k) (sn_metrics ?s2)
                 else (failed ^^ Suc k) (sn_metrics ?s2))"
          using less.IH [OF dec, of ?s2] by auto
        have "sn_metrics ?s2 = failed (sn_metrics s)" using laws(1) by simp
        with m have "sn_metrics s' = (case r of
              Inr x \<Rightarrow> succeeded ((failed ^^ Suc k) (sn_metrics s))
            | Inl e \<Rightarrow> if e = LowerError UndefinedBehaviour then (failed ^^ Suc k) (sn_metrics s)
                 else (failed ^^ Suc (Suc k)) (sn_metrics s))"
          by (simp add: funpow_swap1 split: sum.splits)
        with rec dec step show ?thesis by (intro exI [of _ r] exI [of _ s'] exI [of _ "Suc k"]) simp
      qed
    qed
  qed
qed

lemma repeat_ends: "\<exists>r s'. sn_repeat io succeeded failed attempt s = Some (r, s') \<and> r \<noteq> Inl RetryException"
  using repeat_outcome [OF refl] by blast

end

text \<open>Properties that every further round keeps hold at the end.\<close>

lemma sn_repeat_invariant:
  assumes run: "sn_repeat io succeeded failed attempt s = Some (r, s')" and inv: "I s"
    and more: "\<And>s s'. I s \<Longrightarrow> sn_iteration io succeeded failed attempt s = (Inr None, s') \<Longrightarrow> I s'"
    and ok: "\<And>s s' x. I s \<Longrightarrow> sn_iteration io succeeded failed attempt s = (Inr (Some x), s') \<Longrightarrow> J (Inr x) s'"
    and err: "\<And>s s' e. I s \<Longrightarrow> sn_iteration io succeeded failed attempt s = (Inl e, s') \<Longrightarrow> J (Inl e) s'"
  shows "J r s'"
proof -
  let ?keeps = "\<lambda>io succeeded failed attempt. \<forall>s. I s \<longrightarrow>
      (case sn_iteration io succeeded failed attempt s of
         (Inr None, s') \<Rightarrow> I s' | (Inr (Some x), s') \<Rightarrow> J (Inr x) s' | (Inl e, s') \<Rightarrow> J (Inl e) s')"
  have "?keeps io succeeded failed attempt \<longrightarrow> I s \<longrightarrow> J (fst (r, s')) (snd (r, s'))"
    using run
  proof (rule sn_repeat.raw_induct [rotated])
    fix rec io succeeded failed attempt s and y :: "(session_error + 'a) \<times> 'b session"
    assume IH: "\<And>io succeeded failed attempt s y. rec io succeeded failed attempt s = Some y \<Longrightarrow>
        ?keeps io succeeded failed attempt \<longrightarrow> I s \<longrightarrow> J (fst y) (snd y)"
      and body: "(case sn_iteration io succeeded failed attempt s of
        (Inl ex, s) \<Rightarrow> Some (Inl ex, s)
      | (Inr None, s) \<Rightarrow> rec io succeeded failed attempt s
      | (Inr (Some x), s) \<Rightarrow> Some (Inr x, s)) = Some y"
    show "?keeps io succeeded failed attempt \<longrightarrow> I s \<longrightarrow> J (fst y) (snd y)"
    proof (intro impI)
      assume keeps: "?keeps io succeeded failed attempt" and s: "I s"
      obtain r2 s2 where it: "sn_iteration io succeeded failed attempt s = (r2, s2)" by fastforce
      consider "r2 = Inr None" | x where "r2 = Inr (Some x)" | e where "r2 = Inl e"
        by (metis option.exhaust sum.exhaust)
      then show "J (fst y) (snd y)"
      proof cases
        case 1
        with it body keeps s have "rec io succeeded failed attempt s2 = Some y" and "I s2" by auto
        with IH keeps show ?thesis by blast
      qed (use it body keeps s in auto)
    qed
  qed
  moreover have "?keeps io succeeded failed attempt"
  proof (intro allI impI)
    fix s assume s: "I s"
    obtain r2 s2 where it: "sn_iteration io succeeded failed attempt s = (r2, s2)" by fastforce
    consider "r2 = Inr None" | x where "r2 = Inr (Some x)" | e where "r2 = Inl e"
      by (metis option.exhaust sum.exhaust)
    then show "case sn_iteration io succeeded failed attempt s of
         (Inr None, s') \<Rightarrow> I s' | (Inr (Some x), s') \<Rightarrow> J (Inr x) s' | (Inl e, s') \<Rightarrow> J (Inl e) s'"
      by cases (use it more [OF s] ok [OF s] err [OF s] in simp_all)
  qed
  ultimately show ?thesis using inv by simp
qed

end
