(* ===== verification/Session.thy ===== *)
theory Session
  imports Session_Retry
begin

text \<open>
  \<^verbatim>\<open>Session\<close>: \<^verbatim>\<open>query\<close>, \<^verbatim>\<open>execute\<close> and
  \<^verbatim>\<open>batchExecute\<close>. The command lives at address 0 of the environment that the query
  and batch parameters refer to. New request messages are those of the factory; what the free list holds
  does not show (\<open>qm_reusable\<close> and its siblings).
\<close>

section \<open>Defaults\<close>

definition setDefaultValues :: "session_configuration \<Rightarrow> command_data \<Rightarrow> command_data" where
  "setDefaultValues cfg d =
     (let d = (if cd_consistencyLevel d = None then d\<lparr>cd_consistencyLevel := Some (sc_defaultConsistency cfg)\<rparr> else d)
      in if cd_needPrepare d = None then d\<lparr>cd_needPrepare := Some (sc_prepareAllQueries cfg)\<rparr> else d)"

definition setBatchDefaultValues :: "session_configuration \<Rightarrow> batch_command_data \<Rightarrow> batch_command_data" where
  "setBatchDefaultValues cfg d =
     (let d = (if bd_consistencyLevel d = None then d\<lparr>bd_consistencyLevel := Some (sc_defaultConsistency cfg)\<rparr> else d)
      in d\<lparr>bd_queries := map (\<lambda>q. if bq_needPrepare q = None then q\<lparr>bq_needPrepare := Some (sc_prepareAllQueries cfg)\<rparr> else q)
             (bd_queries d)\<rparr>)"

definition getEmptyResultSet :: "result_set result" where
  "getEmptyResultSet = rbind (rsd_reset 0 0 [] (Some []) 0 0 rsd_init) (\<lambda>d. Inr (Some d))"

section \<open>Requests\<close>

definition new_execute :: execute_message where
  "new_execute = em_reset (request_header MT_Execute) em_init"

definition new_prepare :: prepare_message where
  "new_prepare = pr_reset (request_header MT_Prepare) pr_init"

definition new_batch :: batch_message where
  "new_batch = bm_reset (request_header MT_Batch) bm_init"

definition session_env :: "command_data \<Rightarrow> command_env" where
  "session_env d = [0 \<mapsto> d]"

definition session_batch_env :: "batch_command_data \<Rightarrow> batch_env" where
  "session_batch_env d = [0 \<mapsto> d]"

definition query_request :: "command_data \<Rightarrow> request result" where
  "query_request d =
     rbind (qp_setCommandRef (RefExt 0) (session_env d) (qp_setSkipMetadata True (qm_queryParameters new_query))) (\<lambda>qp.
       Inr (ReqQuery (new_query\<lparr>qm_queryParameters := qp\<rparr>)))"

definition execute_request :: "command_data \<Rightarrow> bytes \<Rightarrow> request result" where
  "execute_request d pid =
     rbind (qp_setCommandRef (RefExt 0) (session_env d) (qp_setSkipMetadata True (em_queryParameters new_execute))) (\<lambda>qp.
       Inr (ReqExecute (new_execute\<lparr>em_queryParameters := qp,
         em_preparedQueryId := ss_set pid (em_preparedQueryId new_execute)\<rparr>)))"

definition prepare_request :: "string_holder \<Rightarrow> request" where
  "prepare_request query = ReqPrepare (new_prepare\<lparr>pr_query := ss_set (sh_get query) (pr_query new_prepare)\<rparr>)"

section \<open>Preparing one query\<close>

definition prepare_reply :: "'s session_io \<Rightarrow> command_data \<Rightarrow> nat \<Rightarrow> response \<Rightarrow> ('s, request) sn" where
  "prepare_reply io d c message =
     (if hs_opcode message = MT_Result then
        (case message of
           RespResult m \<Rightarrow>
             if re_getKind m = RK_Prepared then
               (\<lambda>s. let pid = ss_value (re_preparedQueryId m) in
                  sn_lift (execute_request d pid) (sn_setNode io c (nc_setPreparedQueryId (cd_queryStr d) pid (sn_node io c s)) s))
             else handleUnexpectResultKind ''PREPARE''
         | _ \<Rightarrow> fut_throw (LowerError UndefinedBehaviour))
      else if hs_opcode message = MT_Error then
        (case message of
           RespError m \<Rightarrow> handleErrorMessage io c d m
         | _ \<Rightarrow> fut_throw (LowerError UndefinedBehaviour))
      else handleUnexpectMessage ''PREPARE'')"

definition prepareQuery :: "'s session_io \<Rightarrow> command_data \<Rightarrow> nat \<Rightarrow> stream \<Rightarrow> ('s, request) sn" where
  "prepareQuery io d c stream s =
     (case cd_needPrepare d of
        None \<Rightarrow> (Inl (LowerError UndefinedBehaviour), s)
      | Some False \<Rightarrow> sn_lift (query_request d) s
      | Some True \<Rightarrow>
          (let (pid, node) = nc_getPreparedQueryId (cd_queryStr d) (sn_node io c s);
               s = sn_setNode io c node s in
           if pid \<noteq> [] then sn_lift (execute_request d pid) s
           else fut_then (sn_send io c (session_env d) (\<lambda>_. None) (prepare_request (cd_queryStr d)) stream) (\<lambda>_.
                fut_then (sn_wait io c stream) (prepare_reply io d c)) s))"

section \<open>query and execute\<close>

definition query_reply :: "'s session_io \<Rightarrow> command_data \<Rightarrow> nat \<Rightarrow> response \<Rightarrow> ('s, result_set) sn" where
  "query_reply io d c message =
     (if hs_opcode message = MT_Result then
        (case message of
           RespResult m \<Rightarrow> if re_getKind m = RK_Rows then fut_return (re_resultSet m) else sn_lift getEmptyResultSet
         | _ \<Rightarrow> fut_throw (LowerError UndefinedBehaviour))
      else if hs_opcode message = MT_Error then
        (case message of
           RespError m \<Rightarrow> handleErrorMessage io c d m
         | _ \<Rightarrow> fut_throw (LowerError UndefinedBehaviour))
      else handleUnexpectMessage ''QUERY'')"

definition execute_reply :: "'s session_io \<Rightarrow> command_data \<Rightarrow> nat \<Rightarrow> response \<Rightarrow> ('s, unit) sn" where
  "execute_reply io d c message =
     (if hs_opcode message = MT_Result then fut_return ()
      else if hs_opcode message = MT_Error then
        (case message of
           RespError m \<Rightarrow> handleErrorMessage io c d m
         | _ \<Rightarrow> fut_throw (LowerError UndefinedBehaviour))
      else handleUnexpectMessage ''QUERY'')"

definition command_attempt ::
  "'s session_io \<Rightarrow> command_data \<Rightarrow> (nat \<Rightarrow> response \<Rightarrow> ('s, 'a) sn) \<Rightarrow> ('s, 'a) sn" where
  "command_attempt io d reply =
     fut_then (sn_getConnection io) (\<lambda>(c, stream).
     fut_then (prepareQuery io d c stream) (\<lambda>request.
     fut_then (sn_send io c (session_env d) (\<lambda>_. None) request stream) (\<lambda>_.
     fut_then (sn_wait io c stream) (reply c))))"

text \<open>The objects of the \<^verbatim>\<open>do_with\<close> of a call.\<close>

definition sn_begin :: "u64 \<Rightarrow> 's session \<Rightarrow> 's session" where
  "sn_begin maxRetries s = s\<lparr>sn_retryFlow := retry_init maxRetries, sn_connection := None, sn_stream := stream_invalid\<rparr>"

definition session_query ::
  "'s session_io \<Rightarrow> session_configuration \<Rightarrow> command \<Rightarrow> 's session \<Rightarrow> ((session_error + result_set) \<times> 's session) option" where
  "session_query io cfg command s =
     (case command of
        None \<Rightarrow> Some (Inl (LowerError LogicException), s)
      | Some d \<Rightarrow>
          let s = sn_begin (cd_maxRetries d) s; d = setDefaultValues cfg d in
          (case sn_repeat io command_succeeded command_failed (command_attempt io d (query_reply io d)) s of
             None \<Rightarrow> None
           | Some (Inl ex, s) \<Rightarrow> Some (Inl ex, s)
           | Some (Inr result, s) \<Rightarrow>
               if \<not> rs_isValid result then Some (Inl (LowerError LogicException), s) else Some (Inr result, s)))"

definition session_execute ::
  "'s session_io \<Rightarrow> session_configuration \<Rightarrow> command \<Rightarrow> 's session \<Rightarrow> ((session_error + unit) \<times> 's session) option" where
  "session_execute io cfg command s =
     (case command of
        None \<Rightarrow> Some (Inl (LowerError LogicException), s)
      | Some d \<Rightarrow>
          let s = sn_begin (cd_maxRetries d) s; d = setDefaultValues cfg d in
          sn_repeat io command_succeeded command_failed (command_attempt io d (execute_reply io d)) s)"

section \<open>What holds of the parts holds of an attempt\<close>

context attempt_relation
begin

lemma holds_prepare_reply: "holds (prepare_reply io d c message)"
proof -
  have store: "holds (\<lambda>s. sn_lift v (sn_setNode io c (f s) s))" for v :: "request result" and f
    by (rule holds_node) (rule holds_basic)
  show ?thesis
    by (cases message) (simp_all add: prepare_reply_def Let_def holds_basic holds_errors holds_unexpected store)
qed

lemma holds_prepareQuery: "holds (prepareQuery io d c stream)"
proof (rule holds_pointwise)
  fix s
  let ?p = "nc_getPreparedQueryId (cd_queryStr d) (sn_node io c s)"
  let ?ask = "fut_then (sn_send io c (session_env d) (\<lambda>_. None) (prepare_request (cd_queryStr d)) stream) (\<lambda>_.
      fut_then (sn_wait io c stream) (prepare_reply io d c))"
  have "holds (\<lambda>s. ?ask (sn_setNode io c (snd ?p) s))"
    by (rule holds_node) (intro holds_then holds_basic holds_prepare_reply)
  moreover have "holds (\<lambda>s. sn_lift (execute_request d (fst ?p)) (sn_setNode io c (snd ?p) s))"
    by (rule holds_node) (rule holds_basic)
  moreover have "holds (fut_throw (LowerError UndefinedBehaviour))" "holds (sn_lift (query_request d))"
    by (simp_all add: holds_basic)
  moreover have "prepareQuery io d c stream s =
      (case cd_needPrepare d of
         None \<Rightarrow> fut_throw (LowerError UndefinedBehaviour) s
       | Some need \<Rightarrow>
           if \<not> need then sn_lift (query_request d) s
           else if fst ?p \<noteq> [] then sn_lift (execute_request d (fst ?p)) (sn_setNode io c (snd ?p) s)
           else ?ask (sn_setNode io c (snd ?p) s))"
    by (simp add: prepareQuery_def case_prod_beta Let_def split: option.split bool.split)
  ultimately show "\<exists>m'. holds m' \<and> prepareQuery io d c stream s = m' s"
    by (auto split: option.splits if_splits)
qed

lemma holds_replies: "holds (query_reply io d c message)" "holds (execute_reply io d c message)"
  by (cases message; simp add: query_reply_def execute_reply_def holds_basic holds_errors holds_unexpected)+

lemma holds_connected:
  assumes "\<And>m. holds (reply m)"
  shows "holds (fut_then (prepareQuery io d c stream) (\<lambda>request.
    fut_then (sn_send io c env benv request stream) (\<lambda>_. fut_then (sn_wait io c stream) reply)))"
  by (intro holds_then holds_prepareQuery holds_basic assms)

end

lemma retry_law_attempt: "(\<And>c m. retry.holds (reply c m)) \<Longrightarrow> retry.holds (command_attempt io d reply)"
  unfolding command_attempt_def
  by (rule retry.holds_then [OF retry_law_getConnection]) (simp add: case_prod_beta retry.holds_connected)

lemma retry_law_query: "retry.holds (command_attempt io d (query_reply io d))"
  by (intro retry_law_attempt retry.holds_replies)

lemma retry_law_execute: "retry.holds (command_attempt io d (execute_reply io d))"
  by (intro retry_law_attempt retry.holds_replies)

interpretation query_attempt: retry_attempt "command_attempt io d (query_reply io d)"
  by unfold_locales (erule retry.holdsD [OF retry_law_query])

interpretation execute_attempt: retry_attempt "command_attempt io d (execute_reply io d)"
  by unfold_locales (erule retry.holdsD [OF retry_law_execute])

end
