(* ===== verification/Session_Batch.thy ===== *)
theory Session_Batch
  imports Session
begin

text \<open>
  \<^verbatim>\<open>Session::batchExecute\<close>. The statements that need it are prepared in a pipeline: all
  PREPARE messages are sent before the first answer is awaited, and no answer is handled before all have
  arrived. The loop that queues the messages does not wait, so it is one step here, followed by the
  sends, the receives and the handling of the answers.
\<close>

text \<open>
  The loop over the queries: cached ids go into the message, the indexes of the other queries that need
  to be prepared are collected.
\<close>

fun batch_collect ::
  "batch_env \<Rightarrow> nat \<Rightarrow> batch_query_data list \<Rightarrow> node_configuration \<Rightarrow> batch_message \<Rightarrow>
   (nat list \<times> batch_message) result \<times> node_configuration" where
  "batch_collect benv i [] node bm = (Inr ([], bm), node)"
| "batch_collect benv i (q # qs) node bm =
     (case bq_needPrepare q of
        None \<Rightarrow> (Inl UndefinedBehaviour, node)
      | Some False \<Rightarrow> batch_collect benv (Suc i) qs node bm
      | Some True \<Rightarrow>
          (let (pid, node) = nc_getPreparedQueryId (bq_queryStr q) node in
           if pid \<noteq> [] then
             (case bm_setPreparedQueryId benv i pid bm of
                Inl e \<Rightarrow> (Inl e, node)
              | Inr bm \<Rightarrow> batch_collect benv (Suc i) qs node bm)
           else
             (case batch_collect benv (Suc i) qs node bm of
                (Inl e, node) \<Rightarrow> (Inl e, node)
              | (Inr (indexes, bm), node) \<Rightarrow> (Inr (i # indexes, bm), node))))"

fun sn_sendPrepares :: "'s session_io \<Rightarrow> nat \<Rightarrow> batch_env \<Rightarrow> stream \<Rightarrow> string_holder list \<Rightarrow> ('s, unit) sn" where
  "sn_sendPrepares io c benv stream [] = fut_return ()"
| "sn_sendPrepares io c benv stream (q # qs) =
     fut_then (sn_send io c (\<lambda>_. None) benv (prepare_request q) stream) (\<lambda>_. sn_sendPrepares io c benv stream qs)"

fun sn_waitPrepares :: "'s session_io \<Rightarrow> nat \<Rightarrow> stream \<Rightarrow> nat \<Rightarrow> ('s, response list) sn" where
  "sn_waitPrepares io c stream 0 = fut_return []"
| "sn_waitPrepares io c stream (Suc n) =
     fut_then (sn_wait io c stream) (\<lambda>m.
     fut_then (sn_waitPrepares io c stream n) (\<lambda>ms. fut_return (m # ms)))"

fun batch_handleResults ::
  "'s session_io \<Rightarrow> batch_command_data \<Rightarrow> nat \<Rightarrow> batch_env \<Rightarrow> (nat \<times> response) list \<Rightarrow> batch_message \<Rightarrow> ('s, batch_message) sn" where
  "batch_handleResults io d c benv [] bm = fut_return bm"
| "batch_handleResults io d c benv ((i, message) # rest) bm =
     (if hs_opcode message = MT_Result then
        (case message of
           RespResult m \<Rightarrow>
             if re_getKind m = RK_Prepared then
               (\<lambda>s. let pid = ss_value (re_preparedQueryId m);
                       s = sn_setNode io c (nc_setPreparedQueryId (bq_queryStr (bd_queries d ! i)) pid (sn_node io c s)) s in
                  fut_then (sn_lift (bm_setPreparedQueryId benv i pid bm)) (batch_handleResults io d c benv rest) s)
             else handleUnexpectResultKind ''PREPARE''
         | _ \<Rightarrow> fut_throw (LowerError UndefinedBehaviour))
      else if hs_opcode message = MT_Error then
        (case message of
           RespError m \<Rightarrow> handleBatchErrorMessage io c d m
         | _ \<Rightarrow> fut_throw (LowerError UndefinedBehaviour))
      else handleUnexpectMessage ''PREPARE'')"

definition prepareQueries ::
  "'s session_io \<Rightarrow> batch_command_data \<Rightarrow> nat \<Rightarrow> stream \<Rightarrow> batch_message \<Rightarrow> ('s, batch_message) sn" where
  "prepareQueries io d c stream bm s =
     (case batch_collect (session_batch_env d) 0 (bd_queries d) (sn_node io c s) bm of
        (r, node) \<Rightarrow>
          (let s = sn_setNode io c node s in
           case r of
             Inl e \<Rightarrow> (Inl (LowerError e), s)
           | Inr (indexes, bm) \<Rightarrow>
               if indexes = [] then (Inr bm, s)
               else fut_then (sn_sendPrepares io c (session_batch_env d) stream (map (\<lambda>i. bq_queryStr (bd_queries d ! i)) indexes)) (\<lambda>_.
                    fut_then (sn_waitPrepares io c stream (length indexes)) (\<lambda>messages.
                      batch_handleResults io d c (session_batch_env d) (zip indexes messages) bm)) s))"

definition batch_reply :: "'s session_io \<Rightarrow> batch_command_data \<Rightarrow> nat \<Rightarrow> response \<Rightarrow> ('s, unit) sn" where
  "batch_reply io d c message =
     (if hs_opcode message = MT_Result then fut_return ()
      else if hs_opcode message = MT_Error then
        (case message of
           RespError m \<Rightarrow> handleBatchErrorMessage io c d m
         | _ \<Rightarrow> fut_throw (LowerError UndefinedBehaviour))
      else handleUnexpectMessage ''BATCH'')"

definition batch_begin :: "batch_command_data \<Rightarrow> batch_message result" where
  "batch_begin d =
     rbind (bp_setBatchCommandRef (RefExt 0) (session_batch_env d) (bm_batchParameters new_batch)) (\<lambda>bp.
       Inr (new_batch\<lparr>bm_batchParameters := bp\<rparr>))"

definition batch_attempt :: "'s session_io \<Rightarrow> batch_command_data \<Rightarrow> ('s, unit) sn" where
  "batch_attempt io d =
     fut_then (sn_getConnection io) (\<lambda>(c, stream).
     fut_then (sn_lift (batch_begin d)) (\<lambda>bm.
     fut_then (prepareQueries io d c stream bm) (\<lambda>bm.
     fut_then (sn_send io c (\<lambda>_. None) (session_batch_env d) (ReqBatch bm) stream) (\<lambda>_.
     fut_then (sn_wait io c stream) (batch_reply io d c)))))"

definition session_batchExecute ::
  "'s session_io \<Rightarrow> session_configuration \<Rightarrow> batch_command \<Rightarrow> 's session \<Rightarrow> ((session_error + unit) \<times> 's session) option" where
  "session_batchExecute io cfg command s =
     (case command of
        None \<Rightarrow> Some (Inl (LowerError LogicException), s)
      | Some d \<Rightarrow>
          if bd_queries d = [] then Some (Inr (), s)
          else
            let s = sn_begin (bd_maxRetries d) s; d = setBatchDefaultValues cfg d in
            sn_repeat io batch_succeeded batch_failed (batch_attempt io d) s)"

section \<open>What holds of the parts holds of a batch attempt\<close>

context attempt_relation
begin

lemma holds_sendPrepares: "holds (sn_sendPrepares io c benv stream qs)"
  by (induction qs) (simp_all only: sn_sendPrepares.simps holds_then holds_basic)

lemma holds_waitPrepares: "holds (sn_waitPrepares io c stream n)"
  by (induction n) (simp_all only: sn_waitPrepares.simps holds_then holds_basic)

lemma holds_handleResults: "holds (batch_handleResults io d c benv results bm)"
proof (induction results arbitrary: bm)
  case Nil
  show ?case by (simp only: batch_handleResults.simps holds_basic)
next
  case (Cons result rest)
  obtain i message where r: "result = (i, message)" by fastforce
  have store: "holds (\<lambda>s. fut_then (sn_lift v) (batch_handleResults io d c benv rest) (sn_setNode io c (f s) s))" for v f
    by (rule holds_node) (intro holds_then holds_basic Cons.IH)
  show ?case
    by (cases message) (simp_all add: r Let_def holds_basic holds_errors holds_unexpected store)
qed

lemma holds_prepareQueries: "holds (prepareQueries io d c stream bm)"
proof (rule holds_pointwise)
  fix s
  let ?benv = "session_batch_env d"
  let ?p = "batch_collect ?benv 0 (bd_queries d) (sn_node io c s) bm"
  let ?ask = "\<lambda>indexes bm. fut_then (sn_sendPrepares io c ?benv stream (map (\<lambda>i. bq_queryStr (bd_queries d ! i)) indexes)) (\<lambda>_.
      fut_then (sn_waitPrepares io c stream (length indexes)) (\<lambda>messages.
        batch_handleResults io d c ?benv (zip indexes messages) bm))"
  have "holds (\<lambda>s. ?ask indexes bm (sn_setNode io c (snd ?p) s))" for indexes bm
    by (rule holds_node) (intro holds_then holds_sendPrepares holds_waitPrepares holds_handleResults)
  moreover have "holds (\<lambda>s. sn_lift v (sn_setNode io c (snd ?p) s))" for v :: "batch_message result"
    by (rule holds_node) (rule holds_basic)
  moreover have "prepareQueries io d c stream bm s =
      (case fst ?p of
         Inl e \<Rightarrow> sn_lift (Inl e) (sn_setNode io c (snd ?p) s)
       | Inr (indexes, bm) \<Rightarrow>
           if indexes = [] then sn_lift (Inr bm) (sn_setNode io c (snd ?p) s)
           else ?ask indexes bm (sn_setNode io c (snd ?p) s))"
    by (simp add: prepareQueries_def case_prod_beta Let_def sn_lift_def split: sum.split)
  ultimately show "\<exists>m'. holds m' \<and> prepareQueries io d c stream bm s = m' s"
    by (auto split: sum.splits prod.splits if_splits)
qed

lemma holds_batch_reply: "holds (batch_reply io d c message)"
  by (cases message; simp add: batch_reply_def holds_basic holds_errors holds_unexpected)

lemma holds_batch_connected:
  "holds (fut_then (sn_lift (batch_begin d)) (\<lambda>bm.
     fut_then (prepareQueries io d c stream bm) (\<lambda>bm.
     fut_then (sn_send io c env benv (ReqBatch bm) stream) (\<lambda>_.
     fut_then (sn_wait io c stream) (batch_reply io d c)))))"
  by (intro holds_then holds_basic holds_prepareQueries holds_batch_reply)

end

lemma retry_law_batch: "retry.holds (batch_attempt io d)"
  unfolding batch_attempt_def
  by (rule retry.holds_then [OF retry_law_getConnection]) (simp add: case_prod_beta retry.holds_batch_connected)

interpretation batch_attempt: retry_attempt "batch_attempt io d"
  by unfold_locales (erule retry.holdsD [OF retry_law_batch])

end
