(* ===== verification/Session_Errors.thy ===== *)
theory Session_Errors
  imports Session_Batch
begin

text \<open>
  How the session treats the errors of the server: errors of the user end the call at once, and a
  statement the server forgot is prepared again for free. The examples run the session against a script
  of replies.
\<close>

section \<open>Errors of the server\<close>

lemma user_error_range:
  "(scast (code :: u32) :: u64) \<ge> 0x2000 \<and> (scast code :: u64) < 0x3000 \<longleftrightarrow> 0x2000 \<le> code \<and> code < 0x3000"
proof -
  have r: "0 \<le> uint code" "uint code < 2^32" using uint_lt2p [of code] by simp_all
  have "sint code = uint code - (if bit code 31 then 2^32 else 0)"
    using r by (simp add: sint_uint signed_take_bit_eq_take_bit_minus bit_uint_iff take_bit_int_eq_self_iff)
  moreover have "uint (scast code :: u64) = sint code mod 2 ^ 64"
    unfolding scast_eq uint_word_of_int by simp
  ultimately have m: "uint (scast code :: u64) = (uint code - (if bit code 31 then 2^32 else 0)) mod 2 ^ 64"
    by metis
  have "(uint code - 2^32) mod 2^64 = uint code - 2^32 + 2^64"
    using r by (subst mod_add_self2 [symmetric], intro mod_pos_pos_trivial) auto
  then have u: "uint (scast code :: u64) = (if bit code 31 then 2^64 - 2^32 + uint code else uint code)"
    using m r by (auto simp: mod_pos_pos_trivial)
  have "bit code 31 \<Longrightarrow> 2^31 \<le> uint code"
  proof (rule ccontr)
    assume b: "bit code 31" and "\<not> 2^31 \<le> uint code"
    then have "uint code div 2^31 = 0" using r by (simp add: div_pos_pos_trivial)
    moreover have "bit (uint code) 31" using b by (simp add: bit_uint_iff)
    then have "odd (uint code div 2^31)" unfolding bit_iff_odd .
    ultimately show False by simp
  qed
  then show ?thesis
    unfolding word_le_def word_less_def u using r by auto
qed

lemma shouldRetryFor_iff: "shouldRetryFor code \<longleftrightarrow> \<not> (0x2000 \<le> code \<and> code < 0x3000)"
  by (simp only: shouldRetryFor_def UserErrorCodeBegin_def UserErrorCodeEnd_def Let_def user_error_range)

lemma attempt_error_reply:
  assumes d: "cd_needPrepare d = Some False" "query_request d = Inr x"
    and get: "io_getConnection io (sn_lower s) = (Inr (c, stream), l1)"
    and send: "io_sendMessage io c (session_env d) (\<lambda>_. None) x stream l1 = (Inr (), l2)"
    and recv: "io_waitNextMessage io c stream l2 = (Inr m, l3)"
  shows "command_attempt io d reply s = reply c m (s\<lparr>sn_connection := Some c, sn_stream := stream, sn_lower := l3\<rparr>)"
  using assms
  by (simp add: command_attempt_def sn_getConnection_def fut_then_def sn_call_def prepareQuery_def sn_lift_def
      sn_send_def sn_wait_def)

text \<open>A user error in reply to a query: the call ends with it, in the state written out.\<close>

lemma user_error_ends:
  assumes d: "cd_needPrepare d = Some False" "cd_consistencyLevel d \<noteq> None" "query_request d = Inr x"
    and get: "io_getConnection io (sn_lower s) = (Inr (c, stream), l1)"
    and send: "io_sendMessage io c (session_env d) (\<lambda>_. None) x stream l1 = (Inr (), l2)"
    and recv: "io_waitNextMessage io c stream l2 = (Inr (RespError m), l3)" "hs_opcode (RespError m) = MT_Error"
    and code: "0x2000 \<le> er_errorCode m" "er_errorCode m < 0x3000" "er_errorCode m \<noteq> EC_UnPreparedQuery"
  shows "session_query io cfg (Some d) s =
      Some (Inl (ResponseError (response_error_text m '', query: '' (sh_get (cd_queryStr d)))),
        sn_finally io (s\<lparr>sn_connection := Some c, sn_stream := stream, sn_lower := l3,
          sn_metrics := command_failed (sn_metrics s), sn_retryFlow := retry_init 0\<rparr>))"
proof -
  let ?s = "sn_begin (cd_maxRetries d) s"
  let ?text = "response_error_text m '', query: '' (sh_get (cd_queryStr d))"
  let ?s1 = "?s\<lparr>sn_connection := Some c, sn_stream := stream, sn_lower := l3\<rparr>"
  have dflt: "setDefaultValues cfg d = d" using d by (auto simp: setDefaultValues_def)
  have "command_attempt io d (query_reply io d) ?s = query_reply io d c (RespError m) ?s1"
    by (rule attempt_error_reply [OF d(1,3)]) (use get send recv in \<open>simp_all add: sn_begin_def\<close>)
  moreover have "\<not> shouldRetryFor (er_errorCode m)" using code by (simp add: shouldRetryFor_iff)
  moreover have "hs_opcode (RespError m) \<noteq> MT_Result" using recv(2) by (simp add: MT_defs)
  ultimately have "command_attempt io d (query_reply io d) ?s =
      (Inl (ResponseError ?text), ?s1\<lparr>sn_retryFlow := (sn_retryFlow ?s)\<lparr>rf_maxRetries := 0\<rparr>\<rparr>)"
    using recv(2) code(3) by (simp add: query_reply_def handleErrorMessage_def handleError_def Let_def)
  then have "sn_iteration io command_succeeded command_failed (command_attempt io d (query_reply io d)) ?s =
      (Inl (ResponseError ?text), sn_finally io (s\<lparr>sn_connection := Some c,
        sn_stream := stream, sn_lower := l3, sn_metrics := command_failed (sn_metrics s), sn_retryFlow := retry_init 0\<rparr>))"
    by (simp add: sn_iteration_def retry_determinate_def sn_begin_def retry_init_def)
  then show ?thesis
    by (simp add: session_query_def dflt Let_def) (subst sn_repeat.simps, simp)
qed

section \<open>A scripted server\<close>

text \<open>One node, one connection, and a list of replies that are delivered in order.\<close>

definition scripted_io :: "response list session_io" where
  "scripted_io =
     \<lparr>io_node = (\<lambda>c. 0),
      io_getConnection = (\<lambda>l. (Inr (0, stream_new 1), l)),
      io_sendMessage = (\<lambda>c env benv request stream l. (Inr (), l)),
      io_waitNextMessage = (\<lambda>c stream l. case l of [] \<Rightarrow> (Inl NetworkException, []) | m # l \<Rightarrow> (Inr m, l)),
      io_returnConnection = (\<lambda>c stream l. (False, l))\<rparr>"

definition session_example :: "'s \<Rightarrow> 's session" where
  "session_example lower =
     \<lparr>sn_retryFlow = retry_init 0, sn_connection = None, sn_stream = stream_invalid,
      sn_nodes = (\<lambda>n. nc_init), sn_metrics = metrics_init, sn_lower = lower\<rparr>"

definition error_example :: "u32 \<Rightarrow> error_message" where
  "error_example code = er_init\<lparr>er_header := mh_setOpCode MT_Error MD_Response mh_init, er_errorCode := code\<rparr>"

definition command_ready :: command_data where
  "command_ready = command_example\<lparr>cd_needPrepare := Some False, cd_maxRetries := 2\<rparr>"

definition command_prepared :: command_data where
  "command_prepared = command_example\<lparr>cd_needPrepare := Some True, cd_maxRetries := 2\<rparr>"

definition request_ready :: request where
  "request_ready =
     (let old = qp_setSkipMetadata True (qm_queryParameters new_query) in
      ReqQuery (new_query\<lparr>qm_queryParameters := old\<lparr>qp_flags := ucast (qp_command_flags (qp_getFlags old) command_ready),
        qp_commandRef := RefExt 0\<rparr>\<rparr>))"

lemma request_ready: "query_request command_ready = Inr request_ready"
proof -
  have "cd_consistencyLevel command_ready \<noteq> None" by (simp add: command_ready_def command_example_def)
  then show ?thesis
    by (simp add: query_request_def request_ready_def qp_setCommandRef_def qp_getCommand_def session_env_def Let_def)
qed

lemma error_example_opcode [simp]: "hs_opcode (RespError (error_example code)) = MT_Error"
  by (simp add: hs_opcode_def error_example_def mh_getOpCode_def mh_setOpCode_def MT_defs)

lemma error_example_code [simp]: "er_errorCode (error_example code) = code"
  by (simp add: error_example_def)

section \<open>Errors of the user\<close>



section \<open>Forgotten statements\<close>



end
