(* ===== verification/Session_Trace.thy ===== *)
theory Session_Trace
  imports Session_Errors
begin

text \<open>
  What a call of the session does, seen from outside: it returns, its attempts are counted and bounded,
  errors of the user are not retried, every connection it took goes back, and what it sends carries the
  command with its defaults and prepared ids that belong to the statement. Calls to the lower layers are
  observed by an interface that logs them.
\<close>

section \<open>Calls return\<close>

text \<open>
  C2: Every call of the session returns, whatever the pool, the connections and the server do, and the
  exception that asks for a retry never reaches the caller.
\<close>

theorem session_calls_return:
  "(\<exists>r s'. session_query io cfg command s = Some (r, s') \<and> r \<noteq> Inl RetryException) \<and>
   (\<exists>r s'. session_execute io cfg command s = Some (r, s') \<and> r \<noteq> Inl RetryException) \<and>
   (\<exists>r s'. session_batchExecute io cfg bcommand s = Some (r, s') \<and> r \<noteq> Inl RetryException)"
proof (intro conjI)
  show "\<exists>r s'. session_query io cfg command s = Some (r, s') \<and> r \<noteq> Inl RetryException"
  proof (cases command)
    case (Some d)
    obtain r s' where "sn_repeat io command_succeeded command_failed
        (command_attempt io (setDefaultValues cfg d) (query_reply io (setDefaultValues cfg d))) (sn_begin (cd_maxRetries d) s) = Some (r, s')"
      "r \<noteq> Inl RetryException"
      using query_attempt.repeat_ends by blast
    with Some show ?thesis by (cases r) (auto simp: session_query_def Let_def)
  qed (simp add: session_query_def)
  show "\<exists>r s'. session_execute io cfg command s = Some (r, s') \<and> r \<noteq> Inl RetryException"
    using execute_attempt.repeat_ends by (cases command) (simp_all add: session_execute_def Let_def)
  show "\<exists>r s'. session_batchExecute io cfg bcommand s = Some (r, s') \<and> r \<noteq> Inl RetryException"
    using batch_attempt.repeat_ends by (cases bcommand) (simp_all add: session_batchExecute_def Let_def, blast)
qed


section \<open>The log\<close>

datatype session_event =
    Got nat stream
  | Sent nat request
  | Received nat response
  | Returned nat

definition io_traced :: "'s session_io \<Rightarrow> ('s \<times> session_event list) session_io" where
  "io_traced io =
     \<lparr>io_node = io_node io,
      io_getConnection = (\<lambda>(s, log). case io_getConnection io s of
          (Inl e, s) \<Rightarrow> (Inl e, (s, log))
        | (Inr (c, stream), s) \<Rightarrow> (Inr (c, stream), (s, log @ [Got c stream]))),
      io_sendMessage = (\<lambda>c env benv request stream (s, log).
          (case io_sendMessage io c env benv request stream s of (r, s) \<Rightarrow> (r, (s, log @ [Sent c request])))),
      io_waitNextMessage = (\<lambda>c stream (s, log). case io_waitNextMessage io c stream s of
          (Inl e, s) \<Rightarrow> (Inl e, (s, log))
        | (Inr m, s) \<Rightarrow> (Inr m, (s, log @ [Received c m]))),
      io_returnConnection = (\<lambda>c stream (s, log).
          (case io_returnConnection io c stream s of (moved, s) \<Rightarrow> (moved, (s, log @ [Returned c]))))\<rparr>"

definition sn_log :: "('s \<times> session_event list) session \<Rightarrow> session_event list" where
  "sn_log s = snd (sn_lower s)"

fun is_message :: "session_event \<Rightarrow> bool" where
  "is_message (Sent c r) = True"
| "is_message (Received c m) = True"
| "is_message (Got c stream) = False"
| "is_message (Returned c) = False"

definition connection_events :: "session_event list \<Rightarrow> session_event list" where
  "connection_events = filter (\<lambda>e. \<not> is_message e)"

text \<open>Every connection taken with a valid stream is given back before the next one is taken.\<close>

fun balanced :: "session_event list \<Rightarrow> bool" where
  "balanced [] = True"
| "balanced (Got c stream # Returned c' # es) = (st_isValid stream \<and> c' = c \<and> balanced es)"
| "balanced (Got c stream # es) = (\<not> st_isValid stream \<and> balanced es)"
| "balanced (e # es) = False"

lemma balanced_Got: "balanced ys \<Longrightarrow> balanced (Got c stream # ys) \<longleftrightarrow> \<not> st_isValid stream"
  by (cases "(Got c stream # ys)" rule: balanced.cases) auto

lemma balanced_append: "balanced xs \<Longrightarrow> balanced ys \<Longrightarrow> balanced (xs @ ys)"
  by (induction xs rule: balanced.induct) (auto simp: balanced_Got)

section \<open>Connections go back\<close>

definition trace_rel ::
  "('s \<times> session_event list) session \<Rightarrow> session_error option \<Rightarrow> ('s \<times> session_event list) session \<Rightarrow> bool" where
  "trace_rel s e s' \<longleftrightarrow> sn_connection s' = sn_connection s \<and> sn_stream s' = sn_stream s \<and>
     connection_events (sn_log s') = connection_events (sn_log s)"

lemma trace_rel_send:
  "sn_send (io_traced io) c env benv request stream s = (r, s') \<Longrightarrow> trace_rel s (sn_error r) s'"
  by (cases "sn_lower s")
    (auto simp: sn_send_def sn_call_def io_traced_def trace_rel_def sn_log_def connection_events_def Let_def
      split: prod.splits)

lemma trace_rel_wait: "sn_wait (io_traced io) c stream s = (r, s') \<Longrightarrow> trace_rel s (sn_error r) s'"
  by (cases "sn_lower s")
    (auto simp: sn_wait_def sn_call_def io_traced_def trace_rel_def sn_log_def connection_events_def Let_def
      split: prod.splits sum.splits)

interpretation trace: attempt_relation "io_traced io" trace_rel
  by unfold_locales
    (auto simp: trace_rel_def sn_log_def dest: trace_rel_send [unfolded trace_rel_def sn_log_def]
      trace_rel_wait [unfolded trace_rel_def sn_log_def])

text \<open>An attempt takes at most one connection and keeps it.\<close>

definition takes_one ::
  "('s \<times> session_event list) session \<Rightarrow> ('s \<times> session_event list) session \<Rightarrow> bool" where
  "takes_one s s' \<longleftrightarrow>
     trace_rel s None s' \<or>
     (\<exists>c stream. sn_connection s' = Some c \<and> sn_stream s' = stream \<and>
        connection_events (sn_log s') = connection_events (sn_log s) @ [Got c stream])"

lemma getConnection_traced:
  assumes "sn_getConnection (io_traced io) s = (r, s1)"
  shows "(case r of
      Inl e \<Rightarrow> trace_rel s None s1
    | Inr (c, stream) \<Rightarrow> sn_connection s1 = Some c \<and> sn_stream s1 = stream \<and>
        connection_events (sn_log s1) = connection_events (sn_log s) @ [Got c stream])"
  using assms
  by (cases "sn_lower s")
    (auto simp: sn_getConnection_def fut_then_def sn_call_def io_traced_def trace_rel_def sn_log_def
      connection_events_def Let_def split: prod.splits sum.splits)

lemma attempt_takes_one:
  assumes "fut_then (sn_getConnection (io_traced io)) (\<lambda>(c, stream). body c stream) s = (r, s')"
    and body: "\<And>c stream. trace.holds (body c stream)"
  shows "takes_one s s'"
proof -
  obtain r1 s1 where get: "sn_getConnection (io_traced io) s = (r1, s1)" by fastforce
  show ?thesis
  proof (cases r1)
    case (Inl e)
    with getConnection_traced [OF get] assms(1) get show ?thesis by (auto simp: fut_then_def takes_one_def)
  next
    case (Inr cs)
    obtain c stream where cs: "cs = (c, stream)" by fastforce
    from assms(1) get Inr cs have "body c stream s1 = (r, s')" by (simp add: fut_then_def)
    from trace.holdsD [OF body this] getConnection_traced [OF get] Inr cs show ?thesis
      by (simp add: takes_one_def trace_rel_def)
  qed
qed

text \<open>The state between two rounds.\<close>

definition settled :: "('s \<times> session_event list) session \<Rightarrow> bool" where
  "settled s \<longleftrightarrow> \<not> st_isValid (sn_stream s) \<and> balanced (connection_events (sn_log s))"

lemma finally_settles:
  assumes "settled s" and "takes_one s s'"
  shows "settled (sn_finally (io_traced io) s')"
proof -
  have bal: "balanced (connection_events (sn_log s))" and inv: "\<not> st_isValid (sn_stream s)"
    using assms(1) by (simp_all add: settled_def)
  show ?thesis
  proof (cases "trace_rel s None s'")
    case True
    with bal inv show ?thesis by (auto simp: settled_def trace_rel_def sn_finally_def split: option.split)
  next
    case False
    with assms(2) obtain c where c: "sn_connection s' = Some c"
      and ev: "connection_events (sn_log s') = connection_events (sn_log s) @ [Got c (sn_stream s')]"
      by (auto simp: takes_one_def)
    show ?thesis
    proof (cases "st_isValid (sn_stream s')")
      case True
      have "connection_events (sn_log (sn_finally (io_traced io) s')) =
          connection_events (sn_log s) @ [Got c (sn_stream s'), Returned c]"
        using c True ev by (auto simp: sn_finally_def io_traced_def sn_log_def connection_events_def split: prod.splits)
      moreover have "\<not> st_isValid (sn_stream (sn_finally (io_traced io) s'))"
        using c True by (auto simp: sn_finally_def split: prod.splits)
      ultimately show ?thesis using bal True by (simp add: settled_def balanced_append)
    next
      case False
      then have "sn_finally (io_traced io) s' = s'" using c by (simp add: sn_finally_def)
      with bal False ev show ?thesis by (simp add: settled_def balanced_append)
    qed
  qed
qed

lemma finally_fields [simp]:
  "sn_finally io (s\<lparr>sn_metrics := m\<rparr>) = (sn_finally io s)\<lparr>sn_metrics := m\<rparr>"
  "sn_finally io (s\<lparr>sn_retryFlow := rf\<rparr>) = (sn_finally io s)\<lparr>sn_retryFlow := rf\<rparr>"
  by (auto simp: sn_finally_def split: option.splits prod.splits)

lemma settled_fields [simp]:
  "settled (s\<lparr>sn_metrics := m\<rparr>) = settled s" "settled (s\<lparr>sn_retryFlow := rf\<rparr>) = settled s"
  by (simp_all add: settled_def sn_log_def)

lemma iteration_settles:
  assumes "settled s" and it: "sn_iteration (io_traced io) succeeded failed attempt s = (r, s')"
    and attempt: "\<And>r s'. attempt s = (r, s') \<Longrightarrow> takes_one s s'"
    and "r \<noteq> Inl (LowerError UndefinedBehaviour)"
  shows "settled s'"
proof -
  obtain r1 s1 where run: "attempt s = (r1, s1)" by fastforce
  note settled = finally_settles [OF assms(1) attempt [OF run], of io]
  show ?thesis
    using it run settled assms(4)
    by (cases r1) (auto simp: sn_iteration_def split: prod.splits if_splits sum.splits)
qed

lemma repeat_settles:
  assumes "sn_repeat (io_traced io) succeeded failed attempt s = Some (r, s')" and "settled s"
    and "\<And>s r s'. attempt s = (r, s') \<Longrightarrow> takes_one s s'"
    and "r \<noteq> Inl (LowerError UndefinedBehaviour)"
  shows "settled s'"
proof -
  have "r \<noteq> Inl (LowerError UndefinedBehaviour) \<longrightarrow> settled s'"
    by (rule sn_repeat_invariant [OF assms(1), where I = settled])
      (use assms(2,3) iteration_settles in \<open>(blast | simp)+\<close>)
  with assms(4) show ?thesis by blast
qed

lemma command_attempt_takes_one:
  assumes "\<And>c m. trace.holds (reply c m)"
  shows "command_attempt (io_traced io) d reply s = (r, s') \<Longrightarrow> takes_one s s'"
  unfolding command_attempt_def by (erule attempt_takes_one) (rule trace.holds_connected [OF assms])

lemma query_takes_one:
  "command_attempt (io_traced io) d (query_reply (io_traced io) d) s = (r, s') \<Longrightarrow> takes_one s s'"
  "command_attempt (io_traced io) d (execute_reply (io_traced io) d) s = (ru, s') \<Longrightarrow> takes_one s s'"
  by (erule command_attempt_takes_one [rotated], rule trace.holds_replies)+

lemma batch_attempt_takes_one: "batch_attempt (io_traced io) d s = (r, s') \<Longrightarrow> takes_one s s'"
  unfolding batch_attempt_def by (erule attempt_takes_one) (rule trace.holds_batch_connected)

lemma settled_begin: "sn_log s = [] \<Longrightarrow> settled (sn_begin n s)"
  by (simp add: settled_def sn_begin_def stream_invalid_def sn_log_def connection_events_def)

text \<open>
  C1: Whether a call succeeds or fails and however often it retries, each connection it takes from the
  pool goes back exactly once, before the next one is taken.
\<close>

theorem connections_go_back:
  assumes "sn_log s = []"
  shows "(session_query (io_traced io) cfg command s = Some (r1, s1) \<and> r1 \<noteq> Inl (LowerError UndefinedBehaviour) \<longrightarrow>
      balanced (connection_events (sn_log s1))) \<and>
    (session_execute (io_traced io) cfg command s = Some (r2, s2) \<and> r2 \<noteq> Inl (LowerError UndefinedBehaviour) \<longrightarrow>
      balanced (connection_events (sn_log s2))) \<and>
    (session_batchExecute (io_traced io) cfg bcommand s = Some (r3, s3) \<and> r3 \<noteq> Inl (LowerError UndefinedBehaviour) \<longrightarrow>
      balanced (connection_events (sn_log s3)))"
proof (intro conjI impI; elim conjE)
  have none: "balanced (connection_events (sn_log s))" using assms by (simp add: connection_events_def)
  show "balanced (connection_events (sn_log s1))"
    if run: "session_query (io_traced io) cfg command s = Some (r1, s1)" "r1 \<noteq> Inl (LowerError UndefinedBehaviour)"
  proof (cases command)
    case (Some d)
    with run(1) obtain r where rep: "sn_repeat (io_traced io) command_succeeded command_failed
        (command_attempt (io_traced io) (setDefaultValues cfg d) (query_reply (io_traced io) (setDefaultValues cfg d)))
        (sn_begin (cd_maxRetries d) s) = Some (r, s1)"
      and r: "r = Inl (LowerError UndefinedBehaviour) \<longrightarrow> r1 = r"
      by (auto simp: session_query_def Let_def split: option.splits sum.splits prod.splits if_splits)
    have "settled s1"
      by (rule repeat_settles [OF rep settled_begin [OF assms] query_takes_one(1)]) (use r run(2) in auto)
    then show ?thesis by (simp add: settled_def)
  qed (use run none in \<open>simp add: session_query_def\<close>)
  show "balanced (connection_events (sn_log s2))"
    if run: "session_execute (io_traced io) cfg command s = Some (r2, s2)" "r2 \<noteq> Inl (LowerError UndefinedBehaviour)"
  proof (cases command)
    case (Some d)
    with run(1) have rep: "sn_repeat (io_traced io) command_succeeded command_failed
        (command_attempt (io_traced io) (setDefaultValues cfg d) (execute_reply (io_traced io) (setDefaultValues cfg d)))
        (sn_begin (cd_maxRetries d) s) = Some (r2, s2)"
      by (simp add: session_execute_def Let_def)
    have "settled s2" by (rule repeat_settles [OF rep settled_begin [OF assms] query_takes_one(2) run(2)])
    then show ?thesis by (simp add: settled_def)
  qed (use run none in \<open>simp add: session_execute_def\<close>)
  show "balanced (connection_events (sn_log s3))"
    if run: "session_batchExecute (io_traced io) cfg bcommand s = Some (r3, s3)" "r3 \<noteq> Inl (LowerError UndefinedBehaviour)"
  proof (cases "\<exists>d. bcommand = Some d \<and> bd_queries d \<noteq> []")
    case True
    then obtain d where "bcommand = Some d" "bd_queries d \<noteq> []" by blast
    with run(1) have rep: "sn_repeat (io_traced io) batch_succeeded batch_failed
        (batch_attempt (io_traced io) (setBatchDefaultValues cfg d)) (sn_begin (bd_maxRetries d) s) = Some (r3, s3)"
      by (simp add: session_batchExecute_def Let_def)
    have "settled s3" by (rule repeat_settles [OF rep settled_begin [OF assms] batch_attempt_takes_one run(2)])
    then show ?thesis by (simp add: settled_def)
  qed (use run none in \<open>auto simp: session_batchExecute_def split: option.splits\<close>)
qed

lemma traced_example:
  "session_query (io_traced scripted_io) cfg (Some command_ready) (session_example ([RespError (error_example 0x2000)], [])) =
     Some (Inl (ResponseError (response_error_text (error_example 0x2000) '', query: '' (sh_get (cd_queryStr command_ready)))),
       sn_finally (io_traced scripted_io) ((session_example ([RespError (error_example 0x2000)], []))\<lparr>sn_connection := Some 0,
         sn_stream := stream_new 1,
         sn_lower := ([], [Got 0 (stream_new 1), Sent 0 request_ready, Received 0 (RespError (error_example 0x2000))]),
         sn_metrics := command_failed metrics_init, sn_retryFlow := retry_init 0\<rparr>))"
  using user_error_ends [OF _ _ request_ready, of "io_traced scripted_io" "session_example ([RespError (error_example 0x2000)], [])"
      0 "stream_new 1" "([RespError (error_example 0x2000)], [Got 0 (stream_new 1)])"
      "([RespError (error_example 0x2000)], [Got 0 (stream_new 1), Sent 0 request_ready])" "error_example 0x2000"
      "([], [Got 0 (stream_new 1), Sent 0 request_ready, Received 0 (RespError (error_example 0x2000))])" cfg]
  by (simp add: io_traced_def scripted_io_def session_example_def EC_defs command_ready_def command_example_def)

theorem connections_go_back_witness:
  "\<exists>r s'. session_query (io_traced scripted_io) sc_init (Some command_ready)
      (session_example ([RespError (error_example 0x2000)], [])) = Some (r, s') \<and>
    balanced (connection_events (sn_log s'))"
proof -
  let ?s = "session_example ([RespError (error_example 0x2000)], [])"
  obtain r s' where run: "session_query (io_traced scripted_io) sc_init (Some command_ready) ?s = Some (r, s')"
    "r \<noteq> Inl (LowerError UndefinedBehaviour)"
    using traced_example [of sc_init] by blast
  have "sn_log ?s = []" by (simp add: sn_log_def session_example_def)
  from connections_go_back [OF this, of scripted_io sc_init "Some command_ready" r s'] run show ?thesis by blast
qed

end
