(* ===== verification/Session_Requests.thy ===== *)
theory Session_Requests
  imports Session_Trace
begin

text \<open>
  What the session sends: the requests carry the command with its defaults, and prepared ids belong to the
  statement and the node.
\<close>

section \<open>What the requests say\<close>

text \<open>
  The requests of a command with its defaults encode to bodies from which the server reads the text of
  the query or the prepared id, followed by all settings and values of the command.
\<close>

lemma session_requests_parsed:
  assumes ok: "qp_sendable d vs" and len: "length (sh_get (cd_queryStr d)) < 2 ^ 31" "length pid < 65536"
  shows "(\<exists>x w flags. query_request d = Inr x \<and> request_encodeBody (session_env d) benv x data = Inr (data @ w) \<and>
      rbind (long_string_decode (w @ rest)) (\<lambda>(q, bs). rbind (qp_decode_command bs) (\<lambda>r. Inr (ss_value q, r))) =
        Inr (sh_get (cd_queryStr d), command_received d, flags, rest)) \<and>
    (\<exists>x w flags. execute_request d pid = Inr x \<and> request_encodeBody (session_env d) benv x data = Inr (data @ w) \<and>
      rbind (short_bytes_decode (w @ rest)) (\<lambda>(i, bs). rbind (qp_decode_command bs) (\<lambda>r. Inr (ss_value i, r))) =
        Inr (pid, command_received d, flags, rest))"
proof
  have env: "session_env d 0 = Some d" by (simp add: session_env_def)
  from query_body_of_ref [where env = "session_env d" and a = 0 and m = new_query and data = data and rest = rest, OF env ok len(1)]
  show "\<exists>x w flags. query_request d = Inr x \<and> request_encodeBody (session_env d) benv x data = Inr (data @ w) \<and>
      rbind (long_string_decode (w @ rest)) (\<lambda>(q, bs). rbind (qp_decode_command bs) (\<lambda>r. Inr (ss_value q, r))) =
        Inr (sh_get (cd_queryStr d), command_received d, flags, rest)"
    by (auto simp: query_request_def)
  let ?old = "qp_setSkipMetadata True (em_queryParameters new_execute)"
  let ?flags = "ucast (qp_command_flags (qp_getFlags ?old) d)"
  let ?qp = "?old\<lparr>qp_flags := ?flags, qp_commandRef := RefExt 0\<rparr>"
  let ?m = "new_execute\<lparr>em_queryParameters := ?qp, em_preparedQueryId := ss_set pid (em_preparedQueryId new_execute)\<rparr>"
  have "cd_consistencyLevel d \<noteq> None" using ok by (auto simp: qp_sendable_def)
  then have set: "qp_setCommandRef (RefExt 0) (session_env d) ?old = Inr ?qp"
    using env unfolding qp_setCommandRef_def qp_getCommand_def by simp
  have cmd: "qp_getCommand (em_queryParameters ?m) (session_env d) = Some d"
    by (simp add: qp_getCommand_def env)
  have id: "string_ok (em_preparedQueryId ?m)"
    using len(2) by (simp add: ss_set_def string_ok_def sized_ok_def le_length_max_iff)
  from execute_body_parsed [OF cmd ok _ id, of "qp_getFlags ?old" data rest]
  obtain w where w: "em_encodeBody (session_env d) ?m data = Inr (data @ w)"
    and parse: "rbind (short_bytes_decode (w @ rest)) (\<lambda>(i, bs). rbind (qp_decode_command bs) (\<lambda>r. Inr (i, r))) =
      Inr (em_preparedQueryId ?m, command_received d, ?flags, rest)"
    by auto
  from parse obtain i bs where "short_bytes_decode (w @ rest) = Inr (i, bs)"
    "qp_decode_command bs = Inr (command_received d, ?flags, rest)" "i = em_preparedQueryId ?m"
    by (auto simp: rbind_eq_Inr)
  then have "rbind (short_bytes_decode (w @ rest)) (\<lambda>(i, bs). rbind (qp_decode_command bs) (\<lambda>r. Inr (ss_value i, r))) =
      Inr (pid, command_received d, ?flags, rest)"
    by (simp add: ss_set_def)
  with w set show "\<exists>x w flags. execute_request d pid = Inr x \<and> request_encodeBody (session_env d) benv x data = Inr (data @ w) \<and>
      rbind (short_bytes_decode (w @ rest)) (\<lambda>(i, bs). rbind (qp_decode_command bs) (\<lambda>r. Inr (ss_value i, r))) =
        Inr (pid, command_received d, flags, rest)"
    by (auto simp: execute_request_def)
qed

lemma session_requests_parsed_witness:
  "(\<exists>x w flags. query_request command_example = Inr x \<and>
      request_encodeBody (session_env command_example) (\<lambda>_. None) x [1] = Inr ([1] @ w) \<and>
      rbind (long_string_decode (w @ [5])) (\<lambda>(q, bs). rbind (qp_decode_command bs) (\<lambda>r. Inr (ss_value q, r))) =
        Inr (sh_get (cd_queryStr command_example), command_received command_example, flags, [5])) \<and>
    (\<exists>x w flags. execute_request command_example [7] = Inr x \<and>
      request_encodeBody (session_env command_example) (\<lambda>_. None) x [1] = Inr ([1] @ w) \<and>
      rbind (short_bytes_decode (w @ [5])) (\<lambda>(i, bs). rbind (qp_decode_command bs) (\<lambda>r. Inr (ss_value i, r))) =
        Inr ([7], command_received command_example, flags, [5]))"
  by (rule session_requests_parsed [OF command_example_ok]) (simp_all add: command_example_def ascii_def)

section \<open>Prepared ids belong to the statement\<close>

text \<open>
  The ids known for a statement on a node: the one cached when the call began, and those the server
  returned to a PREPARE on a connection to this node.
\<close>

definition cached_id :: "string_holder \<Rightarrow> node_configuration \<Rightarrow> bytes" where
  "cached_id q node = fst (nc_getPreparedQueryId q node)"

definition known_ids ::
  "'s session_io \<Rightarrow> string_holder \<Rightarrow> (nat \<Rightarrow> node_configuration) \<Rightarrow> session_event list \<Rightarrow> nat \<Rightarrow> bytes set" where
  "known_ids io q nodes log n =
     insert (cached_id q (nodes n))
       {pid. \<exists>c m. Received c (RespResult m) \<in> set log \<and> io_node io c = n \<and> re_getKind m = RK_Prepared \<and>
         pid = ss_value (re_preparedQueryId m)}"

definition expected_request ::
  "'s session_io \<Rightarrow> command_data \<Rightarrow> (nat \<Rightarrow> node_configuration) \<Rightarrow> session_event list \<Rightarrow> nat \<Rightarrow> request \<Rightarrow> bool" where
  "expected_request io d nodes log c x \<longleftrightarrow>
     (if cd_needPrepare d = Some True
      then x = prepare_request (cd_queryStr d) \<or>
        (\<exists>pid \<in> known_ids io (cd_queryStr d) nodes log (io_node io c). execute_request d pid = Inr x)
      else query_request d = Inr x)"

definition requests_inv ::
  "'s session_io \<Rightarrow> command_data \<Rightarrow> (nat \<Rightarrow> node_configuration) \<Rightarrow> ('s \<times> session_event list) session \<Rightarrow> bool" where
  "requests_inv io d nodes s \<longleftrightarrow>
     (\<forall>n. cached_id (cd_queryStr d) (sn_nodes s n) \<in> insert [] (known_ids io (cd_queryStr d) nodes (sn_log s) n)) \<and>
     (\<forall>c x. Sent c x \<in> set (sn_log s) \<longrightarrow> expected_request io d nodes (sn_log s) c x)"

lemma known_ids_mono: "known_ids io q nodes log n \<subseteq> known_ids io q nodes (log @ es) n"
  by (auto simp: known_ids_def)

lemma expected_request_mono: "expected_request io d nodes log c x \<Longrightarrow> expected_request io d nodes (log @ es) c x"
  using known_ids_mono by (fastforce simp: expected_request_def split: if_splits)

text \<open>A step that logs events, keeps or changes the prepared statements, and sends only what is expected.\<close>

lemma requests_inv_step:
  assumes inv: "requests_inv io d nodes s" and log: "sn_log s' = sn_log s @ es"
    and node: "\<And>n. cached_id (cd_queryStr d) (sn_nodes s' n) \<in>
        insert [] (insert (cached_id (cd_queryStr d) (sn_nodes s n)) (known_ids io (cd_queryStr d) nodes (sn_log s') n))"
    and sent: "\<And>c x. Sent c x \<in> set es \<Longrightarrow> expected_request io d nodes (sn_log s') c x"
  shows "requests_inv io d nodes s'"
  unfolding requests_inv_def
proof (intro conjI allI impI)
  fix n
  have "cached_id (cd_queryStr d) (sn_nodes s n) \<in> insert [] (known_ids io (cd_queryStr d) nodes (sn_log s') n)"
    using inv known_ids_mono [of io "cd_queryStr d" nodes "sn_log s" n es] unfolding requests_inv_def log by blast
  with node [of n] show "cached_id (cd_queryStr d) (sn_nodes s' n) \<in> insert [] (known_ids io (cd_queryStr d) nodes (sn_log s') n)"
    by auto
next
  fix c x assume "Sent c x \<in> set (sn_log s')"
  then consider "Sent c x \<in> set (sn_log s)" | "Sent c x \<in> set es" by (auto simp: log)
  then show "expected_request io d nodes (sn_log s') c x"
  proof cases
    case 1
    with inv show ?thesis unfolding requests_inv_def log by (blast intro: expected_request_mono)
  qed (rule sent)
qed

lemma cached_id_lookup [simp]: "cached_id q (snd (nc_getPreparedQueryId q' node)) = cached_id q node"
  by (auto simp: cached_id_def nc_getPreparedQueryId_def split: option.splits)

lemma cached_id_set:
  "cached_id q (nc_setPreparedQueryId q' pid node) = (if sh_equal q q' then pid else cached_id q node)"
  by (simp add: cached_id_def nc_prepared_lookup)

lemma io_traced_node [simp]: "io_node (io_traced io) = io_node io"
  by (simp add: io_traced_def)

lemma sn_nodes_setNode: "sn_nodes (sn_setNode io c node s) n = (if n = io_node io c then node else sn_nodes s n)"
  by (simp add: sn_setNode_def)

lemma sn_log_setNode [simp]: "sn_log (sn_setNode io c node s) = sn_log s"
  by (simp add: sn_log_def)

lemma requests_inv_cong:
  "sn_nodes s' = sn_nodes s \<Longrightarrow> sn_log s' = sn_log s \<Longrightarrow> requests_inv io d nodes s' = requests_inv io d nodes s"
  by (simp add: requests_inv_def)

lemma requests_inv_node:
  assumes "requests_inv io d nodes s"
    and "cached_id (cd_queryStr d) node \<in> insert [] (insert (cached_id (cd_queryStr d) (sn_node (io_traced io) c s))
      (known_ids io (cd_queryStr d) nodes (sn_log s) (io_node io c)))"
  shows "requests_inv io d nodes (sn_setNode (io_traced io) c node s)"
  by (rule requests_inv_step [OF assms(1), where es = "[]"])
    (use assms(2) in \<open>auto simp: sn_nodes_setNode sn_node_def\<close>)

lemma requests_inv_send:
  assumes "requests_inv io d nodes s" "expected_request io d nodes (sn_log s) c x"
    and "sn_send (io_traced io) c env benv x stream s = (r, s')"
  shows "requests_inv io d nodes s'"
proof -
  have log: "sn_log s' = sn_log s @ [Sent c x]" and "sn_nodes s' = sn_nodes s"
    using assms(3) by (cases "sn_lower s"; auto simp: sn_send_def sn_call_def io_traced_def sn_log_def split: prod.splits)+
  then show ?thesis
    using assms(2) expected_request_mono [of io d nodes "sn_log s" c x "[Sent c x]"]
    by (intro requests_inv_step [OF assms(1) log]) auto
qed

lemma requests_inv_wait:
  assumes "requests_inv io d nodes s" "sn_wait (io_traced io) c stream s = (r, s')"
  shows "requests_inv io d nodes s'" and "r = Inr m \<Longrightarrow> Received c m \<in> set (sn_log s')"
proof -
  obtain es where log: "sn_log s' = sn_log s @ es" and es: "\<forall>c x. Sent c x \<notin> set es" and n: "sn_nodes s' = sn_nodes s"
    and m: "r = Inr m \<Longrightarrow> Received c m \<in> set es"
    using assms(2)
    by (cases "sn_lower s") (auto simp: sn_wait_def sn_call_def io_traced_def sn_log_def split: prod.splits sum.splits)
  show "requests_inv io d nodes s'"
    by (rule requests_inv_step [OF assms(1) log]) (use es n in auto)
  show "r = Inr m \<Longrightarrow> Received c m \<in> set (sn_log s')" using m log by simp
qed

lemma requests_inv_getConnection:
  assumes "requests_inv io d nodes s" "sn_getConnection (io_traced io) s = (r, s')"
  shows "requests_inv io d nodes s'"
proof -
  obtain es where log: "sn_log s' = sn_log s @ es" and es: "\<forall>c x. Sent c x \<notin> set es" and n: "sn_nodes s' = sn_nodes s"
    using assms(2)
    by (cases "sn_lower s")
      (auto simp: sn_getConnection_def fut_then_def sn_call_def io_traced_def sn_log_def split: prod.splits sum.splits)
  show ?thesis by (rule requests_inv_step [OF assms(1) log]) (use es n in auto)
qed

lemma requests_inv_finally: "requests_inv io d nodes s \<Longrightarrow> requests_inv io d nodes (sn_finally (io_traced io) s)"
proof -
  assume inv: "requests_inv io d nodes s"
  obtain es where log: "sn_log (sn_finally (io_traced io) s) = sn_log s @ es" and es: "\<forall>c x. Sent c x \<notin> set es"
  proof -
    have "sn_log (sn_finally (io_traced io) s) = sn_log s \<or> (\<exists>c. sn_log (sn_finally (io_traced io) s) = sn_log s @ [Returned c])"
      by (cases "sn_lower s"; cases "sn_connection s")
        (auto simp: sn_finally_def io_traced_def sn_log_def split: prod.splits)
    then show thesis using that [of "[]"] that [of "[Returned _]"] by auto
  qed
  show ?thesis by (rule requests_inv_step [OF inv log]) (use es in auto)
qed

lemma requests_inv_error:
  assumes inv: "requests_inv io d nodes s" and run: "handleErrorMessage (io_traced io) c d m s = (r, s')"
  shows "requests_inv io d nodes s'"
proof -
  have evict: "requests_inv io d nodes (sn_evict (io_traced io) c (cd_queryStr d) s)"
    unfolding sn_evict_def by (rule requests_inv_node [OF inv]) (simp add: cached_id_set sh_equal_def)
  have fl: "requests_inv io d nodes (t\<lparr>sn_retryFlow := rf\<rparr>) = requests_inv io d nodes t" for t rf
    by (rule requests_inv_cong) (simp_all add: sn_log_def)
  show ?thesis
    using run inv evict by (auto simp: handleErrorMessage_def handleError_def Let_def fl split: if_splits)
qed

lemma requests_inv_unexpected:
  "requests_inv io d nodes s \<Longrightarrow> handleUnexpectMessage ty s = (r, s') \<Longrightarrow> requests_inv io d nodes s'"
  "requests_inv io d nodes s \<Longrightarrow> handleUnexpectResultKind ty s = (r, s') \<Longrightarrow> requests_inv io d nodes s'"
proof -
  have fl: "requests_inv io d nodes (t\<lparr>sn_retryFlow := rf\<rparr>) = requests_inv io d nodes t" for t rf
    by (rule requests_inv_cong) (simp_all add: sn_log_def)
  show "requests_inv io d nodes s \<Longrightarrow> handleUnexpectMessage ty s = (r, s') \<Longrightarrow> requests_inv io d nodes s'"
    and "requests_inv io d nodes s \<Longrightarrow> handleUnexpectResultKind ty s = (r, s') \<Longrightarrow> requests_inv io d nodes s'"
    by (auto simp: handleUnexpectMessage_def handleUnexpectResultKind_def fl)
qed

lemma requests_inv_prepare_reply:
  assumes inv: "requests_inv io d nodes s" and need: "cd_needPrepare d = Some True"
    and got: "Received c m \<in> set (sn_log s)" and run: "prepare_reply (io_traced io) d c m s = (r, s')"
  shows "requests_inv io d nodes s' \<and> (\<forall>x. r = Inr x \<longrightarrow> expected_request io d nodes (sn_log s') c x)"
proof (cases "\<exists>rm. m = RespResult rm \<and> re_getKind rm = RK_Prepared \<and> hs_opcode m = MT_Result")
  case True
  then obtain rm where m: "m = RespResult rm" "re_getKind rm = RK_Prepared" "hs_opcode m = MT_Result" by blast
  let ?pid = "ss_value (re_preparedQueryId rm)"
  let ?s = "sn_setNode (io_traced io) c (nc_setPreparedQueryId (cd_queryStr d) ?pid (sn_node (io_traced io) c s)) s"
  have known: "?pid \<in> known_ids io (cd_queryStr d) nodes (sn_log s) (io_node io c)"
    using got m by (auto simp: known_ids_def)
  then have "requests_inv io d nodes ?s"
    by (intro requests_inv_node [OF inv]) (simp add: cached_id_set sh_equal_def)
  moreover have "s' = ?s \<and> (\<forall>x. r = Inr x \<longrightarrow> execute_request d ?pid = Inr x)"
    using run m by (auto simp: prepare_reply_def sn_lift_def Let_def split: sum.splits)
  ultimately show ?thesis using known need by (auto simp: expected_request_def)
next
  case False
  with run inv show ?thesis
    by (cases m)
      (auto simp: prepare_reply_def MT_defs dest: requests_inv_error requests_inv_unexpected split: if_splits,
       auto simp: handleErrorMessage_def handleError_def handleUnexpectMessage_def handleUnexpectResultKind_def Let_def
         split: if_splits)
qed

lemma requests_inv_prepareQuery:
  assumes inv: "requests_inv io d nodes s" and run: "prepareQuery (io_traced io) d c stream s = (r, s')"
  shows "requests_inv io d nodes s' \<and> (\<forall>x. r = Inr x \<longrightarrow> expected_request io d nodes (sn_log s') c x)"
proof (cases "cd_needPrepare d = Some True")
  case False
  with run inv show ?thesis
    by (auto simp: prepareQuery_def sn_lift_def expected_request_def split: option.splits sum.splits bool.splits)
next
  case need: True
  let ?pid = "cached_id (cd_queryStr d) (sn_node (io_traced io) c s)"
  let ?s = "sn_setNode (io_traced io) c (snd (nc_getPreparedQueryId (cd_queryStr d) (sn_node (io_traced io) c s))) s"
  have inv1: "requests_inv io d nodes ?s" by (rule requests_inv_node [OF inv]) simp
  have pid: "?pid \<in> insert [] (known_ids io (cd_queryStr d) nodes (sn_log s) (io_node io c))"
    using inv by (simp add: requests_inv_def sn_node_def)
  show ?thesis
  proof (cases "?pid = []")
    case False
    with run need have "s' = ?s \<and> (\<forall>x. r = Inr x \<longrightarrow> execute_request d ?pid = Inr x)"
      by (auto simp: prepareQuery_def cached_id_def sn_lift_def case_prod_beta Let_def split: sum.splits)
    with inv1 False pid need show ?thesis by (auto simp: expected_request_def)
  next
    case True
    obtain r1 s1 where send: "sn_send (io_traced io) c (session_env d) (\<lambda>_. None) (prepare_request (cd_queryStr d)) stream ?s = (r1, s1)"
      by fastforce
    have inv2: "requests_inv io d nodes s1"
      by (rule requests_inv_send [OF inv1 _ send]) (simp add: expected_request_def need)
    obtain r2 s2 where wait: "sn_wait (io_traced io) c stream s1 = (r2, s2)" by fastforce
    note inv3 = requests_inv_wait [OF inv2 wait]
    show ?thesis
    proof (cases "\<exists>m. r1 = Inr () \<and> r2 = Inr m")
      case True
      then obtain m where "r1 = Inr ()" "r2 = Inr m" by blast
      with run need \<open>?pid = []\<close> send wait have "prepare_reply (io_traced io) d c m s2 = (r, s')"
        by (simp add: prepareQuery_def cached_id_def case_prod_beta Let_def fut_then_def)
      from requests_inv_prepare_reply [OF inv3(1) need inv3(2) this] \<open>r2 = Inr m\<close> show ?thesis by simp
    next
      case False
      with run need \<open>?pid = []\<close> send wait have "(s' = s1 \<or> s' = s2) \<and> (\<exists>e. r = Inl e)"
        by (cases r1; cases r2) (auto simp: prepareQuery_def cached_id_def case_prod_beta Let_def fut_then_def)
      with inv2 inv3(1) show ?thesis by auto
    qed
  qed
qed

lemma requests_inv_attempt:
  assumes inv: "requests_inv io d nodes s" and run: "command_attempt (io_traced io) d reply s = (r, s')"
    and reply: "\<And>c m s r s'. requests_inv io d nodes s \<Longrightarrow> reply c m s = (r, s') \<Longrightarrow> requests_inv io d nodes s'"
  shows "requests_inv io d nodes s'"
proof -
  obtain r1 s1 where get: "sn_getConnection (io_traced io) s = (r1, s1)" by fastforce
  note inv1 = requests_inv_getConnection [OF inv get]
  show ?thesis
  proof (cases r1)
    case (Inl e)
    with run get inv1 show ?thesis by (auto simp: command_attempt_def fut_then_def)
  next
    case 1: (Inr p)
    obtain c stream where p: "p = (c, stream)" by fastforce
    obtain r2 s2 where prep: "prepareQuery (io_traced io) d c stream s1 = (r2, s2)" by fastforce
    note inv2 = requests_inv_prepareQuery [OF inv1 prep]
    show ?thesis
    proof (cases r2)
      case (Inl e)
      with run get 1 p prep inv2 show ?thesis by (auto simp: command_attempt_def fut_then_def)
    next
      case 2: (Inr x)
      obtain r3 s3 where send: "sn_send (io_traced io) c (session_env d) (\<lambda>_. None) x stream s2 = (r3, s3)" by fastforce
      have inv3: "requests_inv io d nodes s3" by (rule requests_inv_send [OF _ _ send]) (use inv2 2 in auto)
      obtain r4 s4 where wait: "sn_wait (io_traced io) c stream s3 = (r4, s4)" by fastforce
      note inv4 = requests_inv_wait(1) [OF inv3 wait]
      show ?thesis
        using run get 1 p prep 2 send wait inv3 inv4 reply
        by (cases r3; cases r4) (auto simp: command_attempt_def fut_then_def)
    qed
  qed
qed

lemma requests_inv_replies:
  assumes inv: "requests_inv io d nodes s"
  shows "query_reply (io_traced io) d c m s = (r, s') \<Longrightarrow> requests_inv io d nodes s'"
    and "execute_reply (io_traced io) d c m s = (ru, s') \<Longrightarrow> requests_inv io d nodes s'"
  using inv
  by (cases m; auto simp: query_reply_def execute_reply_def sn_lift_def
      dest: requests_inv_error requests_inv_unexpected split: if_splits sum.splits)+

lemma requests_inv_repeat:
  assumes run: "sn_repeat (io_traced io) succeeded failed attempt s = Some (r, s')"
    and inv: "requests_inv io d nodes s"
    and attempt: "\<And>s r s'. requests_inv io d nodes s \<Longrightarrow> attempt s = (r, s') \<Longrightarrow> requests_inv io d nodes s'"
  shows "requests_inv io d nodes s'"
proof -
  have fields: "requests_inv io d nodes (t\<lparr>sn_metrics := m\<rparr>) = requests_inv io d nodes t"
    "requests_inv io d nodes (t\<lparr>sn_retryFlow := rf\<rparr>) = requests_inv io d nodes t" for t m rf
    by (rule requests_inv_cong; simp add: sn_log_def)+
  have step: "requests_inv io d nodes t'"
    if "requests_inv io d nodes t" "sn_iteration (io_traced io) succeeded failed attempt t = (r, t')" for t r t'
  proof -
    obtain r1 t1 where run: "attempt t = (r1, t1)" by fastforce
    note inv1 = attempt [OF that(1) run]
    note inv2 = requests_inv_finally [OF inv1]
    show ?thesis
      using that(2) run inv1 inv2 by (cases r1) (auto simp: sn_iteration_def fields split: prod.splits if_splits)
  qed
  show ?thesis
    by (rule sn_repeat_invariant [OF run, where I = "requests_inv io d nodes" and J = "\<lambda>_. requests_inv io d nodes"])
      (use inv step in blast)+
qed

lemma requests_inv_begin: "sn_log s = [] \<Longrightarrow> requests_inv io d (sn_nodes s) (sn_begin n s)"
  by (simp add: requests_inv_def sn_begin_def sn_log_def known_ids_def)

text \<open>
  C14: Every request of a call is one the command asks for: a QUERY with the command when it need not be
  prepared, and otherwise a PREPARE of its text or an EXECUTE whose id was cached for this statement on
  the node the connection leads to when the call began, or was returned since by the same node.
\<close>

theorem requests_belong_to_command:
  assumes "sn_log s = []"
  shows "(session_query (io_traced io) cfg (Some d) s = Some (r1, s1) \<and> Sent c x \<in> set (sn_log s1) \<longrightarrow>
      expected_request io (setDefaultValues cfg d) (sn_nodes s) (sn_log s1) c x) \<and>
    (session_execute (io_traced io) cfg (Some d) s = Some (r2, s2) \<and> Sent c x \<in> set (sn_log s2) \<longrightarrow>
      expected_request io (setDefaultValues cfg d) (sn_nodes s) (sn_log s2) c x)"
proof -
  let ?d = "setDefaultValues cfg d"
  let ?s = "sn_begin (cd_maxRetries d) s"
  note begin_inv = requests_inv_begin [OF assms, of io ?d "cd_maxRetries d"]
  have "requests_inv io ?d (sn_nodes s) s1"
    if run: "session_query (io_traced io) cfg (Some d) s = Some (r1, s1)"
  proof -
    from run obtain r where rep: "sn_repeat (io_traced io) command_succeeded command_failed
        (command_attempt (io_traced io) ?d (query_reply (io_traced io) ?d)) ?s = Some (r, s1)"
      by (auto simp: session_query_def Let_def split: option.splits sum.splits prod.splits if_splits)
    show ?thesis
      by (rule requests_inv_repeat [OF rep begin_inv])
        (erule requests_inv_attempt, assumption, erule requests_inv_replies(1))
  qed
  moreover have "requests_inv io ?d (sn_nodes s) s2"
    if run: "session_execute (io_traced io) cfg (Some d) s = Some (r2, s2)"
  proof -
    from run have rep: "sn_repeat (io_traced io) command_succeeded command_failed
        (command_attempt (io_traced io) ?d (execute_reply (io_traced io) ?d)) ?s = Some (r2, s2)"
      by (simp add: session_execute_def Let_def)
    show ?thesis
      by (rule requests_inv_repeat [OF rep begin_inv])
        (erule requests_inv_attempt, assumption, erule requests_inv_replies(2))
  qed
  ultimately show ?thesis unfolding requests_inv_def by blast
qed

theorem requests_belong_to_command_witness:
  "\<exists>r s'. session_query (io_traced scripted_io) sc_init (Some command_ready)
      (session_example ([RespError (error_example 0x2000)], [])) = Some (r, s') \<and> Sent 0 request_ready \<in> set (sn_log s') \<and>
    expected_request scripted_io (setDefaultValues sc_init command_ready) (\<lambda>n. nc_init) (sn_log s') 0 request_ready"
proof -
  let ?s = "session_example ([RespError (error_example 0x2000)], []) :: (response list \<times> session_event list) session"
  obtain r s' where run: "session_query (io_traced scripted_io) sc_init (Some command_ready) ?s = Some (r, s')"
    and sent: "Sent 0 request_ready \<in> set (sn_log s')"
    using traced_example [of sc_init] by (simp add: sn_finally_def io_traced_def scripted_io_def sn_log_def stream_new_def)
  have empty: "sn_log ?s = []" and nodes: "sn_nodes ?s = (\<lambda>n. nc_init)"
    by (simp_all add: sn_log_def session_example_def)
  have "expected_request scripted_io (setDefaultValues sc_init command_ready) (sn_nodes ?s) (sn_log s') 0 request_ready"
    using requests_belong_to_command [OF empty, where cfg = sc_init and d = command_ready and ?r1.0 = r and ?s1.0 = s' and c = 0
        and x = request_ready and io = scripted_io] run sent by metis
  with run sent show ?thesis unfolding nodes by blast
qed

end
