(* ===== verification/Columns.thy ===== *)
theory Columns
  imports Protocol_Net
begin

text \<open>
  The column types of \<^verbatim>\<open>include/CQLDriver/Common/ColumnTypes\<close> that hold a single value, and
  \<^verbatim>\<open>ColumnTrait\<close>, which writes a value with its size in front of it and reads it back.
\<close>

section \<open>Column types and their trait\<close>

text \<open>
  What the templates use of a column type. \<^verbatim>\<open>decodeBody(ptr, size)\<close> is given the
  \<open>size\<close> bytes at \<open>ptr\<close>, or \<open>None\<close> for a negative size, and the value it overwrites.
\<close>

record 'v column_type =
  ct_initial :: 'v
  ct_reset :: "'v \<Rightarrow> 'v"
  ct_encodeBody :: "'v \<Rightarrow> bytes \<Rightarrow> bytes"
  ct_decodeBody :: "bytes option \<Rightarrow> 'v \<Rightarrow> 'v result"

text \<open>A type together with its \<^verbatim>\<open>ColumnTrait\<close>, which containers use of their elements.\<close>

record 'v column =
  cl_initial :: 'v
  cl_reset :: "'v \<Rightarrow> 'v"
  cl_encode :: "'v \<Rightarrow> bytes \<Rightarrow> bytes"
  cl_decode :: "bytes \<Rightarrow> 'v \<Rightarrow> ('v \<times> bytes) result"

definition trait_encode :: "'v column_type \<Rightarrow> 'v \<Rightarrow> bytes \<Rightarrow> bytes" where
  "trait_encode ct v data =
     (let prevSize = length data + 4;
          data = ct_encodeBody ct v (data @ replicate 4 0);
          bodySize = (word_of_nat (length data - prevSize) :: u32)
      in take (prevSize - 4) data @ int_wire bodySize @ drop prevSize data)"

definition body_size :: "bytes \<Rightarrow> int" where
  "body_size bs = sint (word_of_nat (be_to_nat 0 (take 4 bs)) :: u32)"

definition trait_decode :: "'v column_type \<Rightarrow> bytes \<Rightarrow> 'v \<Rightarrow> ('v \<times> bytes) result" where
  "trait_decode ct bs v =
     (if length bs < 4 then Inl DecodeException
      else if body_size bs \<ge> 0 then
        (if int (length bs) < 4 + body_size bs then Inl DecodeException
         else rbind (ct_decodeBody ct (Some (take (nat (body_size bs)) (drop 4 bs))) v) (\<lambda>v.
           Inr (v, drop (4 + nat (body_size bs)) bs)))
      else Inl DecodeException)"

definition trait :: "'v column_type \<Rightarrow> 'v column" where
  "trait ct = \<lparr>cl_initial = ct_initial ct, cl_reset = ct_reset ct, cl_encode = trait_encode ct, cl_decode = trait_decode ct\<rparr>"

section \<open>Nullable\<close>

record 'v nullable =
  nb_value :: 'v
  nb_isNull :: bool

definition nullable_initial :: "'v column_type \<Rightarrow> 'v nullable" where
  "nullable_initial ct = \<lparr>nb_value = ct_initial ct, nb_isNull = True\<rparr>"

definition nullable_set :: "'v \<Rightarrow> 'v nullable \<Rightarrow> 'v nullable" where
  "nullable_set v n = \<lparr>nb_value = v, nb_isNull = False\<rparr>"

definition nullable_reset :: "'v column_type \<Rightarrow> 'v nullable \<Rightarrow> 'v nullable" where
  "nullable_reset ct n = \<lparr>nb_value = ct_reset ct (nb_value n), nb_isNull = True\<rparr>"

definition nullable_encodeBody :: "'v column_type \<Rightarrow> 'v nullable \<Rightarrow> bytes \<Rightarrow> bytes" where
  "nullable_encodeBody ct n data = (if \<not> nb_isNull n then ct_encodeBody ct (nb_value n) data else data)"

definition nullable_decodeBody :: "'v column_type \<Rightarrow> bytes option \<Rightarrow> 'v nullable \<Rightarrow> 'v nullable result" where
  "nullable_decodeBody ct body n =
     (case body of
        Some bs \<Rightarrow> rbind (ct_decodeBody ct (Some bs) (nb_value n)) (\<lambda>v. Inr \<lparr>nb_value = v, nb_isNull = False\<rparr>)
      | None \<Rightarrow> Inr (nullable_reset ct n))"

definition nullable_encode :: "'v column_type \<Rightarrow> 'v nullable \<Rightarrow> bytes \<Rightarrow> bytes" where
  "nullable_encode ct n data =
     (if nb_isNull n then data @ int_wire (- 1 :: u32) else trait_encode ct (nb_value n) data)"

definition nullable_decode :: "'v column_type \<Rightarrow> bytes \<Rightarrow> 'v nullable \<Rightarrow> ('v nullable \<times> bytes) result" where
  "nullable_decode ct bs n =
     (if length bs < 4 then Inl DecodeException
      else if body_size bs \<ge> 0 then
        (if int (length bs) < 4 + body_size bs then Inl DecodeException
         else rbind (nullable_decodeBody ct (Some (take (nat (body_size bs)) (drop 4 bs))) n) (\<lambda>n.
           Inr (n, drop (4 + nat (body_size bs)) bs)))
      else Inr (nullable_reset ct n, drop 4 bs))"

definition nullable_trait :: "'v column_type \<Rightarrow> 'v nullable column" where
  "nullable_trait ct =
     \<lparr>cl_initial = nullable_initial ct, cl_reset = nullable_reset ct, cl_encode = nullable_encode ct,
      cl_decode = nullable_decode ct\<rparr>"

section \<open>Contracts\<close>

text \<open>
  The contract of a column type: encoding appends, decoding reads back what was encoded whatever value
  it overwrites, resetting gives the default value. \<open>ok\<close> are the values the wire can carry.
\<close>

locale column_codec =
  fixes ct :: "'v column_type" and ok :: "'v \<Rightarrow> bool"
  assumes appends: "ct_encodeBody ct v data = data @ ct_encodeBody ct v []"
    and decodes: "ok v \<Longrightarrow> ct_decodeBody ct (Some (ct_encodeBody ct v [])) old = Inr v"
    and bounded: "ok v \<Longrightarrow> length (ct_encodeBody ct v []) < 2 ^ 31"
    and resets: "ct_reset ct old = ct_initial ct"

text \<open>The contract of a trait: what it wrote is read back, and nothing more is consumed.\<close>

locale column_io =
  fixes cl :: "'v column" and ok :: "'v \<Rightarrow> bool"
  assumes cl_appends: "cl_encode cl v data = data @ cl_encode cl v []"
    and cl_decodes: "ok v \<Longrightarrow> cl_decode cl (cl_encode cl v [] @ rest) old = Inr (v, rest)"
    and cl_resets: "cl_reset cl old = cl_initial cl"
    and cl_nonempty: "cl_encode cl v [] \<noteq> []"
    and cl_truncated: "ok v \<Longrightarrow> n < length (cl_encode cl v []) \<Longrightarrow> cl_decode cl (take n (cl_encode cl v [])) old = Inl DecodeException"

lemma be_to_nat_int_wire [simp]: "8 dvd LENGTH('l) \<Longrightarrow> be_to_nat 0 (int_wire (v :: 'l::len word)) = unat v"
  using unat_bound [of v] by (simp add: int_wire_def be_to_nat_be_of_nat pow256_width)

lemma int_wire_not_Nil [simp]: "8 dvd LENGTH('l) \<Longrightarrow> int_wire (v :: 'l::len word) \<noteq> []"
  by (metis div_greater_zero_iff dvd_imp_le len_gt_0 length_greater_0_conv length_int_wire zero_less_numeral)

lemma body_size_wire: "n < 2 ^ 31 \<Longrightarrow> body_size (int_wire (word_of_nat n :: u32) @ bs) = int n"
  by (simp add: body_size_def sint_u32_of_nat)

lemma body_size_null: "body_size (int_wire (- 1 :: u32) @ bs) = - 1"
  by (simp add: body_size_def)

context column_codec
begin

lemma trait_encode_wire:
  "trait_encode ct v data = data @ int_wire (word_of_nat (length (ct_encodeBody ct v [])) :: u32) @ ct_encodeBody ct v []"
  by (simp add: trait_encode_def Let_def appends [of v "data @ replicate 4 0"])

lemma trait_decode_wire:
  assumes "ok v"
  shows "trait_decode ct (trait_encode ct v [] @ rest) old = Inr (v, rest)"
  using decodes [OF assms, of old] bounded [OF assms]
  by (simp add: trait_decode_def trait_encode_wire body_size_wire)

lemma nullable_decode_wire:
  assumes "nb_isNull n \<Longrightarrow> nb_value n = ct_initial ct" "\<not> nb_isNull n \<Longrightarrow> ok (nb_value n)"
  shows "nullable_decode ct (nullable_encode ct n [] @ rest) old = Inr (n, rest)"
proof (cases "nb_isNull n")
  case True
  with assms(1) show ?thesis
    by (simp add: nullable_encode_def nullable_decode_def body_size_null nullable_reset_def resets)
next
  case False
  then have "ok (nb_value n)" by (rule assms(2))
  with False decodes [OF this, of "nb_value old"] bounded [OF this] show ?thesis
    by (simp add: nullable_encode_def nullable_decode_def nullable_decodeBody_def trait_encode_wire body_size_wire)
qed

end

context column_codec
begin

text \<open>A value whose last bytes are missing is refused.\<close>

lemma trait_truncated:
  assumes "ok v" "n < length (trait_encode ct v [])"
  shows "trait_decode ct (take n (trait_encode ct v [])) old = Inl DecodeException"
proof -
  let ?body = "ct_encodeBody ct v []"
  have len: "length ?body < 2 ^ 31" by (rule bounded [OF assms(1)])
  show ?thesis
  proof (cases "n < 4")
    case False
    then have "take n (trait_encode ct v []) = int_wire (word_of_nat (length ?body) :: u32) @ take (n - 4) ?body"
      by (simp add: trait_encode_wire)
    with False len assms(2) show ?thesis by (simp add: trait_decode_def body_size_wire trait_encode_wire)
  qed (simp add: trait_decode_def)
qed

lemma nullable_truncated:
  assumes "\<not> nb_isNull n \<Longrightarrow> ok (nb_value n)" "k < length (nullable_encode ct n [])"
  shows "nullable_decode ct (take k (nullable_encode ct n [])) old = Inl DecodeException"
proof (cases "nb_isNull n")
  case True
  with assms(2) show ?thesis by (simp add: nullable_encode_def nullable_decode_def)
next
  case False
  let ?body = "ct_encodeBody ct (nb_value n) []"
  have len: "length ?body < 2 ^ 31" by (rule bounded [OF assms(1) [OF False]])
  show ?thesis
  proof (cases "k < 4")
    case f: False
    have "take k (nullable_encode ct n []) = int_wire (word_of_nat (length ?body) :: u32) @ take (k - 4) ?body"
      using f False by (simp add: nullable_encode_def trait_encode_wire)
    with f False len assms(2) show ?thesis
      by (simp add: nullable_decode_def body_size_wire trait_encode_wire nullable_encode_def)
  qed (simp add: nullable_decode_def min_less_iff_disj)
qed

end

definition nullable_ok :: "'v column_type \<Rightarrow> ('v \<Rightarrow> bool) \<Rightarrow> 'v nullable \<Rightarrow> bool" where
  "nullable_ok ct ok n = (if nb_isNull n then nb_value n = ct_initial ct else ok (nb_value n))"

sublocale column_codec \<subseteq> trait: column_io "trait ct" ok
  by unfold_locales
    (simp_all add: trait_def trait_truncated, simp_all add: trait_encode_wire trait_decode_wire [unfolded trait_encode_wire, simplified] resets)

sublocale column_codec \<subseteq> nullable: column_io "nullable_trait ct" "nullable_ok ct ok"
proof unfold_locales
  show "cl_encode (nullable_trait ct) v data = data @ cl_encode (nullable_trait ct) v []" for v data
    by (simp add: nullable_trait_def nullable_encode_def trait_encode_wire)
  show "nullable_ok ct ok v \<Longrightarrow> cl_decode (nullable_trait ct) (cl_encode (nullable_trait ct) v [] @ rest) old = Inr (v, rest)"
    for v rest old
    by (simp add: nullable_trait_def nullable_ok_def nullable_decode_wire split: if_splits)
  show "cl_reset (nullable_trait ct) old = cl_initial (nullable_trait ct)" for old
    by (simp add: nullable_trait_def nullable_reset_def nullable_initial_def resets)
  show "cl_encode (nullable_trait ct) v [] \<noteq> []" for v
    by (simp add: nullable_trait_def nullable_encode_def trait_encode_wire)
  show "nullable_ok ct ok v \<Longrightarrow> n < length (cl_encode (nullable_trait ct) v []) \<Longrightarrow>
      cl_decode (nullable_trait ct) (take n (cl_encode (nullable_trait ct) v [])) old = Inl DecodeException" for v n old
    by (simp add: nullable_trait_def nullable_ok_def nullable_truncated split: if_splits)
qed

section \<open>Integers and booleans\<close>

text \<open>A negative size never equals the size of the type, so it is refused like any other wrong size.\<close>

definition integer_type :: "'l::len word column_type" where
  "integer_type =
     \<lparr>ct_initial = 0, ct_reset = (\<lambda>v. 0),
      ct_encodeBody = (\<lambda>v data. data @ int_wire v),
      ct_decodeBody = (\<lambda>body v. case body of
          None \<Rightarrow> Inl DecodeException
        | Some bs \<Rightarrow>
            if bs = [] then Inr 0
            else if length bs \<noteq> LENGTH('l) div 8 then Inl DecodeException
            else Inr (word_of_nat (be_to_nat 0 bs)))\<rparr>"

lemma integer_type_codec: "8 dvd LENGTH('l) \<Longrightarrow> LENGTH('l) div 8 < 2 ^ 31 \<Longrightarrow> column_codec (integer_type :: 'l::len word column_type) (\<lambda>_. True)"
  by unfold_locales (simp_all add: integer_type_def)

interpretation tinyint: column_codec "integer_type :: u8 column_type" "\<lambda>_. True"
  by (rule integer_type_codec) simp_all

interpretation smallint: column_codec "integer_type :: u16 column_type" "\<lambda>_. True"
  by (rule integer_type_codec) simp_all

interpretation int_column: column_codec "integer_type :: u32 column_type" "\<lambda>_. True"
  by (rule integer_type_codec) simp_all

interpretation bigint: column_codec "integer_type :: u64 column_type" "\<lambda>_. True"
  by (rule integer_type_codec) simp_all

text \<open>A boolean is a byte; every byte but zero is true.\<close>

definition boolean_set :: "bool \<Rightarrow> u8" where
  "boolean_set b = (if b then 1 else 0)"

definition boolean_get :: "u8 \<Rightarrow> bool" where
  "boolean_get v \<longleftrightarrow> v \<noteq> 0"

lemma boolean_get_set [simp]: "boolean_get (boolean_set b) = b"
  by (simp add: boolean_get_def boolean_set_def)

section \<open>Floating point numbers\<close>

text \<open>
  A number is its bit pattern. The bytes are those of the memory of the host, taken to be little-endian;
  unlike every other type, no byte order is applied.
\<close>

definition float_type :: "'l::len word column_type" where
  "float_type =
     \<lparr>ct_initial = 0, ct_reset = (\<lambda>v. 0),
      ct_encodeBody = (\<lambda>v data. data @ rev (int_wire v)),
      ct_decodeBody = (\<lambda>body v. case body of
          None \<Rightarrow> Inl DecodeException
        | Some bs \<Rightarrow>
            if bs = [] then Inr 0
            else if length bs \<noteq> LENGTH('l) div 8 then Inl DecodeException
            else Inr (word_of_nat (be_to_nat 0 (rev bs))))\<rparr>"

lemma float_type_codec: "8 dvd LENGTH('l) \<Longrightarrow> LENGTH('l) div 8 < 2 ^ 31 \<Longrightarrow> column_codec (float_type :: 'l::len word column_type) (\<lambda>_. True)"
  by unfold_locales (simp_all add: float_type_def)

interpretation float_column: column_codec "float_type :: u32 column_type" "\<lambda>_. True"
  by (rule float_type_codec) simp_all

interpretation double_column: column_codec "float_type :: u64 column_type" "\<lambda>_. True"
  by (rule float_type_codec) simp_all

section \<open>Strings, blobs and addresses\<close>

definition string_type :: "bytes column_type" where
  "string_type =
     \<lparr>ct_initial = [], ct_reset = (\<lambda>v. []),
      ct_encodeBody = (\<lambda>v data. data @ v),
      ct_decodeBody = (\<lambda>body v. case body of Some bs \<Rightarrow> Inr bs | None \<Rightarrow> Inr v)\<rparr>"

definition string_append :: "bytes \<Rightarrow> bytes \<Rightarrow> bytes" where
  "string_append str v = v @ str"

interpretation string_column: column_codec string_type "\<lambda>v. length v < 2 ^ 31"
  by unfold_locales (simp_all add: string_type_def)

definition inet_type :: "inet_address column_type" where
  "inet_type =
     \<lparr>ct_initial = replicate 4 0, ct_reset = (\<lambda>v. replicate 4 0),
      ct_encodeBody = (\<lambda>v data. data @ v),
      ct_decodeBody = (\<lambda>body v. case body of
          None \<Rightarrow> Inl DecodeException
        | Some bs \<Rightarrow>
            if bs = [] then Inr (replicate 4 0)
            else if length bs = 4 then Inr bs
            else if length bs = 16 then Inr bs
            else Inl DecodeException)\<rparr>"

interpretation inet_column: column_codec inet_type inet_addr_ok
  by unfold_locales (auto simp: inet_type_def inet_addr_ok_def)

section \<open>UUIDs\<close>

definition uuid_type :: "uuid column_type" where
  "uuid_type =
     \<lparr>ct_initial = (0, 0), ct_reset = (\<lambda>v. (0, 0)),
      ct_encodeBody = (\<lambda>v data. data @ int_wire (fst v) @ int_wire (snd v)),
      ct_decodeBody = (\<lambda>body v. case body of
          None \<Rightarrow> Inl DecodeException
        | Some bs \<Rightarrow>
            if bs = [] then Inr (0, 0)
            else if length bs \<noteq> 16 then Inl DecodeException
            else Inr (word_of_nat (be_to_nat 0 (take 8 bs)), word_of_nat (be_to_nat 0 (drop 8 bs))))\<rparr>"

interpretation uuid_column: column_codec uuid_type "\<lambda>_. True"
  by unfold_locales (simp_all add: uuid_type_def)

end
