(* ===== verification/Cpp_Arithmetic.thy ===== *)
theory Cpp_Arithmetic
  imports Cql_Prelude "HOL-Library.Signed_Division"
begin

text \<open>
  Arithmetic of C++ on signed integers: a result that does not fit into the type is undefined behaviour,
  division rounds towards zero, and conversions wrap. Also \<^verbatim>\<open>powInteger\<close> of
  \<^verbatim>\<open>MathUtils.hpp\<close>.
\<close>

section \<open>Signed operations\<close>

definition fits :: "nat \<Rightarrow> int \<Rightarrow> bool" where
  "fits w x \<longleftrightarrow> - (2 ^ (w - 1)) \<le> x \<and> x < 2 ^ (w - 1)"

definition checked :: "int \<Rightarrow> 'l::len word result" where
  "checked x = (if fits LENGTH('l) x then Inr (word_of_int x) else Inl UndefinedBehaviour)"

definition signed_add :: "'l::len word \<Rightarrow> 'l word \<Rightarrow> 'l word result" where
  "signed_add a b = checked (sint a + sint b)"

definition signed_sub :: "'l::len word \<Rightarrow> 'l word \<Rightarrow> 'l word result" where
  "signed_sub a b = checked (sint a - sint b)"

definition signed_mul :: "'l::len word \<Rightarrow> 'l word \<Rightarrow> 'l word result" where
  "signed_mul a b = checked (sint a * sint b)"

definition signed_div :: "'l::len word \<Rightarrow> 'l word \<Rightarrow> 'l word result" where
  "signed_div a b = (if b = 0 then Inl UndefinedBehaviour else checked (sint a sdiv sint b))"

definition signed_mod :: "'l::len word \<Rightarrow> 'l word \<Rightarrow> 'l word result" where
  "signed_mod a b =
     (if b = 0 \<or> \<not> fits LENGTH('l) (sint a sdiv sint b) then Inl UndefinedBehaviour else checked (sint a smod sint b))"

definition signed_neg :: "'l::len word \<Rightarrow> 'l word result" where
  "signed_neg a = checked (- sint a)"

lemma sint_word_of_int_fits: "fits LENGTH('l) x \<Longrightarrow> sint (word_of_int x :: 'l::len word) = x"
  by (simp add: fits_def signed_of_int signed_take_bit_int_eq_self)

lemma fits_sint [simp]: "fits LENGTH('l) (sint (v :: 'l::len word))"
  using sint_ge [of v] sint_lt [of v] by (simp add: fits_def)

lemma checked_eq_Inr: "checked x = Inr v \<longleftrightarrow> fits LENGTH('l) x \<and> sint (v :: 'l::len word) = x"
  by (auto simp: checked_def sint_word_of_int_fits)

lemma checked_fits: "fits LENGTH('l) x \<Longrightarrow> \<exists>v. checked x = Inr v \<and> sint (v :: 'l::len word) = x"
  by (simp add: checked_eq_Inr checked_def sint_word_of_int_fits)

lemma signed_eq_Inr:
  "signed_add a b = Inr v \<longleftrightarrow> fits LENGTH('l) (sint a + sint b) \<and> sint v = sint a + sint (b :: 'l::len word)"
  "signed_sub a b = Inr v \<longleftrightarrow> fits LENGTH('l) (sint a - sint b) \<and> sint v = sint a - sint (b :: 'l::len word)"
  "signed_mul a b = Inr v \<longleftrightarrow> fits LENGTH('l) (sint a * sint b) \<and> sint v = sint a * sint (b :: 'l::len word)"
  "signed_neg a = Inr v \<longleftrightarrow> fits LENGTH('l) (- sint a) \<and> sint v = - sint (a :: 'l::len word)"
  by (simp_all add: signed_add_def signed_sub_def signed_mul_def signed_neg_def checked_eq_Inr)

lemma fits_mono:
  assumes "fits v x" "v \<le> w"
  shows "fits w x"
proof -
  have "(2::int) ^ (v - 1) \<le> 2 ^ (w - 1)" using assms(2) by (intro power_increasing) auto
  with assms(1) show ?thesis unfolding fits_def by linarith
qed

section \<open>powInteger\<close>

function powInteger_loop :: "'a::comm_ring_1 \<Rightarrow> 'a \<Rightarrow> nat \<Rightarrow> 'a" where
  "powInteger_loop result base exponent =
     (if exponent > 0
      then powInteger_loop (if odd exponent then result * base else result) (base * base) (exponent div 2)
      else result)"
  by pat_completeness auto
termination by (relation "measure (\<lambda>(r, b, e). e)") auto

declare powInteger_loop.simps [simp del]

definition powInteger :: "'a::comm_ring_1 \<Rightarrow> nat \<Rightarrow> 'a" where
  "powInteger base exponent = powInteger_loop 1 base exponent"

lemma powInteger_loop_eq: "powInteger_loop r b e = r * b ^ e"
proof (induction r b e rule: powInteger_loop.induct)
  case (1 r b e)
  show ?case
  proof (cases "e > 0")
    case True
    have "powInteger_loop r b e = (if odd e then r * b else r) * (b * b) ^ (e div 2)"
      using 1 [OF True] True by (subst powInteger_loop.simps) (simp only: if_True)
    also have "(b * b) ^ (e div 2) = b ^ (2 * (e div 2))"
      by (simp only: power_mult power2_eq_square)
    also have "(if odd e then r * b else r) * b ^ (2 * (e div 2)) = r * b ^ (e mod 2 + 2 * (e div 2))"
      using True by (cases "odd e") (simp_all add: odd_iff_mod_2_eq_one mult.assoc flip: power_Suc)
    also have "\<dots> = r * b ^ e" by (simp only: mod_mult_div_eq)
    finally show ?thesis .
  qed (simp add: powInteger_loop.simps)
qed

lemma powInteger_eq: "powInteger b e = b ^ e"
  by (simp add: powInteger_def powInteger_loop_eq)

end
