(* ===== verification/Column_Numbers.thy ===== *)
theory Column_Numbers
  imports Columns Cpp_Arithmetic Complex_Main
begin

text \<open>
  \<^verbatim>\<open>VarInt\<close> and \<^verbatim>\<open>Decimal\<close>: their encodings, and the arithmetic of decimals on 64 bit
  unscaled values with the conversions between signed and unsigned integers that the code performs.
\<close>

section \<open>VarInt\<close>

text \<open>The loop that skips leading bytes which only repeat the sign.\<close>

fun varint_trim :: "bytes \<Rightarrow> bytes" where
  "varint_trim (b0 # b1 # bs) =
     (if b0 = 0 \<and> b1 AND 0x80 = 0 \<or> b0 = 0xff \<and> b1 AND 0x80 = 0x80 then varint_trim (b1 # bs)
      else b0 # b1 # bs)"
| "varint_trim bs = bs"

definition varint_decodeBody :: "bytes option \<Rightarrow> u64 \<Rightarrow> u64 result" where
  "varint_decodeBody body v =
     (case body of
        None \<Rightarrow> Inl DecodeException
      | Some bs \<Rightarrow>
          if bs = [] then Inr 0
          else if length bs > 8 then Inl DecodeException
          else (let paddingChar = (if hd bs AND 0x80 = 0 then 0 else 0xff) in
                Inr (word_of_nat (be_to_nat 0 (replicate (8 - length bs) paddingChar @ bs)))))"

definition varint_type :: "u64 column_type" where
  "varint_type =
     \<lparr>ct_initial = 0, ct_reset = (\<lambda>v. 0), ct_encodeBody = (\<lambda>v data. data @ varint_trim (int_wire v)),
      ct_decodeBody = varint_decodeBody\<rparr>"

definition sign_byte :: "byte \<Rightarrow> byte" where
  "sign_byte b = (if b AND 0x80 = 0 then 0 else 0xff)"

lemma sign_bit_cases: "(b :: byte) AND 0x80 = 0 \<or> b AND 0x80 = 0x80"
proof (cases "bit b 7")
  case True
  have "b AND 0x80 = 0x80"
    by (rule bit_eqI) (use True in \<open>auto simp: bit_and_iff bit_numeral_word_iff numeral_eq_Suc elim!: less_SucE\<close>)
  then show ?thesis ..
next
  case False
  have "b AND 0x80 = 0"
    by (rule bit_eqI) (use False in \<open>auto simp: bit_and_iff numeral_eq_Suc elim!: less_SucE\<close>)
  then show ?thesis ..
qed

lemma top_bit_unat:
  "(b :: byte) AND 0x80 = 0 \<Longrightarrow> unat b < 128" "(b :: byte) AND 0x80 \<noteq> 0 \<Longrightarrow> 128 \<le> unat b"
proof -
  have "bit b 7 \<longleftrightarrow> bit (unat b) 7" by (simp add: bit_unsigned_iff)
  also have "\<dots> \<longleftrightarrow> 128 \<le> unat b"
  proof (cases "unat b < 128")
    case False
    then have "unat b div 128 = 1" using unat_byte_less [of b] by (intro div_nat_eqI) auto
    with False show ?thesis by (simp add: bit_iff_odd)
  qed (simp add: bit_iff_odd)
  finally have "bit b 7 \<longleftrightarrow> 128 \<le> unat b" .
  then show "b AND 0x80 = 0 \<Longrightarrow> unat b < 128" "b AND 0x80 \<noteq> 0 \<Longrightarrow> 128 \<le> unat b"
    by (simp_all add: top_bit_test)
qed

lemma varint_trim_step:
  "varint_trim (b0 # b1 # bs) = (if b0 = sign_byte b1 then varint_trim (b1 # bs) else b0 # b1 # bs)"
  using sign_bit_cases [of b1]
  by (elim disjE) (simp_all only: varint_trim.simps sign_byte_def if_True if_False HOL.simp_thms, simp_all)

declare varint_trim.simps(1) [simp del]

lemma sign_byte_idem [simp]: "sign_byte (sign_byte b) = sign_byte b"
  by (simp add: sign_byte_def)

lemma varint_trim_Cons:
  "\<exists>k h t. varint_trim (b # bs) = h # t \<and> b # bs = replicate k (sign_byte h) @ h # t \<and> sign_byte b = sign_byte h"
proof (induction bs arbitrary: b)
  case Nil
  show ?case by (intro exI [of _ 0] exI [of _ b] exI [of _ "[]"]) simp
next
  case (Cons b1 bs)
  show ?case
  proof (cases "b = sign_byte b1")
    case True
    from Cons [of b1] obtain k h t where
      IH: "varint_trim (b1 # bs) = h # t" "b1 # bs = replicate k (sign_byte h) @ h # t" "sign_byte b1 = sign_byte h" by blast
    have "varint_trim (b # b1 # bs) = h # t" using IH(1) True by (simp add: varint_trim_step)
    moreover have "b # b1 # bs = replicate (Suc k) (sign_byte h) @ h # t"
      using IH(2,3) True by (simp only: replicate_Suc append_Cons)
    ultimately show ?thesis using True IH(3) by (metis sign_byte_idem)
  next
    case False
    then show ?thesis by (intro exI [of _ 0] exI [of _ b] exI [of _ "b1 # bs"]) (simp add: varint_trim_step)
  qed
qed

lemma varint_trim_pad: "varint_trim (replicate k (sign_byte b) @ b # bs) = varint_trim (b # bs)"
proof (induction k)
  case (Suc k)
  show ?case
  proof (cases k)
    case 0
    then show ?thesis by (simp add: varint_trim_step)
  next
    case (Suc m)
    then show ?thesis using Suc.IH by (simp add: varint_trim_step)
  qed
qed simp

lemma length_varint_trim: "length (varint_trim bs) \<le> length bs"
proof (cases bs)
  case (Cons b bs')
  from varint_trim_Cons [of b bs'] obtain k h t
    where "varint_trim bs = h # t" "bs = replicate k (sign_byte h) @ h # t" unfolding Cons by blast
  then show ?thesis by simp
qed simp

lemma varint_wire_cases:
  obtains k b t where "varint_trim (int_wire (v :: u64)) = b # t" "int_wire v = replicate k (sign_byte b) @ b # t"
proof -
  obtain b bs where v: "int_wire v = b # bs" using int_wire_not_Nil [of v] by (cases "int_wire v") auto
  from varint_trim_Cons [of b bs] show ?thesis unfolding v [symmetric] using that by blast
qed

text \<open>Reading back, with the padding that decoding restores.\<close>

lemma varint_decode_pad:
  assumes "length (b # t) \<le> 8"
  shows "varint_decodeBody (Some (b # t)) old =
    Inr (word_of_nat (be_to_nat 0 (replicate (8 - length (b # t)) (sign_byte b) @ b # t)))"
  using assms by (simp add: varint_decodeBody_def sign_byte_def Let_def)

lemma varint_roundtrip: "varint_decodeBody (Some (varint_trim (int_wire v))) old = Inr v"
proof -
  obtain k b t where t: "varint_trim (int_wire v) = b # t" and w: "int_wire v = replicate k (sign_byte b) @ b # t"
    by (rule varint_wire_cases)
  have len: "k + length (b # t) = 8" using arg_cong [OF w, of length] by simp
  then have "replicate (8 - length (b # t)) (sign_byte b) @ b # t = int_wire v" using w by (metis add_diff_cancel_right')
  then show ?thesis using len unfolding t by (subst varint_decode_pad) simp_all
qed

interpretation varint_column: column_codec varint_type "\<lambda>_. True"
  by unfold_locales
    (simp_all add: varint_type_def varint_roundtrip le_less_trans [OF length_varint_trim])

lemma int_wire_of_bytes: "length bs = 8 \<Longrightarrow> int_wire (word_of_nat (be_to_nat 0 bs) :: u64) = bs"
  using int_decode_exact [of bs "word_of_nat (be_to_nat 0 bs) :: u64" "[]"] by (simp add: int_decode_def)

section \<open>What the bytes of a VarInt are\<close>

text \<open>The shortest two's complement representation: no other bytes that decode to the value are shorter.\<close>

lemma varint_minimal:
  assumes "varint_decodeBody (Some bs) old = Inr v" "bs \<noteq> []"
  shows "varint_trim (int_wire v) = varint_trim bs" and "length (varint_trim (int_wire v)) \<le> length bs"
proof -
  obtain b t where bs: "bs = b # t" using assms(2) by (cases bs) auto
  with assms(1) have len: "length bs \<le> 8" by (auto simp: varint_decodeBody_def split: if_splits)
  have "v = word_of_nat (be_to_nat 0 (replicate (8 - length bs) (sign_byte b) @ bs))"
    using assms(1) len unfolding bs by (subst (asm) varint_decode_pad) auto
  then have w: "int_wire v = replicate (8 - length bs) (sign_byte b) @ bs"
    using len by (simp only: int_wire_of_bytes length_append length_replicate le_add_diff_inverse2)
  show e: "varint_trim (int_wire v) = varint_trim bs" unfolding w bs by (rule varint_trim_pad)
  show "length (varint_trim (int_wire v)) \<le> length bs" unfolding e by (rule length_varint_trim)
qed

section \<open>Decimals\<close>

record decimal =
  dc_scale :: u32
  dc_unscaled :: u64

definition decimal_initial :: decimal where
  "decimal_initial = \<lparr>dc_scale = 0, dc_unscaled = 0\<rparr>"

definition decimal_set :: "u32 \<Rightarrow> u64 \<Rightarrow> decimal" where
  "decimal_set scale unscaled = \<lparr>dc_scale = scale, dc_unscaled = unscaled\<rparr>"

definition decimal_encodeBody :: "decimal \<Rightarrow> bytes \<Rightarrow> bytes" where
  "decimal_encodeBody d data =
     ct_encodeBody varint_type (dc_unscaled d) (ct_encodeBody integer_type (dc_scale d) data)"

definition decimal_decodeBody :: "bytes option \<Rightarrow> decimal \<Rightarrow> decimal result" where
  "decimal_decodeBody body d =
     (case body of
        None \<Rightarrow> Inl DecodeException
      | Some bs \<Rightarrow>
          if bs = [] then Inr decimal_initial
          else if length bs < 5 then Inl DecodeException
          else rbind (ct_decodeBody integer_type (Some (take 4 bs)) (dc_scale d)) (\<lambda>scale.
               rbind (ct_decodeBody varint_type (Some (drop 4 bs)) (dc_unscaled d)) (\<lambda>unscaled.
                 Inr \<lparr>dc_scale = scale, dc_unscaled = unscaled\<rparr>)))"

definition decimal_type :: "decimal column_type" where
  "decimal_type =
     \<lparr>ct_initial = decimal_initial, ct_reset = (\<lambda>d. decimal_initial),
      ct_encodeBody = decimal_encodeBody, ct_decodeBody = decimal_decodeBody\<rparr>"

lemma varint_trim_not_Nil [simp]: "varint_trim (int_wire (v :: u64)) \<noteq> []"
  by (rule varint_wire_cases [of v]) simp

interpretation decimal_column: column_codec decimal_type "\<lambda>_. True"
proof unfold_locales
  fix d old :: decimal
  let ?t = "varint_trim (int_wire (dc_unscaled d))"
  have body: "decimal_encodeBody d [] = int_wire (dc_scale d) @ ?t"
    by (simp add: decimal_encodeBody_def integer_type_def varint_type_def)
  have "0 < length ?t" by simp
  then show "ct_decodeBody decimal_type (Some (ct_encodeBody decimal_type d [])) old = Inr d"
    using int_column.decodes [of "dc_scale d" "dc_scale old"] varint_roundtrip [of "dc_unscaled d" "dc_unscaled old"]
    by (simp add: decimal_type_def decimal_decodeBody_def body varint_type_def)
       (simp add: integer_type_def)
  show "length (ct_encodeBody decimal_type d []) < 2 ^ 31"
    using length_varint_trim [of "int_wire (dc_unscaled d)"] by (simp add: decimal_type_def body)
qed (simp_all add: decimal_type_def decimal_encodeBody_def integer_type_def varint_type_def)

subsection \<open>Arithmetic\<close>

text \<open>
  \<^verbatim>\<open>powInteger(10ULL, n)\<close> is unsigned. A product of a \<^verbatim>\<open>VarInt\<close> with it is computed
  modulo \<open>2 ^ 64\<close>, and a quotient is that of the unsigned 64 bit pattern.
\<close>

definition pow10 :: "u32 \<Rightarrow> u64" where
  "pow10 n = powInteger 10 (nat (sint n))"

definition decimal_up :: "u64 \<Rightarrow> u32 \<Rightarrow> u64" where
  "decimal_up v n = v * pow10 n"

definition decimal_down :: "u64 \<Rightarrow> u32 \<Rightarrow> u64 result" where
  "decimal_down v n = (if pow10 n = 0 then Inl UndefinedBehaviour else Inr (v div pow10 n))"

definition decimal_scale :: "u32 \<Rightarrow> decimal \<Rightarrow> decimal result" where
  "decimal_scale scaleValue d =
     rbind (signed_sub (dc_scale d) scaleValue) (\<lambda>scaleDiff.
       if sint scaleDiff > 0 then
         rbind (decimal_down (dc_unscaled d) scaleDiff) (\<lambda>v. Inr \<lparr>dc_scale = scaleValue, dc_unscaled = v\<rparr>)
       else if sint scaleDiff < 0 then
         rbind (signed_neg scaleDiff) (\<lambda>n. Inr \<lparr>dc_scale = scaleValue, dc_unscaled = decimal_up (dc_unscaled d) n\<rparr>)
       else Inr d)"

function decimal_strip :: "decimal \<Rightarrow> decimal" where
  "decimal_strip d =
     (if sint (dc_scale d) > 0 \<and> dc_unscaled d \<noteq> 0 \<and> sint (dc_unscaled d) smod 10 = 0
      then decimal_strip \<lparr>dc_scale = dc_scale d - 1, dc_unscaled = word_of_int (sint (dc_unscaled d) sdiv 10)\<rparr>
      else d)"
  by pat_completeness auto

definition decimal_addSub :: "(u64 \<Rightarrow> u64 \<Rightarrow> u64 result) \<Rightarrow> decimal \<Rightarrow> decimal \<Rightarrow> decimal result" where
  "decimal_addSub op a b =
     rbind (signed_sub (dc_scale a) (dc_scale b)) (\<lambda>scaleDiff.
       if sint scaleDiff > 0 then
         rbind (op (dc_unscaled a) (decimal_up (dc_unscaled b) scaleDiff)) (\<lambda>v. Inr (a\<lparr>dc_unscaled := v\<rparr>))
       else if sint scaleDiff < 0 then
         rbind (signed_sub (dc_scale a) scaleDiff) (\<lambda>scale.
         rbind (signed_neg scaleDiff) (\<lambda>n.
         rbind (op (decimal_up (dc_unscaled a) n) (dc_unscaled b)) (\<lambda>v.
           Inr \<lparr>dc_scale = scale, dc_unscaled = v\<rparr>)))
       else rbind (op (dc_unscaled a) (dc_unscaled b)) (\<lambda>v. Inr (a\<lparr>dc_unscaled := v\<rparr>)))"

definition decimal_mul :: "decimal \<Rightarrow> decimal \<Rightarrow> decimal result" where
  "decimal_mul a b =
     rbind (signed_add (dc_scale a) (dc_scale b)) (\<lambda>scale.
     rbind (signed_mul (dc_unscaled a) (dc_unscaled b)) (\<lambda>v. Inr \<lparr>dc_scale = scale, dc_unscaled = v\<rparr>))"

definition decimal_div :: "decimal \<Rightarrow> decimal \<Rightarrow> decimal result" where
  "decimal_div a b =
     (let bScale = dc_scale b in
      rbind (if sint bScale > 0 then Inr (decimal_up (dc_unscaled a) bScale)
             else if sint bScale < 0 then rbind (signed_neg bScale) (decimal_down (dc_unscaled a))
             else Inr (dc_unscaled a)) (\<lambda>v.
      rbind (signed_div v (dc_unscaled b)) (\<lambda>v. Inr (a\<lparr>dc_unscaled := v\<rparr>))))"

definition decimal_neg :: "decimal \<Rightarrow> decimal result" where
  "decimal_neg d = rbind (signed_neg (dc_unscaled d)) (\<lambda>v. Inr (decimal_set (dc_scale d) v))"

definition decimal_compare :: "(int \<Rightarrow> int \<Rightarrow> bool) \<Rightarrow> decimal \<Rightarrow> decimal \<Rightarrow> bool result" where
  "decimal_compare op a b =
     rbind (signed_sub (dc_scale a) (dc_scale b)) (\<lambda>scaleDiff.
       if sint scaleDiff > 0 then Inr (op (sint (dc_unscaled a)) (sint (decimal_up (dc_unscaled b) scaleDiff)))
       else if sint scaleDiff < 0 then
         rbind (signed_neg scaleDiff) (\<lambda>n. Inr (op (sint (decimal_up (dc_unscaled a) n)) (sint (dc_unscaled b))))
       else Inr (op (sint (dc_unscaled a)) (sint (dc_unscaled b))))"

termination decimal_strip
proof (relation "measure (\<lambda>d. nat (sint (dc_scale d)))")
  fix d :: decimal
  assume c: "sint (dc_scale d) > 0 \<and> dc_unscaled d \<noteq> 0 \<and> sint (dc_unscaled d) smod 10 = 0"
  have "fits 32 (sint (dc_scale d) - 1)"
    using c fits_sint [of "dc_scale d"] by (simp add: fits_def)
  then have "sint (dc_scale d - 1) = sint (dc_scale d) - 1"
    using sint_word_of_int_fits [of "sint (dc_scale d) - 1", where 'l = 32] by simp
  with c show "(\<lparr>dc_scale = dc_scale d - 1, dc_unscaled = word_of_int (sint (dc_unscaled d) sdiv 10)\<rparr>, d)
      \<in> measure (\<lambda>d. nat (sint (dc_scale d)))"
    by simp
qed simp

declare decimal_strip.simps [simp del]

subsection \<open>The number a decimal stands for\<close>

definition decimal_value :: "decimal \<Rightarrow> rat" where
  "decimal_value d = of_int (sint (dc_unscaled d)) * 10 powi (- sint (dc_scale d))"

text \<open>Bringing a value to a scale that is larger by \<open>n\<close> does not overflow.\<close>

definition scales_up :: "u64 \<Rightarrow> int \<Rightarrow> bool" where
  "scales_up v n \<longleftrightarrow> fits 64 (sint v * 10 ^ nat n)"

definition aligns :: "decimal \<Rightarrow> decimal \<Rightarrow> bool" where
  "aligns a b \<longleftrightarrow>
     (if sint (dc_scale b) < sint (dc_scale a)
      then scales_up (dc_unscaled b) (sint (dc_scale a) - sint (dc_scale b))
      else scales_up (dc_unscaled a) (sint (dc_scale b) - sint (dc_scale a)))"

lemma sint_decimal_up:
  assumes "scales_up v (sint n)"
  shows "sint (decimal_up v n) = sint v * 10 ^ nat (sint n)"
proof -
  have "decimal_up v n = word_of_int (sint v * 10 ^ nat (sint n))"
    by (simp add: decimal_up_def pow10_def powInteger_eq)
  moreover have "sint (word_of_int (sint v * 10 ^ nat (sint n)) :: u64) = sint v * 10 ^ nat (sint n)"
    by (rule sint_word_of_int_fits) (use assms in \<open>simp add: scales_up_def\<close>)
  ultimately show ?thesis by (simp only:)
qed

lemma powi_10_shift:
  assumes "m \<le> n"
  shows "(10::rat) powi (- m) = 10 powi (- n) * 10 ^ nat (n - m)"
proof -
  have "(10::rat) powi (- n) * 10 ^ nat (n - m) = 10 powi (- n) * 10 powi (n - m)"
    using assms by (simp flip: power_int_of_nat)
  also have "\<dots> = 10 powi (- m)" by (simp flip: power_int_add)
  finally show ?thesis ..
qed

text \<open>Both operands over the larger of the two scales.\<close>

definition over_scale :: "decimal \<Rightarrow> int \<Rightarrow> int" where
  "over_scale d s = sint (dc_unscaled d) * 10 ^ nat (s - sint (dc_scale d))"

lemma decimal_value_over: "sint (dc_scale d) \<le> s \<Longrightarrow> decimal_value d = of_int (over_scale d s) * 10 powi (- s)"
  by (simp add: decimal_value_def over_scale_def powi_10_shift [of "sint (dc_scale d)" s])

lemma decimal_valueI:
  "sint (dc_unscaled d) = u \<Longrightarrow> sint (dc_scale d) = s \<Longrightarrow> decimal_value d = of_int u * 10 powi (- s)"
  by (simp only: decimal_value_def)

lemma signed_sub_back:
  assumes "signed_sub a b = Inr d"
  shows "signed_sub a d = Inr (b :: 'l::len word)"
  using assms fits_sint [of b] by (simp add: signed_eq_Inr)

lemma decimal_addSub_spec:
  assumes run: "decimal_addSub op a b = Inr r" and al: "aligns a b"
  shows "sint (dc_scale r) = max (sint (dc_scale a)) (sint (dc_scale b)) \<and>
    (\<exists>x y. op x y = Inr (dc_unscaled r) \<and> sint x = over_scale a (sint (dc_scale r)) \<and>
      sint y = over_scale b (sint (dc_scale r)))"
proof -
  from run obtain diff where sub: "signed_sub (dc_scale a) (dc_scale b) = Inr diff"
    by (auto simp: decimal_addSub_def rbind_eq_Inr)
  then have diff: "sint diff = sint (dc_scale a) - sint (dc_scale b)" by (simp add: signed_eq_Inr)
  have undo: "signed_sub (dc_scale a) diff = Inr (dc_scale b)" by (rule signed_sub_back [OF sub])
  consider "sint diff > 0" | "sint diff < 0" | "sint diff = 0" by linarith
  then show ?thesis
  proof cases
    case 1
    then have "scales_up (dc_unscaled b) (sint diff)" using al diff by (simp add: aligns_def)
    note up = sint_decimal_up [OF this]
    from run 1 sub obtain v where "op (dc_unscaled a) (decimal_up (dc_unscaled b) diff) = Inr v" "r = a\<lparr>dc_unscaled := v\<rparr>"
      by (auto simp: decimal_addSub_def rbind_eq_Inr)
    with up 1 diff show ?thesis
      by (intro conjI exI [of _ "dc_unscaled a"] exI [of _ "decimal_up (dc_unscaled b) diff"]) (simp_all add: over_scale_def)
  next
    case 2
    from run 2 sub undo obtain n v where n: "signed_neg diff = Inr n"
      and r: "op (decimal_up (dc_unscaled a) n) (dc_unscaled b) = Inr v" "r = \<lparr>dc_scale = dc_scale b, dc_unscaled = v\<rparr>"
      by (auto simp: decimal_addSub_def rbind_eq_Inr)
    then have "sint n = sint (dc_scale b) - sint (dc_scale a)" using diff by (simp add: signed_eq_Inr)
    moreover from this have "scales_up (dc_unscaled a) (sint n)" using al 2 diff by (simp add: aligns_def)
    ultimately show ?thesis
      using sint_decimal_up [of "dc_unscaled a" n] r 2 diff
      by (intro conjI exI [of _ "decimal_up (dc_unscaled a) n"] exI [of _ "dc_unscaled b"]) (simp_all add: over_scale_def)
  next
    case 3
    with run sub obtain v where "op (dc_unscaled a) (dc_unscaled b) = Inr v" "r = a\<lparr>dc_unscaled := v\<rparr>"
      by (auto simp: decimal_addSub_def rbind_eq_Inr)
    with 3 diff show ?thesis
      by (intro conjI exI [of _ "dc_unscaled a"] exI [of _ "dc_unscaled b"]) (simp_all add: over_scale_def)
  qed
qed

lemma decimal_result_exact:
  assumes "aligns a b"
  shows "(decimal_addSub signed_add a b = Inr r \<longrightarrow>
      decimal_value r = decimal_value a + decimal_value b \<and> sint (dc_scale r) = max (sint (dc_scale a)) (sint (dc_scale b))) \<and>
    (decimal_addSub signed_sub a b = Inr r \<longrightarrow>
      decimal_value r = decimal_value a - decimal_value b \<and> sint (dc_scale r) = max (sint (dc_scale a)) (sint (dc_scale b))) \<and>
    (decimal_mul a b = Inr r \<longrightarrow>
      decimal_value r = decimal_value a * decimal_value b \<and> sint (dc_scale r) = sint (dc_scale a) + sint (dc_scale b))"
proof (intro conjI impI)
  let ?s = "max (sint (dc_scale a)) (sint (dc_scale b))"
  have over: "decimal_value a = of_int (over_scale a ?s) * 10 powi (- ?s)" "decimal_value b = of_int (over_scale b ?s) * 10 powi (- ?s)"
    by (rule decimal_value_over; simp)+
  {
    assume "decimal_addSub signed_add a b = Inr r"
    from decimal_addSub_spec [OF this assms] have s: "sint (dc_scale r) = ?s"
      and u: "sint (dc_unscaled r) = over_scale a ?s + over_scale b ?s" by (auto simp: signed_eq_Inr)
    show "sint (dc_scale r) = ?s" by (rule s)
    show "decimal_value r = decimal_value a + decimal_value b"
      unfolding decimal_valueI [OF u s] over by (simp add: distrib_right)
  next
    assume "decimal_addSub signed_sub a b = Inr r"
    from decimal_addSub_spec [OF this assms] have s: "sint (dc_scale r) = ?s"
      and u: "sint (dc_unscaled r) = over_scale a ?s - over_scale b ?s" by (auto simp: signed_eq_Inr)
    show "sint (dc_scale r) = ?s" by (rule s)
    show "decimal_value r = decimal_value a - decimal_value b"
      unfolding decimal_valueI [OF u s] over by (simp add: left_diff_distrib)
  next
    assume "decimal_mul a b = Inr r"
    then have s: "sint (dc_scale r) = sint (dc_scale a) + sint (dc_scale b)"
      and u: "sint (dc_unscaled r) = sint (dc_unscaled a) * sint (dc_unscaled b)"
      by (auto simp: decimal_mul_def rbind_eq_Inr signed_eq_Inr)
    show "sint (dc_scale r) = sint (dc_scale a) + sint (dc_scale b)" by (rule s)
    show "decimal_value r = decimal_value a * decimal_value b"
      unfolding decimal_valueI [OF u s] decimal_value_def [of a] decimal_value_def [of b]
      by (simp add: power_int_add power_int_minus power_int_diff field_simps)
  }
qed

lemma decimal_addSub_returns:
  assumes "aligns a b" "\<bar>sint (dc_scale a) - sint (dc_scale b)\<bar> < 2 ^ 31"
  defines "s \<equiv> max (sint (dc_scale a)) (sint (dc_scale b))"
  assumes op: "\<And>x y. sint x = over_scale a s \<Longrightarrow> sint y = over_scale b s \<Longrightarrow> \<exists>v. op x y = Inr v"
  shows "\<exists>r. decimal_addSub op a b = Inr r"
proof -
  have f: "fits LENGTH(32) (sint (dc_scale a) - sint (dc_scale b))" and f': "fits LENGTH(32) (sint (dc_scale b) - sint (dc_scale a))"
    using assms(2) by (simp_all add: fits_def abs_less_iff)
  obtain diff where sub: "signed_sub (dc_scale a) (dc_scale b) = Inr diff"
    and diff: "sint diff = sint (dc_scale a) - sint (dc_scale b)"
    using checked_fits [OF f] by (auto simp: signed_sub_def)
  have undo: "signed_sub (dc_scale a) diff = Inr (dc_scale b)" by (rule signed_sub_back [OF sub])
  consider "sint diff > 0" | "sint diff < 0" | "sint diff = 0" by linarith
  then show ?thesis
  proof cases
    case 1
    then have "scales_up (dc_unscaled b) (sint diff)" using assms(1) diff by (simp add: aligns_def)
    from sint_decimal_up [OF this] obtain v where "op (dc_unscaled a) (decimal_up (dc_unscaled b) diff) = Inr v"
      using op [of "dc_unscaled a" "decimal_up (dc_unscaled b) diff"] 1 diff by (auto simp: over_scale_def s_def)
    with 1 sub show ?thesis by (simp add: decimal_addSub_def)
  next
    case 2
    obtain n where n: "signed_neg diff = Inr n" "sint n = sint (dc_scale b) - sint (dc_scale a)"
      using checked_fits [OF f'] diff by (auto simp: signed_neg_def)
    then have "scales_up (dc_unscaled a) (sint n)" using assms(1) 2 diff by (simp add: aligns_def)
    from sint_decimal_up [OF this] obtain v where "op (decimal_up (dc_unscaled a) n) (dc_unscaled b) = Inr v"
      using op [of "decimal_up (dc_unscaled a) n" "dc_unscaled b"] 2 n diff by (auto simp: over_scale_def s_def)
    with 2 n sub undo show ?thesis by (simp add: decimal_addSub_def)
  next
    case 3
    then obtain v where "op (dc_unscaled a) (dc_unscaled b) = Inr v"
      using op [of "dc_unscaled a" "dc_unscaled b"] diff by (auto simp: over_scale_def s_def)
    with 3 sub show ?thesis by (simp add: decimal_addSub_def)
  qed
qed



lemma decimal_compare_over:
  assumes "aligns a b" "\<bar>sint (dc_scale a) - sint (dc_scale b)\<bar> < 2 ^ 31"
  defines "s \<equiv> max (sint (dc_scale a)) (sint (dc_scale b))"
  shows "decimal_compare op a b = Inr (op (over_scale a s) (over_scale b s))"
proof -
  have f: "fits LENGTH(32) (sint (dc_scale a) - sint (dc_scale b))" and f': "fits LENGTH(32) (sint (dc_scale b) - sint (dc_scale a))"
    using assms(2) by (simp_all add: fits_def abs_less_iff)
  obtain diff where sub: "signed_sub (dc_scale a) (dc_scale b) = Inr diff"
    and diff: "sint diff = sint (dc_scale a) - sint (dc_scale b)"
    using checked_fits [OF f] by (auto simp: signed_sub_def)
  consider "sint diff > 0" | "sint diff < 0" | "sint diff = 0" by linarith
  then show ?thesis
  proof cases
    case 1
    then have "scales_up (dc_unscaled b) (sint diff)" using assms(1) diff by (simp add: aligns_def)
    from sint_decimal_up [OF this] show ?thesis
      using 1 sub diff by (simp add: decimal_compare_def over_scale_def s_def)
  next
    case 2
    obtain n where n: "signed_neg diff = Inr n" "sint n = sint (dc_scale b) - sint (dc_scale a)"
      using checked_fits [OF f'] diff by (auto simp: signed_neg_def)
    then have "scales_up (dc_unscaled a) (sint n)" using assms(1) 2 diff by (simp add: aligns_def)
    from sint_decimal_up [OF this] show ?thesis
      using 2 n sub diff by (simp add: decimal_compare_def over_scale_def s_def)
  next
    case 3
    with sub diff show ?thesis by (simp add: decimal_compare_def over_scale_def s_def)
  qed
qed

text \<open>
  Comparing two decimals compares the numbers they stand for, whatever their scales, when bringing
  them to a common scale does not overflow.
\<close>

lemma decimal_compare_exact:
  assumes "aligns a b" "\<bar>sint (dc_scale a) - sint (dc_scale b)\<bar> < 2 ^ 31"
  shows "decimal_compare (<) a b = Inr (decimal_value a < decimal_value b) \<and>
    decimal_compare (\<le>) a b = Inr (decimal_value a \<le> decimal_value b) \<and>
    decimal_compare (=) a b = Inr (decimal_value a = decimal_value b)"
proof -
  let ?s = "max (sint (dc_scale a)) (sint (dc_scale b))"
  have over: "decimal_value a = of_int (over_scale a ?s) * 10 powi (- ?s)" "decimal_value b = of_int (over_scale b ?s) * 10 powi (- ?s)"
    by (rule decimal_value_over; simp)+
  have pos: "(0::rat) < 10 powi (- ?s)" by simp
  show ?thesis
    unfolding decimal_compare_over [OF assms] over mult_less_cancel_right_pos [OF pos] mult_le_cancel_right_pos [OF pos]
    using pos by simp
qed

lemma decimal_compare_exact_witness:
  "decimal_compare (=) (decimal_set 1 15) (decimal_set 2 150) = Inr (decimal_value (decimal_set 1 15) = decimal_value (decimal_set 2 150)) \<and>
   decimal_compare (<) (decimal_set 1 15) (decimal_set 2 150) = Inr (decimal_value (decimal_set 1 15) < decimal_value (decimal_set 2 150))"
  using decimal_compare_exact [of "decimal_set 1 15" "decimal_set 2 150"]
  by (simp add: aligns_def decimal_set_def scales_up_def fits_def)

subsection \<open>Changing the scale\<close>

lemma unat_pow10: "sint n < 20 \<Longrightarrow> unat (pow10 n) = 10 ^ nat (sint n)"
proof -
  assume "sint n < 20"
  then have "(10::nat) ^ nat (sint n) \<le> 10 ^ 19" by (intro power_increasing) auto
  then have "(10::nat) ^ nat (sint n) < 2 ^ 64" by simp
  then have "unat (word_of_nat (10 ^ nat (sint n)) :: u64) = 10 ^ nat (sint n)"
    unfolding unat_of_nat by (simp add: take_bit_nat_eq_self)
  then show ?thesis by (simp add: pow10_def powInteger_eq)
qed

lemma decimal_down_nonneg:
  assumes "sint n < 20" "0 \<le> sint v"
  shows "\<exists>w. decimal_down v n = Inr w \<and> sint w = sint v div 10 ^ nat (sint n)"
proof -
  have p: "unat (pow10 n) = 10 ^ nat (sint n)" by (rule unat_pow10 [OF assms(1)])
  then have nz: "pow10 n \<noteq> 0" by auto
  have u: "uint v = sint v" using assms(2) sint_of_uint [of v] sint_neg_bit [of v] by simp
  have q: "uint (v div pow10 n) = sint v div 10 ^ nat (sint n)"
    unfolding uint_div_distrib u uint_nat [of "pow10 n"] p by simp
  have "0 \<le> sint v div 10 ^ nat (sint n)" "sint v div 10 ^ nat (sint n) \<le> sint v"
    using assms(2) zdiv_mono2 [of "sint v" 1 "10 ^ nat (sint n)"] by (simp_all add: pos_imp_zdiv_nonneg_iff)
  moreover have "sint v < 2 ^ 63" using sint_lt [of v] by simp
  ultimately have "\<not> bit (uint (v div pow10 n)) 63" unfolding q by (simp add: bit_iff_odd)
  then have "bit (v div pow10 n) 63 = False" by (simp add: bit_uint_iff)
  then have "sint (v div pow10 n) = sint v div 10 ^ nat (sint n)" unfolding sint_of_uint q by simp
  with nz show ?thesis by (simp add: decimal_down_def)
qed

text \<open>
  Changing the scale to more digits keeps the number, and to fewer digits cuts off the last digits of
  a number that is not negative.
\<close>

lemma decimal_scale_exact:
  assumes "decimal_scale s d = Inr r"
  shows "dc_scale r = s \<and>
    (sint (dc_scale d) \<le> sint s \<and> scales_up (dc_unscaled d) (sint s - sint (dc_scale d)) \<longrightarrow> decimal_value r = decimal_value d) \<and>
    (sint s < sint (dc_scale d) \<and> sint (dc_scale d) - sint s < 20 \<and> 0 \<le> sint (dc_unscaled d) \<longrightarrow>
      sint (dc_unscaled r) = sint (dc_unscaled d) div 10 ^ nat (sint (dc_scale d) - sint s))"
proof -
  from assms obtain diff where sub: "signed_sub (dc_scale d) s = Inr diff"
    by (auto simp: decimal_scale_def rbind_eq_Inr)
  then have diff: "sint diff = sint (dc_scale d) - sint s" by (simp add: signed_eq_Inr)
  consider "sint diff > 0" | "sint diff < 0" | "sint diff = 0" by linarith
  then show ?thesis
  proof cases
    case 1
    with assms sub obtain v where "decimal_down (dc_unscaled d) diff = Inr v" "r = \<lparr>dc_scale = s, dc_unscaled = v\<rparr>"
      by (auto simp: decimal_scale_def rbind_eq_Inr)
    with 1 diff decimal_down_nonneg [of diff "dc_unscaled d"] show ?thesis by auto
  next
    case 2
    with assms sub obtain n where n: "signed_neg diff = Inr n"
      and r: "r = \<lparr>dc_scale = s, dc_unscaled = decimal_up (dc_unscaled d) n\<rparr>"
      by (auto simp: decimal_scale_def rbind_eq_Inr)
    have "sint n = sint s - sint (dc_scale d)" using n diff by (simp add: signed_eq_Inr)
    moreover have "decimal_value r = decimal_value d" if "scales_up (dc_unscaled d) (sint n)"
      using 2 diff sint_decimal_up [OF that] decimal_value_over [of d "sint s"] decimal_valueI [of r _ "sint s"]
      by (simp add: r over_scale_def calculation del: of_int_mult)
    ultimately show ?thesis using 2 diff by (simp add: r)
  next
    case 3
    then have "sint (dc_scale d) = sint s" using diff by simp
    then have "(word_of_int (sint (dc_scale d)) :: u32) = word_of_int (sint s)" by (simp only:)
    then have "s = dc_scale d" by simp
    with assms sub 3 show ?thesis by (auto simp: decimal_scale_def)
  qed
qed

lemma decimal_scale_exact_witness:
  "sint (dc_unscaled (decimal_set 1 12)) = sint (dc_unscaled (decimal_set 2 123)) div 10 ^ nat (sint (dc_scale (decimal_set 2 123)) - sint (1 :: u32))"
proof -
  have "decimal_scale 1 (decimal_set 2 123) = Inr (decimal_set 1 12)"
    by (simp add: decimal_scale_def decimal_set_def signed_sub_def checked_def fits_def decimal_down_def pow10_def powInteger_eq)
  from decimal_scale_exact [OF this] show ?thesis by (simp add: decimal_set_def)
qed

text \<open>
  Fewer digits of a negative number: the quotient is taken of the unsigned 64 bit pattern, and -1.23
  with one digit less becomes a huge positive number.
\<close>

lemma decimal_scale_negative_wrong:
  "decimal_scale 1 (decimal_set 2 (- 123)) = Inr (decimal_set 1 1844674407370955149) \<and>
   decimal_div (decimal_set 0 (- 120)) (decimal_set (- 1) 1) = Inr (decimal_set 0 1844674407370955149)"
  by (simp add: decimal_scale_def decimal_div_def decimal_set_def signed_sub_def signed_neg_def signed_div_def checked_def
      fits_def decimal_down_def pow10_def powInteger_eq)

text \<open>Removing trailing zeros keeps the number and leaves none behind the decimal point.\<close>

lemma decimal_strip_correct:
  "decimal_value (decimal_strip d) = decimal_value d \<and>
   \<not> (sint (dc_scale (decimal_strip d)) > 0 \<and> dc_unscaled (decimal_strip d) \<noteq> 0 \<and> sint (dc_unscaled (decimal_strip d)) smod 10 = 0)"
proof (induction d rule: decimal_strip.induct)
  case (1 d)
  show ?case
  proof (cases "sint (dc_scale d) > 0 \<and> dc_unscaled d \<noteq> 0 \<and> sint (dc_unscaled d) smod 10 = 0")
    case True
    let ?d = "\<lparr>dc_scale = dc_scale d - 1, dc_unscaled = word_of_int (sint (dc_unscaled d) sdiv 10)\<rparr>"
    have u: "sint (dc_unscaled d) = (sint (dc_unscaled d) sdiv 10) * 10"
      using True sdiv_mult_smod_eq [of "sint (dc_unscaled d)" 10] by simp
    have "fits LENGTH(64) (sint (dc_unscaled d) sdiv 10)"
      using fits_sint [of "dc_unscaled d"] u by (simp add: fits_def)
    then have su: "sint (dc_unscaled ?d) = sint (dc_unscaled d) sdiv 10" by (simp add: sint_word_of_int_fits)
    have "fits LENGTH(32) (sint (dc_scale d) - 1)" using True fits_sint [of "dc_scale d"] by (simp add: fits_def)
    then have ss: "sint (dc_scale ?d) = sint (dc_scale d) - 1"
      using sint_word_of_int_fits [of "sint (dc_scale d) - 1", where 'l = 32] by simp
    have "decimal_value ?d = of_int (sint (dc_unscaled d) sdiv 10) * 10 powi (- (sint (dc_scale d) - 1))"
      by (rule decimal_valueI [OF su ss])
    also have "\<dots> = of_int (sint (dc_unscaled d)) * 10 powi (- sint (dc_scale d))"
      by (subst (2) u) (simp add: power_int_diff power_int_minus field_simps)
    finally have "decimal_value ?d = decimal_value d" by (simp only: decimal_value_def)
    moreover have "decimal_strip d = decimal_strip ?d" using True by (subst decimal_strip.simps) (simp only: if_True simp_thms)
    ultimately show ?thesis using 1 [OF True] by (simp only: simp_thms)
  next
    case False
    then have "decimal_strip d = d" by (subst decimal_strip.simps) (simp only: if_False)
    with False show ?thesis by (simp only: simp_thms)
  qed
qed

lemma be_to_nat_replicate: "be_to_nat 0 (replicate k 0xff) = 256 ^ k - 1"
proof (induction k)
  case (Suc k)
  have "be_to_nat 0 (replicate (Suc k) 0xff) = be_to_nat 0 (replicate k 0xff) * 256 + 255"
    by (simp only: replicate_append_same [symmetric] replicate_Suc be_to_nat_append) simp
  then show ?case using Suc one_le_power [of "256::nat" k] by (simp add: diff_mult_distrib)
qed simp

lemma be_to_nat_replicate_0: "be_to_nat 0 (replicate k 0) = 0"
  by (induction k) simp_all

lemma be_to_nat_join: "be_to_nat acc (xs @ ys) = be_to_nat acc xs * 256 ^ length ys + be_to_nat 0 ys"
proof (induction ys rule: rev_induct)
  case (snoc y ys)
  then show ?case by (simp add: be_to_nat_append [of _ _ "[y]"] be_to_nat_append algebra_simps flip: append_assoc)
qed simp

lemma varint_value:
  assumes "length (b # t) \<le> 8"
  shows "sint (word_of_nat (be_to_nat 0 (replicate (8 - length (b # t)) (sign_byte b) @ b # t)) :: u64) =
    int (be_to_nat 0 (b # t)) - (if b AND 0x80 = 0 then 0 else 256 ^ length (b # t))"
    (is "sint (word_of_nat ?N :: u64) = ?x")
proof -
  let ?B = "be_to_nat 0 (b # t)" and ?n = "length (b # t)" and ?m = "length t"
  have B: "?B = unat b * 256 ^ ?m + be_to_nat 0 t" using be_to_nat_join [of 0 "[b]" t] by simp
  have low: "be_to_nat 0 t < 256 ^ ?m" using be_to_nat_bound [of 0 t] by simp
  have le: "(256::int) ^ ?n \<le> 256 ^ 8" using assms by (intro power_increasing) auto
  have "fits 64 ?x \<and> (\<exists>k::int. int ?N = ?x + k * 2 ^ 64)"
  proof (cases "b AND 0x80 = 0")
    case True
    then have b: "unat b < 128" by (rule top_bit_unat(1))
    have "unat b * 256 ^ ?m + be_to_nat 0 t < (unat b + 1) * 256 ^ ?m" using low by simp
    also have "\<dots> \<le> 128 * 256 ^ ?m" using b by (intro mult_le_mono1) simp
    finally have "2 * ?B < 256 ^ ?n" unfolding B by simp
    then have "int (2 * ?B) < int (256 ^ ?n)" by (simp only: of_nat_less_iff)
    then have "2 * int ?B < 256 ^ ?n" by simp
    moreover have "?N = ?B" using True be_to_nat_join [of 0 "replicate (8 - ?n) 0" "b # t"]
      by (simp only: sign_byte_def if_True be_to_nat_replicate_0) simp
    ultimately show ?thesis using True le by (auto simp: fits_def)
  next
    case False
    then have b: "128 \<le> unat b" by (rule top_bit_unat(2))
    have "128 * 256 ^ ?m \<le> unat b * 256 ^ ?m" using b by (intro mult_le_mono1)
    then have top: "2 * (128 * 256 ^ ?m) \<le> 2 * (unat b * 256 ^ ?m)" by (rule mult_le_mono2)
    have "(256::nat) ^ ?n = 2 * (128 * 256 ^ ?m)" by simp
    also note top
    also have "2 * (unat b * 256 ^ ?m) \<le> 2 * ?B" unfolding B by simp
    finally have "256 ^ ?n \<le> 2 * ?B" .
    then have "int (256 ^ ?n) \<le> int (2 * ?B)" by (simp only: of_nat_le_iff)
    then have "256 ^ ?n \<le> 2 * int ?B" by simp
    moreover have "?B < 256 ^ ?n" using be_to_nat_bound [of 0 "b # t"] by simp
    then have "int ?B < int (256 ^ ?n)" by (simp only: of_nat_less_iff)
    then have "int ?B < 256 ^ ?n" by simp
    moreover have "int ?N = int ?B - 256 ^ ?n + 2 ^ 64"
    proof -
      have "?N = (256 ^ (8 - ?n) - 1) * 256 ^ ?n + ?B"
        using False be_to_nat_join [of 0 "replicate (8 - ?n) 0xff" "b # t"]
        by (simp only: sign_byte_def if_False be_to_nat_replicate)
      moreover have "(256::int) ^ (8 - ?n) * 256 ^ ?n = 256 ^ 8" using assms by (simp flip: power_add)
      ultimately show ?thesis by (simp add: of_nat_diff left_diff_distrib)
    qed
    ultimately show ?thesis using False le by (auto simp: fits_def intro: exI [of _ 1])
  qed
  then obtain k where f: "fits LENGTH(64) ?x" and N: "int ?N = ?x + k * 2 ^ 64" by auto
  have "(word_of_nat ?N :: u64) = word_of_int (int ?N)" by simp
  also have "\<dots> = word_of_int ?x"
  proof -
    have zero: "(18446744073709551616 :: u64) = 0" by simp
    show ?thesis unfolding N by (simp add: zero)
  qed
  finally show ?thesis using sint_word_of_int_fits [OF f] by simp
qed

text \<open>
  C33: A VarInt is written in the fewest bytes from which it is read back, and bytes are read as the two's
  complement number they spell.
\<close>

theorem varint_shortest:
  assumes "varint_decodeBody (Some bs) old = Inr v" "bs \<noteq> []"
  shows "sint v = int (be_to_nat 0 bs) - (if hd bs AND 0x80 = 0 then 0 else 256 ^ length bs) \<and>
    varint_decodeBody (Some (varint_trim (int_wire v))) old = Inr v \<and>
    length (varint_trim (int_wire v)) \<le> length bs"
proof (intro conjI)
  obtain b t where bs: "bs = b # t" using assms(2) by (cases bs) auto
  then have "length (b # t) \<le> 8" using assms(1) by (auto simp: varint_decodeBody_def split: if_splits)
  from varint_decode_pad [OF this, of old] varint_value [OF this] assms(1) bs
  show "sint v = int (be_to_nat 0 bs) - (if hd bs AND 0x80 = 0 then 0 else 256 ^ length bs)"
    by (simp only: list.sel sum.inject)
  show "length (varint_trim (int_wire v)) \<le> length bs" by (rule varint_minimal(2) [OF assms])
qed (rule varint_roundtrip)

theorem varint_shortest_witness:
  "sint (128 :: u64) = int (be_to_nat 0 [0, 0x80]) \<and> length (varint_trim (int_wire (128 :: u64))) \<le> length [0, 0x80 :: byte]"
proof -
  have "varint_decodeBody (Some [0, 0x80]) 0 = Inr 128" by (simp add: varint_decodeBody_def be_to_nat_join be_to_nat_replicate_0)
  from varint_shortest [OF this] show ?thesis by simp
qed

end
