(* ===== verification/Column_Containers.thy ===== *)
theory Column_Containers
  imports Column_Numbers Command
begin

text \<open>
  \<^verbatim>\<open>ListBase\<close>, \<^verbatim>\<open>SetBase\<close>, \<^verbatim>\<open>MapBase\<close>, \<^verbatim>\<open>Tuple\<close> and
  \<^verbatim>\<open>UDT\<close>, which nest the traits of their elements, and \<^verbatim>\<open>ResultSet::fill\<close>, which decodes the
  values of a row. An unordered set is the list of its elements in iteration order, an unordered map the list of its
  entries.
\<close>

section \<open>Lists\<close>

text \<open>
  The size in front is an \<^verbatim>\<open>Int\<close>. The elements are read from what is left of the body; what
  remains after the last one is ignored.
\<close>

definition container_size :: "bytes \<Rightarrow> int result" where
  "container_size bs =
     rbind (ct_decodeBody integer_type (Some (take 4 bs)) (0 :: u32)) (\<lambda>size.
       if sint size < 0 then Inl DecodeException else Inr (sint size))"

fun list_decode_items :: "'v column \<Rightarrow> nat \<Rightarrow> bytes \<Rightarrow> 'v list result" where
  "list_decode_items cl 0 bs = Inr []"
| "list_decode_items cl (Suc n) bs =
     rbind (cl_decode cl bs (cl_initial cl)) (\<lambda>(v, bs).
     rbind (list_decode_items cl n bs) (\<lambda>vs. Inr (v # vs)))"

definition list_decodeBody :: "'v column \<Rightarrow> bytes option \<Rightarrow> 'v list \<Rightarrow> 'v list result" where
  "list_decodeBody cl body old =
     (case body of
        None \<Rightarrow> Inl DecodeException
      | Some bs \<Rightarrow>
          if length bs < 4 then Inl DecodeException
          else rbind (container_size bs) (\<lambda>size. list_decode_items cl (nat size) (drop 4 bs)))"

definition items_encode :: "('v \<Rightarrow> bytes \<Rightarrow> bytes) \<Rightarrow> 'v list \<Rightarrow> bytes \<Rightarrow> bytes" where
  "items_encode enc vs data = fold enc vs (ct_encodeBody integer_type (word_of_nat (length vs) :: u32) data)"

definition list_type :: "'v column \<Rightarrow> 'v list column_type" where
  "list_type cl =
     \<lparr>ct_initial = [], ct_reset = (\<lambda>v. []), ct_encodeBody = items_encode (cl_encode cl),
      ct_decodeBody = list_decodeBody cl\<rparr>"

text \<open>\<^verbatim>\<open>set(const UnderlyingType& value)\<close> assigns the member to itself.\<close>

definition container_set :: "'c \<Rightarrow> 'c \<Rightarrow> 'c" where
  "container_set new old = old"

definition container_set_move :: "'c \<Rightarrow> 'c \<Rightarrow> 'c" where
  "container_set_move new old = new"

section \<open>Sets\<close>

definition set_emplace :: "'v \<Rightarrow> 'v list \<Rightarrow> 'v list" where
  "set_emplace v vs = (if v \<in> set vs then vs else vs @ [v])"

fun set_decode_items :: "'v column \<Rightarrow> nat \<Rightarrow> bytes \<Rightarrow> 'v list \<Rightarrow> 'v list result" where
  "set_decode_items cl 0 bs vs = Inr vs"
| "set_decode_items cl (Suc n) bs vs =
     rbind (cl_decode cl bs (cl_initial cl)) (\<lambda>(v, bs). set_decode_items cl n bs (set_emplace v vs))"

definition set_decodeBody :: "'v column \<Rightarrow> bytes option \<Rightarrow> 'v list \<Rightarrow> 'v list result" where
  "set_decodeBody cl body old =
     (case body of
        None \<Rightarrow> Inl DecodeException
      | Some bs \<Rightarrow>
          if length bs < 4 then Inl DecodeException
          else rbind (container_size bs) (\<lambda>size. set_decode_items cl (nat size) (drop 4 bs) []))"

definition set_type :: "'v column \<Rightarrow> 'v list column_type" where
  "set_type cl =
     \<lparr>ct_initial = [], ct_reset = (\<lambda>v. []), ct_encodeBody = items_encode (cl_encode cl),
      ct_decodeBody = set_decodeBody cl\<rparr>"

section \<open>Maps\<close>

text \<open>\<^verbatim>\<open>emplace\<close> keeps the entry that is there.\<close>

definition entries_emplace :: "'k \<Rightarrow> 'v \<Rightarrow> ('k \<times> 'v) list \<Rightarrow> ('k \<times> 'v) list" where
  "entries_emplace k v es = (if k \<in> fst ` set es then es else es @ [(k, v)])"

fun map_decode_items :: "'k column \<Rightarrow> 'v column \<Rightarrow> nat \<Rightarrow> bytes \<Rightarrow> ('k \<times> 'v) list \<Rightarrow> ('k \<times> 'v) list result" where
  "map_decode_items ck cv 0 bs es = Inr es"
| "map_decode_items ck cv (Suc n) bs es =
     rbind (cl_decode ck bs (cl_initial ck)) (\<lambda>(k, bs).
     rbind (cl_decode cv bs (cl_initial cv)) (\<lambda>(v, bs). map_decode_items ck cv n bs (entries_emplace k v es)))"

definition map_decodeBody :: "'k column \<Rightarrow> 'v column \<Rightarrow> bytes option \<Rightarrow> ('k \<times> 'v) list \<Rightarrow> ('k \<times> 'v) list result" where
  "map_decodeBody ck cv body old =
     (case body of
        None \<Rightarrow> Inl DecodeException
      | Some bs \<Rightarrow>
          if length bs < 4 then Inl DecodeException
          else rbind (container_size bs) (\<lambda>size. map_decode_items ck cv (nat size) (drop 4 bs) []))"

definition entry_encode :: "'k column \<Rightarrow> 'v column \<Rightarrow> 'k \<times> 'v \<Rightarrow> bytes \<Rightarrow> bytes" where
  "entry_encode ck cv e data = cl_encode cv (snd e) (cl_encode ck (fst e) data)"

definition map_type :: "'k column \<Rightarrow> 'v column \<Rightarrow> ('k \<times> 'v) list column_type" where
  "map_type ck cv =
     \<lparr>ct_initial = [], ct_reset = (\<lambda>v. []), ct_encodeBody = items_encode (entry_encode ck cv),
      ct_decodeBody = map_decodeBody ck cv\<rparr>"

section \<open>Tuples, user defined types and rows\<close>

text \<open>
  The recursion over the index of an element: a pack of types is empty or a head followed by a pack, with values in
  nested pairs. Decoding a pack of a row is given the same pointers and returns what is left; the encoders of the
  values are what the parameters of a command are added with.
\<close>

record 'v pack =
  pk_initial :: 'v
  pk_reset :: "'v \<Rightarrow> 'v"
  pk_encode :: "'v \<Rightarrow> bytes \<Rightarrow> bytes"
  pk_encoders :: "'v \<Rightarrow> (bytes \<Rightarrow> bytes result) list"
  pk_decode :: "bytes \<Rightarrow> 'v \<Rightarrow> ('v \<times> bytes) result"
  pk_decodeFields :: "bytes \<Rightarrow> 'v \<Rightarrow> 'v result"

definition pack_nil :: "unit pack" where
  "pack_nil =
     \<lparr>pk_initial = (), pk_reset = (\<lambda>v. v), pk_encode = (\<lambda>v data. data), pk_encoders = (\<lambda>v. []), pk_decode = (\<lambda>bs v. Inr (v, bs)),
      pk_decodeFields = (\<lambda>bs v. Inr v)\<rparr>"

text \<open>A user defined type may have less values than fields: the other fields are reset.\<close>

definition pack_cons :: "'h column \<Rightarrow> 'r pack \<Rightarrow> ('h \<times> 'r) pack" where
  "pack_cons cl pk =
     \<lparr>pk_initial = (cl_initial cl, pk_initial pk),
      pk_reset = (\<lambda>(h, r). (cl_reset cl h, pk_reset pk r)),
      pk_encode = (\<lambda>(h, r) data. pk_encode pk r (cl_encode cl h data)),
      pk_encoders = (\<lambda>(h, r). (\<lambda>data. Inr (cl_encode cl h data)) # pk_encoders pk r),
      pk_decode = (\<lambda>bs (h, r).
        rbind (cl_decode cl bs h) (\<lambda>(h, bs).
        rbind (pk_decode pk bs r) (\<lambda>(r, bs). Inr ((h, r), bs)))),
      pk_decodeFields = (\<lambda>bs (h, r).
        rbind (if bs \<noteq> [] then cl_decode cl bs h else Inr (cl_reset cl h, bs)) (\<lambda>(h, bs).
        rbind (pk_decodeFields pk bs r) (\<lambda>r. Inr (h, r))))\<rparr>"

text \<open>With a negative size the end lies before the beginning, and nothing can be read.\<close>

definition tuple_type :: "'v pack \<Rightarrow> 'v column_type" where
  "tuple_type pk =
     \<lparr>ct_initial = pk_initial pk, ct_reset = pk_reset pk, ct_encodeBody = pk_encode pk,
      ct_decodeBody = (\<lambda>body v. rbind (pk_decode pk (case body of Some bs \<Rightarrow> bs | None \<Rightarrow> []) v) (\<lambda>(v, bs). Inr v))\<rparr>"

definition udt_type :: "'v pack \<Rightarrow> 'v column_type" where
  "udt_type pk =
     \<lparr>ct_initial = pk_initial pk, ct_reset = pk_reset pk, ct_encodeBody = pk_encode pk,
      ct_decodeBody = (\<lambda>body v. pk_decodeFields pk (case body of Some bs \<Rightarrow> bs | None \<Rightarrow> []) v)\<rparr>"

section \<open>What containers promise\<close>

lemma container_size_wire: "n < 2 ^ 31 \<Longrightarrow> container_size (int_wire (word_of_nat n :: u32) @ bs) = Inr (int n)"
  using int_column.decodes [of "word_of_nat n" 0]
  by (simp add: container_size_def integer_type_def sint_u32_of_nat)

lemma items_encode_wire:
  assumes "\<And>v data. enc v data = data @ enc v []"
  shows "items_encode enc vs data = data @ int_wire (word_of_nat (length vs) :: u32) @ concat (map (\<lambda>v. enc v []) vs)"
proof -
  have "fold enc vs data = data @ concat (map (\<lambda>v. enc v []) vs)" for data
  proof (induction vs arbitrary: data)
    case (Cons v vs)
    have "fold enc (v # vs) data = (data @ enc v []) @ concat (map (\<lambda>v. enc v []) vs)"
      using Cons [of "enc v data"] assms [of v data] by simp
    then show ?case by simp
  qed simp
  then show ?thesis by (simp add: items_encode_def integer_type_def)
qed

text \<open>The values a container can carry, given those its elements can carry.\<close>

definition list_ok :: "'v column \<Rightarrow> ('v \<Rightarrow> bool) \<Rightarrow> 'v list \<Rightarrow> bool" where
  "list_ok cl ok vs \<longleftrightarrow> list_all ok vs \<and> length vs < 2 ^ 31 \<and> length (items_encode (cl_encode cl) vs []) < 2 ^ 31"

definition set_ok :: "'v column \<Rightarrow> ('v \<Rightarrow> bool) \<Rightarrow> 'v list \<Rightarrow> bool" where
  "set_ok cl ok vs \<longleftrightarrow> list_ok cl ok vs \<and> distinct vs"

definition map_ok ::
  "'k column \<Rightarrow> ('k \<Rightarrow> bool) \<Rightarrow> 'v column \<Rightarrow> ('v \<Rightarrow> bool) \<Rightarrow> ('k \<times> 'v) list \<Rightarrow> bool" where
  "map_ok ck okk cv okv es \<longleftrightarrow> list_all (\<lambda>(k, v). okk k \<and> okv v) es \<and> length es < 2 ^ 31 \<and>
     length (items_encode (entry_encode ck cv) es []) < 2 ^ 31 \<and> distinct (map fst es)"

context column_io
begin

lemma list_items_wire:
  "list_all ok vs \<Longrightarrow> list_decode_items cl (length vs) (concat (map (\<lambda>v. cl_encode cl v []) vs) @ rest) = Inr vs"
  by (induction vs) (simp_all add: cl_decodes)

lemma set_items_wire:
  "list_all ok vs \<Longrightarrow> distinct (us @ vs) \<Longrightarrow>
   set_decode_items cl (length vs) (concat (map (\<lambda>v. cl_encode cl v []) vs) @ rest) us = Inr (us @ vs)"
  by (induction vs arbitrary: us) (simp_all add: cl_decodes set_emplace_def)

end

locale list_column = elem: column_io cl ok for cl :: "'v column" and ok :: "'v \<Rightarrow> bool"

sublocale list_column \<subseteq> list: column_codec "list_type cl" "list_ok cl ok"
proof unfold_locales
  note wire = items_encode_wire [where enc = "cl_encode cl", OF elem.cl_appends]
  show "ct_encodeBody (list_type cl) v data = data @ ct_encodeBody (list_type cl) v []" for v data
    by (simp add: list_type_def wire [of _ data] wire [of _ "[]"])
  show "list_ok cl ok v \<Longrightarrow> ct_decodeBody (list_type cl) (Some (ct_encodeBody (list_type cl) v [])) old = Inr v" for v old
    using elem.list_items_wire [of v "[]"]
    by (simp add: list_type_def list_ok_def wire list_decodeBody_def container_size_wire)
qed (simp_all add: list_type_def list_ok_def)

sublocale list_column \<subseteq> set: column_codec "set_type cl" "set_ok cl ok"
proof unfold_locales
  note wire = items_encode_wire [where enc = "cl_encode cl", OF elem.cl_appends]
  show "ct_encodeBody (set_type cl) v data = data @ ct_encodeBody (set_type cl) v []" for v data
    by (simp add: set_type_def wire [of _ data] wire [of _ "[]"])
  show "set_ok cl ok v \<Longrightarrow> ct_decodeBody (set_type cl) (Some (ct_encodeBody (set_type cl) v [])) old = Inr v" for v old
    using elem.set_items_wire [of v "[]" "[]"]
    by (simp add: set_type_def set_ok_def list_ok_def wire set_decodeBody_def container_size_wire)
qed (simp_all add: set_type_def set_ok_def list_ok_def)

locale map_column = key: column_io ck okk + val: column_io cv okv
  for ck :: "'k column" and okk :: "'k \<Rightarrow> bool" and cv :: "'v column" and okv :: "'v \<Rightarrow> bool"
begin

lemma entry_appends: "entry_encode ck cv e data = data @ entry_encode ck cv e []"
  unfolding entry_encode_def
  using key.cl_appends [of "fst e" data] val.cl_appends [of "snd e" "cl_encode ck (fst e) data"]
    val.cl_appends [of "snd e" "cl_encode ck (fst e) []"]
  by (metis append.assoc)

lemma entry_wire: "entry_encode ck cv (k, v) [] = cl_encode ck k [] @ cl_encode cv v []"
  by (simp add: entry_encode_def val.cl_appends [of v "cl_encode ck k []"])

lemma map_items_wire:
  "list_all (\<lambda>(k, v). okk k \<and> okv v) es \<Longrightarrow> distinct (map fst (ds @ es)) \<Longrightarrow>
   map_decode_items ck cv (length es) (concat (map (\<lambda>e. entry_encode ck cv e []) es) @ rest) ds = Inr (ds @ es)"
proof (induction es arbitrary: ds)
  case (Cons e es)
  obtain k v where e: "e = (k, v)" by fastforce
  then have "k \<notin> fst ` set ds" and "distinct (map fst ((ds @ [e]) @ es))" using Cons.prems(2) by auto
  with Cons.IH [of "ds @ [e]"] Cons.prems(1) e show ?case
    by (simp add: entry_wire key.cl_decodes val.cl_decodes entries_emplace_def)
qed simp

end

sublocale map_column \<subseteq> map: column_codec "map_type ck cv" "map_ok ck okk cv okv"
proof unfold_locales
  note wire = items_encode_wire [where enc = "entry_encode ck cv", OF entry_appends]
  show "ct_encodeBody (map_type ck cv) v data = data @ ct_encodeBody (map_type ck cv) v []" for v data
    by (simp add: map_type_def wire [of _ data] wire [of _ "[]"])
  show "map_ok ck okk cv okv v \<Longrightarrow> ct_decodeBody (map_type ck cv) (Some (ct_encodeBody (map_type ck cv) v [])) old = Inr v"
    for v old
    using map_items_wire [of v "[]" "[]"]
    by (simp add: map_type_def map_ok_def wire map_decodeBody_def container_size_wire)
qed (simp_all add: map_type_def map_ok_def)

section \<open>What packs promise\<close>

locale pack_io =
  fixes pk :: "'v pack" and ok :: "'v \<Rightarrow> bool"
  assumes pk_appends: "pk_encode pk v data = data @ pk_encode pk v []"
    and pk_decodes: "ok v \<Longrightarrow> pk_decode pk (pk_encode pk v [] @ rest) old = Inr (v, rest)"
    and pk_fields: "ok v \<Longrightarrow> pk_decodeFields pk (pk_encode pk v []) old = Inr v"
    and pk_resets: "pk_reset pk old = pk_initial pk"
    and pk_parameters: "addParametersEncode (pk_encoders pk v) data = Inr (pk_encode pk v data)"
    and pk_missing: "pk_decodeFields pk [] old = Inr (pk_initial pk)"
    and pk_truncated: "ok v \<Longrightarrow> n < length (pk_encode pk v []) \<Longrightarrow> pk_decode pk (take n (pk_encode pk v [])) old = Inl DecodeException"

interpretation empty_pack: pack_io pack_nil "\<lambda>_. True"
  by unfold_locales (simp_all add: pack_nil_def)

locale longer_pack = head: column_io cl okh + tail: pack_io pk okt
  for cl :: "'h column" and okh :: "'h \<Rightarrow> bool" and pk :: "'r pack" and okt :: "'r \<Rightarrow> bool"

definition pack_ok :: "('h \<Rightarrow> bool) \<Rightarrow> ('r \<Rightarrow> bool) \<Rightarrow> 'h \<times> 'r \<Rightarrow> bool" where
  "pack_ok okh okt v \<longleftrightarrow> okh (fst v) \<and> okt (snd v)"

sublocale longer_pack \<subseteq> cons: pack_io "pack_cons cl pk" "pack_ok okh okt"
proof unfold_locales
  have wire: "pk_encode (pack_cons cl pk) (h, r) data = data @ cl_encode cl h [] @ pk_encode pk r []" for h r data
    using head.cl_appends [of h data] tail.pk_appends [of r "cl_encode cl h data"] by (simp add: pack_cons_def)
  show "pk_encode (pack_cons cl pk) v data = data @ pk_encode (pack_cons cl pk) v []" for v data
    by (cases v) (simp add: wire)
  show "pack_ok okh okt v \<Longrightarrow> pk_decode (pack_cons cl pk) (pk_encode (pack_cons cl pk) v [] @ rest) old = Inr (v, rest)"
    for v rest old
    by (cases v; cases old) (simp add: wire, simp add: pack_cons_def pack_ok_def head.cl_decodes tail.pk_decodes)
  show "pack_ok okh okt v \<Longrightarrow> pk_decodeFields (pack_cons cl pk) (pk_encode (pack_cons cl pk) v []) old = Inr v" for v old
    by (cases v; cases old)
      (simp add: wire, simp add: pack_cons_def pack_ok_def head.cl_nonempty head.cl_decodes tail.pk_fields)
  show "addParametersEncode (pk_encoders (pack_cons cl pk) v) data = Inr (pk_encode (pack_cons cl pk) v data)" for v data
    by (cases v) (simp add: pack_cons_def tail.pk_parameters)
  show "pk_reset (pack_cons cl pk) old = pk_initial (pack_cons cl pk)" for old
    by (cases old) (simp add: pack_cons_def head.cl_resets tail.pk_resets)
  show "pk_decodeFields (pack_cons cl pk) [] old = Inr (pk_initial (pack_cons cl pk))" for old
    by (cases old) (simp add: pack_cons_def head.cl_resets tail.pk_missing)
  show "pack_ok okh okt v \<Longrightarrow> n < length (pk_encode (pack_cons cl pk) v []) \<Longrightarrow>
      pk_decode (pack_cons cl pk) (take n (pk_encode (pack_cons cl pk) v [])) old = Inl DecodeException" for v n old
  proof -
    assume ok: "pack_ok okh okt v" and n: "n < length (pk_encode (pack_cons cl pk) v [])"
    obtain h r h' r' where v: "v = (h, r)" "old = (h', r')" by (cases v; cases old)
    show ?thesis
    proof (cases "n < length (cl_encode cl h [])")
      case True
      then have "take n (pk_encode (pack_cons cl pk) v []) = take n (cl_encode cl h [])" by (simp add: v wire)
      with head.cl_truncated [of h n h'] True ok show ?thesis by (simp add: v pack_cons_def pack_ok_def)
    next
      case False
      let ?k = "n - length (cl_encode cl h [])"
      have "take n (pk_encode (pack_cons cl pk) v []) = cl_encode cl h [] @ take ?k (pk_encode pk r [])"
        using False by (simp add: v wire)
      moreover have "?k < length (pk_encode pk r [])" using n False by (simp add: v wire)
      ultimately show ?thesis
        using ok head.cl_decodes [of h _ h'] tail.pk_truncated [of r ?k r']
        by (simp add: v pack_cons_def pack_ok_def)
    qed
  qed
qed

definition tuple_ok :: "'v pack \<Rightarrow> ('v \<Rightarrow> bool) \<Rightarrow> 'v \<Rightarrow> bool" where
  "tuple_ok pk ok v \<longleftrightarrow> ok v \<and> length (pk_encode pk v []) < 2 ^ 31"

sublocale pack_io \<subseteq> tuple: column_codec "tuple_type pk" "tuple_ok pk ok"
proof unfold_locales
  show "ct_encodeBody (tuple_type pk) v data = data @ ct_encodeBody (tuple_type pk) v []" for v data
    using pk_appends [of v data] by (simp add: tuple_type_def)
  show "tuple_ok pk ok v \<Longrightarrow> ct_decodeBody (tuple_type pk) (Some (ct_encodeBody (tuple_type pk) v [])) old = Inr v" for v old
    using pk_decodes [of v "[]" old] by (simp add: tuple_type_def tuple_ok_def)
qed (simp_all add: tuple_type_def tuple_ok_def pk_resets)

sublocale pack_io \<subseteq> udt: column_codec "udt_type pk" "tuple_ok pk ok"
proof unfold_locales
  show "ct_encodeBody (udt_type pk) v data = data @ ct_encodeBody (udt_type pk) v []" for v data
    using pk_appends [of v data] by (simp add: udt_type_def)
qed (simp_all add: udt_type_def tuple_ok_def pk_fields pk_resets)

text \<open>A pack with fewer values than fields: what is there is read, the rest is reset.\<close>

context longer_pack
begin

lemma udt_prefix:
  "okh h \<Longrightarrow> ct_decodeBody (udt_type (pack_cons cl pk)) (Some (cl_encode cl h [])) old = Inr (h, pk_initial pk)"
  using head.cl_decodes [of h "[]" "fst old"]
  by (cases old) (simp add: udt_type_def pack_cons_def head.cl_nonempty tail.pk_missing)

end

section \<open>Nested types\<close>

text \<open>
  Columns of a table: integers, nullable texts, lists of integers, sets of texts, maps from UUIDs to nullable decimals, and
  tuples of these.
\<close>

interpretation int_list: list_column "trait (integer_type :: u32 column_type)" "\<lambda>_. True"
  by unfold_locales

interpretation text_set: list_column "trait string_type" "\<lambda>v. length v < 2 ^ 31"
  by unfold_locales

interpretation price_map: map_column "trait uuid_type" "\<lambda>_. True" "nullable_trait decimal_type" "nullable_ok decimal_type (\<lambda>_. True)"
  by unfold_locales

definition pair_pack :: "(u32 \<times> bytes nullable \<times> unit) pack" where
  "pair_pack = pack_cons (trait integer_type) (pack_cons (nullable_trait string_type) pack_nil)"

interpretation text_pack: longer_pack "nullable_trait string_type" "nullable_ok string_type (\<lambda>v. length v < 2 ^ 31)" pack_nil "\<lambda>_. True"
  by unfold_locales

interpretation pair: longer_pack "trait (integer_type :: u32 column_type)" "\<lambda>_. True"
    "pack_cons (nullable_trait string_type) pack_nil" "pack_ok (nullable_ok string_type (\<lambda>v. length v < 2 ^ 31)) (\<lambda>_. True)"
  by unfold_locales

end
