(* ===== verification/Result_Rows.thy ===== *)
theory Result_Rows
  imports Column_Containers Response_Messages Command
begin

text \<open>
  From the values of a program to the database and back: \<^verbatim>\<open>Command::addParameters\<close> writes the values of a
  statement, \<^verbatim>\<open>ResultSet::fill\<close> reads those of a row of a result.
\<close>

section \<open>Filling\<close>

text \<open>
  Filling moves the decode pointer over what it read. A default constructed result set has null pointers. A fill that
  throws leaves the values and the pointer where the failing column was; that state is not kept.
\<close>

definition rs_fill :: "'v pack \<Rightarrow> result_set \<Rightarrow> 'v \<Rightarrow> ('v \<times> result_set) result" where
  "rs_fill pk rs v =
     (case rs of
        None \<Rightarrow> Inl UndefinedBehaviour
      | Some d \<Rightarrow>
          (case (rsd_buffer d, rsd_decodePtr d, rsd_decodeEnd d) of
             (Some b, Some p, Some e) \<Rightarrow>
               rbind (pk_decode pk (drop p (take e b)) v) (\<lambda>(v, rest).
                 Inr (v, Some (d\<lparr>rsd_decodePtr := Some (p + (length (drop p (take e b)) - length rest))\<rparr>)))
           | _ \<Rightarrow> Inl UndefinedBehaviour))"

text \<open>What user code does with a result: one fill for each row, into the same variables.\<close>

fun rs_fill_rows :: "'v pack \<Rightarrow> nat \<Rightarrow> result_set \<Rightarrow> 'v \<Rightarrow> ('v list \<times> result_set) result" where
  "rs_fill_rows pk 0 rs v = Inr ([], rs)"
| "rs_fill_rows pk (Suc n) rs v =
     rbind (rs_fill pk rs v) (\<lambda>(v, rs).
     rbind (rs_fill_rows pk n rs v) (\<lambda>(vs, rs). Inr (v # vs, rs)))"

section \<open>Rows come back\<close>

definition rs_ready :: "result_set \<Rightarrow> bool" where
  "rs_ready rs \<longleftrightarrow> (\<exists>d b p e. rs = Some d \<and> rsd_buffer d = Some b \<and> rsd_decodePtr d = Some p \<and> rsd_decodeEnd d = Some e)"

lemma rs_fill_content:
  assumes "rs_ready rs" and dec: "pk_decode pk (rs_content rs) v = Inr (w, rest)" and suf: "\<exists>pre. rs_content rs = pre @ rest"
  shows "\<exists>rs'. rs_fill pk rs v = Inr (w, rs') \<and> rs_ready rs' \<and> rs_content rs' = rest"
proof -
  from assms(1) obtain d b p e where rs: "rs = Some d" "rsd_buffer d = Some b" "rsd_decodePtr d = Some p" "rsd_decodeEnd d = Some e"
    by (auto simp: rs_ready_def)
  then have c: "rs_content rs = drop p (take e b)" by (simp add: rs_content_def)
  from suf obtain pre where pre: "drop p (take e b) = pre @ rest" by (auto simp: c)
  have "length (drop p (take e b)) - length rest = length pre" using arg_cong [OF pre, of length] by simp
  moreover have "drop (p + length pre) (take e b) = rest"
    using arg_cong [OF pre, of "drop (length pre)"] by (simp add: add.commute)
  ultimately show ?thesis
    using dec rs by (simp add: rs_fill_def c rs_ready_def rs_content_def)
qed

context pack_io
begin

lemma fill_rows:
  assumes "list_all ok vs" "rs_ready rs" "rs_content rs = concat (map (\<lambda>v. pk_encode pk v []) vs) @ rest"
  shows "\<exists>rs'. rs_fill_rows pk (length vs) rs old = Inr (vs, rs') \<and> rs_content rs' = rest"
  using assms
proof (induction vs arbitrary: rs old)
  case (Cons v vs)
  let ?rest = "concat (map (\<lambda>v. pk_encode pk v []) vs) @ rest"
  have "pk_decode pk (rs_content rs) old = Inr (v, ?rest)" using Cons.prems(1,3) pk_decodes [of v ?rest old] by simp
  from rs_fill_content [OF Cons.prems(2) this] Cons.prems(3) obtain rs1 where
    1: "rs_fill pk rs old = Inr (v, rs1)" "rs_ready rs1" "rs_content rs1 = ?rest" by auto
  from Cons.IH [of rs1 v] Cons.prems(1) 1 show ?case by auto
qed simp

lemma fill_truncated:
  assumes "ok v" "n < length (pk_encode pk v [])" "rs_ready rs" "rs_content rs = take n (pk_encode pk v [])"
  shows "rs_fill pk rs old = Inl DecodeException"
  using pk_truncated [OF assms(1,2), of old] assms(3,4) by (auto simp: rs_ready_def rs_fill_def rs_content_def)

end

lemma re_decode_rows_ready:
  assumes "rm_ok meta ts"
  shows "\<exists>m' st' rs. re_decodeBody (int_wire RK_Rows @ rm_wire meta ts @ int_wire rowsCount @ rows) m st = Inr (m', st') \<and>
     re_resultSet m' = rs \<and> rs_ready rs \<and> rs_content rs = rows \<and> rs_getRowsCount rs = Inr (size_of_int32 rowsCount)"
proof -
  from re_decode_rows [OF assms, of rowsCount rows m st] obtain m' st' d where
    run: "re_decodeBody (int_wire RK_Rows @ rm_wire meta ts @ int_wire rowsCount @ rows) m st = Inr (m', st')"
    and d: "re_resultSet m' = Some d" "rs_content (Some d) = rows" "rsd_rowsCount d = size_of_int32 rowsCount" by auto
  have "rs_ready (Some d)"
  proof -
    obtain m1 st1 where "rm_decode (re_rowsMetadata m) st (rm_wire meta ts @ int_wire rowsCount @ rows) =
        Inr (m1, st1, int_wire rowsCount @ rows)"
      using rm_decode_wire [OF assms] by blast
    with run d(1) show ?thesis
      by (auto simp: re_decodeBody_def codec_simps Let_def RK_defs rsd_reset_def rs_ready_def rsd_init_def)
  qed
  with run d show ?thesis by (auto simp: rs_getRowsCount_def)
qed

text \<open>
  The rows of a result reach the program: a RESULT message whose body holds the rows of values the server
  sent decodes to a result set that announces them, and one fill for each yields these values in order, for rows
  of any column types, however they nest.
\<close>

lemma rows_reach_the_program:
  assumes pk: "pack_io pk ok" and rows: "list_all ok vs" and meta: "rm_ok meta ts" and len: "length vs < 2 ^ 31"
  shows "\<exists>m' st' rs'. re_decodeBody (int_wire RK_Rows @ rm_wire meta ts @ int_wire (word_of_nat (length vs) :: u32) @
        concat (map (\<lambda>v. pk_encode pk v []) vs)) m st = Inr (m', st') \<and>
     rs_getRowsCount (re_resultSet m') = Inr (of_nat (length vs)) \<and>
     rs_fill_rows pk (length vs) (re_resultSet m') old = Inr (vs, rs')"
proof -
  from re_decode_rows_ready [OF meta, of "word_of_nat (length vs)" "concat (map (\<lambda>v. pk_encode pk v []) vs)" m st]
  obtain m' st' where run: "re_decodeBody (int_wire RK_Rows @ rm_wire meta ts @ int_wire (word_of_nat (length vs) :: u32) @
        concat (map (\<lambda>v. pk_encode pk v []) vs)) m st = Inr (m', st')"
    and rs: "rs_ready (re_resultSet m')" "rs_content (re_resultSet m') = concat (map (\<lambda>v. pk_encode pk v []) vs)"
    and cnt: "rs_getRowsCount (re_resultSet m') = Inr (size_of_int32 (word_of_nat (length vs)))" by auto
  have "size_of_int32 (word_of_nat (length vs)) = of_nat (length vs)"
    using len by (simp add: size_of_int32_def scast_eq sint_u32_of_nat)
  with run cnt pack_io.fill_rows [OF pk rows rs(1), of "[]" old] rs(2) show ?thesis by auto
qed

definition row_example :: "u32 \<times> bytes nullable \<times> unit" where
  "row_example = (7, \<lparr>nb_value = [], nb_isNull = True\<rparr>, ())"

lemma row_example_ok:
  "pack_ok (\<lambda>_. True) (pack_ok (nullable_ok string_type (\<lambda>v. length v < 2 ^ 31)) (\<lambda>_. True)) row_example"
  by (simp add: row_example_def pack_ok_def nullable_ok_def string_type_def)

lemma pair_pack_io: "pack_io pair_pack (pack_ok (\<lambda>_. True) (pack_ok (nullable_ok string_type (\<lambda>v. length v < 2 ^ 31)) (\<lambda>_. True)))"
  unfolding pair_pack_def by (rule pair.cons.pack_io_axioms)

lemma rows_reach_the_program_witness:
  "\<exists>m' st' rs'. re_decodeBody (int_wire RK_Rows @ rm_wire metadata_example [TScalar CT_Int] @ int_wire (word_of_nat (length [row_example, row_example]) :: u32) @
        concat (map (\<lambda>v. pk_encode pair_pack v []) [row_example, row_example])) re_init os_init = Inr (m', st') \<and>
     rs_getRowsCount (re_resultSet m') = Inr (of_nat (length [row_example, row_example])) \<and>
     rs_fill_rows pair_pack (length [row_example, row_example]) (re_resultSet m') (pk_initial pair_pack) = Inr ([row_example, row_example], rs')"
  by (rule rows_reach_the_program [OF pair_pack_io _ metadata_example_ok])
    ((simp only: list.pred_inject row_example_ok simp_thms)+, simp)



end
