(* ===== verification/End_To_End.thy ===== *)
theory End_To_End
  imports Session_Requests Result_Rows
begin

text \<open>
  The layers together: a session on a connection whose peer is a server that answers every request as the protocol
  says. The session builds the request, the connection frames it, the server reads it with the decoders of the
  protocol and answers with rows, the connection receives the frame, and the program fills its variables.
\<close>

section \<open>A connection with a server behind it\<close>

text \<open>
  One exchange after the other: what was written to the socket is handed to the server, and its answer is received by
  the sequence of the receiver loop. The functions of the connection are those of the program.
\<close>

record exchange =
  ex_sender :: sender
  ex_incoming :: bytes
  ex_pools :: response_pools
  ex_options :: option_store

definition exchange_send ::
  "(bytes \<Rightarrow> bytes) \<Rightarrow> request \<Rightarrow> command_env \<Rightarrow> batch_env \<Rightarrow> stream \<Rightarrow> exchange \<Rightarrow> unit result \<times> exchange" where
  "exchange_send server x env benv stream l =
     (case connection_sendMessage ci_v4 (request_getHeader x, request_encodeBody env benv x) stream None (ex_sender l) of
        (Inl e, sd) \<Rightarrow> (Inl e, l\<lparr>ex_sender := sd\<rparr>)
      | (Inr u, sd) \<Rightarrow> (Inr (), l\<lparr>ex_sender := sd\<lparr>sd_output := []\<rparr>, ex_incoming := server (sd_output sd)\<rparr>))"

definition exchange_receive :: "exchange \<Rightarrow> response result \<times> exchange" where
  "exchange_receive l =
     (let bs = ex_incoming l in
      case connection_receiveFrame (sd_compressor (ex_sender l)) ci_v4 [] (take 9 bs) (\<lambda>n. take n (drop 9 bs))
          (ex_pools l) (ex_options l) of
        Inl e \<Rightarrow> (Inl e, l)
      | Inr (message, pools, options) \<Rightarrow> (Inr message, l\<lparr>ex_incoming := [], ex_pools := pools, ex_options := options\<rparr>))"

definition exchange_io :: "u16 \<Rightarrow> (bytes \<Rightarrow> bytes) \<Rightarrow> exchange session_io" where
  "exchange_io streamId server =
     \<lparr>io_node = (\<lambda>c. 0), io_getConnection = (\<lambda>l. (Inr (0, stream_new streamId), l)),
      io_sendMessage = (\<lambda>c env benv x stream. exchange_send server x env benv stream),
      io_waitNextMessage = (\<lambda>c stream. exchange_receive),
      io_returnConnection = (\<lambda>c stream l. (False, l))\<rparr>"

section \<open>The server\<close>

definition rows_body :: "'w pack \<Rightarrow> rows_metadata \<Rightarrow> ctype list \<Rightarrow> 'w list \<Rightarrow> bytes" where
  "rows_body pk meta ts rows =
     int_wire RK_Rows @ rm_wire meta ts @ int_wire (word_of_nat (length rows) :: u32) @ concat (map (\<lambda>w. pk_encode pk w []) rows)"

definition result_header :: "u16 \<Rightarrow> message_header" where
  "result_header streamId = (mh_setOpCode MT_Result MD_Response mh_init)\<lparr>mh_streamId := streamId\<rparr>"

definition rows_frame :: "'w pack \<Rightarrow> rows_metadata \<Rightarrow> ctype list \<Rightarrow> u16 \<Rightarrow> 'w list \<Rightarrow> bytes" where
  "rows_frame pk meta ts streamId rows =
     header_wire ci_v4 (result_header streamId) (word_of_nat (length (rows_body pk meta ts rows))) @ rows_body pk meta ts rows"

text \<open>
  The server reads the frame of a QUERY request, the text of the query, the settings and the values, and answers with
  the rows that \<open>answer\<close> gives for them.
\<close>

definition server_reads :: "'v pack \<Rightarrow> bytes \<Rightarrow> (u16 \<times> bytes \<times> 'v) result" where
  "server_reads pk frame =
     rbind (frame_parse frame) (\<lambda>(h, body).
     if mh_getOpCode h \<noteq> MT_Query then Inl LogicException
     else rbind (rbind (long_string_decode body) (\<lambda>(q, bs). rbind (qp_decode_command bs) (\<lambda>r. Inr (ss_value q, r))))
       (\<lambda>(q, d, flags, rest). rbind (pk_decode pk (cd_parameters d) (pk_initial pk)) (\<lambda>(v, rest). Inr (mh_streamId h, q, v))))"

definition query_server ::
  "'v pack \<Rightarrow> 'w pack \<Rightarrow> rows_metadata \<Rightarrow> ctype list \<Rightarrow> (bytes \<Rightarrow> 'v \<Rightarrow> 'w list) \<Rightarrow> bytes \<Rightarrow> bytes" where
  "query_server pin pout meta ts answer frame =
     (case server_reads pin frame of
        Inl e \<Rightarrow> []
      | Inr (streamId, q, v) \<Rightarrow> rows_frame pout meta ts streamId (answer q v))"

section \<open>The request arrives\<close>

definition query_flags :: "command_data \<Rightarrow> u8" where
  "query_flags d = ucast (qp_command_flags (qp_getFlags (qp_setSkipMetadata True (qm_queryParameters new_query))) d)"

definition query_body :: "command_data \<Rightarrow> sized_string list \<Rightarrow> bytes" where
  "query_body d vs = long_wire \<lparr>ss_value = sh_get (cd_queryStr d), ss_state = StateNormal\<rparr> @ qp_wire (query_flags d) d vs"

lemma query_request_wire:
  assumes ok: "qp_sendable d vs"
  obtains x where "query_request d = Inr x" "request_getHeader x = request_header MT_Query"
    "\<And>benv data. request_encodeBody (session_env d) benv x data = Inr (data @ query_body d vs)"
proof -
  let ?old = "qp_setSkipMetadata True (qm_queryParameters new_query)"
  let ?qp = "?old\<lparr>qp_flags := query_flags d, qp_commandRef := RefExt 0\<rparr>"
  let ?m = "new_query\<lparr>qm_queryParameters := ?qp\<rparr>"
  have "cd_consistencyLevel d \<noteq> None" using ok by (auto simp: qp_sendable_def)
  then have "query_request d = Inr (ReqQuery ?m)"
    by (simp add: query_request_def qp_setCommandRef_def qp_getCommand_def session_env_def query_flags_def)
  moreover have cmd: "qp_getCommand ?qp (session_env d) = Some d"
    by (simp add: qp_getCommand_def session_env_def)
  have "qm_encodeBody (session_env d) ?m data = Inr (data @ query_body d vs)" for data
    using qp_encode_wire [OF ok cmd, of "qp_getFlags ?old"]
    by (simp add: qm_encodeBody_def query_flags_def [symmetric] cmd codec_simps Let_def sized_wire_def query_body_def)
  moreover have "qm_header ?m = request_header MT_Query" by (simp add: new_query_def qm_reset_def)
  ultimately show thesis by (intro that [of "ReqQuery ?m"]) simp_all
qed

lemma server_reads_query:
  fixes i :: u16
  assumes ok: "qp_sendable d vs" and len: "length (sh_get (cd_queryStr d)) < 2 ^ 31" "length (query_body d vs) < 2 ^ 31"
    and pk: "pack_io pk okv" "okv v" and params: "cd_parameters d = pk_encode pk v []"
  shows "server_reads pk (header_wire ci_v4 ((request_header MT_Query)\<lparr>mh_streamId := i\<rparr>) (word_of_nat (length (query_body d vs))) @
    query_body d vs) = Inr (i, sh_get (cd_queryStr d), v)"
proof -
  let ?h = "(request_header MT_Query)\<lparr>mh_streamId := i\<rparr>"
  let ?q = "\<lparr>ss_value = sh_get (cd_queryStr d), ss_state = StateNormal\<rparr>"
  have q: "long_string_ok ?q" using len(1) by (simp add: long_string_ok_def sized_ok_def le_length_max_iff)
  have "mh_direction ?h = MD_Request" by (simp add: request_header_def mh_setOpCode_def)
  with len(2) have parse: "frame_parse (header_wire ci_v4 ?h (word_of_nat (length (query_body d vs))) @ query_body d vs) =
      Inr (?h\<lparr>mh_bodyLength := word_of_nat (length (query_body d vs))\<rparr>, query_body d vs)"
    by (simp add: frame_parse_wire)
  have op: "mh_getOpCode (?h\<lparr>mh_bodyLength := n\<rparr>) = MT_Query" for n
    by (simp add: mh_getOpCode_def request_header_def mh_setOpCode_def MT_defs)
  have "long_string_decode (query_body d vs) = Inr (?q, qp_wire (query_flags d) d vs)"
    unfolding query_body_def by (rule long_string_codec.dec_wire [OF q])
  moreover have "qp_decode_command (qp_wire (query_flags d) d vs) = Inr (command_received d, query_flags d, [])"
    using qp_decode_command_wire [OF ok, of "query_flags d" _ "[]"] by (simp add: command_received_def query_flags_def)
  moreover have "pk_decode pk (cd_parameters (command_received d)) (pk_initial pk) = Inr (v, [])"
    using pack_io.pk_decodes [OF pk, of "[]"] params by (simp add: command_received_def)
  ultimately show ?thesis using parse op by (simp add: server_reads_def)
qed

section \<open>The rows come back\<close>

lemma re_decode_kind: "re_decodeBody (int_wire RK_Rows @ bs) m st = Inr (m', st') \<Longrightarrow> re_kind m' = RK_Rows"
  by (auto simp: re_decodeBody_def codec_simps Let_def RK_defs rbind_eq_Inr)

text \<open>Whatever a body decodes to, the frame of a result with this body is received as it.\<close>

definition result_frame :: "u16 \<Rightarrow> bytes \<Rightarrow> bytes" where
  "result_frame streamId body = header_wire ci_v4 (result_header streamId) (word_of_nat (length body)) @ body"

lemma receive_result:
  assumes l: "ex_incoming l = result_frame streamId body" and size: "length body \<le> ci_maximumMessageBodySize ci_v4"
    and decodes: "\<And>m0 st. \<exists>m st'. re_decodeBody body m0 st = Inr (m, st') \<and> P m"
  obtains m l' where "exchange_receive l = (Inr (RespResult m), l')" "ex_sender l' = ex_sender l"
    "hs_opcode (RespResult m) = MT_Result" "P m"
proof -
  let ?h = "(result_header streamId)\<lparr>mh_bodyLength := word_of_nat (length body)\<rparr>"
  have opcode: "mh_getOpCode ?h = MT_Result"
    by (simp add: mh_getOpCode_def result_header_def mh_setOpCode_def MT_defs)
  obtain m0 free where "make_reusable (re_reset ?h) re_init (po_result (ex_pools l)) = (m0, free)" by fastforce
  with opcode obtain po where make: "makeResponseMessage ?h (ex_pools l) = Inr (RespResult m0, po)"
    by (simp add: makeResponseMessage_def)
  have m0: "re_header m0 = ?h" using makeResponse_header [OF make] by simp
  obtain m st where run: "re_decodeBody body m0 (ex_options l) = Inr (m, st)" and P: "P m"
    using decodes by blast
  have decode: "response_decodeBody body (RespResult m0) (ex_options l) = Inr (RespResult m, st)" by (simp add: run)
  have header: "response_header (RespResult m) = ?h" using response_decodeBody_header [OF decode] m0 by simp
  have "mh_getFlags ?h = 0" by (simp add: mh_getFlags_def result_header_def mh_setOpCode_def mh_init_def)
  then have plain: "connection_decodeMessage (sd_compressor (ex_sender l)) ci_v4 [] (RespResult m0) body (ex_options l) = Inr (RespResult m, st)"
    using decodeMessage_plain [of "RespResult m0"] m0 decode by simp
  have small: "length body < 2 ^ 31" using size by simp
  have "mh_decodeHeader mh_init (header_wire ci_v4 (result_header streamId) (word_of_nat (length body))) = Inr ?h"
    by (intro decodeHeader_wire) (simp_all add: result_header_def mh_setOpCode_def)
  moreover have "mh_getBodyLength ?h = Inr (length body)" using small by (intro mh_getBodyLength_small)
  ultimately have receive: "exchange_receive l = (Inr (RespResult m), l\<lparr>ex_incoming := [], ex_pools := po, ex_options := st\<rparr>)"
    using make plain size by (simp add: exchange_receive_def l result_frame_def connection_receiveFrame_def Let_def)
  moreover have "hs_opcode (RespResult m) = MT_Result"
    using header opcode by (simp only: hs_opcode_def)
  ultimately show thesis using that [OF receive] P by simp
qed

lemma rows_frame_result: "rows_frame pk meta ts streamId rows = result_frame streamId (rows_body pk meta ts rows)"
  by (simp add: rows_frame_def result_frame_def)

lemma receive_rows:
  assumes l: "ex_incoming l = rows_frame pk meta ts streamId rows"
    and size: "length (rows_body pk meta ts rows) \<le> ci_maximumMessageBodySize ci_v4"
    and meta: "rm_ok meta ts" and len: "length rows < 2 ^ 31"
  obtains m l' where "exchange_receive l = (Inr (RespResult m), l')" "ex_sender l' = ex_sender l"
    "hs_opcode (RespResult m) = MT_Result" "re_getKind m = RK_Rows" "rs_ready (re_resultSet m)"
    "rs_content (re_resultSet m) = concat (map (\<lambda>w. pk_encode pk w []) rows)"
    "rs_getRowsCount (re_resultSet m) = Inr (of_nat (length rows))"
proof (rule receive_result [OF l [unfolded rows_frame_result] size])
  show "\<exists>m st'. re_decodeBody (rows_body pk meta ts rows) m0 st = Inr (m, st') \<and> re_getKind m = RK_Rows \<and>
      rs_ready (re_resultSet m) \<and> rs_content (re_resultSet m) = concat (map (\<lambda>w. pk_encode pk w []) rows) \<and>
      rs_getRowsCount (re_resultSet m) = Inr (of_nat (length rows))" for m0 st
  proof -
    obtain m st' where run: "re_decodeBody (rows_body pk meta ts rows) m0 st = Inr (m, st')"
      and rs: "rs_ready (re_resultSet m)" "rs_content (re_resultSet m) = concat (map (\<lambda>w. pk_encode pk w []) rows)"
        "rs_getRowsCount (re_resultSet m) = Inr (size_of_int32 (word_of_nat (length rows)))"
      using re_decode_rows_ready [OF meta, of "word_of_nat (length rows)" "concat (map (\<lambda>w. pk_encode pk w []) rows)" m0 st]
      by (auto simp: rows_body_def)
    have "size_of_int32 (word_of_nat (length rows)) = of_nat (length rows)"
      using len by (simp add: size_of_int32_def scast_eq sint_u32_of_nat)
    with run rs show ?thesis using re_decode_kind [of _ m0 st m st'] by (auto simp: rows_body_def re_getKind_def)
  qed
qed (use that in blast)

section \<open>The round trip\<close>

text \<open>A request whose body is known is handed to the server in a plain frame, and the next one can follow.\<close>

definition sender_ready :: "exchange \<Rightarrow> bool" where
  "sender_ready l \<longleftrightarrow> \<not> sd_failed (ex_sender l) \<and>
     (\<not> sd_isReady (ex_sender l) \<or> sd_compressor (ex_sender l) = None) \<and> sd_output (ex_sender l) = []"

definition request_frame :: "u32 \<Rightarrow> u16 \<Rightarrow> bytes \<Rightarrow> bytes" where
  "request_frame opcode i body =
     header_wire ci_v4 ((request_header opcode)\<lparr>mh_streamId := i\<rparr>) (word_of_nat (length body)) @ body"

lemma exchange_plain:
  assumes body: "\<And>data. request_encodeBody env benv x data = Inr (data @ body)" and small: "length body < 2 ^ 31"
    and header: "request_getHeader x = request_header opcode" and ready: "sender_ready l"
  obtains l' where "exchange_send server x env benv (stream_new i) l = (Inr (), l')"
    "ex_incoming l' = server (request_frame opcode i body)" "sender_ready l'"
proof -
  have "plain_call ((request_header opcode, request_encodeBody env benv x), stream_new i, None) body"
    using body small by (simp add: plain_call_def stream_new_def request_header_def mh_setOpCode_def)
  then obtain sd' where
    send: "connection_sendMessage ci_v4 (request_header opcode, request_encodeBody env benv x) (stream_new i) None (ex_sender l) =
      (Inr (), sd')" and sd': "\<not> sd_failed sd'" "sd_isReady sd' = sd_isReady (ex_sender l)"
      "sd_compressor sd' = sd_compressor (ex_sender l)" "sd_output sd' = request_frame opcode i body"
    using ready unfolding sender_ready_def request_frame_def
    by (elim conjE) (rule send_plain, assumption+, simp add: stream_new_def)
  then have "exchange_send server x env benv (stream_new i) l =
      (Inr (), l\<lparr>ex_sender := sd'\<lparr>sd_output := []\<rparr>, ex_incoming := server (sd_output sd')\<rparr>)"
    using header by (simp add: exchange_send_def)
  from that [OF this] show thesis using sd' ready by (simp add: sender_ready_def)
qed

text \<open>
  C4: A query makes the whole way: the values a program added to its command reach the server with the text of the
  query, and the rows the server answers with are the rows that filling the result set gives the program, in order; the
  call counts as one success.
\<close>

theorem query_round_trip:
  fixes answer :: "bytes \<Rightarrow> 'v \<Rightarrow> 'w list"
  assumes pin: "pack_io pin okin" "okin v" and pout: "pack_io pout okout" "list_all okout (answer (sh_get (cd_queryStr d)) v)"
    and add: "command_addParameters (pk_encoders pin v) (Some initial) = Inr (Some d)" "cd_parameters initial = []"
    and ok: "qp_sendable (setDefaultValues cfg d) ps" "cd_needPrepare (setDefaultValues cfg d) = Some False"
    and len: "length (sh_get (cd_queryStr d)) < 2 ^ 31" "length (query_body (setDefaultValues cfg d) ps) < 2 ^ 31"
    and meta: "rm_ok meta ts" and rows: "length (answer (sh_get (cd_queryStr d)) v) < 2 ^ 31"
      "length (rows_body pout meta ts (answer (sh_get (cd_queryStr d)) v)) \<le> ci_maximumMessageBodySize ci_v4"
    and sd: "\<not> sd_failed (ex_sender (sn_lower s))" "sd_output (ex_sender (sn_lower s)) = []"
      "\<not> sd_isReady (ex_sender (sn_lower s)) \<or> sd_compressor (ex_sender (sn_lower s)) = None"
  shows "\<exists>result s' rs'.
    session_query (exchange_io i (query_server pin pout meta ts answer)) cfg (Some d) s = Some (Inr result, s') \<and>
    rs_fill_rows pout (length (answer (sh_get (cd_queryStr d)) v)) result old = Inr (answer (sh_get (cd_queryStr d)) v, rs') \<and>
    rs_getRowsCount result = Inr (of_nat (length (answer (sh_get (cd_queryStr d)) v))) \<and>
    sn_metrics s' = command_succeeded (sn_metrics s)"
proof -
  let ?d = "setDefaultValues cfg d" and ?rows = "answer (sh_get (cd_queryStr d)) v"
  let ?server = "query_server pin pout meta ts answer"
  let ?io = "exchange_io i ?server" and ?s = "sn_begin (cd_maxRetries d) s"
  have query: "cd_queryStr ?d = cd_queryStr d" and "cd_parameters ?d = cd_parameters d"
    by (simp_all add: setDefaultValues_def Let_def)
  then have params: "cd_parameters ?d = pk_encode pin v []"
    using add pack_io.pk_parameters [OF pin(1), of v "[]"] by (auto simp: command_addParameters_def deref_def)
  obtain x where x: "query_request ?d = Inr x" "request_getHeader x = request_header MT_Query"
    and body: "\<And>benv data. request_encodeBody (session_env ?d) benv x data = Inr (data @ query_body ?d ps)"
    by (rule query_request_wire [OF ok(1)]) (rule that)
  have "sender_ready (sn_lower s)" using sd by (simp add: sender_ready_def)
  from exchange_plain [OF body len(2) x(2) this] obtain l1 where
    send: "exchange_send ?server x (session_env ?d) (\<lambda>_. None) (stream_new i) (sn_lower s) = (Inr (), l1)"
    and incoming: "ex_incoming l1 = ?server (request_frame MT_Query i (query_body ?d ps))" by metis
  have "ex_incoming l1 = rows_frame pout meta ts i ?rows"
    using server_reads_query [OF ok(1) _ len(2) pin params, of i] len(1) query
    by (simp add: incoming query_server_def request_frame_def)
  from receive_rows [OF this rows(2) meta rows(1)] obtain m l2 where recv: "exchange_receive l1 = (Inr (RespResult m), l2)"
    and m: "hs_opcode (RespResult m) = MT_Result" "re_getKind m = RK_Rows" "rs_ready (re_resultSet m)"
      "rs_content (re_resultSet m) = concat (map (\<lambda>w. pk_encode pout w []) ?rows)"
      "rs_getRowsCount (re_resultSet m) = Inr (of_nat (length ?rows))" by blast
  let ?s1 = "?s\<lparr>sn_connection := Some 0, sn_stream := stream_new i, sn_lower := l2\<rparr>"
  have "command_attempt ?io ?d (query_reply ?io ?d) ?s = query_reply ?io ?d 0 (RespResult m) ?s1"
    by (rule attempt_error_reply [OF ok(2) x(1)]) (use send recv in \<open>simp_all add: exchange_io_def sn_begin_def\<close>)
  also have "\<dots> = (Inr (re_resultSet m), ?s1)" using m(1,2) by (simp add: query_reply_def fut_return_def)
  finally have "sn_iteration ?io command_succeeded command_failed (command_attempt ?io ?d (query_reply ?io ?d)) ?s =
      (Inr (Some (re_resultSet m)), sn_finally ?io (?s1\<lparr>sn_metrics := command_succeeded (sn_metrics ?s1)\<rparr>))"
    by (simp add: sn_iteration_def)
  then have "sn_repeat ?io command_succeeded command_failed (command_attempt ?io ?d (query_reply ?io ?d)) ?s =
      Some (Inr (re_resultSet m), sn_finally ?io (?s1\<lparr>sn_metrics := command_succeeded (sn_metrics ?s1)\<rparr>))"
    by (subst sn_repeat.simps) simp
  moreover have "rs_isValid (re_resultSet m)" using m(3) by (auto simp: rs_ready_def rs_isValid_def)
  ultimately have run: "session_query ?io cfg (Some d) s =
      Some (Inr (re_resultSet m), sn_finally ?io (?s1\<lparr>sn_metrics := command_succeeded (sn_metrics ?s1)\<rparr>))"
    by (simp add: session_query_def Let_def)
  have "sn_metrics (sn_finally ?io (?s1\<lparr>sn_metrics := command_succeeded (sn_metrics ?s1)\<rparr>)) = command_succeeded (sn_metrics s)"
    by (simp add: sn_begin_def)
  with run m(5) pack_io.fill_rows [OF pout(1,2) m(3), of "[]" old] m(4) show ?thesis by auto
qed

text \<open>A statement with one integer as its value, answered with two rows.\<close>

interpretation int_row: longer_pack "trait (integer_type :: u32 column_type)" "\<lambda>_. True" pack_nil "\<lambda>_. True"
  by unfold_locales

definition int_pack :: "(u32 \<times> unit) pack" where
  "int_pack = pack_cons (trait integer_type) pack_nil"

lemma int_pack_io: "pack_io int_pack (pack_ok (\<lambda>_. True) (\<lambda>_. True))"
  unfolding int_pack_def by (rule int_row.cons.pack_io_axioms)

lemma int_encode: "trait_encode integer_type (v :: u32) data = data @ int_wire (4 :: u32) @ int_wire v"
  using int_column.trait_encode_wire [of v data] by (simp add: integer_type_def)

definition command_with_value :: command_data where
  "command_with_value = command_ready\<lparr>cd_parameters := int_wire (4 :: u32) @ int_wire (7 :: u32), cd_parameterCount := 1\<rparr>"

definition value_example :: sized_string where
  "value_example = \<lparr>ss_value = int_wire (7 :: u32), ss_state = StateNormal\<rparr>"

definition exchange_example :: exchange where
  "exchange_example = \<lparr>ex_sender = sender_init, ex_incoming = [], ex_pools = pools_init, ex_options = os_init\<rparr>"

lemma command_with_value: "setDefaultValues sc_init command_with_value = command_with_value"
  by (simp add: setDefaultValues_def command_with_value_def command_ready_def command_example_def)

lemma command_with_value_sendable: "qp_sendable command_with_value [value_example]"
  by (simp add: command_with_value_def value_example_def command_ready_def command_example_def command_data_init_def
      qp_sendable_def command_params_inv_def level_ok_def CL_defs value_ok_def sized_ok_def sized_wire_def bytes_ok_def
      le_length_max_iff)

lemma rows_example_size:
  "length (rows_body pair_pack metadata_example [TScalar CT_Int] [row_example, row_example]) \<le> ci_maximumMessageBodySize ci_v4"
proof -
  have "pk_encode pair_pack row_example [] = int_wire (4 :: u32) @ int_wire (7 :: u32) @ int_wire (- 1 :: u32)"
    by (simp add: pair_pack_def row_example_def pack_cons_def pack_nil_def trait_def nullable_trait_def int_encode nullable_encode_def)
  then show ?thesis
    by (simp add: rows_body_def rm_wire_def metadata_example_def rm_init_def rc_init_def RMF_defs enumTrue_def enumFalse_def
        enum_and_def Let_def sized_wire_def column_wire_def ct_wire_def ss_init_def)
qed

lemma query_example_size: "length (query_body command_with_value [value_example]) < 2 ^ 31"
  by (simp add: query_body_def qp_wire_def command_with_value_def value_example_def command_ready_def command_example_def
      command_data_init_def sized_wire_def opt_wire_def ascii_def)

theorem query_round_trip_witness:
  "\<exists>result s' rs'.
    session_query (exchange_io 1 (query_server int_pack pair_pack metadata_example [TScalar CT_Int] (\<lambda>q v. [row_example, row_example])))
      sc_init (Some command_with_value) (session_example exchange_example) = Some (Inr result, s') \<and>
    rs_fill_rows pair_pack (length [row_example, row_example]) result (pk_initial pair_pack) = Inr ([row_example, row_example], rs') \<and>
    rs_getRowsCount result = Inr (of_nat (length [row_example, row_example])) \<and>
    sn_metrics s' = command_succeeded (sn_metrics (session_example exchange_example))"
proof (rule query_round_trip [where initial = command_ready and d = command_with_value and v = "(7, ())" and ps = "[value_example]" and
    cfg = sc_init and answer = "\<lambda>q v. [row_example, row_example]", OF int_pack_io _ pair_pack_io])
  show "length (query_body (setDefaultValues sc_init command_with_value) [value_example]) < 2 ^ 31"
    using query_example_size by (simp only: command_with_value)
  show "qp_sendable (setDefaultValues sc_init command_with_value) [value_example]"
    by (simp only: command_with_value command_with_value_sendable)
  show "cd_needPrepare (setDefaultValues sc_init command_with_value) = Some False"
    unfolding command_with_value by (simp add: command_with_value_def command_ready_def command_example_def command_data_init_def)
  show "list_all (pack_ok (\<lambda>_. True) (pack_ok (nullable_ok string_type (\<lambda>v. length v < 2 ^ 31)) (\<lambda>_. True))) [row_example, row_example]"
    by (simp only: list.pred_inject row_example_ok simp_thms)
  show "command_addParameters (pk_encoders int_pack (7, ())) (Some command_ready) = Inr (Some command_with_value)"
    by (simp add: command_addParameters_def deref_def int_pack_def pack_cons_def pack_nil_def trait_def
        int_encode command_with_value_def command_ready_def command_example_def command_data_init_def)
qed (simp_all add: pack_ok_def rows_example_size [simplified] metadata_example_ok session_example_def exchange_example_def sender_init_def
    command_with_value_def command_ready_def command_example_def command_data_init_def ascii_def)

end
