(* ===== verification/Prepared_Round_Trip.thy ===== *)
theory Prepared_Round_Trip
  imports End_To_End
begin

text \<open>
  The round trip of \<open>End_To_End\<close> for a prepared statement: the session asks the server to prepare the text unless the
  node remembers an id, sends the id with the values, and fills the rows that come back. The server gives every text an
  id and finds the text of an id again.
\<close>

section \<open>A server with prepared statements\<close>

definition prepared_body :: "bytes \<Rightarrow> prepared_metadata \<Rightarrow> ctype list \<Rightarrow> rows_metadata \<Rightarrow> ctype list \<Rightarrow> bytes" where
  "prepared_body pid pm us meta ts =
     int_wire RK_Prepared @ short_wire \<lparr>ss_value = pid, ss_state = StateNormal\<rparr> @ pm_wire pm us @ rm_wire meta ts"

record statement_server =
  sv_idOf :: "bytes \<Rightarrow> bytes"
  sv_textOf :: "bytes \<Rightarrow> bytes"
  sv_parameters :: prepared_metadata
  sv_parameterTypes :: "ctype list"
  sv_meta :: rows_metadata
  sv_types :: "ctype list"

text \<open>A frame is a PREPARE with the text, or an EXECUTE with an id, the settings and the values; else there is no answer.\<close>

definition statement_answer ::
  "statement_server \<Rightarrow> 'v pack \<Rightarrow> 'w pack \<Rightarrow> (bytes \<Rightarrow> 'v \<Rightarrow> 'w list) \<Rightarrow> bytes \<Rightarrow> bytes result" where
  "statement_answer sv pin pout answer frame =
     rbind (frame_parse frame) (\<lambda>(h, body).
     if mh_getOpCode h = MT_Prepare then
       rbind (long_string_decode body) (\<lambda>(q, rest).
       Inr (result_frame (mh_streamId h)
         (prepared_body (sv_idOf sv (ss_value q)) (sv_parameters sv) (sv_parameterTypes sv) (sv_meta sv) (sv_types sv))))
     else if mh_getOpCode h = MT_Execute then
       rbind (short_bytes_decode body) (\<lambda>(pid, bs).
       rbind (qp_decode_command bs) (\<lambda>(d, flags, rest).
       rbind (pk_decode pin (cd_parameters d) (pk_initial pin)) (\<lambda>(v, rest).
       Inr (rows_frame pout (sv_meta sv) (sv_types sv) (mh_streamId h) (answer (sv_textOf sv (ss_value pid)) v)))))
     else Inl LogicException)"

definition run_statement_server ::
  "statement_server \<Rightarrow> 'v pack \<Rightarrow> 'w pack \<Rightarrow> (bytes \<Rightarrow> 'v \<Rightarrow> 'w list) \<Rightarrow> bytes \<Rightarrow> bytes" where
  "run_statement_server sv pin pout answer frame =
     (case statement_answer sv pin pout answer frame of Inl e \<Rightarrow> [] | Inr bs \<Rightarrow> bs)"

section \<open>The requests of a prepared statement\<close>

definition execute_body :: "bytes \<Rightarrow> command_data \<Rightarrow> sized_string list \<Rightarrow> bytes" where
  "execute_body pid d vs = short_wire \<lparr>ss_value = pid, ss_state = StateNormal\<rparr> @ qp_wire (query_flags d) d vs"

lemma execute_request_wire:
  assumes ok: "qp_sendable d vs" and pid: "length pid < 2 ^ 16"
  obtains x where "execute_request d pid = Inr x" "request_getHeader x = request_header MT_Execute"
    "\<And>benv data. request_encodeBody (session_env d) benv x data = Inr (data @ execute_body pid d vs)"
proof -
  let ?old = "qp_setSkipMetadata True (em_queryParameters new_execute)"
  let ?qp = "?old\<lparr>qp_flags := query_flags d, qp_commandRef := RefExt 0\<rparr>"
  let ?pid = "\<lparr>ss_value = pid, ss_state = StateNormal\<rparr>"
  let ?m = "new_execute\<lparr>em_queryParameters := ?qp, em_preparedQueryId := ?pid\<rparr>"
  have "cd_consistencyLevel d \<noteq> None" using ok by (auto simp: qp_sendable_def)
  moreover have flags: "query_flags d = ucast (qp_command_flags (qp_getFlags ?old) d)"
    by (simp add: query_flags_def new_execute_def new_query_def em_reset_def qm_reset_def em_init_def qm_init_def)
  moreover have "ss_set pid (em_preparedQueryId new_execute) = ?pid"
    by (simp add: ss_set_def new_execute_def em_reset_def ss_reset_def)
  ultimately have "execute_request d pid = Inr (ReqExecute ?m)"
    by (simp add: execute_request_def qp_setCommandRef_def qp_getCommand_def session_env_def)
  moreover have cmd: "qp_getCommand ?qp (session_env d) = Some d"
    by (simp add: qp_getCommand_def session_env_def)
  have "string_ok ?pid" using pid by (simp add: string_ok_def sized_ok_def le_length_max_iff)
  from short_bytes_codec.enc_wire [OF this] have "em_encodeBody (session_env d) ?m data = Inr (data @ execute_body pid d vs)" for data
    using qp_encode_wire [OF ok cmd, of "qp_getFlags ?old"]
    by (simp add: em_encodeBody_def flags [symmetric] cmd execute_body_def)
  moreover have "em_header ?m = request_header MT_Execute" by (simp add: new_execute_def em_reset_def)
  ultimately show thesis by (intro that [of "ReqExecute ?m"]) simp_all
qed

lemma prepare_request_wire:
  assumes "length (sh_get q) < 2 ^ 31"
  shows "request_getHeader (prepare_request q) = request_header MT_Prepare"
    "request_encodeBody env benv (prepare_request q) data =
      Inr (data @ long_wire \<lparr>ss_value = sh_get q, ss_state = StateNormal\<rparr>)"
proof -
  have "long_string_ok \<lparr>ss_value = sh_get q, ss_state = StateNormal\<rparr>"
    using assms by (simp add: long_string_ok_def sized_ok_def le_length_max_iff)
  moreover have "ss_set (sh_get q) (pr_query new_prepare) = \<lparr>ss_value = sh_get q, ss_state = StateNormal\<rparr>"
    by (simp add: new_prepare_def pr_reset_def ss_set_def ss_reset_def)
  ultimately show "request_encodeBody env benv (prepare_request q) data =
      Inr (data @ long_wire \<lparr>ss_value = sh_get q, ss_state = StateNormal\<rparr>)"
    by (simp add: prepare_request_def pr_encodeBody_def long_string_codec.enc_wire)
  show "request_getHeader (prepare_request q) = request_header MT_Prepare"
    by (simp add: prepare_request_def new_prepare_def pr_reset_def)
qed

section \<open>The server understands them\<close>

lemma request_frame_parse:
  assumes "length body < 2 ^ 31" "opcode = MT_Prepare \<or> opcode = MT_Execute"
  obtains h where "frame_parse (request_frame opcode i body) = Inr (h, body)" "mh_getOpCode h = opcode" "mh_streamId h = i"
proof -
  let ?h = "(request_header opcode)\<lparr>mh_streamId := i\<rparr>"
  have "mh_direction ?h = MD_Request" by (simp add: request_header_def mh_setOpCode_def)
  with assms(1) have "frame_parse (request_frame opcode i body) = Inr (?h\<lparr>mh_bodyLength := word_of_nat (length body)\<rparr>, body)"
    by (simp add: request_frame_def frame_parse_wire)
  moreover have "mh_getOpCode (?h\<lparr>mh_bodyLength := n\<rparr>) = opcode" for n
    using assms(2) by (auto simp: mh_getOpCode_def request_header_def mh_setOpCode_def MT_defs)
  ultimately show thesis by (rule that) simp
qed

lemma server_prepares:
  assumes "length q < 2 ^ 31 - 4"
  shows "run_statement_server sv pin pout answer (request_frame MT_Prepare i (long_wire \<lparr>ss_value = q, ss_state = StateNormal\<rparr>)) =
    result_frame i (prepared_body (sv_idOf sv q) (sv_parameters sv) (sv_parameterTypes sv) (sv_meta sv) (sv_types sv))"
proof -
  let ?q = "\<lparr>ss_value = q, ss_state = StateNormal\<rparr>"
  have q: "long_string_ok ?q" using assms by (simp add: long_string_ok_def sized_ok_def le_length_max_iff)
  have "length (long_wire ?q) < 2 ^ 31" using assms by (simp add: sized_wire_def)
  from request_frame_parse [OF this, of MT_Prepare i] obtain h where
    h: "frame_parse (request_frame MT_Prepare i (long_wire ?q)) = Inr (h, long_wire ?q)" "mh_getOpCode h = MT_Prepare" "mh_streamId h = i"
    by blast
  moreover have "long_string_decode (long_wire ?q) = Inr (?q, [])"
    using long_string_codec.dec_wire [OF q, of "[]"] by simp
  ultimately show ?thesis by (simp add: run_statement_server_def statement_answer_def)
qed

lemma server_executes:
  assumes ok: "qp_sendable d vs" and len: "length (execute_body pid d vs) < 2 ^ 31" "length pid < 2 ^ 16"
    and pk: "pack_io pin okv" "okv v" and params: "cd_parameters d = pk_encode pin v []"
  shows "run_statement_server sv pin pout answer (request_frame MT_Execute i (execute_body pid d vs)) =
    rows_frame pout (sv_meta sv) (sv_types sv) i (answer (sv_textOf sv pid) v)"
proof -
  let ?pid = "\<lparr>ss_value = pid, ss_state = StateNormal\<rparr>"
  have pid: "string_ok ?pid" using len(2) by (simp add: string_ok_def sized_ok_def le_length_max_iff)
  from request_frame_parse [OF len(1), of MT_Execute i] obtain h where
    h: "frame_parse (request_frame MT_Execute i (execute_body pid d vs)) = Inr (h, execute_body pid d vs)"
      "mh_getOpCode h = MT_Execute" "mh_streamId h = i" by blast
  moreover have "short_bytes_decode (execute_body pid d vs) = Inr (?pid, qp_wire (query_flags d) d vs)"
    unfolding execute_body_def by (rule short_bytes_codec.dec_wire [OF pid])
  moreover have "qp_decode_command (qp_wire (query_flags d) d vs) = Inr (command_received d, query_flags d, [])"
    using qp_decode_command_wire [OF ok, of "query_flags d" _ "[]"] by (simp add: command_received_def query_flags_def)
  moreover have "pk_decode pin (cd_parameters (command_received d)) (pk_initial pin) = Inr (v, [])"
    using pack_io.pk_decodes [OF pk, of "[]"] params by (simp add: command_received_def)
  ultimately show ?thesis by (simp add: run_statement_server_def statement_answer_def MT_defs)
qed

section \<open>The id comes back\<close>

lemma receive_prepared:
  assumes l: "ex_incoming l = result_frame i (prepared_body pid pm us meta ts)"
    and size: "length (prepared_body pid pm us meta ts) \<le> ci_maximumMessageBodySize ci_v4"
    and ok: "pm_ok pm us" "rm_ok meta ts" "length pid < 2 ^ 16"
  obtains m l' where "exchange_receive l = (Inr (RespResult m), l')" "ex_sender l' = ex_sender l"
    "hs_opcode (RespResult m) = MT_Result" "re_getKind m = RK_Prepared" "ss_value (re_preparedQueryId m) = pid"
proof (rule receive_result [OF l size])
  have "string_ok \<lparr>ss_value = pid, ss_state = StateNormal\<rparr>"
    using ok(3) by (simp add: string_ok_def sized_ok_def le_length_max_iff)
  from re_decode_prepared [OF this ok(1,2)]
  show "\<exists>m st'. re_decodeBody (prepared_body pid pm us meta ts) m0 st = Inr (m, st') \<and> re_getKind m = RK_Prepared \<and>
      ss_value (re_preparedQueryId m) = pid" for m0 st
  proof -
    obtain m st' where run: "re_decodeBody (prepared_body pid pm us meta ts) m0 st = Inr (m, st')"
      and m: "re_preparedQueryId m = \<lparr>ss_value = pid, ss_state = StateNormal\<rparr>"
      using re_decode_prepared [OF \<open>string_ok _\<close> ok(1,2), of m0 st] by (auto simp: prepared_body_def)
    have "re_kind m = RK_Prepared"
      using run by (auto simp: prepared_body_def re_decodeBody_def codec_simps Let_def RK_defs rbind_eq_Inr)
    with run m show ?thesis by (auto simp: re_getKind_def)
  qed
qed (use that in blast)

section \<open>The session\<close>

text \<open>A statement the server prepares, with its id.\<close>

definition server_ok :: "statement_server \<Rightarrow> bytes \<Rightarrow> bool" where
  "server_ok sv q \<longleftrightarrow>
     sv_idOf sv q \<noteq> [] \<and> length (sv_idOf sv q) < 2 ^ 16 \<and> sv_textOf sv (sv_idOf sv q) = q \<and>
     pm_ok (sv_parameters sv) (sv_parameterTypes sv) \<and> rm_ok (sv_meta sv) (sv_types sv) \<and>
     length (prepared_body (sv_idOf sv q) (sv_parameters sv) (sv_parameterTypes sv) (sv_meta sv) (sv_types sv))
       \<le> ci_maximumMessageBodySize ci_v4"

lemma receive_keeps_ready: "ex_sender l' = ex_sender l \<Longrightarrow> sender_ready l' = sender_ready l"
  by (simp add: sender_ready_def)

lemma exchange_io_simps [simp]:
  "io_node (exchange_io i server) c = 0" "io_getConnection (exchange_io i server) l = (Inr (0, stream_new i), l)"
  "io_sendMessage (exchange_io i server) c env benv x stream = exchange_send server x env benv stream"
  "io_waitNextMessage (exchange_io i server) c stream = exchange_receive"
  "io_returnConnection (exchange_io i server) c stream l = (False, l)"
  by (simp_all add: exchange_io_def)

text \<open>Preparing gives the EXECUTE request with the id of the text, from the node or from the server.\<close>

lemma prepare_statement:
  assumes server: "server = run_statement_server sv pin pout answer" and io: "io = exchange_io i server"
    and d: "cd_needPrepare d = Some True" "length (sh_get (cd_queryStr d)) < 2 ^ 31 - 4"
    and sv: "server_ok sv (sh_get (cd_queryStr d))" and x: "execute_request d (sv_idOf sv (sh_get (cd_queryStr d))) = Inr x"
    and cached: "cached_id (cd_queryStr d) (sn_node io 0 s) \<in> {[], sv_idOf sv (sh_get (cd_queryStr d))}"
    and ready: "sender_ready (sn_lower s)"
  shows "\<exists>s'. prepareQuery io d 0 (stream_new i) s = (Inr x, s') \<and> sender_ready (sn_lower s') \<and>
    cached_id (cd_queryStr d) (sn_node io 0 s') = sv_idOf sv (sh_get (cd_queryStr d)) \<and>
    sn_connection s' = sn_connection s \<and> sn_stream s' = sn_stream s \<and> sn_metrics s' = sn_metrics s"
proof -
  let ?q = "sh_get (cd_queryStr d)"
  obtain node where node: "nc_getPreparedQueryId (cd_queryStr d) (sn_node io 0 s) = (cached_id (cd_queryStr d) (sn_node io 0 s), node)"
    unfolding cached_id_def by (metis prod.collapse)
  let ?s = "sn_setNode io 0 node s"
  have same: "cached_id (cd_queryStr d) node = cached_id (cd_queryStr d) (sn_node io 0 s)"
    using cached_id_lookup [of "cd_queryStr d" "cd_queryStr d" "sn_node io 0 s"] by (simp add: node)
  have pid: "sv_idOf sv ?q \<noteq> []" using sv by (simp add: server_ok_def)
  show ?thesis
  proof (cases "cached_id (cd_queryStr d) (sn_node io 0 s) = []")
    case False
    with cached have "cached_id (cd_queryStr d) (sn_node io 0 s) = sv_idOf sv ?q" by simp
    with node d(1) x pid same ready show ?thesis
      by (intro exI [of _ ?s]) (simp add: prepareQuery_def sn_lift_def sn_node_def sn_setNode_def)
  next
    case True
    have len: "length (long_wire \<lparr>ss_value = ?q, ss_state = StateNormal\<rparr>) < 2 ^ 31" "length ?q < 2 ^ 31"
      using d(2) by (simp_all add: sized_wire_def)
    have body: "request_encodeBody (session_env d) (\<lambda>_. None) (prepare_request (cd_queryStr d)) data =
        Inr (data @ long_wire \<lparr>ss_value = ?q, ss_state = StateNormal\<rparr>)" for data
      by (rule prepare_request_wire(2) [OF len(2)])
    from exchange_plain [OF body len(1) prepare_request_wire(1) [OF len(2)] ready]
    obtain l1 where send: "exchange_send server (prepare_request (cd_queryStr d)) (session_env d) (\<lambda>_. None) (stream_new i) (sn_lower s) = (Inr (), l1)"
      and l1: "ex_incoming l1 = server (request_frame MT_Prepare i (long_wire \<lparr>ss_value = ?q, ss_state = StateNormal\<rparr>))" "sender_ready l1"
      by metis
    have "ex_incoming l1 = result_frame i
        (prepared_body (sv_idOf sv ?q) (sv_parameters sv) (sv_parameterTypes sv) (sv_meta sv) (sv_types sv))"
      unfolding l1(1) server by (rule server_prepares [OF d(2)])
    then obtain m l2 where recv: "exchange_receive l1 = (Inr (RespResult m), l2)" "ex_sender l2 = ex_sender l1"
      and m: "hs_opcode (RespResult m) = MT_Result" "re_getKind m = RK_Prepared" "ss_value (re_preparedQueryId m) = sv_idOf sv ?q"
      by (rule receive_prepared) (use sv in \<open>auto simp: server_ok_def\<close>)
    let ?s2 = "sn_setNode io 0 (nc_setPreparedQueryId (cd_queryStr d) (sv_idOf sv ?q) node) (?s\<lparr>sn_lower := l2\<rparr>)"
    have "prepareQuery io d 0 (stream_new i) s = sn_lift (execute_request d (sv_idOf sv ?q)) ?s2"
      using True node d(1) send recv(1) m
      by (simp add: prepareQuery_def fut_then_def sn_send_def sn_wait_def sn_call_def prepare_reply_def io
          sn_setNode_def sn_node_def Let_def)
    moreover have "cached_id (cd_queryStr d) (sn_node io 0 ?s2) = sv_idOf sv ?q"
      by (simp add: sn_node_def sn_setNode_def cached_id_set sh_equal_def)
    moreover have "sender_ready l2" using recv(2) l1(2) by (simp add: sender_ready_def)
    ultimately show ?thesis using x
      by (intro exI [of _ ?s2]) (simp add: sn_lift_def sn_setNode_def)
  qed
qed

text \<open>An attempt of the command, up to the handling of the rows.\<close>

lemma prepared_attempt:
  assumes server: "server = run_statement_server sv pin pout answer" and io: "io = exchange_io i server"
    and pin: "pack_io pin okin" "okin v" and params: "cd_parameters d = pk_encode pin v []"
    and d: "cd_needPrepare d = Some True" "qp_sendable d ps" "length (sh_get (cd_queryStr d)) < 2 ^ 31 - 4"
    and sv: "server_ok sv (sh_get (cd_queryStr d))"
    and len: "length (execute_body (sv_idOf sv (sh_get (cd_queryStr d))) d ps) < 2 ^ 31"
    and rows: "length (answer (sh_get (cd_queryStr d)) v) < 2 ^ 31"
      "length (rows_body pout (sv_meta sv) (sv_types sv) (answer (sh_get (cd_queryStr d)) v)) \<le> ci_maximumMessageBodySize ci_v4"
    and cached: "cached_id (cd_queryStr d) (sn_node io 0 s) \<in> {[], sv_idOf sv (sh_get (cd_queryStr d))}"
    and ready: "sender_ready (sn_lower s)"
  obtains m s' where "\<And>reply. command_attempt io d reply s = reply 0 (RespResult m) s'"
    "hs_opcode (RespResult m) = MT_Result" "re_getKind m = RK_Rows" "rs_ready (re_resultSet m)"
    "rs_content (re_resultSet m) = concat (map (\<lambda>w. pk_encode pout w []) (answer (sh_get (cd_queryStr d)) v))"
    "rs_getRowsCount (re_resultSet m) = Inr (of_nat (length (answer (sh_get (cd_queryStr d)) v)))"
    "cached_id (cd_queryStr d) (sn_node io 0 s') = sv_idOf sv (sh_get (cd_queryStr d))" "sn_metrics s' = sn_metrics s"
proof -
  let ?q = "sh_get (cd_queryStr d)"
  let ?pid = "sv_idOf sv ?q" and ?rows = "answer ?q v"
  have id: "length ?pid < 2 ^ 16" "sv_textOf sv ?pid = ?q" "rm_ok (sv_meta sv) (sv_types sv)"
    using sv by (simp_all add: server_ok_def)
  obtain x where x: "execute_request d ?pid = Inr x" "request_getHeader x = request_header MT_Execute"
    and body: "\<And>benv data. request_encodeBody (session_env d) benv x data = Inr (data @ execute_body ?pid d ps)"
    by (rule execute_request_wire [OF d(2) id(1)]) (rule that)
  let ?s = "s\<lparr>sn_connection := Some 0, sn_stream := stream_new i\<rparr>"
  have "cached_id (cd_queryStr d) (sn_node io 0 ?s) \<in> {[], ?pid}" "sender_ready (sn_lower ?s)"
    using cached ready by (simp_all add: sn_node_def)
  from prepare_statement [OF server io d(1,3) sv x(1) this] obtain s1 where
    s1: "prepareQuery io d 0 (stream_new i) ?s = (Inr x, s1)" "sender_ready (sn_lower s1)"
      "cached_id (cd_queryStr d) (sn_node io 0 s1) = ?pid" "sn_metrics s1 = sn_metrics s" by auto
  from exchange_plain [OF body len x(2) s1(2)] obtain l1 where
    send: "exchange_send server x (session_env d) (\<lambda>_. None) (stream_new i) (sn_lower s1) = (Inr (), l1)"
    and l1: "ex_incoming l1 = server (request_frame MT_Execute i (execute_body ?pid d ps))" by metis
  have "ex_incoming l1 = rows_frame pout (sv_meta sv) (sv_types sv) i ?rows"
    unfolding l1 server server_executes [OF d(2) len id(1) pin params] id(2) ..
  from receive_rows [OF this rows(2) id(3) rows(1)] obtain m l2 where recv: "exchange_receive l1 = (Inr (RespResult m), l2)"
    and m: "hs_opcode (RespResult m) = MT_Result" "re_getKind m = RK_Rows" "rs_ready (re_resultSet m)"
      "rs_content (re_resultSet m) = concat (map (\<lambda>w. pk_encode pout w []) ?rows)"
      "rs_getRowsCount (re_resultSet m) = Inr (of_nat (length ?rows))" by blast
  have "command_attempt io d reply s = reply 0 (RespResult m) (s1\<lparr>sn_lower := l2\<rparr>)" for reply
    using s1(1) send recv
    by (simp add: command_attempt_def sn_getConnection_def fut_then_def sn_call_def sn_send_def sn_wait_def io)
  from that [OF this m] show thesis using s1(3,4) by (simp add: sn_node_def)
qed

text \<open>
  C5: A prepared statement makes the whole way, whether or not its id is remembered: the server receives the values with
  the text it gave the id for, the rows it answers with are the rows the program is given, and the node remembers the id.
\<close>

theorem prepared_round_trip:
  fixes answer :: "bytes \<Rightarrow> 'v \<Rightarrow> 'w list"
  assumes pin: "pack_io pin okin" "okin v" and pout: "pack_io pout okout" "list_all okout (answer (sh_get (cd_queryStr d)) v)"
    and add: "command_addParameters (pk_encoders pin v) (Some initial) = Inr (Some d)" "cd_parameters initial = []"
    and ok: "qp_sendable (setDefaultValues cfg d) ps" "cd_needPrepare (setDefaultValues cfg d) = Some True"
    and sv: "server_ok sv (sh_get (cd_queryStr d))"
    and len: "length (sh_get (cd_queryStr d)) < 2 ^ 31 - 4"
      "length (execute_body (sv_idOf sv (sh_get (cd_queryStr d))) (setDefaultValues cfg d) ps) < 2 ^ 31"
    and rows: "length (answer (sh_get (cd_queryStr d)) v) < 2 ^ 31"
      "length (rows_body pout (sv_meta sv) (sv_types sv) (answer (sh_get (cd_queryStr d)) v)) \<le> ci_maximumMessageBodySize ci_v4"
    and cached: "cached_id (cd_queryStr d) (sn_nodes s 0) \<in> {[], sv_idOf sv (sh_get (cd_queryStr d))}"
    and ready: "sender_ready (sn_lower s)"
  shows "\<exists>result s' rs'.
    session_query (exchange_io i (run_statement_server sv pin pout answer)) cfg (Some d) s = Some (Inr result, s') \<and>
    rs_fill_rows pout (length (answer (sh_get (cd_queryStr d)) v)) result old = Inr (answer (sh_get (cd_queryStr d)) v, rs') \<and>
    cached_id (cd_queryStr d) (sn_nodes s' 0) = sv_idOf sv (sh_get (cd_queryStr d)) \<and>
    sn_metrics s' = command_succeeded (sn_metrics s)"
proof -
  let ?d = "setDefaultValues cfg d" and ?io = "exchange_io i (run_statement_server sv pin pout answer)"
  have d: "cd_queryStr ?d = cd_queryStr d" "cd_parameters ?d = pk_encode pin v []"
    using add pack_io.pk_parameters [OF pin(1), of v "[]"]
    by (auto simp: setDefaultValues_def Let_def command_addParameters_def deref_def)
  obtain m s1 where attempt: "\<And>reply :: nat \<Rightarrow> response \<Rightarrow> (exchange, result_set) sn.
        command_attempt ?io ?d reply (sn_begin (cd_maxRetries d) s) = reply 0 (RespResult m) s1"
    and m: "hs_opcode (RespResult m) = MT_Result" "re_getKind m = RK_Rows" "rs_ready (re_resultSet m)"
      "rs_content (re_resultSet m) = concat (map (\<lambda>w. pk_encode pout w []) (answer (sh_get (cd_queryStr d)) v))"
      "rs_getRowsCount (re_resultSet m) = Inr (of_nat (length (answer (sh_get (cd_queryStr d)) v)))"
    and s1: "cached_id (cd_queryStr d) (sn_node ?io 0 s1) = sv_idOf sv (sh_get (cd_queryStr d))"
      "sn_metrics s1 = sn_metrics (sn_begin (cd_maxRetries d) s)"
    by (rule prepared_attempt [where answer = answer and sv = sv and pout = pout and i = i and s = "sn_begin (cd_maxRetries d) s",
          OF refl refl pin d(2) ok(2,1), unfolded d(1), OF len(1) sv len(2) rows])
      (use cached ready in \<open>auto simp: sn_begin_def sn_node_def\<close>)
  let ?s2 = "s1\<lparr>sn_metrics := command_succeeded (sn_metrics s1)\<rparr>"
  have "command_attempt ?io ?d (query_reply ?io ?d) (sn_begin (cd_maxRetries d) s) = (Inr (re_resultSet m), s1)"
    using m(1,2) by (simp add: attempt query_reply_def fut_return_def)
  then have "sn_repeat ?io command_succeeded command_failed (command_attempt ?io ?d (query_reply ?io ?d)) (sn_begin (cd_maxRetries d) s) =
      Some (Inr (re_resultSet m), sn_finally ?io ?s2)"
    by (subst sn_repeat.simps) (simp add: sn_iteration_def)
  moreover have "rs_isValid (re_resultSet m)" using m(3) by (auto simp: rs_ready_def rs_isValid_def)
  ultimately have "session_query ?io cfg (Some d) s = Some (Inr (re_resultSet m), sn_finally ?io ?s2)"
    by (simp add: session_query_def Let_def)
  moreover have "sn_nodes (sn_finally ?io ?s2) = sn_nodes s1" "sn_metrics (sn_finally ?io ?s2) = command_succeeded (sn_metrics s)"
    using s1(2) by (auto simp: sn_finally_def sn_begin_def split: option.split)
  ultimately show ?thesis
    using pack_io.fill_rows [OF pout(1,2) m(3), of "[]" old] m(4) s1(1) by (auto simp: sn_node_def)
qed

text \<open>The statement of \<open>query_round_trip\<close>, prepared.\<close>

definition prepared_with_value :: command_data where
  "prepared_with_value = command_with_value\<lparr>cd_needPrepare := Some True\<rparr>"

definition server_example :: statement_server where
  "server_example =
     \<lparr>sv_idOf = (\<lambda>q. [9]), sv_textOf = (\<lambda>pid. sh_get (cd_queryStr prepared_with_value)), sv_parameters = pm_init,
      sv_parameterTypes = [], sv_meta = metadata_example, sv_types = [TScalar CT_Int]\<rparr>"

lemma prepared_with_value: "setDefaultValues sc_init prepared_with_value = prepared_with_value"
  by (simp add: setDefaultValues_def prepared_with_value_def command_with_value_def command_ready_def command_example_def)

lemma prepared_with_value_sendable: "qp_sendable prepared_with_value [value_example]"
  by (simp add: prepared_with_value_def command_with_value_def value_example_def command_ready_def command_example_def
      command_data_init_def qp_sendable_def command_params_inv_def level_ok_def CL_defs value_ok_def sized_ok_def
      sized_wire_def bytes_ok_def le_length_max_iff)

lemma server_example_ok: "server_ok server_example (sh_get (cd_queryStr prepared_with_value))"
  using metadata_example_ok
  by (simp add: server_ok_def server_example_def pm_ok_def pm_init_def prepared_body_def sized_wire_def pm_wire_def rm_wire_def
      metadata_example_def rm_init_def rc_init_def RMF_defs PMF_defs enumTrue_def enumFalse_def enum_and_def Let_def column_wire_def
      ct_wire_def ss_init_def)

theorem prepared_round_trip_witness:
  "\<exists>result s' rs'.
    session_query (exchange_io 1 (run_statement_server server_example int_pack pair_pack (\<lambda>q v. [row_example, row_example])))
      sc_init (Some prepared_with_value) (session_example exchange_example) = Some (Inr result, s') \<and>
    rs_fill_rows pair_pack (length [row_example, row_example]) result (pk_initial pair_pack) = Inr ([row_example, row_example], rs') \<and>
    cached_id (cd_queryStr prepared_with_value) (sn_nodes s' 0) = sv_idOf server_example (sh_get (cd_queryStr prepared_with_value)) \<and>
    sn_metrics s' = command_succeeded (sn_metrics (session_example exchange_example))"
proof (rule prepared_round_trip [where initial = "command_ready\<lparr>cd_needPrepare := Some True\<rparr>" and v = "(7, ())" and
    ps = "[value_example]" and answer = "\<lambda>q v. [row_example, row_example]", OF int_pack_io _ pair_pack_io])
  show "server_ok server_example (sh_get (cd_queryStr prepared_with_value))" by (rule server_example_ok)
  show "qp_sendable (setDefaultValues sc_init prepared_with_value) [value_example]"
    by (simp only: prepared_with_value prepared_with_value_sendable)
  show "cd_needPrepare (setDefaultValues sc_init prepared_with_value) = Some True"
    unfolding prepared_with_value by (simp add: prepared_with_value_def)
  show "list_all (pack_ok (\<lambda>_. True) (pack_ok (nullable_ok string_type (\<lambda>v. length v < 2 ^ 31)) (\<lambda>_. True))) [row_example, row_example]"
    by (simp only: list.pred_inject row_example_ok simp_thms)
  show "command_addParameters (pk_encoders int_pack (7, ())) (Some (command_ready\<lparr>cd_needPrepare := Some True\<rparr>)) = Inr (Some prepared_with_value)"
    by (simp add: command_addParameters_def deref_def int_pack_def pack_cons_def pack_nil_def trait_def
        int_encode prepared_with_value_def command_with_value_def command_ready_def command_example_def command_data_init_def)
  show "length (execute_body (sv_idOf server_example (sh_get (cd_queryStr prepared_with_value))) (setDefaultValues sc_init prepared_with_value) [value_example]) < 2 ^ 31"
    unfolding prepared_with_value
    by (simp add: execute_body_def server_example_def qp_wire_def prepared_with_value_def command_with_value_def value_example_def
        command_ready_def command_example_def command_data_init_def sized_wire_def opt_wire_def)
  show "length (rows_body pair_pack (sv_meta server_example) (sv_types server_example) [row_example, row_example]) \<le> ci_maximumMessageBodySize ci_v4"
    using rows_example_size by (simp only: server_example_def statement_server.simps)
qed (simp_all add: pack_ok_def session_example_def exchange_example_def sender_init_def sender_ready_def cached_id_def
    nc_getPreparedQueryId_def nc_init_def prepared_with_value_def command_with_value_def command_ready_def command_example_def
    command_data_init_def ascii_def)

end
