(* ===== verification/String_Utils.thy ===== *)
theory String_Utils
  imports Configuration
begin

text \<open>
  \<^verbatim>\<open>StringUtils.hpp\<close> without the hexadecimal conversions: splitting and joining strings, and the decimal text
  that writing an integer to a stream produces.
\<close>

section \<open>splitString\<close>

text \<open>\<^verbatim>\<open>find_first_of\<close> and \<^verbatim>\<open>find_first_not_of\<close> from an index on, with the size of the string for \<^verbatim>\<open>npos\<close>.\<close>

definition find_first_of :: "bytes \<Rightarrow> bytes \<Rightarrow> nat \<Rightarrow> nat" where
  "find_first_of str chars i = i + length (takeWhile (\<lambda>c. c \<notin> set chars) (drop i str))"

definition find_first_not_of :: "bytes \<Rightarrow> bytes \<Rightarrow> nat \<Rightarrow> nat" where
  "find_first_not_of str chars i = i + length (takeWhile (\<lambda>c. c \<in> set chars) (drop i str))"

lemma split_progress:
  assumes "i < length str"
  shows "i < find_first_not_of str chars (find_first_of str chars i)"
proof (cases "str ! i \<in> set chars")
  case True
  have "drop i str = str ! i # drop (Suc i) str" using assms by (simp add: Cons_nth_drop_Suc)
  with True show ?thesis by (simp add: find_first_of_def find_first_not_of_def)
next
  case False
  have "drop i str = str ! i # drop (Suc i) str" using assms by (simp add: Cons_nth_drop_Suc)
  with False show ?thesis by (simp add: find_first_of_def find_first_not_of_def)
qed

text \<open>The calls of the callback: start, end and number of each piece.\<close>

function split_from :: "bytes \<Rightarrow> bytes \<Rightarrow> nat \<Rightarrow> nat \<Rightarrow> (nat \<times> nat \<times> nat) list" where
  "split_from str chars startIndex count =
     (if startIndex < length str then
        (let endIndex = find_first_of str chars startIndex;
             next = find_first_not_of str chars endIndex
         in (startIndex, endIndex, count) # split_from str chars next (Suc count))
      else [])"
  by pat_completeness auto

termination
proof (relation "measure (\<lambda>(str, chars, i, n). length str - i)")
  fix str chars :: bytes and i n endIndex "next" :: nat
  assume "i < length str" "endIndex = find_first_of str chars i" "next = find_first_not_of str chars endIndex"
  with split_progress [of i str chars] show "((str, chars, next, Suc n), (str, chars, i, n)) \<in> measure (\<lambda>(str, chars, i, n). length str - i)"
    by simp
qed simp

declare split_from.simps [simp del]

definition default_split_chars :: bytes where
  "default_split_chars = [0x20, 0x09, 0x0d, 0x0a]"

definition split_string :: "bytes \<Rightarrow> bytes \<Rightarrow> (nat \<times> nat \<times> nat) list" where
  "split_string str chars = split_from str chars 0 0"

text \<open>The reference: cut off what is before the next separator, skip separators, go on.\<close>

function pieces :: "bytes \<Rightarrow> bytes \<Rightarrow> bytes list" where
  "pieces chars [] = []"
| "pieces chars (c # cs) =
     takeWhile (\<lambda>c. c \<notin> set chars) (c # cs) #
     pieces chars (dropWhile (\<lambda>c. c \<in> set chars) (dropWhile (\<lambda>c. c \<notin> set chars) (c # cs)))"
  by pat_completeness auto
termination
  by (relation "measure (\<lambda>(chars, cs). length cs)")
    (auto intro!: le_imp_less_Suc order_trans [OF length_dropWhile_le])

definition slice :: "bytes \<Rightarrow> nat \<times> nat \<times> nat \<Rightarrow> bytes" where
  "slice str p = (case p of (startIndex, endIndex, count) \<Rightarrow> take (endIndex - startIndex) (drop startIndex str))"

lemma drop_find:
  "drop (find_first_not_of str chars (find_first_of str chars i)) str =
     dropWhile (\<lambda>c. c \<in> set chars) (dropWhile (\<lambda>c. c \<notin> set chars) (drop i str))"
  by (simp add: find_first_of_def find_first_not_of_def dropWhile_eq_drop add.commute)

lemma split_from_pieces: "map (slice str) (split_from str chars i n) = pieces chars (drop i str)"
proof (induction str chars i n rule: split_from.induct)
  case (1 str chars i n)
  show ?case
  proof (cases "i < length str")
    case True
    then obtain c cs where c: "drop i str = c # cs" by (cases "drop i str") auto
    have "take (length (takeWhile P xs)) xs = takeWhile P xs" for P and xs :: bytes by (metis append_eq_conv_conj takeWhile_dropWhile_id)
    then have "slice str (i, find_first_of str chars i, n) = takeWhile (\<lambda>c. c \<notin> set chars) (drop i str)"
      by (simp add: slice_def find_first_of_def)
    then show ?thesis
      using True 1 [OF True refl refl] c by (subst split_from.simps) (simp add: Let_def drop_find)
  next
    case False
    then show ?thesis by (subst split_from.simps) simp
  qed
qed

lemma pieces_content: "concat (pieces chars cs) = filter (\<lambda>c. c \<notin> set chars) cs"
proof (induction chars cs rule: pieces.induct)
  case (2 chars c cs)
  let ?sep = "\<lambda>c. c \<in> set chars"
  have cut: "filter P xs = takeWhile P xs @ filter P (dropWhile P xs)" for P and xs :: bytes
    by (induction xs) auto
  have skip: "filter (\<lambda>c. \<not> ?sep c) xs = filter (\<lambda>c. \<not> ?sep c) (dropWhile ?sep xs)" for xs
    by (induction xs) auto
  show ?case
    unfolding pieces.simps concat.simps 2 by (simp only: cut [of _ "c # cs"] skip [symmetric])
qed simp

lemma pieces_clean: "list_all (\<lambda>p. set p \<inter> set chars = {}) (pieces chars cs)"
  by (induction chars cs rule: pieces.induct) (auto dest: set_takeWhileD)

lemma split_from_counts: "map (snd \<circ> snd) (split_from str chars i n) = [n..<n + length (split_from str chars i n)]"
proof (induction str chars i n rule: split_from.induct)
  case (1 str chars i n)
  show ?case
  proof (cases "i < length str")
    case True
    from 1 [OF True refl refl] show ?thesis
      by (subst (1 2) split_from.simps) (simp add: True Let_def upt_conv_Cons comp_def del: upt_Suc)
  next
    case False
    then show ?thesis by (subst (1 2) split_from.simps) simp
  qed
qed

text \<open>
  \<^verbatim>\<open>splitString\<close> calls its callback with the pieces in order, numbered from zero; they have no separator, and
  together they are the string without its separators. A string that begins with a separator has an empty first piece.
\<close>

lemma split_string_pieces:
  "map (slice str) (split_string str chars) = pieces chars str"
  "map (snd \<circ> snd) (split_string str chars) = [0..<length (split_string str chars)]"
  "concat (map (slice str) (split_string str chars)) = filter (\<lambda>c. c \<notin> set chars) str"
  using split_from_pieces [of str chars 0 0] split_from_counts [of str chars 0 0] pieces_content [of chars str]
  by (simp_all add: split_string_def)

section \<open>joinString\<close>

text \<open>The arguments are what writing them to a stream gives.\<close>

fun join_args :: "bool \<Rightarrow> bytes \<Rightarrow> bytes list \<Rightarrow> bytes \<Rightarrow> bytes" where
  "join_args isFirst delimiter [] stream = stream"
| "join_args isFirst delimiter (arg # args) stream =
     join_args False delimiter args ((if isFirst then stream else stream @ delimiter) @ arg)"

definition join_string :: "bytes \<Rightarrow> bytes list \<Rightarrow> bytes" where
  "join_string delimiter args = join_args True delimiter args []"

lemma join_args_rest: "join_args False delimiter args stream = stream @ concat (map (\<lambda>arg. delimiter @ arg) args)"
  by (induction args arbitrary: stream) simp_all

lemma join_string_simps [simp]:
  "join_string delimiter [] = []"
  "join_string delimiter (arg # args) = arg @ concat (map (\<lambda>arg. delimiter @ arg) args)"
  by (simp_all add: join_string_def join_args_rest)

section \<open>Integers as text\<close>

fun dec_text :: "nat \<Rightarrow> bytes" where
  "dec_text n = (if n < 10 then [word_of_nat (48 + n)] else dec_text (n div 10) @ [word_of_nat (48 + n mod 10)])"

declare dec_text.simps [simp del]

definition int_text :: "int \<Rightarrow> bytes" where
  "int_text i = (if i < 0 then 45 # dec_text (nat (- i)) else dec_text (nat i))"

text \<open>Reading a text of digits.\<close>

definition dec_value :: "bytes \<Rightarrow> nat" where
  "dec_value cs = foldl (\<lambda>v c. v * 10 + (unat c - 48)) 0 cs"

lemma unat_digit: "d < 10 \<Longrightarrow> unat (word_of_nat (48 + d) :: byte) = 48 + d"
  by (simp only: unat_of_nat) simp

lemma dec_value_text: "dec_value (dec_text n) = n"
proof (induction n rule: dec_text.induct)
  case (1 n)
  then show ?case
    using unat_digit [of n] unat_digit [of "n mod 10"] by (subst dec_text.simps) (auto simp: dec_value_def)
qed

lemma dec_text_inj: "dec_text m = dec_text n \<Longrightarrow> m = n"
  by (metis dec_value_text)

lemma dec_text_digits: "list_all (\<lambda>c. 48 \<le> c \<and> c \<le> 57) (dec_text n)"
proof (induction n rule: dec_text.induct)
  case (1 n)
  have "48 \<le> (word_of_nat (48 + d) :: byte) \<and> (word_of_nat (48 + d) :: byte) \<le> 57" if "d < 10" for d
    using unat_digit [OF that] that by (simp add: word_le_nat_alt)
  with 1 show ?case by (subst dec_text.simps) auto
qed

lemma dec_text_nonempty [simp]: "dec_text n \<noteq> []"
  by (subst dec_text.simps) simp

section \<open>The address of a node as text\<close>

definition nc_getAddressAsString :: "node_configuration \<Rightarrow> bytes" where
  "nc_getAddressAsString c = join_string [] [fst (nc_address c), [58], dec_text (unat (snd (nc_address c)))]"

end
