(* ===== verification/Column_Integers.thy ===== *)
theory Column_Integers
  imports Columns Cpp_Arithmetic
begin

text \<open>
  The comparisons of columns, and the operators of \<^verbatim>\<open>IntegerOperations.hpp\<close> on the integer columns \<^verbatim>\<open>TinyInt\<close>,
  \<^verbatim>\<open>SmallInt\<close>, \<^verbatim>\<open>Int\<close> and \<^verbatim>\<open>BigInt\<close>: the promotions
  and conversions of C++ between signed integers of different sizes, and what an overflow does.
\<close>

unbundle bit_operations_syntax

section \<open>Operators of signed integers\<close>

datatype int_operator = op_add | op_sub | op_mul | op_div | op_mod | op_xor | op_and | op_or
  | op_shr | op_shl | op_land | op_lor

text \<open>Smaller integers are promoted to \<^verbatim>\<open>int\<close>, and both operands are converted to the larger type.\<close>

definition promoted :: "nat \<Rightarrow> nat" where
  "promoted w = max 32 w"

definition common_width :: "nat \<Rightarrow> nat \<Rightarrow> nat" where
  "common_width w v = max (promoted w) (promoted v)"

definition checked_int :: "nat \<Rightarrow> int \<Rightarrow> int result" where
  "checked_int w x = (if fits w x then Inr x else Inl UndefinedBehaviour)"

text \<open>
  A shift has the promoted type of its left operand. Shifting a negative number to the left is undefined, and so
  is a product with the power of two that does not fit into the unsigned type.
\<close>

fun cpp_binary :: "int_operator \<Rightarrow> nat \<Rightarrow> nat \<Rightarrow> int \<Rightarrow> int \<Rightarrow> int result" where
  "cpp_binary op_add w v a b = checked_int (common_width w v) (a + b)"
| "cpp_binary op_sub w v a b = checked_int (common_width w v) (a - b)"
| "cpp_binary op_mul w v a b = checked_int (common_width w v) (a * b)"
| "cpp_binary op_div w v a b =
     (if b = 0 then Inl UndefinedBehaviour else checked_int (common_width w v) (a sdiv b))"
| "cpp_binary op_mod w v a b =
     (if b = 0 then Inl UndefinedBehaviour
      else rbind (checked_int (common_width w v) (a sdiv b)) (\<lambda>q. Inr (a smod b)))"
| "cpp_binary op_xor w v a b = Inr (a XOR b)"
| "cpp_binary op_and w v a b = Inr (a AND b)"
| "cpp_binary op_or w v a b = Inr (a OR b)"
| "cpp_binary op_shr w v a b =
     (if 0 \<le> b \<and> b < int (promoted w) then Inr (drop_bit (nat b) a) else Inl UndefinedBehaviour)"
| "cpp_binary op_shl w v a b =
     (if 0 \<le> b \<and> b < int (promoted w) \<and> 0 \<le> a \<and> push_bit (nat b) a < 2 ^ promoted w
      then Inr (push_bit (nat b) a) else Inl UndefinedBehaviour)"
| "cpp_binary op_land w v a b = Inr (of_bool (a \<noteq> 0 \<and> b \<noteq> 0))"
| "cpp_binary op_lor w v a b = Inr (of_bool (a \<noteq> 0 \<or> b \<noteq> 0))"

section \<open>Operators of columns\<close>

text \<open>
  Two columns: the result is a column of the larger type. A column and an integer: a column of the type of the
  left operand, even when that is the integer. The result is converted to its type without a check.
\<close>

definition integer_binary :: "int_operator \<Rightarrow> 'a::len word \<Rightarrow> 'b::len word \<Rightarrow> 'r::len word result" where
  "integer_binary op a b =
     rbind (cpp_binary op LENGTH('a) LENGTH('b) (sint a) (sint b)) (\<lambda>x. Inr (word_of_int x))"

definition integer_binary_right :: "int_operator \<Rightarrow> 'a::len word \<Rightarrow> 'b::len word \<Rightarrow> 'a word result" where
  "integer_binary_right op a b =
     rbind (cpp_binary op LENGTH('a) LENGTH('b) (sint a) (sint b)) (\<lambda>x. Inr (word_of_int x))"

definition integer_binary_left :: "int_operator \<Rightarrow> 'a::len word \<Rightarrow> 'b::len word \<Rightarrow> 'a word result" where
  "integer_binary_left op a b =
     rbind (cpp_binary op LENGTH('a) LENGTH('b) (sint a) (sint b)) (\<lambda>x. Inr (word_of_int x))"

text \<open>Compound assignments convert the result to the type of the variable.\<close>

definition integer_assign :: "int_operator \<Rightarrow> 'a::len word \<Rightarrow> 'b::len word \<Rightarrow> 'a word result" where
  "integer_assign op a b =
     rbind (cpp_binary op LENGTH('a) LENGTH('b) (sint a) (sint b)) (\<lambda>x. Inr (word_of_int x))"

datatype unary_operator = op_plus | op_neg | op_compl | op_not

fun integer_unary :: "unary_operator \<Rightarrow> 'a::len word \<Rightarrow> 'a word result" where
  "integer_unary op_plus a = Inr a"
| "integer_unary op_neg a =
     rbind (checked_int (promoted LENGTH('a)) (- sint a)) (\<lambda>x. Inr (word_of_int x))"
| "integer_unary op_compl a = Inr (word_of_int (NOT (sint a)))"
| "integer_unary op_not a = Inr (of_bool (a = 0))"

text \<open>Incrementing and decrementing: the result of the operator and the variable afterwards.\<close>

definition integer_prefix :: "int_operator \<Rightarrow> 'a::len word \<Rightarrow> ('a word \<times> 'a word) result" where
  "integer_prefix op a = rbind (integer_assign op a (1 :: u32)) (\<lambda>b. Inr (b, b))"

definition integer_postfix :: "int_operator \<Rightarrow> 'a::len word \<Rightarrow> ('a word \<times> 'a word) result" where
  "integer_postfix op a = rbind (integer_assign op a (1 :: u32)) (\<lambda>b. Inr (a, b))"

datatype compare_operator = op_eq | op_ne | op_gt | op_lt | op_ge | op_le

fun integer_compare :: "compare_operator \<Rightarrow> 'a::len word \<Rightarrow> 'b::len word \<Rightarrow> bool" where
  "integer_compare op_eq a b \<longleftrightarrow> sint a = sint b"
| "integer_compare op_ne a b \<longleftrightarrow> sint a \<noteq> sint b"
| "integer_compare op_gt a b \<longleftrightarrow> sint a > sint b"
| "integer_compare op_lt a b \<longleftrightarrow> sint a < sint b"
| "integer_compare op_ge a b \<longleftrightarrow> sint a \<ge> sint b"
| "integer_compare op_le a b \<longleftrightarrow> sint a \<le> sint b"

section \<open>Comparisons of other columns\<close>

text \<open>A string literal ends at its first zero; time points are compared as the numbers they are.\<close>

definition string_equals :: "bytes \<Rightarrow> bytes \<Rightarrow> bool" where
  "string_equals a b \<longleftrightarrow> a = b"

definition string_equals_literal :: "bytes \<Rightarrow> bytes \<Rightarrow> bool" where
  "string_equals_literal a literal \<longleftrightarrow> a = takeWhile (\<lambda>c. c \<noteq> 0) literal"

text \<open>UUIDs are pairs of unsigned integers, ordered by their upper half first.\<close>

fun uuid_compare :: "compare_operator \<Rightarrow> uuid \<Rightarrow> uuid \<Rightarrow> bool" where
  "uuid_compare op_eq a b \<longleftrightarrow> a = b"
| "uuid_compare op_ne a b \<longleftrightarrow> a \<noteq> b"
| "uuid_compare op_lt a b \<longleftrightarrow> fst a < fst b \<or> fst a = fst b \<and> snd a < snd b"
| "uuid_compare op_gt a b \<longleftrightarrow> fst b < fst a \<or> fst b = fst a \<and> snd b < snd a"
| "uuid_compare op_le a b \<longleftrightarrow> \<not> (fst b < fst a \<or> fst b = fst a \<and> snd b < snd a)"
| "uuid_compare op_ge a b \<longleftrightarrow> \<not> (fst a < fst b \<or> fst a = fst b \<and> snd a < snd b)"

fun datetime_compare :: "compare_operator \<Rightarrow> int \<Rightarrow> int \<Rightarrow> bool" where
  "datetime_compare op_eq a b \<longleftrightarrow> a = b"
| "datetime_compare op_ne a b \<longleftrightarrow> a \<noteq> b"
| "datetime_compare op_gt a b \<longleftrightarrow> a > b"
| "datetime_compare op_lt a b \<longleftrightarrow> a < b"
| "datetime_compare op_ge a b \<longleftrightarrow> a \<ge> b"
| "datetime_compare op_le a b \<longleftrightarrow> a \<le> b"

section \<open>Lemmas\<close>

text \<open>The value in the integers that an arithmetic operator stands for.\<close>

fun integer_meaning :: "int_operator \<Rightarrow> int \<Rightarrow> int \<Rightarrow> int option" where
  "integer_meaning op_add a b = Some (a + b)"
| "integer_meaning op_sub a b = Some (a - b)"
| "integer_meaning op_mul a b = Some (a * b)"
| "integer_meaning op_div a b = (if b = 0 then None else Some (a sdiv b))"
| "integer_meaning op a b = None"

lemma sint_abs_bound: "\<bar>sint (a :: 'a::len word)\<bar> \<le> 2 ^ (LENGTH('a) - 1)"
  using sint_ge [of a] sint_lt [of a] by (simp add: abs_le_iff)

lemma sdiv_abs_bound: "\<bar>a sdiv b\<bar> \<le> \<bar>a :: int\<bar>"
proof -
  have "\<bar>a sdiv b\<bar> \<le> \<bar>a\<bar> div \<bar>b\<bar>" by (simp add: signed_divide_int_def abs_mult sgn_if div_int_pos_iff)
  also have "\<dots> \<le> \<bar>a\<bar>" 
    using zdiv_mono2 [of "\<bar>a\<bar>" 1 "\<bar>b\<bar>"] by (cases "b = 0") simp_all
  finally show ?thesis .
qed

lemma small_operands_fit:
  assumes "integer_meaning op a b = Some x" "\<bar>a\<bar> \<le> 2 ^ 15" "\<bar>b\<bar> \<le> 2 ^ 15"
  shows "fits 32 x"
proof -
  have "\<bar>a * b\<bar> \<le> 2 ^ 15 * 2 ^ 15" unfolding abs_mult using assms(2,3) by (intro mult_mono) auto
  then have "fits 32 (a * b)" unfolding fits_def by (simp add: abs_le_iff)
  moreover have "fits 32 (a sdiv b)" using sdiv_abs_bound [of a b] assms(2) unfolding fits_def by simp linarith
  ultimately show ?thesis using assms by (cases op) (auto simp: fits_def split: if_splits)
qed

lemma cpp_binary_meaning:
  assumes "integer_meaning op a b = Some x"
  shows "cpp_binary op w v a b = checked_int (common_width w v) x"
  using assms by (cases op) (auto split: if_splits)

lemma smaller_fits:
  assumes "fits LENGTH('r::len) x" "LENGTH('r) = max LENGTH('a::len) LENGTH('b::len)"
  shows "fits (common_width LENGTH('a) LENGTH('b)) x"
  using assms(1) by (rule fits_mono) (auto simp: assms(2) common_width_def promoted_def)



text \<open>
  The result of an operator with an integer on its left has the type of that integer: adding 1 to a 64-bit column
  loses its upper half when the literal comes first, and is exact when it comes second.
\<close>

lemma left_operand_decides_type:
  assumes "fits 64 (sint (a :: u64) + 1)"
  shows "integer_binary_right op_add a (1 :: u32) = Inr (a + 1) \<and>
    integer_binary_left op_add (1 :: u32) a = Inr (ucast a + 1)"
proof -
  have "word_of_int (sint a) = a" "(word_of_int (sint a) :: u32) = ucast a"
    by (simp, transfer, simp add: take_bit_signed_take_bit)
  moreover have "word_of_int (1 + sint a) = (word_of_int (sint a) + 1 :: 'l::len word)" for a :: u64
    by (simp only: of_int_add of_int_1 add.commute)
  moreover have "common_width LENGTH(64) LENGTH(32) = 64" "common_width LENGTH(32) LENGTH(64) = 64"
    by (simp_all add: common_width_def promoted_def max_def)
  ultimately show ?thesis using assms
    by (simp add: integer_binary_right_def integer_binary_left_def checked_int_def add.commute)
qed

end
