(* ===== verification/Column_Dates.thy ===== *)
theory Column_Dates
  imports Column_Integers
begin

text \<open>
  The column types for dates and times: \<^verbatim>\<open>DateTimeBase\<close>, \<^verbatim>\<open>Date\<close>,
  \<^verbatim>\<open>Time\<close> and \<^verbatim>\<open>Timestamp\<close>, with the functions of the C library they call. The time zone
  of the process is an argument.
\<close>

section \<open>Times of the C library\<close>

record tm =
  tm_sec :: int
  tm_min :: int
  tm_hour :: int
  tm_mday :: int
  tm_mon :: int
  tm_year :: int

text \<open>
  The proleptic Gregorian calendar, counted from the first of March of the year 0: 400 years have 146097 days, the
  first three centuries of them 36524, four years 1461, and the first three years of those 365.
\<close>

definition civil_days :: "int \<Rightarrow> int \<Rightarrow> int \<Rightarrow> int" where
  "civil_days year month day =
     (let y = (if month \<le> 2 then year - 1 else year);
          yoe = y mod 400;
          doy = (153 * ((month + 9) mod 12) + 2) div 5 + day - 1
      in y div 400 * 146097 + (yoe * 365 + yoe div 4 - yoe div 100 + doy) - 719468)"

definition timegm :: "tm \<Rightarrow> int" where
  "timegm tm =
     (let days = civil_days (tm_year tm + 1900 + tm_mon tm div 12) (tm_mon tm mod 12 + 1) 1 + tm_mday tm - 1
      in days * 86400 + tm_hour tm * 3600 + tm_min tm * 60 + tm_sec tm)"

definition gmtime :: "int \<Rightarrow> tm" where
  "gmtime t =
     (let z = t div 86400 + 719468;
          doe = z mod 146097;
          century = min 3 (doe div 36524);
          doc = doe - century * 36524;
          quad = doc div 1461;
          year = min 3 (doc mod 1461 div 365);
          doy = doc mod 1461 - year * 365;
          mp = (5 * doy + 2) div 153;
          month = (if mp < 10 then mp + 3 else mp - 9);
          s = t mod 86400
      in \<lparr>tm_sec = s mod 60, tm_min = s div 60 mod 60, tm_hour = s div 3600,
          tm_mday = doy - (153 * mp + 2) div 5 + 1, tm_mon = month - 1,
          tm_year = z div 146097 * 400 + century * 100 + quad * 4 + year + (if month \<le> 2 then 1 else 0) - 1900\<rparr>)"

lemma capped_div:
  assumes "0 \<le> n" "0 < d" "n \<le> 4 * (d::int)"
  shows "0 \<le> min 3 (n div d)" "min 3 (n div d) \<le> 3" "0 \<le> n - min 3 (n div d) * d" "n - min 3 (n div d) * d \<le> d"
proof -
  have "0 \<le> n div d" using assms by (simp add: pos_imp_zdiv_nonneg_iff)
  then show "0 \<le> min 3 (n div d)" "min 3 (n div d) \<le> 3" by simp_all
  have split: "n = n div d * d + n mod d" by simp
  have rest: "0 \<le> n mod d" "n mod d < d" using assms(2) by simp_all
  have "0 \<le> n - min 3 (n div d) * d \<and> n - min 3 (n div d) * d \<le> d"
  proof (cases "n div d \<le> 3")
    case True
    then have "min 3 (n div d) * d = n div d * d" by simp
    then show ?thesis using split rest by linarith
  next
    case False
    then have "4 * d \<le> n div d * d" using assms(2) by (intro mult_right_mono) auto
    moreover have "min 3 (n div d) * d = 3 * d" using False by simp
    ultimately show ?thesis using split rest assms by linarith
  qed
  then show "0 \<le> n - min 3 (n div d) * d" "n - min 3 (n div d) * d \<le> d" by blast+
qed

text \<open>The numbers of the decomposition of a day fit together again.\<close>

lemma day_of_era:
  assumes "0 \<le> c" "c \<le> 3" "0 \<le> q" "q \<le> 24" "0 \<le> y" "y \<le> (3::int)"
  shows "0 \<le> c * 100 + q * 4 + y" "c * 100 + q * 4 + y < 400"
    "(c * 100 + q * 4 + y) div 4 = c * 25 + q" "(c * 100 + q * 4 + y) div 100 = c"
proof -
  show "0 \<le> c * 100 + q * 4 + y" "c * 100 + q * 4 + y < 400" using assms by simp_all
  have "(c * 100 + q * 4 + y) div 4 = (y + (c * 25 + q) * 4) div 4" by (simp add: algebra_simps)
  also have "\<dots> = c * 25 + q" using assms by (subst div_mult_self1) simp_all
  finally show "(c * 100 + q * 4 + y) div 4 = c * 25 + q" .
  have "(c * 100 + q * 4 + y) div 100 = (q * 4 + y + c * 100) div 100" by (simp add: algebra_simps)
  also have "\<dots> = c" using assms by (subst div_mult_self1) simp_all
  finally show "(c * 100 + q * 4 + y) div 100 = c" .
qed

lemma civil_days_parts:
  assumes "0 \<le> c" "c \<le> 3" "0 \<le> q" "q \<le> 24" "0 \<le> y" "y \<le> 3" "0 \<le> mp" "mp \<le> 11"
    and month: "month = (if mp < 10 then mp + 3 else mp - 9)"
  shows "civil_days (era * 400 + c * 100 + q * 4 + y + (if month \<le> 2 then 1 else 0)) month day =
    era * 146097 + (c * 36524 + q * 1461 + y * 365 + (153 * mp + 2) div 5 + day - 1) - 719468"
proof -
  let ?yoe = "c * 100 + q * 4 + y"
  note yoe = day_of_era [OF assms(1-6)]
  have "(month + 9) mod 12 = mp" using assms(7,8) unfolding month by auto
  moreover have "(if month \<le> 2 then era * 400 + c * 100 + q * 4 + y + (if month \<le> 2 then 1 else 0) - 1
      else era * 400 + c * 100 + q * 4 + y + (if month \<le> 2 then 1 else 0)) = ?yoe + era * 400" by simp
  moreover have "(?yoe + era * 400) mod 400 = ?yoe" "(?yoe + era * 400) div 400 = era"
    using yoe(1,2) by (simp_all only: mod_mult_self1 div_mult_self1, simp_all)
  ultimately show ?thesis unfolding civil_days_def Let_def by (simp add: yoe)
qed

lemma timegm_gmtime [simp]: "timegm (gmtime t) = t"
proof -
  define z where "z = t div 86400 + 719468"
  define doe where "doe = z mod 146097"
  define c where "c = min 3 (doe div 36524)"
  define doc where "doc = doe - c * 36524"
  define q where "q = doc div 1461"
  define doq where "doq = doc mod 1461"
  define y where "y = min 3 (doq div 365)"
  define doy where "doy = doq - y * 365"
  define mp where "mp = (5 * doy + 2) div 153"
  define month where "month = (if mp < 10 then mp + 3 else mp - 9)"
  have doe: "0 \<le> doe" "doe < 146097" by (simp_all add: doe_def)
  then have c: "0 \<le> c" "c \<le> 3" "0 \<le> doc" "doc \<le> 36524"
    using capped_div [of doe 36524] unfolding c_def doc_def by simp_all
  then have q: "0 \<le> q" "q \<le> 24"
    using zdiv_mono1 [of doc 36524 1461] unfolding q_def by (simp_all add: pos_imp_zdiv_nonneg_iff)
  have "0 \<le> doq" "doq < 1461" by (simp_all add: doq_def)
  then have y: "0 \<le> y" "y \<le> 3" "0 \<le> doy" "doy \<le> 365"
    using capped_div [of doq 365] unfolding y_def doy_def by simp_all
  then have mp: "0 \<le> mp" "mp \<le> 11"
    using zdiv_mono1 [of "5 * doy + 2" 1827 153] unfolding mp_def by (simp_all add: pos_imp_zdiv_nonneg_iff)
  have parts: "gmtime t = \<lparr>tm_sec = t mod 86400 mod 60, tm_min = t mod 86400 div 60 mod 60, tm_hour = t mod 86400 div 3600,
      tm_mday = doy - (153 * mp + 2) div 5 + 1, tm_mon = month - 1,
      tm_year = z div 146097 * 400 + c * 100 + q * 4 + y + (if month \<le> 2 then 1 else 0) - 1900\<rparr>"
    unfolding gmtime_def Let_def z_def [symmetric] doe_def [symmetric]
    unfolding c_def [symmetric] unfolding doc_def [symmetric] unfolding q_def [symmetric] doq_def [symmetric]
    unfolding y_def [symmetric] unfolding doy_def [symmetric] unfolding mp_def [symmetric] month_def [symmetric] ..
  have month: "(month - 1) div 12 = 0" "(month - 1) mod 12 = month - 1" using mp unfolding month_def by auto
  have "doc = q * 1461 + doq" unfolding q_def doq_def by simp
  then have doe_sum: "c * 36524 + q * 1461 + y * 365 + doy = doe" unfolding doy_def doc_def by simp
  have z_sum: "z div 146097 * 146097 + doe = z" unfolding doe_def by simp
  have days: "civil_days (z div 146097 * 400 + c * 100 + q * 4 + y + (if month \<le> 2 then 1 else 0)) month 1 +
      (doy - (153 * mp + 2) div 5 + 1) - 1 = t div 86400"
    unfolding civil_days_parts [OF c(1,2) q y(1,2) mp month_def] using doe_sum z_sum unfolding z_def by simp
  have seconds: "s div 3600 * 3600 + s div 60 mod 60 * 60 + s mod 60 = (s::int)" for s
  proof -
    have "s div 3600 = s div 60 div 60" by (simp add: zdiv_zmult2_eq [symmetric])
    moreover have "a * 3600 + b * 60 = (a * 60 + b) * 60" for a b :: int by simp
    ultimately show ?thesis by (simp only: div_mult_mod_eq)
  qed
  have "timegm (gmtime t) = t div 86400 * 86400 +
      (t mod 86400 div 3600 * 3600 + t mod 86400 div 60 mod 60 * 60 + t mod 86400 mod 60)"
    using days by (simp add: timegm_def parts month Let_def)
  then show ?thesis by (simp only: seconds div_mult_mod_eq)
qed

section \<open>Time points\<close>

text \<open>
  A time point is its number of nanoseconds since 1970, a signed integer of 64 bits. Durations are converted to
  nanoseconds; converting back rounds towards zero.
\<close>

definition in_int64 :: "int \<Rightarrow> int result" where
  "in_int64 x = (if fits 64 x then Inr x else Inl UndefinedBehaviour)"

definition from_time_t :: "int \<Rightarrow> int result" where
  "from_time_t t = in_int64 (t * 1000000000)"

definition to_time_t :: "int \<Rightarrow> int" where
  "to_time_t timePoint = timePoint sdiv 1000000000"

text \<open>The zone: its offset in seconds at a time, and the time of a local time.\<close>

record timezone =
  tz_offset :: "int \<Rightarrow> int"
  tz_mktime :: "tm \<Rightarrow> int"

definition localtime :: "timezone \<Rightarrow> int \<Rightarrow> tm" where
  "localtime tz t = gmtime (t + tz_offset tz t)"

definition datetime_set_tm :: "timezone \<Rightarrow> tm \<Rightarrow> int result" where
  "datetime_set_tm tz localTm = from_time_t (tz_mktime tz localTm)"

definition datetime_reset :: int where
  "datetime_reset = 0"

definition datetime_tm :: "timezone \<Rightarrow> int \<Rightarrow> tm" where
  "datetime_tm tz v = localtime tz (to_time_t v)"

subsection \<open>Operators\<close>

text \<open>A duration is its count and its period in nanoseconds.\<close>

definition duration_ns :: "int \<times> int \<Rightarrow> int result" where
  "duration_ns d = in_int64 (fst d * snd d)"

definition datetime_plus :: "int \<Rightarrow> int \<times> int \<Rightarrow> int result" where
  "datetime_plus a b = rbind (duration_ns b) (\<lambda>b. in_int64 (a + b))"

definition datetime_plus_left :: "int \<times> int \<Rightarrow> int \<Rightarrow> int result" where
  "datetime_plus_left a b = rbind (duration_ns a) (\<lambda>a. in_int64 (a + b))"

definition datetime_minus :: "int \<Rightarrow> int \<times> int \<Rightarrow> int result" where
  "datetime_minus a b = rbind (duration_ns b) (\<lambda>b. in_int64 (a - b))"

definition datetime_difference :: "int \<Rightarrow> int \<Rightarrow> int result" where
  "datetime_difference a b = in_int64 (a - b)"

definition datetime_assign_plus :: "int \<Rightarrow> int \<times> int \<Rightarrow> int result" where
  "datetime_assign_plus a b = rbind (duration_ns b) (\<lambda>b. in_int64 (a + b))"

definition datetime_assign_minus :: "int \<Rightarrow> int \<times> int \<Rightarrow> int result" where
  "datetime_assign_minus a b = rbind (duration_ns b) (\<lambda>b. in_int64 (a - b))"

section \<open>Dates\<close>

definition date_encodeBody :: "timezone \<Rightarrow> int \<Rightarrow> bytes \<Rightarrow> bytes" where
  "date_encodeBody tz v data =
     (let localTm = datetime_tm tz v;
          localTime = timegm localTm;
          dbValue = 0x80000000 + (word_of_int (localTime sdiv 86400) :: u32)
      in data @ int_wire dbValue)"

definition date_decodeBody :: "timezone \<Rightarrow> bytes option \<Rightarrow> int result" where
  "date_decodeBody tz body =
     (case body of
        None \<Rightarrow> Inl DecodeException
      | Some bs \<Rightarrow>
          if bs = [] then Inr datetime_reset
          else if length bs \<noteq> 4 then Inl DecodeException
          else let dbValue = (word_of_nat (be_to_nat 0 bs) :: u32) in
               rbind (signed_mul (dbValue - 0x80000000) 86400) (\<lambda>localTime.
                 datetime_set_tm tz (gmtime (sint localTime))))"

definition date_create :: "timezone \<Rightarrow> u32 \<Rightarrow> u8 \<Rightarrow> u8 \<Rightarrow> int result" where
  "date_create tz year month day =
     datetime_set_tm tz \<lparr>tm_sec = 0, tm_min = 0, tm_hour = 0, tm_mday = uint day, tm_mon = uint month - 1,
       tm_year = sint (year - 1900)\<rparr>"

section \<open>Times of the day\<close>

definition time_set :: "timezone \<Rightarrow> int \<Rightarrow> int result" where
  "time_set tz nanoSeconds =
     rbind (datetime_set_tm tz (gmtime (nanoSeconds sdiv 1000000000))) (\<lambda>v.
       in_int64 (v + nanoSeconds smod 1000000000))"

definition time_reset :: "timezone \<Rightarrow> int result" where
  "time_reset tz = time_set tz 0"

text \<open>The sum is computed on \<^verbatim>\<open>std::uint64_t\<close>.\<close>

definition time_nanoseconds :: "timezone \<Rightarrow> int \<Rightarrow> int" where
  "time_nanoseconds tz v =
     (let localTm = datetime_tm tz v;
          localTime = timegm localTm;
          nanoseconds = (word_of_int (localTime smod 86400 * 1000000000) :: u64) + word_of_int (v smod 1000000000)
      in sint nanoseconds)"

text \<open>Microseconds, milliseconds, seconds, minutes and hours, by the nanoseconds of the unit.\<close>

definition time_units :: "timezone \<Rightarrow> int \<Rightarrow> int \<Rightarrow> int" where
  "time_units tz unit v = time_nanoseconds tz v sdiv unit"

definition time_encodeBody :: "timezone \<Rightarrow> int \<Rightarrow> bytes \<Rightarrow> bytes" where
  "time_encodeBody tz v data = data @ int_wire (word_of_int (time_nanoseconds tz v) :: u64)"

definition time_decodeBody :: "timezone \<Rightarrow> bytes option \<Rightarrow> int result" where
  "time_decodeBody tz body =
     (case body of
        None \<Rightarrow> Inl DecodeException
      | Some bs \<Rightarrow>
          if bs = [] then time_reset tz
          else if length bs \<noteq> 8 then Inl DecodeException
          else time_set tz (sint (word_of_nat (be_to_nat 0 bs) :: u64)))"

definition time_create :: "timezone \<Rightarrow> u8 \<Rightarrow> u8 \<Rightarrow> u8 \<Rightarrow> int result" where
  "time_create tz hour minute second =
     datetime_set_tm tz \<lparr>tm_sec = uint second, tm_min = uint minute, tm_hour = uint hour, tm_mday = 1, tm_mon = 1, tm_year = 70\<rparr>"

section \<open>Timestamps\<close>

definition timestamp_set_duration :: "int \<times> int \<Rightarrow> int result" where
  "timestamp_set_duration d = rbind (duration_ns d) (\<lambda>d. in_int64 (0 + d))"

text \<open>The units are those of \<open>time_units\<close>.\<close>

definition timestamp_units :: "int \<Rightarrow> int \<Rightarrow> int" where
  "timestamp_units unit v = v sdiv unit"

definition timestamp_create :: "timezone \<Rightarrow> u32 \<Rightarrow> u8 \<Rightarrow> u8 \<Rightarrow> u8 \<Rightarrow> u8 \<Rightarrow> u8 \<Rightarrow> int result" where
  "timestamp_create tz year month day hour minute second =
     datetime_set_tm tz \<lparr>tm_sec = uint second, tm_min = uint minute, tm_hour = uint hour, tm_mday = uint day,
       tm_mon = uint month - 1, tm_year = sint (year - 1900)\<rparr>"

definition timestamp_type :: "int column_type" where
  "timestamp_type =
     \<lparr>ct_initial = datetime_reset, ct_reset = (\<lambda>v. datetime_reset),
      ct_encodeBody = (\<lambda>v data. data @ int_wire (word_of_int (timestamp_units 1000000 v) :: u64)),
      ct_decodeBody = (\<lambda>body v. case body of
          None \<Rightarrow> Inl DecodeException
        | Some bs \<Rightarrow>
            if bs = [] then Inr datetime_reset
            else if length bs \<noteq> 8 then Inl DecodeException
            else timestamp_set_duration (sint (word_of_nat (be_to_nat 0 bs) :: u64), 1000000))\<rparr>"

section \<open>Lemmas\<close>

lemma sdiv_mult_self [simp]: "0 < k \<Longrightarrow> (x * k) sdiv k = (x :: int)"
  by (simp add: signed_divide_int_def abs_mult sgn_mult mult_sgn_abs)

lemma to_time_t_seconds [simp]: "to_time_t (t * 1000000000) = t"
  by (simp add: to_time_t_def)

lemma from_time_t_eq: "fits 64 (t * 1000000000) \<Longrightarrow> from_time_t t = Inr (t * 1000000000)"
  by (simp add: from_time_t_def in_int64_def)

text \<open>The local time is one the zone has, and a time point can hold its time.\<close>

definition local_time_ok :: "timezone \<Rightarrow> tm \<Rightarrow> bool" where
  "local_time_ok tz localTm \<longleftrightarrow>
     localtime tz (tz_mktime tz localTm) = localTm \<and> fits 64 (tz_mktime tz localTm * 1000000000)"

lemma datetime_set_tm_ok:
  assumes "local_time_ok tz localTm"
  shows "datetime_set_tm tz localTm = Inr (tz_mktime tz localTm * 1000000000)"
    "datetime_tm tz (tz_mktime tz localTm * 1000000000) = localTm"
  using assms by (simp_all add: local_time_ok_def datetime_set_tm_def from_time_t_eq datetime_tm_def)

definition fixed_zone :: "int \<Rightarrow> timezone" where
  "fixed_zone z = \<lparr>tz_offset = (\<lambda>t. z), tz_mktime = (\<lambda>localTm. timegm localTm - z)\<rparr>"

lemma fixed_zone_ok: "fits 64 ((t - z) * 1000000000) \<Longrightarrow> local_time_ok (fixed_zone z) (gmtime t)"
  by (simp add: local_time_ok_def fixed_zone_def localtime_def)

definition date_value :: "u32 \<Rightarrow> int" where
  "date_value d = sint (d - 0x80000000)"

lemma gmtime_day:
  "tm_year (gmtime t) = tm_year (gmtime (t div 86400 * 86400))"
  "tm_mon (gmtime t) = tm_mon (gmtime (t div 86400 * 86400))"
  "tm_mday (gmtime t) = tm_mday (gmtime (t div 86400 * 86400))"
  unfolding gmtime_def Let_def nonzero_mult_div_cancel_right [of "86400 :: int", OF zero_neq_numeral [symmetric]]
  by (simp_all only: tm.simps)

lemma date_decode_wire:
  "date_decodeBody tz (Some (int_wire d)) =
     (if fits 32 (date_value d * 86400) then datetime_set_tm tz (gmtime (date_value d * 86400))
      else Inl UndefinedBehaviour)"
proof (cases "fits 32 (date_value d * 86400)")
  case True
  then obtain v :: u32 where "signed_mul (d - 0x80000000) 86400 = Inr v" "sint v = date_value d * 86400"
    using checked_fits [where 'l = 32, of "date_value d * 86400"] by (auto simp: signed_mul_def date_value_def)
  with True show ?thesis by (simp add: date_decodeBody_def)
qed (simp add: date_decodeBody_def signed_mul_def checked_def date_value_def)

lemma date_value_wire: "0x80000000 + (word_of_int (date_value d) :: u32) = d"
  by (simp add: date_value_def)



text \<open>
  Every other date is lost, whatever the zone: the multiplication of the days with the seconds of a day is done on
  32 bits and overflows, so a date from 2038-01-20 on cannot be read.
\<close>

lemma dates_after_2038_overflow:
  assumes "24855 < \<bar>date_value d\<bar>"
  shows "date_decodeBody tz (Some (int_wire d)) = Inl UndefinedBehaviour"
  using assms by (simp add: date_decode_wire fits_def abs_if split: if_splits)

lemma dates_after_2038_overflow_witness:
  "date_decodeBody (fixed_zone 0) (Some (int_wire (0x80006118 :: u32))) = Inl UndefinedBehaviour"
  by (rule dates_after_2038_overflow) (simp add: date_value_def)

lemma first_lost_date: "tm_year (gmtime (24856 * 86400)) = 138" "tm_mon (gmtime (24856 * 86400)) = 0" "tm_mday (gmtime (24856 * 86400)) = 20"
  by code_simp+

text \<open>
  The hours of the last day before 1970 are stored as the first day of 1970, although the local date of the value
  is the day before: the division rounds towards zero.
\<close>

lemma last_day_before_1970_moved:
  assumes "- 86400 < to_time_t v + tz_offset tz (to_time_t v)" "to_time_t v + tz_offset tz (to_time_t v) < 0"
  shows "date_encodeBody tz v data = data @ int_wire (0x80000000 :: u32) \<and>
    tm_year (datetime_tm tz v) = 69 \<and> tm_mon (datetime_tm tz v) = 11 \<and> tm_mday (datetime_tm tz v) = 31"
proof -
  let ?l = "to_time_t v + tz_offset tz (to_time_t v)"
  have "?l sdiv 86400 = 0" using assms by (simp add: signed_divide_int_def)
  moreover have "?l div 86400 = - 1" 
    using assms int_div_pos_eq [of ?l 86400 "- 1" "?l + 86400"] by simp
  moreover have "tm_year (gmtime (- 1 * 86400)) = 69 \<and> tm_mon (gmtime (- 1 * 86400)) = 11 \<and> tm_mday (gmtime (- 1 * 86400)) = 31"
    by code_simp
  ultimately show ?thesis
    using gmtime_day [of ?l] by (simp add: date_encodeBody_def datetime_tm_def localtime_def)
qed

lemma last_day_before_1970_moved_witness:
  "date_encodeBody (fixed_zone 0) (- 43200000000000) [] = int_wire (0x80000000 :: u32)"
  using last_day_before_1970_moved [of "- 43200000000000" "fixed_zone 0" "[]"]
  by (simp add: to_time_t_def signed_divide_int_def fixed_zone_def)

lemma sdiv_smod_mult: "v sdiv k * k + v smod k = (v :: int)"
  by (rule sdiv_mult_smod_eq)

lemma sdiv_bounds:
  assumes "0 < k"
  shows "0 \<le> v \<Longrightarrow> v sdiv k * k \<le> v \<and> v < v sdiv k * k + (k :: int)"
    "v \<le> 0 \<Longrightarrow> v sdiv k * k - k < v \<and> v \<le> v sdiv k * k"
proof -
  have "x div k * k \<le> x \<and> x < x div k * k + k" for x
    using assms pos_mod_bound [of k x] pos_mod_sign [of k x] div_mult_mod_eq [of x k] by linarith
  from this [of v] this [of "- v"]
  show "0 \<le> v \<Longrightarrow> v sdiv k * k \<le> v \<and> v < v sdiv k * k + k"
    "v \<le> 0 \<Longrightarrow> v sdiv k * k - k < v \<and> v \<le> v sdiv k * k"
    using assms by (cases "v = 0"; simp add: signed_divide_int_def)+
qed

text \<open>The nanoseconds of a value whose local time of the day is not negative.\<close>

lemma time_nanoseconds_fixed:
  assumes "0 \<le> to_time_t v + z" "to_time_t v + z < 86400" "fits 64 (v + z * 1000000000)"
  shows "time_nanoseconds (fixed_zone z) v = v + z * 1000000000"
proof -
  have "(to_time_t v + z) smod 86400 = to_time_t v + z"
    using assms(1,2) by (cases "to_time_t v + z = 0") (simp_all add: signed_modulo_int_def sgn_1_pos)
  moreover have "(to_time_t v + z) * 1000000000 + v smod 1000000000 = v + z * 1000000000"
    using sdiv_smod_mult [of v 1000000000] by (simp add: to_time_t_def algebra_simps)
  moreover have "sint (word_of_int (v + z * 1000000000) :: u64) = v + z * 1000000000"
    using assms(3) by (intro sint_word_of_int_fits) simp
  ultimately show ?thesis
    unfolding time_nanoseconds_def datetime_tm_def localtime_def fixed_zone_def Let_def timezone.simps timegm_gmtime
    by (simp only: of_int_add [symmetric])
qed

lemma time_set_fixed:
  assumes "0 \<le> n" "n < 86400 * 1000000000" "\<bar>z\<bar> < 86400"
  shows "time_set (fixed_zone z) n = Inr (n - z * 1000000000)"
proof -
  let ?s = "n sdiv 1000000000"
  have s: "0 \<le> ?s * 1000000000" "?s * 1000000000 \<le> n" "n < ?s * 1000000000 + 1000000000"
    using sdiv_bounds(1) [of 1000000000 n] assms(1) by (simp_all add: signed_divide_int_def)
  have "local_time_ok (fixed_zone z) (gmtime ?s)"
    using s assms by (intro fixed_zone_ok) (simp add: fits_def algebra_simps abs_less_iff)
  from datetime_set_tm_ok(1) [OF this]
  have "datetime_set_tm (fixed_zone z) (gmtime ?s) = Inr ((?s - z) * 1000000000)" by (simp add: fixed_zone_def)
  moreover have "(?s - z) * 1000000000 + n smod 1000000000 = n - z * 1000000000"
    using sdiv_smod_mult [of n 1000000000] by (simp add: algebra_simps)
  moreover have "fits 64 (n - z * 1000000000)" using assms by (simp add: fits_def abs_less_iff)
  ultimately show ?thesis by (simp only: time_set_def in_int64_def rbind_simps if_True)
qed

text \<open>
  Every time of the day survives in a zone with a constant offset: the nanoseconds since midnight are decoded to
  that time of the first day of 1970 and encoded to the same bytes, also when the time point lies before 1970.
\<close>

lemma time_read_back:
  assumes "0 \<le> n" "n < 86400 * 1000000000" "\<bar>z\<bar> < 86400"
  shows "\<exists>v. time_decodeBody (fixed_zone z) (Some (int_wire (word_of_int n :: u64))) = Inr v \<and>
    time_nanoseconds (fixed_zone z) v = n \<and>
    time_encodeBody (fixed_zone z) v data = data @ int_wire (word_of_int n :: u64)"
proof -
  let ?v = "n - z * 1000000000"
  have "sint (word_of_int n :: u64) = n" using assms by (intro sint_word_of_int_fits) (simp add: fits_def)
  then have "time_decodeBody (fixed_zone z) (Some (int_wire (word_of_int n :: u64))) = Inr ?v"
    by (simp add: time_decodeBody_def time_set_fixed [OF assms])
  moreover have "0 \<le> to_time_t ?v + z" "to_time_t ?v + z < 86400"
    using sdiv_bounds [of 1000000000 ?v] assms unfolding to_time_t_def by (cases "0 \<le> ?v"; simp)+
  then have "time_nanoseconds (fixed_zone z) ?v = n"
    using time_nanoseconds_fixed [of ?v z] assms by (simp add: fits_def)
  ultimately show ?thesis by (auto simp: time_encodeBody_def)
qed

lemma time_read_back_witness:
  "\<exists>v. time_decodeBody (fixed_zone 28800) (Some (int_wire (word_of_int 3661500000000 :: u64))) = Inr v \<and>
     time_nanoseconds (fixed_zone 28800) v = 3661500000000 \<and>
     time_encodeBody (fixed_zone 28800) v [] = int_wire (word_of_int 3661500000000 :: u64)"
  using time_read_back [of 3661500000000 28800 "[]"] by simp

interpretation timestamp: column_codec timestamp_type "\<lambda>v. fits 64 v \<and> 1000000 dvd v"
proof
  fix v old assume v: "fits 64 v \<and> 1000000 dvd v"
  then obtain ms where ms: "v = ms * 1000000" by (auto elim: dvdE simp: mult.commute)
  with v have "fits 64 ms" unfolding fits_def by simp
  then have "sint (word_of_int ms :: u64) = ms" using sint_word_of_int_fits [where 'l = 64] by simp
  with v ms show "ct_decodeBody timestamp_type (Some (ct_encodeBody timestamp_type v [])) old = Inr v"
    by (simp add: timestamp_type_def timestamp_units_def timestamp_set_duration_def duration_ns_def in_int64_def)
qed (simp_all add: timestamp_type_def)

text \<open>
  Milliseconds that a time point can hold are decoded to exactly that time and encoded to the same bytes.
\<close>

lemma timestamp_read_back:
  assumes "fits 64 (sint (d :: u64) * 1000000)"
  shows "ct_decodeBody timestamp_type (Some (int_wire d)) old = Inr (sint d * 1000000) \<and>
    ct_encodeBody timestamp_type (sint d * 1000000) data = data @ int_wire d"
  using assms
  by (simp add: timestamp_type_def timestamp_units_def timestamp_set_duration_def duration_ns_def in_int64_def)

lemma timestamp_read_back_witness:
  "ct_decodeBody timestamp_type (Some (int_wire (- 5 :: u64))) 0 = Inr (- 5000000) \<and>
   ct_encodeBody timestamp_type (- 5000000) [] = int_wire (- 5 :: u64)"
  using timestamp_read_back [of "- 5" 0 "[]"] by (simp add: fits_def)

text \<open>Milliseconds beyond, after the year 2262, overflow.\<close>

lemma timestamp_after_2262:
  "9223372036854 < sint (d :: u64) \<Longrightarrow> ct_decodeBody timestamp_type (Some (int_wire d)) old = Inl UndefinedBehaviour"
  by (simp add: timestamp_type_def timestamp_set_duration_def duration_ns_def in_int64_def fits_def)

lemma civil_days_day: "civil_days y m d = civil_days y m 1 + d - 1"
  by (simp add: civil_days_def Let_def)

lemma year_of_create:
  assumes "year < 0x80000000"
  shows "sint (year - 1900 :: u32) + 1900 = uint year"
proof -
  have y: "0 \<le> uint year" "uint year < 2 ^ 31" using assms by (simp_all add: word_less_def)
  then have "fits LENGTH(32) (uint year - 1900)" by (simp add: fits_def)
  moreover have "year - 1900 = word_of_int (uint year - 1900)" by simp
  ultimately show ?thesis using sint_word_of_int_fits [where 'l = 32, of "uint year - 1900"] by simp
qed

text \<open>
  \<^verbatim>\<open>Date::create\<close> of a year, month and day is stored as the number of that day in the
  Gregorian calendar, counted from the first of January 1970.
\<close>

lemma date_create_stored:
  assumes "year < 0x80000000" "1 \<le> month" "month \<le> 12"
    "fits 64 ((civil_days (uint year) (uint month) (uint day) * 86400 - z) * 1000000000)"
  shows "\<exists>v. date_create (fixed_zone z) year month day = Inr v \<and>
    date_encodeBody (fixed_zone z) v data =
      data @ int_wire (0x80000000 + word_of_int (civil_days (uint year) (uint month) (uint day)) :: u32)"
proof -
  let ?days = "civil_days (uint year) (uint month) (uint day)"
  let ?tm = "\<lparr>tm_sec = 0, tm_min = 0, tm_hour = 0, tm_mday = uint day, tm_mon = uint month - 1, tm_year = sint (year - 1900)\<rparr>"
  have m: "(uint month - 1) div 12 = 0" "(uint month - 1) mod 12 = uint month - 1"
    using assms(2,3) by (simp_all add: word_le_def)
  have "timegm ?tm = ?days * 86400"
    using year_of_create [OF assms(1)] civil_days_day [of "uint year" "uint month" "uint day"]
    by (simp add: timegm_def m)
  then have "date_create (fixed_zone z) year month day = Inr ((?days * 86400 - z) * 1000000000)"
    unfolding date_create_def datetime_set_tm_def fixed_zone_def
    by (simp only: timezone.simps from_time_t_eq [OF assms(4)])
  moreover have "date_encodeBody (fixed_zone z) ((?days * 86400 - z) * 1000000000) data =
      data @ int_wire (0x80000000 + word_of_int ?days :: u32)"
    unfolding date_encodeBody_def datetime_tm_def localtime_def to_time_t_seconds
    by (simp add: fixed_zone_def)
  ultimately show ?thesis by blast
qed

lemma date_create_stored_witness:
  "\<exists>v. date_create (fixed_zone 3600) 1969 12 31 = Inr v \<and>
     date_encodeBody (fixed_zone 3600) v [] = int_wire (0x7fffffff :: u32)"
proof -
  have "civil_days 1969 12 31 = - 1" by code_simp
  then show ?thesis using date_create_stored [of 1969 12 31 3600 "[]"] by (simp add: fits_def)
qed

end
