(* ===== verification/Column_Text.thy ===== *)
theory Column_Text
  imports String_Utils Column_Dates Column_Numbers
begin

text \<open>
  The text of column values: what \<^verbatim>\<open>operator<<\<close> writes for integers, decimals, dates, times and timestamps,
  and the value that such a text denotes.
\<close>

section \<open>Writing\<close>

text \<open>\<^verbatim>\<open>std::setfill('0') << std::setw(width)\<close>: zeros on the left.\<close>

definition setw :: "nat \<Rightarrow> bytes \<Rightarrow> bytes" where
  "setw width txt = replicate (width - length txt) 48 @ txt"

definition integer_text :: "'l::len word \<Rightarrow> bytes" where
  "integer_text v = int_text (sint v)"

text \<open>
  \<^verbatim>\<open>std::abs\<close> of the least number, a division by a zero boundary and negating the least scale are undefined.
  The quotient and the remainder are unsigned, like the boundary.
\<close>

definition decimal_text :: "decimal \<Rightarrow> bytes result" where
  "decimal_text d =
     (let scale = sint (dc_scale d); unscaled = sint (dc_unscaled d) in
      if scale = 0 then Inr (integer_text (dc_unscaled d))
      else if scale > 0 then
        (if \<not> fits 64 (\<bar>unscaled\<bar>) then Inl UndefinedBehaviour
         else let unscaledAbs = (word_of_int \<bar>unscaled\<bar> :: u64); boundary = pow10 (dc_scale d) in
           if boundary = 0 then Inl UndefinedBehaviour
           else Inr ((if unscaled \<ge> 0 then [] else [45]) @ dec_text (unat (unscaledAbs div boundary)) @ [46] @
             setw (nat scale) (dec_text (unat (unscaledAbs mod boundary)))))
      else if \<not> fits 32 (- scale) then Inl UndefinedBehaviour
      else Inr (integer_text (dc_unscaled d) @ setw (nat (- scale)) [48]))"

definition date_text :: "timezone \<Rightarrow> int \<Rightarrow> bytes" where
  "date_text tz v =
     (let localTm = datetime_tm tz v
      in setw 4 (int_text (tm_year localTm + 1900)) @ [45] @ setw 2 (int_text (tm_mon localTm + 1)) @ [45] @
         setw 2 (int_text (tm_mday localTm)))"

definition time_text :: "timezone \<Rightarrow> int \<Rightarrow> bytes" where
  "time_text tz v =
     (let localTm = datetime_tm tz v; nanoSeconds = time_nanoseconds tz v
      in setw 2 (int_text (tm_hour localTm)) @ [58] @ setw 2 (int_text (tm_min localTm)) @ [58] @
         setw 2 (int_text (tm_sec localTm)) @ [46] @ setw 9 (int_text (nanoSeconds smod 1000000000)))"

definition timestamp_text :: "timezone \<Rightarrow> int \<Rightarrow> bytes" where
  "timestamp_text tz v =
     (let localTm = datetime_tm tz v; milliSeconds = timestamp_units 1000000 v
      in setw 4 (int_text (tm_year localTm + 1900)) @ [45] @ setw 2 (int_text (tm_mon localTm + 1)) @ [45] @
         setw 2 (int_text (tm_mday localTm)) @ [32] @ setw 2 (int_text (tm_hour localTm)) @ [58] @
         setw 2 (int_text (tm_min localTm)) @ [58] @ setw 2 (int_text (tm_sec localTm)) @ [46] @
         setw 3 (int_text (milliSeconds smod 1000)))"

section \<open>Reading\<close>

text \<open>The number a text stands for: an optional sign, digits, and digits after an optional point.\<close>

definition read_unsigned :: "bytes \<Rightarrow> rat" where
  "read_unsigned txt =
     (let whole = takeWhile (\<lambda>c. c \<noteq> 46) txt; fraction = drop (Suc (length whole)) txt
      in of_nat (dec_value whole) + of_nat (dec_value fraction) / 10 ^ length fraction)"

definition read_number :: "bytes \<Rightarrow> rat" where
  "read_number txt = (if txt \<noteq> [] \<and> hd txt = 45 then - read_unsigned (tl txt) else read_unsigned txt)"

lemma dec_value_append: "dec_value (xs @ ys) = dec_value xs * 10 ^ length ys + dec_value ys"
proof (induction ys rule: rev_induct)
  case (snoc y ys)
  have step: "dec_value (zs @ [y]) = dec_value zs * 10 + (unat y - 48)" for zs by (simp add: dec_value_def)
  show ?case using snoc step [of ys] step [of "xs @ ys"] by (simp add: algebra_simps)
qed (simp add: dec_value_def)

lemma dec_value_zeros [simp]: "dec_value (replicate k 48) = 0"
proof (induction k)
  case (Suc k)
  have "replicate (Suc k) 48 = replicate k 48 @ [48 :: byte]" by (simp add: replicate_append_same)
  then have "dec_value (replicate (Suc k) 48) = dec_value (replicate k 48 @ [48])" by (simp only:)
  with Suc show ?case by (simp only: dec_value_append) (simp add: dec_value_def)
qed (simp add: dec_value_def)

lemma dec_value_setw [simp]: "dec_value (setw k txt) = dec_value txt"
  by (simp add: setw_def dec_value_append)

lemma length_dec_text: "n < 10 ^ k \<Longrightarrow> 0 < k \<Longrightarrow> length (dec_text n) \<le> k"
proof (induction k arbitrary: n)
  case (Suc k)
  show ?case
  proof (cases "n < 10")
    case True
    then show ?thesis by (subst dec_text.simps) simp
  next
    case False
    then have "0 < k" using Suc.prems by (cases k) auto
    then have "length (dec_text (n div 10)) \<le> k" using Suc by (intro Suc.IH) (auto simp: less_mult_imp_div_less mult.commute)
    then show ?thesis using False by (subst dec_text.simps) simp
  qed
qed simp

lemma no_point_in_digits: "list_all (\<lambda>c. 48 \<le> c \<and> c \<le> 57) cs \<Longrightarrow> 46 \<notin> set cs \<and> 45 \<notin> set (cs :: bytes)"
  by (fastforce simp: list_all_iff)

lemma dec_text_plain: "46 \<notin> set (dec_text n)" "45 \<notin> set (dec_text n)"
  using no_point_in_digits [OF dec_text_digits] by blast+

lemma read_unsigned_digits: "46 \<notin> set txt \<Longrightarrow> read_unsigned txt = of_nat (dec_value txt)"
proof -
  assume "46 \<notin> set txt"
  then have "takeWhile (\<lambda>c. c \<noteq> 46) txt = txt" by (auto simp: takeWhile_eq_all_conv)
  then show ?thesis unfolding read_unsigned_def Let_def by (simp only:) (simp add: dec_value_def [of "[]"])
qed

lemma read_unsigned_point:
  "46 \<notin> set whole \<Longrightarrow> read_unsigned (whole @ 46 # fraction) = of_nat (dec_value whole) + of_nat (dec_value fraction) / 10 ^ length fraction"
  by (simp add: read_unsigned_def Let_def takeWhile_append)

lemma read_number_signed:
  "read_number (45 # txt) = - read_unsigned txt"
  "txt \<noteq> [] \<Longrightarrow> 45 \<notin> set txt \<Longrightarrow> read_number (txt @ rest) = read_unsigned (txt @ rest)"
  by (auto simp: read_number_def neq_Nil_conv)

lemma read_int_text: "read_number (int_text i @ replicate k 48) = of_int i * 10 ^ k"
proof -
  have digits: "read_unsigned (dec_text n @ replicate k 48) = of_nat n * 10 ^ k" for n
    using dec_text_plain(1) [of n] by (simp add: read_unsigned_digits dec_value_append dec_value_text)
  show ?thesis
    using digits [of "nat i"] digits [of "nat (- i)"] dec_text_plain(2) [of "nat i"]
    by (cases "i < 0") (simp_all add: int_text_def read_number_signed)
qed

section \<open>The text of a decimal denotes its number\<close>

lemma decimal_text_whole:
  assumes "sint (dc_scale d) \<le> 0" "sint (dc_scale d) \<noteq> - (2 ^ 31)"
  shows "\<exists>txt. decimal_text d = Inr txt \<and> read_number txt = decimal_value d"
proof (cases "sint (dc_scale d) = 0")
  case True
  then show ?thesis
    using read_int_text [of "sint (dc_unscaled d)" 0] by (simp add: decimal_text_def Let_def integer_text_def decimal_value_def)
next
  case False
  let ?k = "nat (- sint (dc_scale d))"
  have "sint (dc_scale d) \<ge> - (2 ^ 31)" using sint_greater_eq [of "dc_scale d"] by simp
  then have fits: "fits 32 (- sint (dc_scale d))" using assms by (auto simp: fits_def)
  obtain k where "?k = Suc k" using False assms(1) by (cases ?k) auto
  then have "setw ?k [48] = replicate ?k 48" by (simp add: setw_def replicate_append_same)
  with False assms(1) fits have "decimal_text d = Inr (int_text (sint (dc_unscaled d)) @ replicate ?k 48)"
    by (simp add: decimal_text_def Let_def integer_text_def)
  moreover have "decimal_value d = of_int (sint (dc_unscaled d)) * 10 ^ ?k"
    using assms(1) by (simp add: decimal_value_def power_int_def)
  ultimately show ?thesis using read_int_text [of "sint (dc_unscaled d)" ?k] by simp
qed

lemma div_mod_fraction: "of_nat (a div 10 ^ k) + of_nat (a mod 10 ^ k) / 10 ^ k = (of_nat a / 10 ^ k :: rat)"
proof -
  have split: "q + r / b = x / b" if "q * b + r = x" "b \<noteq> 0" for q r b x :: rat
    using that by (simp add: field_simps)
  have "of_nat (a div 10 ^ k * 10 ^ k + a mod 10 ^ k) = (of_nat a :: rat)" by (simp only: div_mult_mod_eq)
  then show ?thesis by (intro split) (simp_all only: of_nat_add of_nat_mult of_nat_power of_nat_numeral, simp)
qed

lemma decimal_text_fraction:
  assumes scale: "0 < sint (dc_scale d)" "sint (dc_scale d) < 20" and unscaled: "sint (dc_unscaled d) \<noteq> - (2 ^ 63)"
  shows "\<exists>txt. decimal_text d = Inr txt \<and> read_number txt = decimal_value d"
proof -
  let ?k = "nat (sint (dc_scale d))" and ?u = "sint (dc_unscaled d)"
  let ?a = "nat \<bar>?u\<bar>" and ?b = "10 ^ nat (sint (dc_scale d)) :: nat"
  have b: "unat (pow10 (dc_scale d)) = ?b" by (rule unat_pow10 [OF scale(2)])
  then have b0: "pow10 (dc_scale d) \<noteq> 0" by (metis power_not_zero unat_0 zero_neq_numeral)
  have range: "- (2 ^ 63) \<le> ?u" "?u < 2 ^ 63" using sint_greater_eq [of "dc_unscaled d"] sint_less [of "dc_unscaled d"] by simp_all
  then have fits: "fits 64 \<bar>?u\<bar>" using unscaled by (auto simp: fits_def)
  have "?a < 2 ^ 64" using range by simp
  moreover have "word_of_int \<bar>?u\<bar> = (word_of_nat ?a :: u64)" by simp
  ultimately have a: "unat (word_of_int \<bar>?u\<bar> :: u64) = ?a" by (simp only: unat_of_nat) simp
  let ?int = "dec_text (?a div ?b)" and ?fraction = "setw ?k (dec_text (?a mod ?b))"
  have written: "decimal_text d = Inr ((if ?u \<ge> 0 then [] else [45]) @ ?int @ 46 # ?fraction)"
    using scale fits b0 by (simp add: decimal_text_def Let_def unat_div unat_mod a b)
  have "length (dec_text (?a mod ?b)) \<le> ?k" using scale by (intro length_dec_text) simp_all
  then have "length ?fraction = ?k" by (simp add: setw_def)
  then have "read_unsigned (?int @ 46 # ?fraction) = of_nat (?a div ?b) + of_nat (?a mod ?b) / 10 ^ ?k"
    using dec_text_plain(1) by (simp add: read_unsigned_point dec_value_text)
  also have "\<dots> = of_nat ?a / 10 ^ ?k" by (rule div_mod_fraction)
  finally have magnitude: "read_unsigned (?int @ 46 # ?fraction) = of_nat ?a / 10 ^ ?k" .
  have val: "decimal_value d = of_int ?u / 10 ^ ?k"
    using scale(1) by (simp add: decimal_value_def power_int_def field_simps)
  have "read_number ((if ?u \<ge> 0 then [] else [45]) @ ?int @ 46 # ?fraction) = decimal_value d"
  proof (cases "?u \<ge> 0")
    case True
    have "read_number (?int @ 46 # ?fraction) = of_nat ?a / 10 ^ ?k"
      by (simp only: read_number_signed(2) [OF dec_text_nonempty dec_text_plain(2)] magnitude)
    moreover have "(of_nat ?a :: rat) = of_int ?u" using True by (simp only: of_nat_nat abs_of_nonneg abs_ge_zero)
    ultimately show ?thesis using True by (simp only: val if_True append_Nil)
  next
    case False
    have "(of_nat ?a :: rat) = - of_int ?u" using False by simp
    with False show ?thesis by (simp only: val if_False append_Cons append_Nil read_number_signed(1) magnitude minus_divide_left minus_minus)
  qed
  with written show ?thesis by blast
qed


text \<open>
  C29: The text of a decimal denotes its number for every scale below 20, in whatever way the number is split into scale
  and unscaled value. From scale 20 on the power of ten no longer fits into 64 bits, and from scale 64 on it is zero:
  writing such a decimal, which may come from the server, divides by zero.
\<close>

theorem decimal_text_correct:
  "(sint (dc_scale d) < 20 \<longrightarrow> sint (dc_scale d) \<noteq> - (2 ^ 31) \<longrightarrow> sint (dc_unscaled d) \<noteq> - (2 ^ 63) \<longrightarrow>
      (\<exists>txt. decimal_text d = Inr txt \<and> read_number txt = decimal_value d)) \<and>
   (64 \<le> sint (dc_scale d) \<longrightarrow> decimal_text d = Inl UndefinedBehaviour)"
proof (intro conjI impI)
  assume "sint (dc_scale d) < 20" "sint (dc_scale d) \<noteq> - (2 ^ 31)" "sint (dc_unscaled d) \<noteq> - (2 ^ 63)"
  then show "\<exists>txt. decimal_text d = Inr txt \<and> read_number txt = decimal_value d"
    using decimal_text_whole [of d] decimal_text_fraction [of d] by (cases "sint (dc_scale d) \<le> 0") simp_all
next
  assume scale: "64 \<le> sint (dc_scale d)"
  have "(10 :: u64) ^ nat (sint (dc_scale d)) = 10 ^ 64 * 10 ^ (nat (sint (dc_scale d)) - 64)"
    unfolding power_add [symmetric] using scale by (intro arg_cong [where f = "\<lambda>k. 10 ^ k"]) simp
  moreover have "(10 :: u64) ^ 64 = 0" by simp
  ultimately have "(10 :: u64) ^ nat (sint (dc_scale d)) = 0" by (simp only: mult_zero_left)
  then have "pow10 (dc_scale d) = 0" by (simp only: pow10_def powInteger_eq)
  with scale show "decimal_text d = Inl UndefinedBehaviour" by (simp add: decimal_text_def Let_def)
qed

theorem decimal_text_correct_witness:
  "(\<exists>txt. decimal_text (decimal_set 2 (- 1205)) = Inr txt \<and> read_number txt = decimal_value (decimal_set 2 (- 1205))) \<and>
   decimal_text (decimal_set 64 1) = Inl UndefinedBehaviour"
  using decimal_text_correct [of "decimal_set 2 (- 1205)"] decimal_text_correct [of "decimal_set 64 1"]
  by (simp add: decimal_set_def)

lemma decimal_text_example: "decimal_text (decimal_set 2 (- 1205)) = Inr (ascii ''-12.05'')"
  by code_simp

text \<open>A timestamp half a second before 1970 is written with the date of 1970 and a minus sign after the point.\<close>

lemma timestamp_before_1970_text: "timestamp_text (fixed_zone 0) (- 500000000) = ascii ''1970-01-01 00:00:00.-500''"
  by code_simp

lemma time_text_example: "time_text (fixed_zone 0) 3661000000007 = ascii ''01:01:01.000000007''"
  by code_simp

lemma date_text_example: "date_text (fixed_zone 0) 1583020799000000000 = ascii ''2020-02-29''"
  by code_simp

end
