(* ===== verification/Floating_Point.thy ===== *)
theory Floating_Point
  imports Columns Complex_Main
begin

text \<open>
  The numbers of IEEE 754 binary32 and binary64, which \<^verbatim>\<open>FloatingPointBase.hpp\<close> asserts \<^verbatim>\<open>float\<close> and
  \<^verbatim>\<open>double\<close> to be: the value of a bit pattern, rounding to the nearest, and the arithmetic and conversions that
  the language does with them. A finite number of a format is an integral multiple of its smallest number, its
  unit, so that the arithmetic is one of integers.
\<close>

section \<open>Formats\<close>

text \<open>A format is given by its width: \<^verbatim>\<open>float\<close> is 32, \<^verbatim>\<open>double\<close> is 64 bits wide.\<close>

definition fraction_bits :: "nat \<Rightarrow> nat" where
  "fraction_bits w = (if w = 32 then 23 else 52)"

definition exponent_bits :: "nat \<Rightarrow> nat" where
  "exponent_bits w = (if w = 32 then 8 else 11)"

text \<open>The unit of a format is \<open>2\<close> to the power of minus \<open>unit_shift\<close>; numbers below \<open>limit\<close> units are finite.\<close>

definition unit_shift :: "nat \<Rightarrow> nat" where
  "unit_shift w = 2 ^ (exponent_bits w - 1) + fraction_bits w - 2"

definition limit_shift :: "nat \<Rightarrow> nat" where
  "limit_shift w = 2 ^ exponent_bits w + fraction_bits w - 2"

definition limit :: "nat \<Rightarrow> nat" where
  "limit w = 2 ^ limit_shift w"

lemma format_numbers [simp]:
  "fraction_bits 32 = 23" "fraction_bits 64 = 52" "exponent_bits 32 = 8" "exponent_bits 64 = 11"
  "unit_shift 32 = 149" "unit_shift 64 = 1074" "limit_shift 32 = 277" "limit_shift 64 = 2098"
  by (simp_all add: fraction_bits_def exponent_bits_def unit_shift_def limit_shift_def)

definition format :: "nat \<Rightarrow> bool" where
  "format w \<longleftrightarrow> w = 32 \<or> w = 64"

text \<open>A NaN stands for all its bit patterns; a finite number has a sign and a magnitude in units.\<close>

datatype floating = Not_A_Number | Infinite bool | Finite bool nat

section \<open>Bit patterns\<close>

definition floating_of_bits :: "nat \<Rightarrow> nat \<Rightarrow> floating" where
  "floating_of_bits w bits =
     (let s = 2 ^ (w - 1) \<le> bits;
          magnitude = bits mod 2 ^ (w - 1);
          e = magnitude div 2 ^ fraction_bits w;
          f = magnitude mod 2 ^ fraction_bits w
      in if e = 2 ^ exponent_bits w - 1 then (if f = 0 then Infinite s else Not_A_Number)
         else if e = 0 then Finite s f
         else Finite s ((2 ^ fraction_bits w + f) * 2 ^ (e - 1)))"

fun bit_count :: "nat \<Rightarrow> nat" where
  "bit_count n = (if n = 0 then 0 else Suc (bit_count (n div 2)))"

declare bit_count.simps [simp del]

text \<open>The number of low bits that the fraction has no room for.\<close>

definition excess :: "nat \<Rightarrow> nat \<Rightarrow> nat" where
  "excess w n = bit_count n - Suc (fraction_bits w)"

text \<open>The bit pattern of a NaN is the choice of the processor.\<close>

fun bits_of_floating :: "nat \<Rightarrow> nat \<Rightarrow> floating \<Rightarrow> nat" where
  "bits_of_floating w nan Not_A_Number = nan"
| "bits_of_floating w nan (Infinite s) =
     of_bool s * 2 ^ (w - 1) + (2 ^ exponent_bits w - 1) * 2 ^ fraction_bits w"
| "bits_of_floating w nan (Finite s n) =
     of_bool s * 2 ^ (w - 1) + excess w n * 2 ^ fraction_bits w + n div 2 ^ excess w n"

section \<open>Rounding\<close>

text \<open>A quotient to the nearest integer, and to the even one of two nearest.\<close>

definition round_half_even :: "nat \<Rightarrow> nat \<Rightarrow> nat" where
  "round_half_even a b =
     (let q = a div b; r = a mod b in if 2 * r < b \<or> 2 * r = b \<and> even q then q else Suc q)"

text \<open>The quotient of two numbers of units, as a number of the format.\<close>

definition round_units :: "nat \<Rightarrow> nat \<Rightarrow> nat \<Rightarrow> nat" where
  "round_units w a b =
     (let k = excess w (a div b) in round_half_even a (b * 2 ^ k) * 2 ^ k)"

definition rounded :: "nat \<Rightarrow> bool \<Rightarrow> nat \<Rightarrow> nat \<Rightarrow> floating" where
  "rounded w s a b = (let n = round_units w a b in if n < limit w then Finite s n else Infinite s)"

definition representable :: "nat \<Rightarrow> nat \<Rightarrow> bool" where
  "representable w n \<longleftrightarrow> n < limit w \<and> 2 ^ excess w n dvd n"

fun floating_ok :: "nat \<Rightarrow> floating \<Rightarrow> bool" where
  "floating_ok w (Finite s n) \<longleftrightarrow> representable w n"
| "floating_ok w x \<longleftrightarrow> True"

section \<open>Arithmetic\<close>

fun floating_neg :: "floating \<Rightarrow> floating" where
  "floating_neg Not_A_Number = Not_A_Number"
| "floating_neg (Infinite s) = Infinite (\<not> s)"
| "floating_neg (Finite s n) = Finite (\<not> s) n"

fun floating_abs :: "floating \<Rightarrow> floating" where
  "floating_abs Not_A_Number = Not_A_Number"
| "floating_abs (Infinite s) = Infinite False"
| "floating_abs (Finite s n) = Finite False n"

definition signed_units :: "bool \<Rightarrow> nat \<Rightarrow> int" where
  "signed_units s n = (if s then - int n else int n)"

text \<open>A sum that is zero is negative only if both operands are.\<close>

fun floating_add :: "nat \<Rightarrow> floating \<Rightarrow> floating \<Rightarrow> floating" where
  "floating_add w (Finite s a) (Finite t b) =
     (let i = signed_units s a + signed_units t b
      in if i = 0 then Finite (s \<and> t) 0 else rounded w (i < 0) (nat \<bar>i\<bar>) 1)"
| "floating_add w (Infinite s) (Infinite t) = (if s = t then Infinite s else Not_A_Number)"
| "floating_add w (Infinite s) (Finite t b) = Infinite s"
| "floating_add w (Finite s a) (Infinite t) = Infinite t"
| "floating_add w x y = Not_A_Number"

definition floating_sub :: "nat \<Rightarrow> floating \<Rightarrow> floating \<Rightarrow> floating" where
  "floating_sub w x y = floating_add w x (floating_neg y)"

fun floating_mul :: "nat \<Rightarrow> floating \<Rightarrow> floating \<Rightarrow> floating" where
  "floating_mul w (Finite s a) (Finite t b) = rounded w (s \<noteq> t) (a * b) (2 ^ unit_shift w)"
| "floating_mul w (Infinite s) (Infinite t) = Infinite (s \<noteq> t)"
| "floating_mul w (Infinite s) (Finite t b) = (if b = 0 then Not_A_Number else Infinite (s \<noteq> t))"
| "floating_mul w (Finite s a) (Infinite t) = (if a = 0 then Not_A_Number else Infinite (s \<noteq> t))"
| "floating_mul w x y = Not_A_Number"

fun floating_div :: "nat \<Rightarrow> floating \<Rightarrow> floating \<Rightarrow> floating" where
  "floating_div w (Finite s a) (Finite t b) =
     (if b = 0 then (if a = 0 then Not_A_Number else Infinite (s \<noteq> t))
      else rounded w (s \<noteq> t) (a * 2 ^ unit_shift w) b)"
| "floating_div w (Infinite s) (Infinite t) = Not_A_Number"
| "floating_div w (Infinite s) (Finite t b) = Infinite (s \<noteq> t)"
| "floating_div w (Finite s a) (Infinite t) = Finite (s \<noteq> t) 0"
| "floating_div w x y = Not_A_Number"

text \<open>Every comparison with a NaN is false but for \<^verbatim>\<open>!=\<close>; the zeros are equal.\<close>

fun floating_equal :: "floating \<Rightarrow> floating \<Rightarrow> bool" where
  "floating_equal (Finite s a) (Finite t b) \<longleftrightarrow> signed_units s a = signed_units t b"
| "floating_equal (Infinite s) (Infinite t) \<longleftrightarrow> s = t"
| "floating_equal x y \<longleftrightarrow> False"

fun floating_less :: "floating \<Rightarrow> floating \<Rightarrow> bool" where
  "floating_less (Finite s a) (Finite t b) \<longleftrightarrow> signed_units s a < signed_units t b"
| "floating_less (Infinite s) (Infinite t) \<longleftrightarrow> s \<and> \<not> t"
| "floating_less (Infinite s) (Finite t b) \<longleftrightarrow> s"
| "floating_less (Finite s a) (Infinite t) \<longleftrightarrow> \<not> t"
| "floating_less x y \<longleftrightarrow> False"

section \<open>Conversions\<close>

text \<open>Between formats, and from and to integers; a number too large for the integer type is undefined behaviour.\<close>

fun floating_convert :: "nat \<Rightarrow> nat \<Rightarrow> floating \<Rightarrow> floating" where
  "floating_convert v w (Finite s n) = rounded w s (n * 2 ^ unit_shift w) (2 ^ unit_shift v)"
| "floating_convert v w x = x"

definition floating_of_int :: "nat \<Rightarrow> int \<Rightarrow> floating" where
  "floating_of_int w i = rounded w (i < 0) (nat \<bar>i\<bar> * 2 ^ unit_shift w) 1"

fun floating_truncate :: "nat \<Rightarrow> floating \<Rightarrow> int option" where
  "floating_truncate w (Finite s n) = Some (signed_units s (n div 2 ^ unit_shift w))"
| "floating_truncate w x = None"

section \<open>Lemmas on rounding\<close>

lemma bit_count_less: "n < 2 ^ bit_count n"
proof (induction n rule: bit_count.induct)
  case (1 n)
  show ?case
  proof (cases "n = 0")
    case False
    with 1 have "n div 2 < 2 ^ bit_count (n div 2)" by simp
    with False show ?thesis by (subst bit_count.simps) simp
  qed (simp add: bit_count.simps)
qed

lemma bit_count_ge: "0 < n \<Longrightarrow> 2 ^ (bit_count n - 1) \<le> n"
proof (induction n rule: bit_count.induct)
  case (1 n)
  show ?case
  proof (cases "n = 1")
    case False
    with 1 have "2 ^ (bit_count (n div 2) - 1) \<le> n div 2" and "0 < n div 2" by simp_all
    moreover have "bit_count (n div 2) = Suc (bit_count (n div 2) - 1)"
      using \<open>0 < n div 2\<close> by (subst (1 2) bit_count.simps) simp
    ultimately have "2 ^ bit_count (n div 2) \<le> 2 * (n div 2)"
      by (metis mult_le_mono2 power_Suc)
    moreover have "bit_count n = Suc (bit_count (n div 2))"
      using \<open>0 < n\<close> by (subst bit_count.simps) simp
    moreover have "2 * (n div 2) \<le> n" by simp
    ultimately show ?thesis by simp
  qed (simp add: bit_count.simps)
qed

lemma bit_count_le_iff: "bit_count n \<le> k \<longleftrightarrow> n < 2 ^ k"
proof
  assume "bit_count n \<le> k"
  then have "(2::nat) ^ bit_count n \<le> 2 ^ k" by (intro power_increasing) auto
  with bit_count_less [of n] show "n < 2 ^ k" by linarith
next
  assume less: "n < 2 ^ k"
  show "bit_count n \<le> k"
  proof (rule ccontr)
    assume "\<not> bit_count n \<le> k"
    then have "(2::nat) ^ k \<le> 2 ^ (bit_count n - 1)" "0 < n"
      by (auto intro!: power_increasing gr0I simp: bit_count.simps)
    with bit_count_ge [of n] less show False by linarith
  qed
qed

lemma bit_count_eqI: "2 ^ k \<le> n \<Longrightarrow> n < 2 ^ Suc k \<Longrightarrow> bit_count n = Suc k"
  using bit_count_le_iff [of n k] bit_count_le_iff [of n "Suc k"] by simp

text \<open>A quotient is rounded by at most one half, so no other integer is nearer.\<close>

lemma round_half_even_error:
  assumes "0 < b"
  shows "2 * \<bar>int b * int (round_half_even a b) - int a\<bar> \<le> int b"
proof -
  define q r where "q = a div b" and "r = a mod b"
  have a: "int a = int b * int q + int r" and r: "r < b"
    using assms by (simp_all add: q_def r_def flip: of_nat_add of_nat_mult)
  show ?thesis
  proof (cases "2 * r < b \<or> 2 * r = b \<and> even q")
    case True
    then have "round_half_even a b = q" "2 * r \<le> b"
      by (auto simp: round_half_even_def Let_def simp flip: q_def r_def)
    then show ?thesis by (simp add: a)
  next
    case False
    then have "round_half_even a b = Suc q" "b \<le> 2 * r"
      by (auto simp: round_half_even_def Let_def simp flip: q_def r_def)
    with r show ?thesis by (simp add: a distrib_left)
  qed
qed

lemma nearer_than: "2 * \<bar>x - a\<bar> \<le> b \<Longrightarrow> b \<le> \<bar>y - x\<bar> \<Longrightarrow> \<bar>x - a\<bar> \<le> \<bar>y - a\<bar>" for a :: int
  by arith

lemma round_half_even_nearest:
  assumes "0 < b"
  shows "\<bar>int b * int (round_half_even a b) - int a\<bar> \<le> \<bar>int b * m - int a\<bar>"
proof (cases "m = int (round_half_even a b)")
  case False
  then have "1 \<le> \<bar>m - int (round_half_even a b)\<bar>" by linarith
  then have "int b \<le> \<bar>int b * (m - int (round_half_even a b))\<bar>"
    using assms by (simp add: abs_mult)
  then have "int b \<le> \<bar>int b * m - int b * int (round_half_even a b)\<bar>" by (simp add: right_diff_distrib)
  with round_half_even_error [OF assms] show ?thesis by (rule nearer_than)
qed simp

lemma round_half_even_exact: "0 < b \<Longrightarrow> round_half_even (b * m) b = m"
  by (simp add: round_half_even_def)

lemma round_half_even_bounds: "a div b \<le> round_half_even a b \<and> round_half_even a b \<le> Suc (a div b)"
  by (simp add: round_half_even_def Let_def)

section \<open>Rounding to a format\<close>

lemma excess_le_iff: "excess w n \<le> k \<longleftrightarrow> n < 2 ^ (k + Suc (fraction_bits w))"
  by (simp add: excess_def bit_count_le_iff flip: le_diff_conv le_diff_conv2) (simp add: le_diff_conv bit_count_le_iff)

text \<open>No number of the format is nearer to the quotient than the rounded one.\<close>

lemma round_units_nearest:
  assumes "0 < b" "2 ^ excess w c dvd c"
  shows "\<bar>int b * int (round_units w a b) - int a\<bar> \<le> \<bar>int b * int c - int a\<bar>"
proof -
  define k where "k = excess w (a div b)"
  have grid: "\<bar>int b * int (round_units w a b) - int a\<bar> \<le> \<bar>int b * (2 ^ k * m) - int a\<bar>" for m
    using round_half_even_nearest [of "b * 2 ^ k" a m] assms(1)
    by (simp add: round_units_def Let_def k_def mult.assoc mult.left_commute mult.commute)
  show ?thesis
  proof (cases "k \<le> excess w c")
    case True
    then have "2 ^ k dvd c" using assms(2) by (meson dvd_trans le_imp_power_dvd)
    then obtain m where "c = 2 ^ k * m" by blast
    with grid [of "int m"] show ?thesis by simp
  next
    case False
    define g where "g = (2::nat) ^ (k - 1 + Suc (fraction_bits w))"
    have "excess w c \<le> k - 1" "\<not> excess w (a div b) \<le> k - 1" using False by (auto simp: k_def)
    then have "c < g" "g \<le> a div b" unfolding excess_le_iff g_def by simp_all
    then have "int (b * c) \<le> int (b * g)" "int (b * g) \<le> int a"
      using assms(1) by (simp_all only: of_nat_le_iff less_eq_div_iff_mult_less_eq mult.commute mult_le_mono less_imp_le le_refl)
    then have "\<bar>int b * int g - int a\<bar> \<le> \<bar>int b * int c - int a\<bar>"
      unfolding of_nat_mult by linarith
    moreover have "g = 2 ^ k * 2 ^ fraction_bits w"
      using False by (simp add: g_def flip: power_add)
    ultimately show ?thesis using grid [of "2 ^ fraction_bits w"] by simp
  qed
qed

lemma round_units_representable:
  assumes "0 < b"
  shows "2 ^ excess w (round_units w a b) dvd round_units w a b"
proof -
  define k where "k = excess w (a div b)"
  define r where "r = round_half_even a (b * 2 ^ k)"
  have n: "round_units w a b = r * 2 ^ k" by (simp add: round_units_def Let_def k_def r_def)
  have "a div b < 2 ^ (k + Suc (fraction_bits w))" unfolding excess_le_iff [symmetric] k_def by simp
  then have "a div (b * 2 ^ k) < 2 ^ Suc (fraction_bits w)"
    by (simp add: div_mult2_eq less_mult_imp_div_less power_add mult.commute mult.left_commute)
  then have "r \<le> 2 ^ Suc (fraction_bits w)"
    using round_half_even_bounds [of a "b * 2 ^ k"] by (simp add: r_def)
  then consider "r < 2 ^ Suc (fraction_bits w)" | "r = 2 ^ Suc (fraction_bits w)" by linarith
  then show ?thesis
  proof cases
    case 1
    then have "r * 2 ^ k < 2 ^ (k + Suc (fraction_bits w))" by (simp add: power_add mult.commute)
    then have "excess w (r * 2 ^ k) \<le> k" by (simp only: excess_le_iff)
    then show ?thesis by (simp add: n dvd_mult le_imp_power_dvd)
  next
    case 2
    then have power: "r * 2 ^ k = 2 ^ (k + Suc (fraction_bits w))" by (simp add: power_add)
    then have "excess w (r * 2 ^ k) \<le> Suc k" by (simp add: excess_le_iff)
    then have "2 ^ excess w (r * 2 ^ k) dvd (2 :: nat) ^ Suc k" by (rule le_imp_power_dvd)
    also have "(2 :: nat) ^ Suc k dvd r * 2 ^ k" unfolding power by (rule le_imp_power_dvd) simp
    finally show ?thesis by (simp only: n)
  qed
qed

lemma rounded_ok: "0 < b \<Longrightarrow> floating_ok w (rounded w s a b)"
  by (simp add: rounded_def Let_def representable_def round_units_representable)

text \<open>A number of the format is its own rounding.\<close>

lemma round_units_exact:
  assumes "0 < b" "2 ^ excess w n dvd n"
  shows "round_units w (b * n) b = n"
proof -
  have "\<bar>int b * int (round_units w (b * n) b) - int (b * n)\<bar> \<le> 0"
    using round_units_nearest [OF assms, of "b * n"] by simp
  with assms(1) show ?thesis by simp
qed

lemma rounded_exact: "0 < b \<Longrightarrow> representable w n \<Longrightarrow> rounded w s (b * n) b = Finite s n"
  by (simp add: rounded_def representable_def round_units_exact)

section \<open>Values\<close>

text \<open>The real number that a finite one stands for.\<close>

fun real_value :: "nat \<Rightarrow> floating \<Rightarrow> real" where
  "real_value w (Finite s n) = of_int (signed_units s n) / 2 ^ unit_shift w"
| "real_value w x = 0"

fun finite_floating :: "floating \<Rightarrow> bool" where
  "finite_floating (Finite s n) \<longleftrightarrow> True"
| "finite_floating x \<longleftrightarrow> False"

text \<open>
  A number is a correct rounding of a real number if it belongs to the format and no finite number of the format
  is nearer.
\<close>

definition nearest :: "nat \<Rightarrow> real \<Rightarrow> floating \<Rightarrow> bool" where
  "nearest w x y \<longleftrightarrow> floating_ok w y \<and> finite_floating y \<and>
     (\<forall>z. floating_ok w z \<and> finite_floating z \<longrightarrow> \<bar>real_value w y - x\<bar> \<le> \<bar>real_value w z - x\<bar>)"

definition largest :: "nat \<Rightarrow> nat" where
  "largest w = 2 ^ limit_shift w - 2 ^ (limit_shift w - Suc (fraction_bits w))"

definition signed_real :: "bool \<Rightarrow> real \<Rightarrow> real" where
  "signed_real s x = (if s then - x else x)"

lemma signed_real_abs [simp]: "\<bar>signed_real s x\<bar> = \<bar>x\<bar>" "signed_real s x - signed_real s y = signed_real s (x - y)"
  by (simp_all add: signed_real_def)

lemma real_value_Finite: "real_value w (Finite s n) = signed_real s (real n) / 2 ^ unit_shift w"
  by (simp add: signed_units_def signed_real_def)

lemma largest_representable:
  assumes "format w"
  shows "representable w (largest w)"
proof -
  have L: "limit_shift w = (limit_shift w - Suc (fraction_bits w)) + Suc (fraction_bits w)"
    using assms by (auto simp: format_def)
  have "(2 :: nat) ^ limit_shift w = 2 ^ Suc (fraction_bits w) * 2 ^ (limit_shift w - Suc (fraction_bits w))"
    by (subst L) (simp only: power_add mult.commute)
  then have l: "largest w = (2 ^ Suc (fraction_bits w) - 1) * 2 ^ (limit_shift w - Suc (fraction_bits w))"
    by (simp only: largest_def diff_mult_distrib mult_1)
  have less: "largest w < 2 ^ limit_shift w" by (simp add: largest_def)
  then have "excess w (largest w) \<le> limit_shift w - Suc (fraction_bits w)"
    using L by (simp add: excess_le_iff)
  then have "2 ^ excess w (largest w) dvd largest w" unfolding l by (intro dvd_mult le_imp_power_dvd)
  with less show ?thesis by (simp add: representable_def limit_def)
qed

lemma round_units_nearest_real:
  assumes "0 < b" "2 ^ excess w c dvd c"
  shows "\<bar>real (round_units w a b) - real a / real b\<bar> \<le> \<bar>real c - real a / real b\<bar>"
proof -
  have scale: "\<bar>real n - real a / real b\<bar> = real_of_int \<bar>int b * int n - int a\<bar> / real b" for n
  proof -
    have "real n - real a / real b = (real b * real n - real a) / real b" using assms(1) by (simp add: field_simps)
    then show ?thesis by (simp add: abs_divide)
  qed
  have "real_of_int \<bar>int b * int (round_units w a b) - int a\<bar> \<le> real_of_int \<bar>int b * int c - int a\<bar>"
    using round_units_nearest [OF assms] by (simp only: of_int_le_iff)
  then show ?thesis unfolding scale by (intro divide_right_mono) simp_all
qed

lemma zero_representable [simp]: "representable w 0"
  by (simp add: representable_def limit_def)

lemma rounded_nearest:
  assumes "format w" "0 < b" "real a / real b \<le> real (largest w)"
  shows "nearest w (signed_real s (real a / real b) / 2 ^ unit_shift w) (rounded w s a b)"
proof -
  define n x where "n = round_units w a b" and "x = real a / real b"
  have near: "\<bar>real n - x\<bar> \<le> \<bar>real c - x\<bar>" if "representable w c" for c
    using round_units_nearest_real [OF assms(2), of w c a] that by (simp add: representable_def n_def x_def)
  have "0 \<le> x" by (simp add: x_def)
  have "real n \<le> real (largest w)"
    using near [OF largest_representable [OF assms(1)]] assms(3) by (simp add: x_def)
  then have "n < limit w"
    using largest_representable [OF assms(1)] by (simp add: representable_def)
  then have result: "rounded w s a b = Finite s n" by (simp add: rounded_def n_def)
  have "\<bar>real_value w (rounded w s a b) - signed_real s x / 2 ^ unit_shift w\<bar> \<le>
      \<bar>real_value w (Finite t c) - signed_real s x / 2 ^ unit_shift w\<bar>" if "representable w c" for t c
  proof -
    have "\<bar>signed_real s (real n) - signed_real s x\<bar> \<le> \<bar>signed_real t (real c) - signed_real s x\<bar>"
      using near [OF that] near [of 0] \<open>0 \<le> x\<close> by (auto simp: signed_real_def)
    then show ?thesis
      unfolding result real_value_Finite
      by (simp add: divide_right_mono abs_divide flip: diff_divide_distrib)
  qed
  moreover have "floating_ok w (rounded w s a b)" using assms(2) by (rule rounded_ok)
  ultimately show ?thesis
    by (auto simp: nearest_def result x_def elim!: finite_floating.elims)
qed

section \<open>The arithmetic rounds correctly\<close>

definition largest_value :: "nat \<Rightarrow> real" where
  "largest_value w = real (largest w) / 2 ^ unit_shift w"

lemma rounded_nearest_value:
  assumes "format w" "0 < b" "x = signed_real s (real a / real b) / 2 ^ unit_shift w" "\<bar>x\<bar> \<le> largest_value w"
  shows "nearest w x (rounded w s a b)"
proof -
  have "real a / real b \<le> real (largest w)"
    using assms(4) divide_le_cancel [of "real a / real b" "2 ^ unit_shift w" "real (largest w)"]
    by (simp only: assms(3) largest_value_def abs_divide signed_real_abs) simp
  then show ?thesis unfolding assms(3) by (rule rounded_nearest [OF assms(1,2)])
qed

lemma signed_units_real: "real_of_int (signed_units s n) = signed_real s (real n)"
  by (simp add: signed_units_def signed_real_def)

lemma floating_add_nearest:
  assumes "format w" "finite_floating x" "finite_floating y" "\<bar>real_value w x + real_value w y\<bar> \<le> largest_value w"
  shows "nearest w (real_value w x + real_value w y) (floating_add w x y)"
proof -
  obtain s a t b where xy: "x = Finite s a" "y = Finite t b"
    using assms(2,3) by (auto elim!: finite_floating.elims)
  define i where "i = signed_units s a + signed_units t b"
  have sum: "real_value w x + real_value w y = of_int i / 2 ^ unit_shift w"
    by (simp add: xy i_def add_divide_distrib)
  show ?thesis
  proof (cases "i = 0")
    case True
    then have "floating_add w x y = Finite (s \<and> t) 0" by (simp add: xy flip: i_def)
    with True show ?thesis unfolding sum by (simp add: nearest_def signed_units_def)
  next
    case False
    have "nearest w (real_value w x + real_value w y) (rounded w (i < 0) (nat \<bar>i\<bar>) 1)"
      by (rule rounded_nearest_value) (use assms(1,4) in \<open>simp_all add: sum signed_real_def\<close>)
    with False show ?thesis by (simp add: xy flip: i_def)
  qed
qed

lemma floating_neg_simps [simp]:
  "finite_floating (floating_neg x) = finite_floating x" "real_value w (floating_neg x) = - real_value w x"
  "floating_ok w (floating_neg x) = floating_ok w x"
  by (cases x; simp add: signed_units_def)+

lemma floating_sub_nearest:
  assumes "format w" "finite_floating x" "finite_floating y" "\<bar>real_value w x - real_value w y\<bar> \<le> largest_value w"
  shows "nearest w (real_value w x - real_value w y) (floating_sub w x y)"
  using floating_add_nearest [of w x "floating_neg y"] assms by (simp add: floating_sub_def)

lemma floating_mul_nearest:
  assumes "format w" "finite_floating x" "finite_floating y" "\<bar>real_value w x * real_value w y\<bar> \<le> largest_value w"
  shows "nearest w (real_value w x * real_value w y) (floating_mul w x y)"
proof -
  obtain s a t b where xy: "x = Finite s a" "y = Finite t b"
    using assms(2,3) by (auto elim!: finite_floating.elims)
  have "nearest w (real_value w x * real_value w y) (rounded w (s \<noteq> t) (a * b) (2 ^ unit_shift w))"
    by (rule rounded_nearest_value) (use assms(1,4) in \<open>auto simp: xy signed_units_real signed_real_def\<close>)
  then show ?thesis by (simp add: xy)
qed

lemma floating_div_nearest:
  assumes "format w" "finite_floating x" "finite_floating y" "real_value w y \<noteq> 0"
    "\<bar>real_value w x / real_value w y\<bar> \<le> largest_value w"
  shows "nearest w (real_value w x / real_value w y) (floating_div w x y)"
proof -
  obtain s a t b where xy: "x = Finite s a" "y = Finite t b"
    using assms(2,3) by (auto elim!: finite_floating.elims)
  have "b \<noteq> 0" using assms(4) by (cases "b = 0") (simp_all add: xy signed_units_def split: if_splits)
  have "nearest w (real_value w x / real_value w y) (rounded w (s \<noteq> t) (a * 2 ^ unit_shift w) b)"
    by (rule rounded_nearest_value)
      (use assms(1,5) \<open>b \<noteq> 0\<close> in \<open>auto simp: xy signed_units_real signed_real_def\<close>)
  with \<open>b \<noteq> 0\<close> show ?thesis by (simp add: xy)
qed

lemma floating_convert_nearest:
  assumes "format w" "finite_floating x" "\<bar>real_value v x\<bar> \<le> largest_value w"
  shows "nearest w (real_value v x) (floating_convert v w x)"
proof -
  obtain s a where x: "x = Finite s a" using assms(2) by (auto elim!: finite_floating.elims)
  have "nearest w (real_value v x) (rounded w s (a * 2 ^ unit_shift w) (2 ^ unit_shift v))"
    by (rule rounded_nearest_value) (use assms(1,3) in \<open>auto simp: x signed_units_real signed_real_def\<close>)
  then show ?thesis by (simp add: x)
qed

lemma floating_of_int_nearest:
  assumes "format w" "\<bar>of_int i\<bar> \<le> largest_value w"
  shows "nearest w (of_int i) (floating_of_int w i)"
  unfolding floating_of_int_def
  by (rule rounded_nearest_value) (use assms in \<open>auto simp: signed_real_def\<close>)

section \<open>Exact conversions\<close>

lemma nearest_exact: "nearest w x y \<Longrightarrow> floating_ok w z \<Longrightarrow> finite_floating z \<Longrightarrow> real_value w z = x \<Longrightarrow> real_value w y = x"
  by (auto simp: nearest_def)

lemma floating_convert_id:
  assumes "floating_ok w x"
  shows "floating_convert w w x = x"
proof (cases x)
  case (Finite s n)
  with assms rounded_exact [of "2 ^ unit_shift w" w n s] show ?thesis by (simp add: mult.commute)
qed simp_all

lemma representable_widen:
  assumes "representable 32 n"
  shows "representable 64 (n * 2 ^ 925)"
proof -
  have n: "n < 2 ^ 277" "2 ^ excess 32 n dvd n" using assms by (simp_all add: representable_def limit_def)
  have "n < 2 ^ (excess 32 n + 24)" using excess_le_iff [of 32 n "excess 32 n"] by simp
  then have "n * 2 ^ 925 < 2 ^ (excess 32 n + 24) * 2 ^ 925" by (rule mult_strict_right_mono) simp
  also have "(2 :: nat) ^ (excess 32 n + 24) * 2 ^ 925 \<le> 2 ^ (excess 32 n + 925 + Suc (fraction_bits 64))"
    unfolding power_add [symmetric] by (rule power_increasing) simp_all
  finally have "excess 64 (n * 2 ^ 925) \<le> excess 32 n + 925" by (simp only: excess_le_iff)
  then have "(2 :: nat) ^ excess 64 (n * 2 ^ 925) dvd 2 ^ (excess 32 n + 925)" by (rule le_imp_power_dvd)
  also have "\<dots> dvd n * 2 ^ 925" using n(2) unfolding power_add by (rule mult_dvd_mono) simp
  finally have "(2 :: nat) ^ excess 64 (n * 2 ^ 925) dvd n * 2 ^ 925" .
  moreover have "n * 2 ^ 925 < 2 ^ 277 * 2 ^ 925" using n(1) by (rule mult_strict_right_mono) simp
  then have "n * 2 ^ 925 < 2 ^ (277 + 925)" by (simp only: power_add)
  then have "n * 2 ^ 925 < limit 64"
    unfolding limit_def by (rule order_less_le_trans) (rule power_increasing; simp)
  ultimately show ?thesis unfolding representable_def by blast
qed

text \<open>Going to a format that is not smaller keeps the value.\<close>

lemma floating_convert_up:
  assumes "format v" "format w" "v \<le> w" "floating_ok v x"
  shows "floating_ok w (floating_convert v w x) \<and> finite_floating (floating_convert v w x) = finite_floating x \<and>
    real_value w (floating_convert v w x) = real_value v x"
proof (cases "v = w")
  case False
  then have vw: "v = 32" "w = 64" using assms(1-3) by (auto simp: format_def)
  show ?thesis
  proof (cases x)
    case (Finite s n)
    have "n * 2 ^ 1074 = 2 ^ 149 * (n * 2 ^ 925)" by (simp add: mult.commute mult.left_commute flip: power_add)
    moreover have "rounded 64 s (2 ^ 149 * (n * 2 ^ 925)) (2 ^ 149) = Finite s (n * 2 ^ 925)"
      using assms(4) by (intro rounded_exact representable_widen) (simp_all add: Finite vw)
    ultimately have "floating_convert v w x = Finite s (n * 2 ^ 925)"
      by (simp only: Finite vw floating_convert.simps format_numbers)
    moreover have "signed_real s (real n * 2 ^ 925) / 2 ^ 1074 = signed_real s (real n) / 2 ^ 149"
      by (simp add: signed_real_def field_simps flip: power_add)
    ultimately show ?thesis
      using assms(4) representable_widen [of n] by (simp add: Finite vw signed_units_real)
  qed (simp_all add: vw)
next
  case True
  with assms(4) show ?thesis by (simp add: floating_convert_id)
qed

text \<open>So do integers with at most as many bits as the fraction and the hidden bit.\<close>

lemma integer_representable:
  assumes "format w" "m \<le> 2 ^ Suc (fraction_bits w)"
  shows "representable w (m * 2 ^ unit_shift w)"
proof -
  define q where "q = unit_shift w"
  have "Suc q + Suc (fraction_bits w) \<le> limit_shift w" using assms(1) by (auto simp: format_def q_def)
  then have limit: "(2 :: nat) ^ (Suc q + Suc (fraction_bits w)) \<le> limit w"
    unfolding limit_def by (rule power_increasing) simp
  consider "m < 2 ^ Suc (fraction_bits w)" | "m = 2 ^ Suc (fraction_bits w)" using assms(2) by linarith
  then show ?thesis
  proof cases
    case 1
    then have "m * 2 ^ q < 2 ^ Suc (fraction_bits w) * 2 ^ q" by (rule mult_strict_right_mono) simp
    then have less: "m * 2 ^ q < 2 ^ (q + Suc (fraction_bits w))" by (simp only: power_add mult.commute)
    then have "2 ^ excess w (m * 2 ^ q) dvd m * 2 ^ q"
      unfolding excess_le_iff [symmetric] by (intro dvd_mult le_imp_power_dvd)
    moreover have "m * 2 ^ q < limit w" by (rule order_less_le_trans [OF order_less_trans [OF less] limit]) simp
    ultimately show ?thesis by (simp add: representable_def q_def)
  next
    case 2
    then have m: "m * 2 ^ q = 2 ^ (q + Suc (fraction_bits w))" by (simp only: power_add mult.commute)
    then have "excess w (m * 2 ^ q) \<le> Suc q" unfolding excess_le_iff by simp
    then have "2 ^ excess w (m * 2 ^ q) dvd (2 :: nat) ^ Suc q" by (rule le_imp_power_dvd)
    also have "(2 :: nat) ^ Suc q dvd m * 2 ^ q" unfolding m by (rule le_imp_power_dvd) simp
    finally have "2 ^ excess w (m * 2 ^ q) dvd m * 2 ^ q" .
    moreover have "m * 2 ^ q < limit w" unfolding m by (rule order_less_le_trans [OF _ limit]) simp
    ultimately show ?thesis by (simp add: representable_def q_def)
  qed
qed

lemma floating_of_int_exact:
  assumes "format w" "\<bar>i\<bar> \<le> 2 ^ Suc (fraction_bits w)"
  shows "floating_ok w (floating_of_int w i) \<and> finite_floating (floating_of_int w i) \<and>
    real_value w (floating_of_int w i) = of_int i"
proof -
  have "nat \<bar>i\<bar> \<le> 2 ^ Suc (fraction_bits w)" using assms(2) by (simp add: nat_le_iff)
  then have r: "representable w (nat \<bar>i\<bar> * 2 ^ unit_shift w)" by (rule integer_representable [OF assms(1)])
  then have "floating_of_int w i = Finite (i < 0) (nat \<bar>i\<bar> * 2 ^ unit_shift w)"
    using rounded_exact [of 1, OF _ r] by (simp add: floating_of_int_def)
  with r show ?thesis by (simp add: signed_units_real signed_real_def)
qed

section \<open>Comparisons\<close>

lemma floating_compare_values:
  assumes "finite_floating x" "finite_floating y"
  shows "floating_less x y \<longleftrightarrow> real_value w x < real_value w y"
    "floating_equal x y \<longleftrightarrow> real_value w x = real_value w y"
  using assms by (cases x; cases y; simp add: divide_less_cancel)+

section \<open>Bit patterns of numbers\<close>

lemma magnitude_of_sum: "m < 2 ^ j \<Longrightarrow> (of_bool s * 2 ^ j + m) mod 2 ^ j = m \<and> (2 ^ j \<le> of_bool s * 2 ^ j + m \<longleftrightarrow> s)" for m :: nat
  by (cases s) simp_all

lemma excess_bounds:
  assumes "0 < excess w n"
  shows "2 ^ fraction_bits w \<le> n div 2 ^ excess w n" "n div 2 ^ excess w n < 2 ^ Suc (fraction_bits w)"
proof -
  have "\<not> excess w n \<le> excess w n - 1" using assms by simp
  then have "2 ^ (excess w n + fraction_bits w) \<le> n" unfolding excess_le_iff using assms by simp
  then show "2 ^ fraction_bits w \<le> n div 2 ^ excess w n" 
    by (simp add: less_eq_div_iff_mult_less_eq power_add mult.commute)
next
  have "n < 2 ^ (excess w n + Suc (fraction_bits w))" unfolding excess_le_iff [symmetric] ..
  then show "n div 2 ^ excess w n < 2 ^ Suc (fraction_bits w)"
    by (simp add: less_mult_imp_div_less power_add mult.commute mult.left_commute)
qed

text \<open>Writing the bits of a number and reading them gives the number.\<close>

lemma floating_of_bits_of:
  assumes "format w" "floating_ok w x" "x \<noteq> Not_A_Number"
  shows "floating_of_bits w (bits_of_floating w nan x) = x"
proof -
  define p where "p = fraction_bits w"
  have w: "w - Suc 0 = exponent_bits w + p" using assms(1) by (auto simp: format_def p_def)
  show ?thesis
  proof (cases x)
    case (Infinite s)
    have "((2 :: nat) ^ exponent_bits w - 1) * 2 ^ p < 2 ^ (exponent_bits w + p)"
      by (simp add: power_add)
    from magnitude_of_sum [OF this, of s] show ?thesis
      by (simp add: Infinite floating_of_bits_def w Let_def flip: p_def)
  next
    case (Finite s n)
    define k m where "k = excess w n" and "m = n div 2 ^ k"
    have n: "n = m * 2 ^ k" "n < 2 ^ limit_shift w"
      using assms(2) by (simp_all add: Finite representable_def limit_def k_def m_def)
    have "k + p < limit_shift w \<or> k = 0"
    proof (rule disjCI)
      assume "k \<noteq> 0"
      then have "2 ^ p \<le> m" using excess_bounds(1) [of w n] by (simp add: p_def m_def k_def)
      then have "2 ^ (k + p) \<le> n" by (simp add: n(1) power_add mult.commute)
      with n(2) have "(2 :: nat) ^ (k + p) < 2 ^ limit_shift w" by linarith
      then show "k + p < limit_shift w" by simp
    qed
    moreover have "limit_shift w = 2 ^ exponent_bits w - 2 + p" "4 \<le> (2 :: nat) ^ exponent_bits w"
      using assms(1) by (auto simp: format_def p_def)
    ultimately have k: "k + 3 \<le> 2 ^ exponent_bits w" by auto
    have m: "m < 2 ^ Suc p" "0 < k \<Longrightarrow> 2 ^ p \<le> m"
      using excess_bounds [of w n] excess_le_iff [of w n 0] by (cases "k = 0"; simp add: p_def m_def k_def)+
    have "k * 2 ^ p + m < (k + 2) * 2 ^ p" using m(1) by simp
    also have "\<dots> \<le> 2 ^ exponent_bits w * 2 ^ p" using k by (intro mult_right_mono) simp_all
    finally have magnitude: "k * 2 ^ p + m < 2 ^ (exponent_bits w + p)" by (simp add: power_add)
    have read: "floating_of_bits w (bits_of_floating w nan x) =
        (let e = (k * 2 ^ p + m) div 2 ^ p; f = (k * 2 ^ p + m) mod 2 ^ p
         in if e = 2 ^ exponent_bits w - 1 then (if f = 0 then Infinite s else Not_A_Number)
            else if e = 0 then Finite s f else Finite s ((2 ^ p + f) * 2 ^ (e - 1)))"
      using magnitude_of_sum [OF magnitude, of s]
      by (simp add: Finite floating_of_bits_def w add.assoc Let_def flip: p_def k_def m_def)
    show ?thesis
    proof (cases "m < 2 ^ p")
      case True
      then have "k = 0" using m(2) by (cases "k = 0") auto
      then have "n = m" using n(1) by simp
      with True \<open>k = 0\<close> k show ?thesis unfolding read Let_def by (simp add: Finite)
    next
      case False
      then obtain f where f: "m = 2 ^ p + f" "f < 2 ^ p" using m(1) by (auto simp: not_less le_iff_add)
      have "k * 2 ^ p + m = f + (k + 1) * 2 ^ p" by (simp add: f(1))
      then have parts: "(k * 2 ^ p + m) div 2 ^ p = k + 1" "(k * 2 ^ p + m) mod 2 ^ p = f"
        using f(2) by simp_all
      have "k + 1 \<noteq> 2 ^ exponent_bits w - 1" using k by linarith
      then show ?thesis unfolding read parts Let_def by (simp add: Finite n(1) f(1))
    qed
  qed (use assms(3) in simp)
qed

lemma small_representable:
  assumes "format w" "m < 2 ^ Suc (fraction_bits w)" "k + Suc (fraction_bits w) \<le> limit_shift w"
  shows "representable w (m * 2 ^ k)"
proof -
  have "m * 2 ^ k < 2 ^ Suc (fraction_bits w) * 2 ^ k" using assms(2) by (rule mult_strict_right_mono) simp
  then have less: "m * 2 ^ k < 2 ^ (k + Suc (fraction_bits w))" by (simp only: power_add mult.commute)
  then have "2 ^ excess w (m * 2 ^ k) dvd m * 2 ^ k"
    unfolding excess_le_iff [symmetric] by (intro dvd_mult le_imp_power_dvd)
  moreover have "(2 :: nat) ^ (k + Suc (fraction_bits w)) \<le> limit w"
    unfolding limit_def using assms(3) by (rule power_increasing) simp
  ultimately show ?thesis using less unfolding representable_def by linarith
qed

text \<open>Every bit pattern that is read is a number of the format.\<close>

lemma floating_of_bits_ok:
  assumes "format w"
  shows "floating_ok w (floating_of_bits w bits)"
proof -
  define e f where "e = bits mod 2 ^ (w - 1) div 2 ^ fraction_bits w" and "f = bits mod 2 ^ (w - 1) mod 2 ^ fraction_bits w"
  have w: "(2 :: nat) ^ (w - 1) = 2 ^ exponent_bits w * 2 ^ fraction_bits w"
    "limit_shift w = 2 ^ exponent_bits w - 2 + fraction_bits w" "4 \<le> (2 :: nat) ^ exponent_bits w"
    using assms by (auto simp: format_def simp flip: power_add)
  have "e < 2 ^ exponent_bits w" unfolding e_def w(1) by (rule less_mult_imp_div_less) simp
  have f: "f < 2 ^ fraction_bits w" by (simp add: f_def)
  have "representable w (f * 2 ^ 0)" using f w(3) by (intro small_representable [OF assms]) (simp_all add: w(2))
  moreover have "representable w ((2 ^ fraction_bits w + f) * 2 ^ (e - 1))" if "e \<noteq> 2 ^ exponent_bits w - 1"
    using f that \<open>e < 2 ^ exponent_bits w\<close> w(3) by (intro small_representable [OF assms]) (simp_all add: w(2))
  ultimately show ?thesis
    unfolding floating_of_bits_def Let_def e_def [symmetric] f_def [symmetric] by simp
qed

end
