(* ===== verification/Column_Floats.thy ===== *)
theory Column_Floats
  imports Floating_Point Column_Integers
begin

text \<open>
  The columns \<^verbatim>\<open>Float\<close> and \<^verbatim>\<open>Double\<close>: the operators of \<^verbatim>\<open>FloatingPointOperations.hpp\<close> with
  the conversions of C++ between their operands, and \<^verbatim>\<open>approximatelyEquals\<close>.
\<close>

section \<open>Columns and operands\<close>

text \<open>A column has the width of its type and its number; the bytes are those of \<open>float_type\<close>.\<close>

record float_column =
  fc_width :: nat
  fc_value :: floating

definition float_column_ok :: "float_column \<Rightarrow> bool" where
  "float_column_ok c \<longleftrightarrow> format (fc_width c) \<and> floating_ok (fc_width c) (fc_value c)"

definition column_of_bits :: "'l::len word \<Rightarrow> float_column" where
  "column_of_bits v = \<lparr>fc_width = LENGTH('l), fc_value = floating_of_bits LENGTH('l) (unat v)\<rparr>"

text \<open>An operand of the language: a floating point number, or an integer with its signedness, width and value.\<close>

datatype operand = Floating nat floating | Integer bool nat int

text \<open>
  The type two operands are converted to is the larger of their floating point types; an integer has none.
\<close>

fun operand_width :: "operand \<Rightarrow> nat" where
  "operand_width (Floating w x) = w"
| "operand_width (Integer sg w i) = 0"

definition common_format :: "operand \<Rightarrow> operand \<Rightarrow> nat" where
  "common_format a b = max (operand_width a) (operand_width b)"

fun as_format :: "nat \<Rightarrow> operand \<Rightarrow> floating" where
  "as_format w (Floating v x) = floating_convert v w x"
| "as_format w (Integer sg v i) = floating_of_int w i"

datatype float_operator = fl_add | fl_sub | fl_mul | fl_div

fun float_operation :: "float_operator \<Rightarrow> nat \<Rightarrow> floating \<Rightarrow> floating \<Rightarrow> floating" where
  "float_operation fl_add w x y = floating_add w x y"
| "float_operation fl_sub w x y = floating_sub w x y"
| "float_operation fl_mul w x y = floating_mul w x y"
| "float_operation fl_div w x y = floating_div w x y"

text \<open>The operator of the language, with its result in the common type.\<close>

definition language_binary :: "float_operator \<Rightarrow> operand \<Rightarrow> operand \<Rightarrow> floating" where
  "language_binary op a b =
     (let w = common_format a b in float_operation op w (as_format w a) (as_format w b))"

fun floating_compare :: "compare_operator \<Rightarrow> floating \<Rightarrow> floating \<Rightarrow> bool" where
  "floating_compare op_eq x y \<longleftrightarrow> floating_equal x y"
| "floating_compare op_ne x y \<longleftrightarrow> \<not> floating_equal x y"
| "floating_compare op_gt x y \<longleftrightarrow> floating_less y x"
| "floating_compare op_lt x y \<longleftrightarrow> floating_less x y"
| "floating_compare op_ge x y \<longleftrightarrow> floating_less y x \<or> floating_equal x y"
| "floating_compare op_le x y \<longleftrightarrow> floating_less x y \<or> floating_equal x y"

definition language_compare :: "compare_operator \<Rightarrow> operand \<Rightarrow> operand \<Rightarrow> bool" where
  "language_compare op a b =
     (let w = common_format a b in floating_compare op (as_format w a) (as_format w b))"

section \<open>Operators of columns\<close>

definition fc_get :: "float_column \<Rightarrow> operand" where
  "fc_get c = Floating (fc_width c) (fc_value c)"

definition integer_get :: "'i::len word \<Rightarrow> operand" where
  "integer_get i = Integer True LENGTH('i) (sint i)"

text \<open>Constructing a column converts the number to its type.\<close>

definition fc_of :: "nat \<Rightarrow> nat \<Rightarrow> floating \<Rightarrow> float_column" where
  "fc_of v w x = \<lparr>fc_width = w, fc_value = floating_convert v w x\<rparr>"

text \<open>
  The five forms: two columns, a column and an integer column, an integer column and a column, a column and a number,
  a number and a column. The result has the type of the larger column, or of the only one.
\<close>

definition float_float :: "float_operator \<Rightarrow> float_column \<Rightarrow> float_column \<Rightarrow> float_column" where
  "float_float op a b =
     fc_of (common_format (fc_get a) (fc_get b)) (if fc_width a \<ge> fc_width b then fc_width a else fc_width b)
       (language_binary op (fc_get a) (fc_get b))"

definition float_integer :: "float_operator \<Rightarrow> float_column \<Rightarrow> 'i::len word \<Rightarrow> float_column" where
  "float_integer op a b =
     fc_of (common_format (fc_get a) (integer_get b)) (fc_width a) (language_binary op (fc_get a) (integer_get b))"

definition integer_float :: "float_operator \<Rightarrow> 'i::len word \<Rightarrow> float_column \<Rightarrow> float_column" where
  "integer_float op a b =
     fc_of (common_format (integer_get a) (fc_get b)) (fc_width b) (language_binary op (integer_get a) (fc_get b))"

definition float_number :: "float_operator \<Rightarrow> float_column \<Rightarrow> operand \<Rightarrow> float_column" where
  "float_number op a b = fc_of (common_format (fc_get a) b) (fc_width a) (language_binary op (fc_get a) b)"

definition number_float :: "float_operator \<Rightarrow> operand \<Rightarrow> float_column \<Rightarrow> float_column" where
  "number_float op a b = fc_of (common_format a (fc_get b)) (fc_width b) (language_binary op a (fc_get b))"

fun float_unary :: "unary_operator \<Rightarrow> float_column \<Rightarrow> float_column" where
  "float_unary op_neg a = a\<lparr>fc_value := floating_neg (fc_value a)\<rparr>"
| "float_unary op a = a"

definition compare_float_float :: "compare_operator \<Rightarrow> float_column \<Rightarrow> float_column \<Rightarrow> bool" where
  "compare_float_float op a b = language_compare op (fc_get a) (fc_get b)"

definition compare_integer_float :: "compare_operator \<Rightarrow> 'i::len word \<Rightarrow> float_column \<Rightarrow> bool" where
  "compare_integer_float op a b = language_compare op (integer_get a) (fc_get b)"

definition compare_float_integer :: "compare_operator \<Rightarrow> float_column \<Rightarrow> 'i::len word \<Rightarrow> bool" where
  "compare_float_integer op a b = language_compare op (fc_get a) (integer_get b)"

definition compare_float_number :: "compare_operator \<Rightarrow> float_column \<Rightarrow> operand \<Rightarrow> bool" where
  "compare_float_number op a b = language_compare op (fc_get a) b"

definition compare_number_float :: "compare_operator \<Rightarrow> operand \<Rightarrow> float_column \<Rightarrow> bool" where
  "compare_number_float op a b = language_compare op a (fc_get b)"

text \<open>
  A compound assignment converts the result to the type of the variable. A variable of an integer type truncates it;
  a number that the type cannot hold is undefined behaviour.
\<close>

definition assign_float_float :: "float_operator \<Rightarrow> float_column \<Rightarrow> float_column \<Rightarrow> float_column" where
  "assign_float_float op a b =
     a\<lparr>fc_value := floating_convert (common_format (fc_get a) (fc_get b)) (fc_width a)
        (language_binary op (fc_get a) (fc_get b))\<rparr>"

definition assign_float_integer :: "float_operator \<Rightarrow> float_column \<Rightarrow> 'i::len word \<Rightarrow> float_column" where
  "assign_float_integer op a b =
     a\<lparr>fc_value := floating_convert (common_format (fc_get a) (integer_get b)) (fc_width a)
        (language_binary op (fc_get a) (integer_get b))\<rparr>"

definition assign_float_number :: "float_operator \<Rightarrow> float_column \<Rightarrow> operand \<Rightarrow> float_column" where
  "assign_float_number op a b =
     a\<lparr>fc_value := floating_convert (common_format (fc_get a) b) (fc_width a) (language_binary op (fc_get a) b)\<rparr>"

definition in_type :: "bool \<Rightarrow> nat \<Rightarrow> int \<Rightarrow> bool" where
  "in_type sg w i \<longleftrightarrow> (if sg then fits w i else 0 \<le> i \<and> i < 2 ^ w)"

fun assign_number_float :: "float_operator \<Rightarrow> operand \<Rightarrow> float_column \<Rightarrow> operand result" where
  "assign_number_float op (Floating w x) b =
     Inr (Floating w (floating_convert (common_format (Floating w x) (fc_get b)) w
       (language_binary op (Floating w x) (fc_get b))))"
| "assign_number_float op (Integer sg w i) b =
     (case floating_truncate (common_format (Integer sg w i) (fc_get b))
         (language_binary op (Integer sg w i) (fc_get b)) of
        None \<Rightarrow> Inl UndefinedBehaviour
      | Some t \<Rightarrow> if in_type sg w t then Inr (Integer sg w t) else Inl UndefinedBehaviour)"

section \<open>Approximate comparison\<close>

fun is_nan :: "floating \<Rightarrow> bool" where
  "is_nan Not_A_Number \<longleftrightarrow> True"
| "is_nan x \<longleftrightarrow> False"

definition float_epsilon :: "nat \<Rightarrow> floating" where
  "float_epsilon w = Finite False (2 ^ (unit_shift w - fraction_bits w))"

definition approximatelyEquals :: "float_column \<Rightarrow> floating \<Rightarrow> floating \<Rightarrow> bool" where
  "approximatelyEquals c other epsilon =
     (if is_nan (fc_value c) \<or> is_nan other then False
      else floating_less (floating_abs (floating_sub (fc_width c) (fc_value c) other)) epsilon)"

section \<open>Arithmetic\<close>

fun operand_value :: "operand \<Rightarrow> real" where
  "operand_value (Floating w x) = real_value w x"
| "operand_value (Integer sg w i) = of_int i"

text \<open>The operands that are converted to a format without losing anything.\<close>

fun operand_fits :: "nat \<Rightarrow> operand \<Rightarrow> bool" where
  "operand_fits w (Floating v x) \<longleftrightarrow> format v \<and> v \<le> w \<and> floating_ok v x \<and> finite_floating x"
| "operand_fits w (Integer sg v i) \<longleftrightarrow> \<bar>i\<bar> \<le> 2 ^ Suc (fraction_bits w)"

fun exact_operation :: "float_operator \<Rightarrow> real \<Rightarrow> real \<Rightarrow> real" where
  "exact_operation fl_add x y = x + y"
| "exact_operation fl_sub x y = x - y"
| "exact_operation fl_mul x y = x * y"
| "exact_operation fl_div x y = x / y"

lemma as_format_exact:
  assumes "format w" "operand_fits w a"
  shows "floating_ok w (as_format w a) \<and> finite_floating (as_format w a) \<and> real_value w (as_format w a) = operand_value a"
proof (cases a)
  case (Floating v x)
  with floating_convert_up [of v w x] assms show ?thesis by simp
next
  case (Integer sg v i)
  with floating_of_int_exact [of w i] assms show ?thesis by simp
qed

lemma float_operation_nearest:
  assumes "format w" "finite_floating x" "finite_floating y" "op = fl_div \<longrightarrow> real_value w y \<noteq> 0"
    "\<bar>exact_operation op (real_value w x) (real_value w y)\<bar> \<le> largest_value w"
  shows "nearest w (exact_operation op (real_value w x) (real_value w y)) (float_operation op w x y)"
  using assms floating_add_nearest [of w x y] floating_sub_nearest [of w x y] floating_mul_nearest [of w x y]
    floating_div_nearest [of w x y]
  by (cases op) simp_all

lemma language_binary_nearest:
  assumes "format w" "common_format a b = w" "operand_fits w a" "operand_fits w b"
    "op = fl_div \<longrightarrow> operand_value b \<noteq> 0" "\<bar>exact_operation op (operand_value a) (operand_value b)\<bar> \<le> largest_value w"
  shows "nearest w (exact_operation op (operand_value a) (operand_value b)) (language_binary op a b)"
  using float_operation_nearest [of w "as_format w a" "as_format w b" op] assms
    as_format_exact [OF assms(1,3)] as_format_exact [OF assms(1,4)]
  by (simp add: language_binary_def Let_def)

lemma nearest_convert: "nearest w x y \<Longrightarrow> floating_convert w w y = y"
  by (rule floating_convert_id) (simp add: nearest_def)

definition finite_column :: "float_column \<Rightarrow> bool" where
  "finite_column c \<longleftrightarrow> float_column_ok c \<and> finite_floating (fc_value c)"

definition column_value :: "float_column \<Rightarrow> real" where
  "column_value c = real_value (fc_width c) (fc_value c)"

lemma operand_value_get [simp]: "operand_value (fc_get c) = column_value c" "operand_value (integer_get i) = of_int (sint i)"
  by (simp_all add: fc_get_def column_value_def integer_get_def)

lemma operand_width_get [simp]: "operand_width (fc_get c) = fc_width c" "operand_width (integer_get i) = 0"
  by (simp_all add: fc_get_def integer_get_def)

lemma operand_fits_get [simp]:
  "finite_column c \<Longrightarrow> fc_width c \<le> w \<Longrightarrow> operand_fits w (fc_get c)"
  "operand_fits w (integer_get i) \<longleftrightarrow> \<bar>sint i\<bar> \<le> 2 ^ Suc (fraction_bits w)"
  by (simp_all add: fc_get_def finite_column_def float_column_ok_def integer_get_def)

lemma max_format: "format v \<Longrightarrow> format w \<Longrightarrow> format (max v w)"
  by (auto simp: format_def)


text \<open>1.5 as a \<^verbatim>\<open>Float\<close> and -0.625 as a \<^verbatim>\<open>Double\<close>.\<close>

definition float_example :: float_column where
  "float_example = \<lparr>fc_width = 32, fc_value = Finite False (3 * 2 ^ 148)\<rparr>"

definition double_example :: float_column where
  "double_example = \<lparr>fc_width = 64, fc_value = Finite True (5 * 2 ^ 1071)\<rparr>"

lemma float_examples:
  "finite_column float_example" "finite_column double_example"
  "column_value float_example = 3 / 2" "column_value double_example = - 5 / 8"
  "fc_width float_example = 32" "fc_width double_example = 64"
  using small_representable [of 32 3 148] small_representable [of 64 5 1071]
  by (simp_all add: finite_column_def float_column_ok_def format_def float_example_def double_example_def
      column_value_def signed_units_def)

lemma large_enough: "1000 \<le> largest_value 32" "1000 \<le> largest_value 64"
  by (simp_all add: largest_value_def largest_def)


section \<open>Comparisons\<close>

fun exact_compare :: "compare_operator \<Rightarrow> real \<Rightarrow> real \<Rightarrow> bool" where
  "exact_compare op_eq x y \<longleftrightarrow> x = y"
| "exact_compare op_ne x y \<longleftrightarrow> x \<noteq> y"
| "exact_compare op_gt x y \<longleftrightarrow> x > y"
| "exact_compare op_lt x y \<longleftrightarrow> x < y"
| "exact_compare op_ge x y \<longleftrightarrow> x \<ge> y"
| "exact_compare op_le x y \<longleftrightarrow> x \<le> y"

lemma finite_column_format: "finite_column c \<Longrightarrow> format (fc_width c)"
  by (simp add: finite_column_def float_column_ok_def)

lemma floating_compare_exact:
  assumes "finite_floating x" "finite_floating y"
  shows "floating_compare op x y = exact_compare op (real_value w x) (real_value w y)"
  by (cases op)
    (simp_all only: floating_compare.simps exact_compare.simps floating_compare_values [OF assms, of w]
      floating_compare_values [OF assms(2,1), of w], linarith+)

lemma language_compare_exact:
  assumes "format w" "common_format a b = w" "operand_fits w a" "operand_fits w b"
  shows "language_compare op a b = exact_compare op (operand_value a) (operand_value b)"
  using as_format_exact [OF assms(1,3)] as_format_exact [OF assms(1,4)]
    floating_compare_exact [of "as_format w a" "as_format w b" op w]
  by (simp add: language_compare_def assms(2))

text \<open>
  Columns are compared by their values, whatever their types are; an integer column is compared by its value if the
  fraction can hold it.
\<close>

lemma float_compare_exact:
  assumes "finite_column a" "finite_column b"
  shows "compare_float_float op a b = exact_compare op (column_value a) (column_value b)"
  using language_compare_exact [of "max (fc_width a) (fc_width b)" "fc_get a" "fc_get b"] assms finite_column_format
  by (simp add: compare_float_float_def common_format_def max_format)

lemma integer_compare_exact:
  assumes "finite_column a" "\<bar>sint i\<bar> \<le> 2 ^ Suc (fraction_bits (fc_width a))"
  shows "compare_float_integer op a i = exact_compare op (column_value a) (of_int (sint i))"
    "compare_integer_float op i a = exact_compare op (of_int (sint i)) (column_value a)"
  using language_compare_exact [of "fc_width a" "fc_get a" "integer_get i"]
    language_compare_exact [of "fc_width a" "integer_get i" "fc_get a"] assms
  by (simp_all add: compare_float_integer_def compare_integer_float_def common_format_def finite_column_def
      float_column_ok_def del: of_int_sint)

text \<open>Beyond that it is rounded first: 16777217 is equal to 16777216 as a \<^verbatim>\<open>Float\<close>.\<close>

lemma integer_rounded_before_comparing:
  "compare_integer_float op_eq (0x1000001 :: u32) \<lparr>fc_width = 32, fc_value = Finite False (2 ^ 173)\<rparr>"
proof -
  have "16777217 * (2 :: nat) ^ 149 div 1 < 2 ^ 174" "\<not> 16777217 * (2 :: nat) ^ 149 div 1 < 2 ^ 173" by simp_all
  then have excess: "excess 32 (16777217 * 2 ^ 149 div 1) = 150"
    using excess_le_iff [of 32 "16777217 * 2 ^ 149 div 1" 150] excess_le_iff [of 32 "16777217 * 2 ^ 149 div 1" 149] by simp
  have "representable 32 (1 * 2 ^ 173)" by (rule small_representable) (simp_all add: format_def)
  moreover have "round_units 32 (16777217 * 2 ^ 149) 1 = 2 ^ 173"
    unfolding round_units_def Let_def excess by (simp add: round_half_even_def)
  ultimately have "floating_of_int 32 16777217 = Finite False (2 ^ 173)" "floating_convert 32 32 (Finite False (2 ^ 173)) = Finite False (2 ^ 173)"
    by (simp_all add: floating_of_int_def rounded_def limit_def floating_convert_id del: floating_convert.simps)
  then show ?thesis
    by (simp add: compare_integer_float_def language_compare_def common_format_def integer_get_def fc_get_def
        del: floating_convert.simps)
qed

text \<open>A NaN is not equal to itself, and neither less nor greater than anything.\<close>

lemma nan_compare:
  assumes "fc_value a = Not_A_Number"
  shows "compare_float_float op a b \<longleftrightarrow> op = op_ne"
  using assms
  by (cases op; cases "floating_convert (fc_width b) (max (fc_width a) (fc_width b)) (fc_value b)")
    (simp_all add: compare_float_float_def language_compare_def common_format_def fc_get_def)

section \<open>Approximate comparison of numbers\<close>

lemma round_units_ge:
  assumes "0 < b" "2 ^ excess w c dvd c" "b * c \<le> a"
  shows "c \<le> round_units w a b"
proof (rule ccontr)
  define n where "n = round_units w a b"
  assume "\<not> c \<le> round_units w a b"
  then have "int (b * n) < int (b * c)" "int (b * c) \<le> int a" using assms(1,3) by (simp_all add: n_def flip: of_nat_mult)
  moreover have "\<bar>int (b * n) - int a\<bar> \<le> \<bar>int (b * c) - int a\<bar>"
    using round_units_nearest [OF assms(1,2), of a] by (simp add: n_def)
  ultimately show False by linarith
qed

lemma round_units_double:
  assumes "0 < b"
  shows "b * round_units w a b \<le> 2 * a"
proof -
  have "\<bar>int (b * round_units w a b) - int a\<bar> \<le> int a"
    using round_units_nearest [OF assms, of w 0 a] by simp
  then show ?thesis by linarith
qed

text \<open>The units by which two numbers differ.\<close>

lemma approximatelyEquals_units:
  "approximatelyEquals \<lparr>fc_width = w, fc_value = Finite s m\<rparr> (Finite t n) (Finite False e) \<longleftrightarrow>
     (let d = nat \<bar>signed_units s m - signed_units t n\<bar>
      in round_units w d 1 < e \<and> round_units w d 1 < limit w)"
proof -
  have sub: "signed_units (\<not> t) n = - signed_units t n"
    by (simp add: signed_units_def)
  have zero: "round_units w 0 (Suc 0) = 0" using round_units_double [of 1 w 0] by simp
  have positive: "signed_units False k = int k" for k by (simp add: signed_units_def)
  show ?thesis
    by (cases "signed_units s m = signed_units t n")
      (simp_all add: approximatelyEquals_def floating_sub_def sub zero rounded_def Let_def positive limit_def)
qed

lemma epsilon_value: "format w \<Longrightarrow> real_value w (float_epsilon w) = 1 / 2 ^ fraction_bits w"
  by (auto simp: float_epsilon_def signed_units_def format_def field_simps)

text \<open>The difference of two values, in units.\<close>

lemma value_difference:
  "\<bar>real_value w (Finite s m) - real_value w (Finite t n)\<bar> = real (nat \<bar>signed_units s m - signed_units t n\<bar>) / 2 ^ unit_shift w"
  by (simp add: abs_divide flip: diff_divide_distrib)

lemma large_dvd:
  assumes "format w" "2 ^ excess w n dvd n" "2 ^ unit_shift w \<le> n"
  shows "2 ^ (unit_shift w - fraction_bits w) dvd n"
proof -
  define e where "e = unit_shift w - fraction_bits w"
  have e: "e - 1 + Suc (fraction_bits w) = unit_shift w" "0 < e" using assms(1) by (auto simp: format_def e_def)
  have "\<not> excess w n \<le> e - 1" unfolding excess_le_iff e(1) using assms(3) by simp
  then have "e \<le> excess w n" by simp
  then have "(2 :: nat) ^ e dvd 2 ^ excess w n" by (rule le_imp_power_dvd)
  then show ?thesis using assms(2) unfolding e_def by (rule dvd_trans)
qed

text \<open>With the default bound, numbers of at least one are accepted only if they have the same units.\<close>

lemma default_bound_units:
  assumes "format w" "representable w m" "representable w n" "2 ^ unit_shift w \<le> m" "2 ^ unit_shift w \<le> n"
    "d = nat \<bar>signed_units s m - signed_units t n\<bar>"
  shows "round_units w d 1 < 2 ^ (unit_shift w - fraction_bits w) \<and> round_units w d 1 < limit w \<longleftrightarrow> d = 0"
proof
  define k where "k = unit_shift w - fraction_bits w"
  assume "round_units w d 1 < 2 ^ k \<and> round_units w d 1 < limit w"
  moreover have "2 ^ excess w (2 ^ k) dvd (2 :: nat) ^ k"
    by (rule le_imp_power_dvd) (simp add: excess_le_iff power_strict_increasing flip: power_Suc)
  ultimately have "d < 2 ^ k" using round_units_ge [of 1 w "2 ^ k" d] by (cases "2 ^ k \<le> d") simp_all
  have "2 ^ k dvd m" "2 ^ k dvd n"
    using large_dvd [OF assms(1)] assms(2-5) by (simp_all add: representable_def k_def)
  then have "int (2 ^ k) dvd int m" "int (2 ^ k) dvd int n" by (simp_all only: of_nat_dvd_iff)
  then have "(2 :: int) ^ k dvd signed_units s m - signed_units t n"
    by (auto simp: signed_units_def intro!: dvd_diff dvd_add)
  then have "2 ^ k dvd d" by (simp add: assms(6) flip: of_nat_dvd_iff)
  with \<open>d < 2 ^ k\<close> show "d = 0" by (auto dest: dvd_imp_le)
next
  assume "d = 0"
  then show "round_units w d 1 < 2 ^ (unit_shift w - fraction_bits w) \<and> round_units w d 1 < limit w"
    using round_units_double [of 1 w 0] by (simp add: limit_def)
qed

lemma value_at_least_one: "1 \<le> \<bar>real_value w (Finite s m)\<bar> \<longleftrightarrow> 2 ^ unit_shift w \<le> m"
proof -
  have "1 \<le> \<bar>real_value w (Finite s m)\<bar> \<longleftrightarrow> real (2 ^ unit_shift w) \<le> real m"
    by (simp add: real_value_Finite abs_divide le_divide_eq del: real_value.simps)
  then show ?thesis by (simp only: of_nat_le_iff)
qed

text \<open>
  C30: \<^verbatim>\<open>approximatelyEquals\<close> only accepts numbers that differ by less than the bound, accepts all that differ by less
  than half of it, and with the default bound accepts numbers from one on only if they are equal.
\<close>

theorem approximately_equals_correct:
  assumes "finite_column a" "finite_floating y" "floating_ok (fc_width a) y" "floating_ok (fc_width a) (Finite False e)"
  shows "(approximatelyEquals a y (Finite False e) \<longrightarrow>
      \<bar>column_value a - real_value (fc_width a) y\<bar> < real_value (fc_width a) (Finite False e)) \<and>
    (2 * \<bar>column_value a - real_value (fc_width a) y\<bar> < real_value (fc_width a) (Finite False e) \<longrightarrow>
      approximatelyEquals a y (Finite False e)) \<and>
    (1 \<le> \<bar>column_value a\<bar> \<and> 1 \<le> \<bar>real_value (fc_width a) y\<bar> \<longrightarrow>
      approximatelyEquals a y (float_epsilon (fc_width a)) = (column_value a = real_value (fc_width a) y))"
proof -
  define w where "w = fc_width a"
  obtain s m t n where parts: "fc_value a = Finite s m" "y = Finite t n"
    using assms(1,2) by (auto simp: finite_column_def elim!: finite_floating.elims)
  then have a: "a = \<lparr>fc_width = w, fc_value = Finite s m\<rparr>" by (simp add: w_def)
  have ok: "format w" "representable w m" "representable w n" "representable w e"
    using assms by (simp_all add: finite_column_def float_column_ok_def parts w_def)
  define d where "d = nat \<bar>signed_units s m - signed_units t n\<bar>"
  have approx: "approximatelyEquals a y (Finite False k) \<longleftrightarrow> round_units w d 1 < k \<and> round_units w d 1 < limit w" for k
    by (simp add: a parts(2) approximatelyEquals_units d_def Let_def)
  have difference: "\<bar>column_value a - real_value w y\<bar> = real d / 2 ^ unit_shift w"
    unfolding column_value_def a parts(2) using value_difference [of w s m t n] by (simp only: d_def float_column.simps)
  have bound: "real_value w (Finite False e) = real e / 2 ^ unit_shift w" by (simp add: signed_units_def)
  have "d < e" if "round_units w d 1 < e"
    using round_units_ge [of 1 w e d] ok(4) that by (cases "e \<le> d") (simp_all add: representable_def)
  moreover have "round_units w d 1 < e \<and> round_units w d 1 < limit w" if "2 * d < e"
    using round_units_double [of 1 w d] ok(4) that by (simp add: representable_def)
  moreover have "2 * (real d / 2 ^ unit_shift w) < real e / 2 ^ unit_shift w \<longleftrightarrow> 2 * d < e"
    "real d / 2 ^ unit_shift w < real e / 2 ^ unit_shift w \<longleftrightarrow> d < e"
    by (simp_all add: divide_less_cancel) linarith
  moreover have "approximatelyEquals a y (float_epsilon w) \<longleftrightarrow> column_value a = real_value w y"
    if "1 \<le> \<bar>column_value a\<bar>" "1 \<le> \<bar>real_value w y\<bar>"
  proof -
    have "2 ^ unit_shift w \<le> m" "2 ^ unit_shift w \<le> n"
      using that by (simp_all only: column_value_def a parts(2) float_column.simps value_at_least_one)
    then have "approximatelyEquals a y (float_epsilon w) \<longleftrightarrow> d = 0"
      unfolding float_epsilon_def approx using default_bound_units [OF ok(1-3) _ _ d_def] by blast
    also have "\<dots> \<longleftrightarrow> column_value a = real_value w y" using difference by auto
    finally show ?thesis .
  qed
  ultimately show ?thesis unfolding w_def [symmetric] difference bound approx by blast
qed

theorem approximately_equals_correct_witness:
  "\<not> approximatelyEquals float_example (Finite False (5 * 2 ^ 148)) (float_epsilon 32)"
  using approximately_equals_correct [of float_example "Finite False (5 * 2 ^ 148)" 1] float_examples
    small_representable [of 32 5 148] small_representable [of 32 1 0]
  by (simp add: format_def signed_units_def)

lemma column_of_bits_ok: "format LENGTH('l) \<Longrightarrow> float_column_ok (column_of_bits (v :: 'l::len word))"
  by (simp add: float_column_ok_def column_of_bits_def floating_of_bits_ok)

end
