(* ===== verification/UUID_Utils.thy ===== *)
theory UUID_Utils
  imports Column_Integers
begin

text \<open>
  The hexadecimal conversions of \<^verbatim>\<open>StringUtils.hpp\<close> and the UUIDs of
  \<^verbatim>\<open>UUIDUtils.cpp\<close>: their text, the version 4 and version 1 layouts, and the generator of time UUIDs with
  its thread-local state. The clock and the random device are arguments.
\<close>

unbundle bit_operations_syntax

section \<open>Hexadecimal digits\<close>

definition hex_digit :: "u8 \<Rightarrow> byte" where
  "hex_digit d = (if d < 10 then d + 0x30 else d - 10 + 0x41)"

definition dumpIntToHex :: "'l::len word \<Rightarrow> bytes \<Rightarrow> bytes" where
  "dumpIntToHex v str =
     (let hexLen = LENGTH('l) div 8 * 2 in
      str @ map (\<lambda>i. hex_digit (ucast (drop_bit ((hexLen - 1 - i) * 4) v AND 0xf))) [0..<hexLen])"

definition dumpBytesToHex :: "bytes \<Rightarrow> bytes \<Rightarrow> bytes" where
  "dumpBytesToHex bs str = fold dumpIntToHex bs str"

text \<open>
  The value of a digit: the differences are computed on \<^verbatim>\<open>std::uint8_t\<close>, so smaller characters wrap to large
  values. Zero, the end of the string, is no digit.
\<close>

definition hex_value :: "byte \<Rightarrow> u8 option" where
  "hex_value c =
     (if c = 0 then None
      else if c - 0x30 \<le> 9 then Some (c - 0x30)
      else if c - 0x61 \<le> 5 then Some (c - 0x61 + 0xa)
      else if c - 0x41 \<le> 5 then Some (c - 0x41 + 0xa)
      else None)"

text \<open>The bytes are those of a string from the pointer on; behind them stands the terminating zero.\<close>

fun load_hex :: "nat \<Rightarrow> bytes \<Rightarrow> 'l::len word \<Rightarrow> 'l word option" where
  "load_hex 0 hex uvalue = Some uvalue"
| "load_hex (Suc n) [] uvalue = None"
| "load_hex (Suc n) (c # hex) uvalue =
     (case hex_value c of None \<Rightarrow> None | Some d \<Rightarrow> load_hex n hex (push_bit 4 uvalue OR ucast d))"

definition loadIntFromHex :: "bytes \<Rightarrow> 'l::len word option" where
  "loadIntFromHex hex = load_hex (LENGTH('l) div 8 * 2) hex 0"

text \<open>With an odd length the last digit is read together with what stands behind the range.\<close>

function loadBytesFromHex :: "bytes \<Rightarrow> nat \<Rightarrow> bytes \<Rightarrow> bytes \<times> bool" where
  "loadBytesFromHex hex hexLength str =
     (if hexLength > 0 \<and> hex \<noteq> [] \<and> hd hex \<noteq> 0 then
        (case loadIntFromHex hex :: u8 option of
           None \<Rightarrow> (str, False)
         | Some c \<Rightarrow>
             if hexLength = 1 then (str @ [c], False)
             else loadBytesFromHex (drop 2 hex) (hexLength - 2) (str @ [c]))
      else (str, hexLength = 0))"
  by pat_completeness auto
termination by (relation "measure (\<lambda>(hex, n, str). n)") auto

declare loadBytesFromHex.simps [simp del]

lemma hex_value_digit:
  assumes "d < 16"
  shows "hex_value (hex_digit d) = Some d"
proof -
  have all: "list_all (\<lambda>n. hex_value (hex_digit (word_of_nat n)) = Some (word_of_nat n)) [0..<16]"
    by code_simp
  have "unat d \<in> set [0..<16]" using assms by (simp add: word_less_nat_alt)
  from bspec [OF all [unfolded list_all_iff] this] show ?thesis by simp
qed

lemma nibble_take_bit: "x AND 0xf = take_bit 4 (x :: 'l::len word)"
  by (simp add: take_bit_eq_mask mask_eq_exp_minus_1)

lemma load_digit:
  "load_hex (Suc n) (hex_digit (ucast (x AND 0xf)) # hex) u = load_hex n hex (push_bit 4 u OR take_bit 4 (x :: 'l::len word))"
proof -
  have "ucast (take_bit 4 x) = take_bit 4 (ucast x :: u8)"
    by (rule bit_eqI) (auto simp: bit_simps)
  also have "\<dots> < 16"
    using take_bit_nat_less_exp [of 4 "unat (ucast x :: u8)"] unfolding word_less_nat_alt unsigned_take_bit_eq by simp
  finally have "hex_value (hex_digit (ucast (x AND 0xf))) = Some (ucast (take_bit 4 x))"
    unfolding nibble_take_bit by (rule hex_value_digit)
  moreover have "(ucast (ucast (take_bit 4 x) :: u8) :: 'l word) = take_bit 4 x"
    by (rule bit_eqI) (auto simp: bit_simps)
  ultimately show ?thesis by simp
qed

lemma load_hex_digits:
  "load_hex n (map (\<lambda>i. hex_digit (ucast (drop_bit ((n - 1 - i) * 4) v AND 0xf))) [0..<n] @ rest) u =
     Some (push_bit (4 * n) u OR take_bit (4 * n) (v :: 'l::len word))"
proof (induction n arbitrary: u)
  case (Suc n)
  let ?d = "\<lambda>k. hex_digit (ucast (drop_bit (k * 4) v AND 0xf))"
  have "map (\<lambda>i. ?d (Suc n - 1 - i)) [0..<Suc n] = ?d n # map (\<lambda>i. ?d (n - 1 - i)) [0..<n]"
    by (simp add: upt_conv_Cons map_Suc_upt [symmetric] del: upt_Suc)
  then have "load_hex (Suc n) (map (\<lambda>i. ?d (Suc n - 1 - i)) [0..<Suc n] @ rest) u =
      load_hex n (map (\<lambda>i. ?d (n - 1 - i)) [0..<n] @ rest) (push_bit 4 u OR take_bit 4 (drop_bit (n * 4) v))"
    by (simp only: append_Cons load_digit)
  also have "\<dots> = Some (push_bit (4 * n) (push_bit 4 u OR take_bit 4 (drop_bit (n * 4) v)) OR take_bit (4 * n) v)"
    by (rule Suc.IH)
  also have "push_bit (4 * n) (push_bit 4 u OR take_bit 4 (drop_bit (n * 4) v)) OR take_bit (4 * n) v =
      push_bit (4 * Suc n) u OR take_bit (4 * Suc n) v"
    by (rule bit_eqI) (auto simp: bit_simps algebra_simps)
  finally show ?case .
qed simp

lemma hex_roundtrip:
  assumes "8 dvd LENGTH('l)"
  shows "loadIntFromHex (dumpIntToHex (v :: 'l::len word) [] @ rest) = Some v"
proof -
  have "4 * (LENGTH('l) div 8 * 2) = LENGTH('l)" using assms by auto
  then show ?thesis
    by (simp only: loadIntFromHex_def dumpIntToHex_def Let_def append_Nil load_hex_digits) simp
qed

lemma dumpIntToHex_append: "dumpIntToHex v str = str @ dumpIntToHex v []"
  by (simp add: dumpIntToHex_def Let_def)

lemma length_dumpIntToHex [simp]: "length (dumpIntToHex (v :: 'l::len word) str) = length str + LENGTH('l) div 8 * 2"
  by (simp add: dumpIntToHex_def Let_def)

section \<open>UUIDs as text\<close>

definition strToUUID :: "bytes \<Rightarrow> uuid result" where
  "strToUUID str =
     (if length str \<noteq> 36 then Inl FormatException
      else (case (loadIntFromHex str :: u32 option, loadIntFromHex (drop 9 str) :: u16 option,
          loadIntFromHex (drop 14 str) :: u16 option, loadIntFromHex (drop 19 str) :: u16 option,
          loadIntFromHex (drop 24 str) :: u16 option, loadIntFromHex (drop 28 str) :: u32 option) of
         (Some a, Some b, Some c, Some d, Some e, Some f) \<Rightarrow>
           Inr (push_bit 32 (ucast a) OR push_bit 16 (ucast b) OR ucast c,
             push_bit 48 (ucast d) OR push_bit 32 (ucast e) OR ucast f)
       | _ \<Rightarrow> Inl FormatException))"

definition uuidToStr :: "uuid \<Rightarrow> bytes" where
  "uuidToStr uuid =
     (let result = dumpIntToHex (ucast (drop_bit 32 (fst uuid)) :: u32) [];
          result = dumpIntToHex (ucast (drop_bit 16 (fst uuid) AND 0xffff) :: u16) (result @ [0x2d]);
          result = dumpIntToHex (ucast (fst uuid AND 0xffff) :: u16) (result @ [0x2d]);
          result = dumpIntToHex (ucast (drop_bit 48 (snd uuid) AND 0xffff) :: u16) (result @ [0x2d]);
          result = dumpIntToHex (ucast (drop_bit 32 (snd uuid) AND 0xffff) :: u16) (result @ [0x2d])
      in dumpIntToHex (ucast (snd uuid AND 0xffffffff) :: u32) result)"

lemma low_mask: "x AND 0xffff = take_bit 16 (x :: 'l::len word)" "x AND 0xffffffff = take_bit 32 (x :: 'l::len word)"
  by (simp_all add: take_bit_eq_mask mask_eq_exp_minus_1)

lemma uuid_text:
  "uuidToStr uuid =
     dumpIntToHex (ucast (drop_bit 32 (fst uuid)) :: u32) [] @ [0x2d] @
     dumpIntToHex (ucast (drop_bit 16 (fst uuid) AND 0xffff) :: u16) [] @ [0x2d] @
     dumpIntToHex (ucast (fst uuid AND 0xffff) :: u16) [] @ [0x2d] @
     dumpIntToHex (ucast (drop_bit 48 (snd uuid) AND 0xffff) :: u16) [] @ [0x2d] @
     dumpIntToHex (ucast (drop_bit 32 (snd uuid) AND 0xffff) :: u16) [] @
     dumpIntToHex (ucast (snd uuid AND 0xffffffff) :: u32) []"
  by (simp add: uuidToStr_def Let_def dumpIntToHex_append [of _ "_ @ _"] dumpIntToHex_append [of _ "_ # _"])

text \<open>
  C34: The text of a UUID has 36 characters and is read back as the same UUID.
\<close>

theorem uuid_text_roundtrip: "length (uuidToStr uuid) = 36 \<and> strToUUID (uuidToStr uuid) = Inr uuid"
proof
  obtain hi lo where uuid: "uuid = (hi, lo)" by fastforce
  show len: "length (uuidToStr uuid) = 36" by (simp add: uuid_text)
  have hi: "push_bit 32 (ucast (ucast (drop_bit 32 hi) :: u32)) OR push_bit 16 (ucast (ucast (take_bit 16 (drop_bit 16 hi)) :: u16)) OR
      ucast (ucast (take_bit 16 hi) :: u16) = hi" (is "?l = hi")
  proof (rule bit_word_eqI)
    fix n assume "n < LENGTH(64)"
    then show "bit ?l n = bit hi n" by (cases "n < 32") (auto simp: bit_simps)
  qed
  have lo: "push_bit 48 (ucast (ucast (take_bit 16 (drop_bit 48 lo)) :: u16)) OR push_bit 32 (ucast (ucast (take_bit 16 (drop_bit 32 lo)) :: u16)) OR
      ucast (ucast (take_bit 32 lo) :: u32) = lo" (is "?l = lo")
  proof (rule bit_word_eqI)
    fix n assume "n < LENGTH(64)"
    then show "bit ?l n = bit lo n" by (cases "n < 48") (auto simp: bit_simps)
  qed
  show "strToUUID (uuidToStr uuid) = Inr uuid"
    using len unfolding strToUUID_def uuid_text
    by (simp add: hex_roundtrip hex_roundtrip [where rest = "[]", simplified] low_mask uuid hi lo)
qed

section \<open>Time UUIDs\<close>

definition MaxClockId :: u32 where "MaxClockId = 0x3fff"

definition EpochSinceUUID1TimestampBase :: u64 where
  "EpochSinceUUID1TimestampBase = 122192928000000000"

text \<open>
  A time point is its number of nanoseconds since 1970. \<^verbatim>\<open>duration_cast\<close> rounds towards zero; the counts are
  converted to unsigned integers by the factors they are multiplied with or divided by.
\<close>

definition toTimeUUIDTimestamp :: "int \<Rightarrow> u64" where
  "toTimeUUIDTimestamp timePoint =
     word_of_int (timePoint sdiv 1000000) * 10000 + (word_of_int timePoint div 100) mod 10000 +
     EpochSinceUUID1TimestampBase"

text \<open>Milliseconds become nanoseconds of 64 bits when they are added to the time point.\<close>

definition fromTimeUUIDTimestamp :: "u64 \<Rightarrow> int result" where
  "fromTimeUUIDTimestamp timeStamp =
     (let milliseconds = uint ((timeStamp - EpochSinceUUID1TimestampBase) div 10000);
          nanoseconds = uint ((timeStamp mod 10000) * 100) in
      if fits 64 (milliseconds * 1000000) \<and> fits 64 (milliseconds * 1000000 + nanoseconds)
      then Inr (milliseconds * 1000000 + nanoseconds) else Inl UndefinedBehaviour)"

definition makeEmptyUUID :: uuid where "makeEmptyUUID = (0, 0)"

definition makeRandomUUID :: "u32 \<Rightarrow> u32 \<Rightarrow> u32 \<Rightarrow> u32 \<Rightarrow> uuid" where
  "makeRandomUUID r1 r2 r3 r4 =
     (((push_bit 32 (ucast r1) OR ucast r2) AND 0xffffffffffff0fff) OR 0x4000,
      ((push_bit 32 (ucast r3) OR ucast r4) AND 0x3fffffffffffffff) OR 0x8000000000000000)"

definition makeTimeUUIDFrom :: "u64 \<Rightarrow> u32 \<Rightarrow> u64 \<Rightarrow> uuid" where
  "makeTimeUUIDFrom timeStamp clockId nodeId =
     (push_bit 32 (timeStamp AND 0x00000000ffffffff) OR drop_bit 16 (timeStamp AND 0x0000ffff00000000) OR
        0x1000 OR drop_bit 48 (timeStamp AND 0x0fff000000000000),
      0x8000000000000000 OR push_bit 48 (ucast clockId AND 0x3fff) OR (nodeId AND 0x0000ffffffffffff))"

definition makeMinTimeUUID :: "int \<Rightarrow> uuid" where
  "makeMinTimeUUID timePoint = makeTimeUUIDFrom (toTimeUUIDTimestamp timePoint) 0 0"

definition makeMaxTimeUUID :: "int \<Rightarrow> uuid" where
  "makeMaxTimeUUID timePoint = makeTimeUUIDFrom (toTimeUUIDTimestamp timePoint) MaxClockId 0xffffffffffffffff"

definition getVersionFromUUID :: "uuid \<Rightarrow> u8" where
  "getVersionFromUUID uuid = ucast (drop_bit 12 (fst uuid AND 0x000000000000f000))"

definition uuid_timestamp :: "uuid \<Rightarrow> u64" where
  "uuid_timestamp uuid =
     drop_bit 32 (fst uuid AND 0xffffffff00000000) OR push_bit 16 (fst uuid AND 0x00000000ffff0000) OR
     push_bit 48 (fst uuid AND 0x0000000000000fff)"

definition getTimeFromUUID :: "uuid \<Rightarrow> int result" where
  "getTimeFromUUID uuid =
     (if getVersionFromUUID uuid \<noteq> 1 then Inl FormatException else fromTimeUUIDTimestamp (uuid_timestamp uuid))"

text \<open>The generator of one core.\<close>

record uuid_generator =
  ug_nodeId :: u64
  ug_lastTimestamp :: u64
  ug_clockId :: u32

definition uuid_generator_init :: uuid_generator where
  "uuid_generator_init = \<lparr>ug_nodeId = 0, ug_lastTimestamp = 0, ug_clockId = 0\<rparr>"

definition makeTimeUUID :: "u32 \<Rightarrow> u32 \<Rightarrow> int \<Rightarrow> uuid_generator \<Rightarrow> uuid result \<times> uuid_generator" where
  "makeTimeUUID r1 r2 now g =
     (let g = (if ug_nodeId g = 0 then g\<lparr>ug_nodeId := push_bit 32 (ucast r1) OR ucast r2\<rparr> else g);
          timeStamp = toTimeUUIDTimestamp now;
          reset = timeStamp \<noteq> ug_lastTimestamp g;
          g = (if reset then g\<lparr>ug_lastTimestamp := timeStamp, ug_clockId := 0\<rparr> else g) in
      if \<not> reset \<and> ug_clockId g > MaxClockId then (Inl UUIDConflictException, g)
      else (Inr (makeTimeUUIDFrom timeStamp (ug_clockId g) (ug_nodeId g)), g\<lparr>ug_clockId := ug_clockId g + 1\<rparr>))"

fun generate_uuids :: "(u32 \<times> u32 \<times> int) list \<Rightarrow> uuid_generator \<Rightarrow> uuid result list" where
  "generate_uuids [] g = []"
| "generate_uuids ((r1, r2, now) # calls) g =
     (case makeTimeUUID r1 r2 now g of (r, g) \<Rightarrow> r # generate_uuids calls g)"

subsection \<open>The layout\<close>

lemma uuid_masks:
  "(0x00000000ffffffff :: u64) = mask 32" "(0x0000ffff00000000 :: u64) = push_bit 32 (mask 16)"
  "(0x0fff000000000000 :: u64) = push_bit 48 (mask 12)" "(0x1000 :: u64) = push_bit 12 1" "(0x3fff :: u64) = mask 14"
  "(0x0000ffffffffffff :: u64) = mask 48" "(0x000000000000f000 :: u64) = push_bit 12 (mask 4)"
  "(0xffffffff00000000 :: u64) = push_bit 32 (mask 32)" "(0x00000000ffff0000 :: u64) = push_bit 16 (mask 16)"
  "(0x0000000000000fff :: u64) = mask 12" "(0x8000000000000000 :: u64) = push_bit 63 1"
  by (simp_all add: mask_eq_exp_minus_1)

lemmas uuid_bits = bit_or_iff bit_and_iff bit_push_bit_iff bit_drop_bit_eq bit_take_bit_iff bit_mask_iff bit_1_iff
  bit_unsigned_iff o_apply fst_conv snd_conv possible_bit_word

lemma uuid_timestamp_make: "uuid_timestamp (makeTimeUUIDFrom t c n) = take_bit 60 t"
proof (rule bit_word_eqI)
  fix i assume "i < LENGTH(64)"
  then show "bit (uuid_timestamp (makeTimeUUIDFrom t c n)) i = bit (take_bit 60 t) i"
    unfolding uuid_timestamp_def makeTimeUUIDFrom_def uuid_masks
    by (simp only: uuid_bits) (cases "i < 32"; cases "i < 48"; cases "i < 60"; auto)
qed

lemma uuid_version_make: "getVersionFromUUID (makeTimeUUIDFrom t c n) = 1"
proof (rule bit_word_eqI)
  fix i assume "i < LENGTH(8)"
  then show "bit (getVersionFromUUID (makeTimeUUIDFrom t c n)) i = bit 1 i"
    unfolding getVersionFromUUID_def makeTimeUUIDFrom_def uuid_masks
    by (simp only: uuid_bits) (cases "i < 4"; auto)
qed

lemma uuid_clock_make: "drop_bit 48 (snd (makeTimeUUIDFrom t c n)) AND mask 14 = take_bit 14 (ucast c)"
proof (rule bit_word_eqI)
  fix i assume "i < LENGTH(64)"
  then show "bit (drop_bit 48 (snd (makeTimeUUIDFrom t c n)) AND mask 14) i = bit (take_bit 14 (ucast c :: u64)) i"
    unfolding makeTimeUUIDFrom_def uuid_masks
    by (simp only: uuid_bits) (cases "i < 14"; auto)
qed

subsection \<open>Time points\<close>

lemma uint_toTimeUUIDTimestamp:
  assumes "0 \<le> t" "t < 2 ^ 63"
  shows "uint (toTimeUUIDTimestamp t) = t div 100 + 122192928000000000"
proof -
  have q: "t sdiv 1000000 = t div 100 div 10000"
    using assms(1) by (cases "t = 0") (simp_all add: signed_divide_int_def zdiv_zmult2_eq [symmetric])
  have u: "uint (word_of_int t :: u64) = t" using assms by (simp add: word_of_int_inverse)
  have "uint ((word_of_int t :: u64) div 100 mod 10000) = t div 100 mod 10000"
    by (simp add: uint_mod_distrib uint_div_distrib u)
  then have m: "(word_of_int t :: u64) div 100 mod 10000 = word_of_int (t div 100 mod 10000)"
    by (metis word_of_int_uint)
  have "toTimeUUIDTimestamp t = word_of_int (t div 100 div 10000 * 10000 + t div 100 mod 10000 + 122192928000000000)"
    unfolding toTimeUUIDTimestamp_def q m EpochSinceUUID1TimestampBase_def
    by (simp only: of_int_add of_int_mult of_int_numeral)
  also have "t div 100 div 10000 * 10000 + t div 100 mod 10000 = t div 100" by (rule div_mult_mod_eq)
  finally show ?thesis using assms by (simp add: word_of_int_inverse)
qed

lemma fromTo_TimeUUIDTimestamp:
  assumes "0 \<le> t" "t < 2 ^ 63"
  shows "fromTimeUUIDTimestamp (toTimeUUIDTimestamp t) = Inr (t - t mod 100)"
proof -
  let ?ts = "toTimeUUIDTimestamp t"
  note ts = uint_toTimeUUIDTimestamp [OF assms]
  have "?ts = word_of_int (t div 100 + 122192928000000000)" unfolding ts [symmetric] by simp
  then have "?ts - EpochSinceUUID1TimestampBase = word_of_int (t div 100)"
    by (simp add: EpochSinceUUID1TimestampBase_def)
  then have ms: "uint ((?ts - EpochSinceUUID1TimestampBase) div 10000) = t div 100 div 10000"
    using assms by (simp add: uint_div_distrib word_of_int_inverse)
  have r: "uint (?ts mod 10000) = t div 100 mod 10000" by (simp add: uint_mod_distrib ts mod_add_eq [symmetric])
  have "t div 100 mod 10000 < 10000" "0 \<le> t div 100 mod 10000" by simp_all
  then have "uint (?ts mod 10000 * 100) = t div 100 mod 10000 * 100"
    by (simp add: uint_word_arith_bintrs(3) r take_bit_int_eq_self)
  moreover have sum: "t div 100 div 10000 * 1000000 + t div 100 mod 10000 * 100 = t - t mod 100"
  proof -
    have "q * 1000000 + r * 100 = (q * 10000 + r) * 100" for q r :: int by simp
    then show ?thesis by (simp only: div_mult_mod_eq minus_mod_eq_div_mult)
  qed
  moreover have "fits 64 (t - t mod 100)"
    using assms zmod_le_nonneg_dividend [of t 100] pos_mod_sign [of 100 t] unfolding fits_def by simp
  moreover have "fits 64 a" if "0 \<le> a" "0 \<le> b" "a + b * 100 = c" "fits 64 c" for a b c
    using that unfolding fits_def by simp
  from this [OF _ \<open>0 \<le> t div 100 mod 10000\<close> sum] have "fits 64 (t div 100 div 10000 * 1000000)"
    using assms(1) calculation(3) by (simp add: pos_imp_zdiv_nonneg_iff)
  ultimately show ?thesis by (simp add: fromTimeUUIDTimestamp_def ms Let_def)
qed

lemma toTimeUUIDTimestamp_mono:
  assumes "0 \<le> s" "s \<le> t" "t < 2 ^ 63"
  shows "toTimeUUIDTimestamp s \<le> toTimeUUIDTimestamp t"
  unfolding word_le_def using assms by (simp add: uint_toTimeUUIDTimestamp zdiv_mono1)

lemma timestamp_fits:
  assumes "0 \<le> t" "t < 2 ^ 63"
  shows "take_bit 60 (toTimeUUIDTimestamp t) = toTimeUUIDTimestamp t"
proof -
  have "uint (toTimeUUIDTimestamp t) < 2 ^ 60" using assms by (simp add: uint_toTimeUUIDTimestamp)
  moreover have "0 \<le> uint (toTimeUUIDTimestamp t)" by simp
  ultimately have "uint (take_bit 60 (toTimeUUIDTimestamp t)) = uint (toTimeUUIDTimestamp t)"
    by (simp only: unsigned_take_bit_eq take_bit_int_eq_self)
  then show ?thesis by (simp only: word_uint_eq_iff)
qed

lemma getTime_makeTime:
  assumes "0 \<le> t" "t < 2 ^ 63"
  shows "getTimeFromUUID (makeTimeUUIDFrom (toTimeUUIDTimestamp t) c n) = Inr (t - t mod 100)"
  by (simp add: getTimeFromUUID_def uuid_version_make uuid_timestamp_make timestamp_fits [OF assms]
    fromTo_TimeUUIDTimestamp [OF assms])

subsection \<open>The generator\<close>

definition uuid_clock :: "uuid \<Rightarrow> u64" where
  "uuid_clock uuid = drop_bit 48 (snd uuid) AND mask 14"

lemma uuid_clock_makeTime:
  assumes "c \<le> MaxClockId"
  shows "uint (uuid_clock (makeTimeUUIDFrom t c n)) = uint c"
proof -
  have "uint c < 2 ^ 14" using assms by (simp add: MaxClockId_def word_le_def)
  moreover have "0 \<le> uint c" "(2::int) ^ 14 \<le> 2 ^ 64" by simp_all
  ultimately have "take_bit 14 (take_bit 64 (uint c)) = uint c"
    by (simp only: take_bit_take_bit min_def) (simp add: take_bit_int_eq_self)
  then show ?thesis by (simp add: uuid_clock_def uuid_clock_make unsigned_take_bit_eq unsigned_ucast_eq)
qed

lemma makeTimeUUID_step:
  assumes "makeTimeUUID r1 r2 t g = (r, g')" "0 \<le> t" "t < 2 ^ 63" "ug_clockId g \<le> 0x4000"
  shows "ug_lastTimestamp g' = toTimeUUIDTimestamp t" "ug_clockId g' \<le> 0x4000"
    "r = Inr u \<Longrightarrow> uuid_timestamp u = toTimeUUIDTimestamp t"
    "r = Inr u \<Longrightarrow> uint (uuid_clock u) + 1 = uint (ug_clockId g')"
    "r = Inr u \<Longrightarrow> ug_lastTimestamp g = toTimeUUIDTimestamp t \<Longrightarrow> uint (uuid_clock u) = uint (ug_clockId g)"
    "r = Inl e \<Longrightarrow> e = UUIDConflictException \<and> ug_lastTimestamp g = toTimeUUIDTimestamp t \<and>
       ug_clockId g = 0x4000 \<and> ug_clockId g' = 0x4000"
proof -
  have plus: "uint (c + 1) = uint c + 1" "c + 1 \<le> 0x4000" if "c \<le> MaxClockId" for c :: u32
    using that by (simp_all add: MaxClockId_def word_le_def uint_word_ariths)
  have full: "c = 0x4000" if "c \<le> 0x4000" "\<not> c \<le> MaxClockId" for c :: u32
    using that by (simp add: MaxClockId_def word_le_def word_uint_eq_iff)
  have zero: "(0 :: u32) \<le> MaxClockId" by simp
  note facts = assms uuid_clock_makeTime plus full zero timestamp_fits [OF assms(2,3)] uuid_timestamp_make
  show "ug_lastTimestamp g' = toTimeUUIDTimestamp t" "ug_clockId g' \<le> 0x4000"
    "r = Inr u \<Longrightarrow> uuid_timestamp u = toTimeUUIDTimestamp t"
    "r = Inr u \<Longrightarrow> uint (uuid_clock u) + 1 = uint (ug_clockId g')"
    "r = Inr u \<Longrightarrow> ug_lastTimestamp g = toTimeUUIDTimestamp t \<Longrightarrow> uint (uuid_clock u) = uint (ug_clockId g)"
    "r = Inl e \<Longrightarrow> e = UUIDConflictException \<and> ug_lastTimestamp g = toTimeUUIDTimestamp t \<and>
       ug_clockId g = 0x4000 \<and> ug_clockId g' = 0x4000"
    using facts by (auto simp: makeTimeUUID_def Let_def not_less not_le split: if_splits)
qed

definition generated :: "'a result list \<Rightarrow> 'a list" where
  "generated results = concat (map (case_sum (\<lambda>e. []) (\<lambda>u. [u])) results)"

lemma generated_simps [simp]:
  "generated [] = []" "generated (Inl e # rs) = generated rs" "generated (Inr u # rs) = u # generated rs"
  by (simp_all add: generated_def)

definition calls_ok :: "(u32 \<times> u32 \<times> int) list \<Rightarrow> bool" where
  "calls_ok calls \<longleftrightarrow>
     sorted (map (\<lambda>(r1, r2, t). t) calls) \<and> list_all (\<lambda>(r1, r2, t). 0 \<le> t \<and> t < 2 ^ 63) calls"

lemma calls_ok_Cons:
  "calls_ok ((r1, r2, t) # calls) \<longleftrightarrow>
     0 \<le> t \<and> t < 2 ^ 63 \<and> calls_ok calls \<and> list_all (\<lambda>(r1, r2, s). t \<le> s) calls"
  by (auto simp: calls_ok_def list_all_iff split_def)

text \<open>A UUID generated later has a later time stamp, or the same one and a later clock id.\<close>

definition after :: "uuid \<Rightarrow> uuid_generator \<Rightarrow> bool" where
  "after u g \<longleftrightarrow> ug_lastTimestamp g < uuid_timestamp u \<or>
     ug_lastTimestamp g = uuid_timestamp u \<and> uint (ug_clockId g) \<le> uint (uuid_clock u)"

lemma generated_after:
  "calls_ok calls \<Longrightarrow> ug_clockId g \<le> 0x4000 \<Longrightarrow>
     list_all (\<lambda>(r1, r2, t). ug_lastTimestamp g \<le> toTimeUUIDTimestamp t) calls \<Longrightarrow>
     u \<in> set (generated (generate_uuids calls g)) \<Longrightarrow> after u g"
proof (induction calls g rule: generate_uuids.induct)
  case (2 r1 r2 t calls g)
  obtain r g' where mk: "makeTimeUUID r1 r2 t g = (r, g')" by fastforce
  have t: "0 \<le> t" "t < 2 ^ 63" and calls: "calls_ok calls" "list_all (\<lambda>(r1, r2, s). t \<le> s) calls"
    using 2(2) by (simp_all add: calls_ok_Cons)
  note step = makeTimeUUID_step [OF mk t 2(3)]
  have last: "ug_lastTimestamp g \<le> ug_lastTimestamp g'" using 2(4) by (simp add: step(1))
  have later: "list_all (\<lambda>(r1, r2, s). ug_lastTimestamp g' \<le> toTimeUUIDTimestamp s) calls"
    using calls t unfolding step(1) by (auto simp: list_all_iff calls_ok_def intro!: toTimeUUIDTimestamp_mono)
  have clock: "uint (ug_clockId g) \<le> uint (ug_clockId g')" if "ug_lastTimestamp g = ug_lastTimestamp g'"
    using that step(4-6) unfolding step(1) by (cases r) fastforce+
  have now: "after u g" if "r = Inr u"
    using that step(3) [OF that] step(5) [OF that] last unfolding step(1) after_def by auto
  have then_: "after u g" if "after u g'" using that last clock unfolding after_def by auto
  have "u \<in> set (generated (generate_uuids calls g')) \<or> r = Inr u" using 2(5) mk by (cases r) auto
  then show ?case using 2(1) [OF mk [symmetric] calls(1) step(2) later] now then_ by auto
qed simp

lemma generated_distinct:
  "calls_ok calls \<Longrightarrow> ug_clockId g \<le> 0x4000 \<Longrightarrow>
     list_all (\<lambda>(r1, r2, t). ug_lastTimestamp g \<le> toTimeUUIDTimestamp t) calls \<Longrightarrow>
     distinct (generated (generate_uuids calls g))"
proof (induction calls g rule: generate_uuids.induct)
  case (2 r1 r2 t calls g)
  obtain r g' where mk: "makeTimeUUID r1 r2 t g = (r, g')" by fastforce
  have t: "0 \<le> t" "t < 2 ^ 63" and calls: "calls_ok calls" "list_all (\<lambda>(r1, r2, s). t \<le> s) calls"
    using 2(2) by (simp_all add: calls_ok_Cons)
  note step = makeTimeUUID_step [OF mk t 2(3)]
  have later: "list_all (\<lambda>(r1, r2, s). ug_lastTimestamp g' \<le> toTimeUUIDTimestamp s) calls"
    using calls t unfolding step(1) by (auto simp: list_all_iff calls_ok_def intro!: toTimeUUIDTimestamp_mono)
  have "u \<notin> set (generated (generate_uuids calls g'))" if "r = Inr u" for u
    using generated_after [OF calls(1) step(2) later, of u] step(1,3) step(4) [OF that] that
    by (auto simp: after_def)
  then show ?case using 2(1) [OF mk [symmetric] calls(1) step(2) later] mk by (cases r) auto
qed simp

lemma generated_times:
  "calls_ok calls \<Longrightarrow> ug_clockId g \<le> 0x4000 \<Longrightarrow> i < length calls \<Longrightarrow> generate_uuids calls g ! i = Inr u \<Longrightarrow>
     getTimeFromUUID u = Inr (snd (snd (calls ! i)) - snd (snd (calls ! i)) mod 100)"
proof (induction calls g arbitrary: i rule: generate_uuids.induct)
  case (2 r1 r2 t calls g)
  obtain r g' where mk: "makeTimeUUID r1 r2 t g = (r, g')" by fastforce
  have t: "0 \<le> t" "t < 2 ^ 63" and calls: "calls_ok calls" using 2(2) by (simp_all add: calls_ok_Cons)
  note step = makeTimeUUID_step [OF mk t 2(3)]
  show ?case
  proof (cases i)
    case 0
    then have "r = Inr u" using 2(5) mk by simp
    then obtain c n where "u = makeTimeUUIDFrom (toTimeUUIDTimestamp t) c n"
      using mk by (auto simp: makeTimeUUID_def Let_def split: if_splits)
    then show ?thesis using 0 getTime_makeTime [OF t] by simp
  next
    case (Suc j)
    then show ?thesis using 2(1) [OF mk [symmetric] calls step(2), of j] 2(4,5) mk by simp
  qed
qed simp

text \<open>
  C7: As long as the clock of the system does not go back, the time UUIDs one core generates are pairwise
  distinct, and each carries the time of its call in units of 100 nanoseconds.
\<close>

theorem time_uuids_distinct:
  assumes "calls_ok calls"
  shows "distinct (generated (generate_uuids calls uuid_generator_init)) \<and>
    (\<forall>i u. i < length calls \<longrightarrow> generate_uuids calls uuid_generator_init ! i = Inr u \<longrightarrow>
       getTimeFromUUID u = Inr (snd (snd (calls ! i)) - snd (snd (calls ! i)) mod 100))"
  using generated_distinct [OF assms, of uuid_generator_init] generated_times [OF assms, of uuid_generator_init]
  by (simp add: uuid_generator_init_def list_all_iff split_def)

theorem time_uuids_distinct_witness:
  "distinct (generated (generate_uuids [(1, 2, 1700000000000000000), (0, 0, 1700000000000000042), (0, 0, 1700000000000000100)]
     uuid_generator_init))"
  using time_uuids_distinct [of "[(1, 2, 1700000000000000000), (0, 0, 1700000000000000042), (0, 0, 1700000000000000100)]"]
  by (simp add: calls_ok_def del: generate_uuids.simps)

text \<open>The generator gives up exactly when the 16384 clock ids of a time stamp are used up.\<close>

lemma same_time_generated:
  "0 \<le> t \<Longrightarrow> t < 2 ^ 63 \<Longrightarrow> ug_lastTimestamp g = toTimeUUIDTimestamp t \<Longrightarrow> ug_clockId g \<le> 0x4000 \<Longrightarrow>
     i < n \<Longrightarrow> isl (generate_uuids (replicate n (r1, r2, t)) g ! i) \<longleftrightarrow> i + unat (ug_clockId g) \<ge> 0x4000"
proof (induction n arbitrary: g i)
  case (Suc n)
  obtain r g' where mk: "makeTimeUUID r1 r2 t g = (r, g')" by fastforce
  note step = makeTimeUUID_step [OF mk Suc(2,3,5)]
  have clock: "unat (ug_clockId g') = (if isl r then unat (ug_clockId g) else unat (ug_clockId g) + 1) \<and>
      (isl r \<longleftrightarrow> unat (ug_clockId g) \<ge> 0x4000)"
  proof (cases r)
    case (Inl e)
    then have "ug_clockId g = 0x4000" "ug_clockId g' = 0x4000" using step(6) by blast+
    then show ?thesis using Inl by simp
  next
    case (Inr u)
    have "uint (ug_clockId g') = uint (ug_clockId g) + 1"
      using step(4) [OF Inr] step(5) [OF Inr Suc(4)] by linarith
    moreover have "uint (ug_clockId g') \<le> 0x4000" using step(2) unfolding word_le_def by simp
    moreover have "0 \<le> uint (ug_clockId g)" by simp
    ultimately have "nat (uint (ug_clockId g')) = nat (uint (ug_clockId g)) + 1" "\<not> nat (uint (ug_clockId g)) \<ge> 0x4000"
      by linarith+
    then show ?thesis unfolding unat_eq_nat_uint using Inr by (simp del: nat_uint_eq)
  qed
  show ?case
  proof (cases i)
    case 0
    then show ?thesis using mk clock by simp
  next
    case i: (Suc j)
    have "isl (generate_uuids (replicate n (r1, r2, t)) g' ! j) \<longleftrightarrow> j + unat (ug_clockId g') \<ge> 0x4000"
      using Suc(1) [OF Suc(2,3) step(1,2)] Suc(6) i by simp
    then show ?thesis using clock i mk by (simp split: if_splits)
  qed
qed simp

section \<open>Bounds, versions and limits\<close>

text \<open>Every UUID of a time stamp lies between the two a search uses as its bounds.\<close>

lemma uuid_between_bounds:
  "fst (makeTimeUUIDFrom (toTimeUUIDTimestamp t) c n) = fst (makeMinTimeUUID t)"
  "fst (makeTimeUUIDFrom (toTimeUUIDTimestamp t) c n) = fst (makeMaxTimeUUID t)"
  "snd (makeMinTimeUUID t) \<le> snd (makeTimeUUIDFrom ts c n)"
  "snd (makeTimeUUIDFrom ts c n) \<le> snd (makeMaxTimeUUID t)"
proof -
  let ?u = "snd (makeTimeUUIDFrom ts c n)"
  have min: "snd (makeMinTimeUUID t) AND ?u = snd (makeMinTimeUUID t)"
    unfolding makeMinTimeUUID_def makeTimeUUIDFrom_def uuid_masks
    by (rule bit_word_eqI) (simp only: uuid_bits, auto)
  have max: "?u AND snd (makeMaxTimeUUID t) = ?u"
  proof (rule bit_word_eqI)
    fix i assume "i < LENGTH(64)"
    have "(0xffffffffffffffff :: u64) = mask 64" by (simp add: mask_eq_exp_minus_1)
    moreover have "ucast MaxClockId = (mask 14 :: u64)" by (simp add: MaxClockId_def mask_eq_exp_minus_1)
    ultimately show "bit (?u AND snd (makeMaxTimeUUID t)) i = bit ?u i"
      using \<open>i < LENGTH(64)\<close> unfolding makeMaxTimeUUID_def makeTimeUUIDFrom_def uuid_masks
      by (simp only: uuid_bits) auto
  qed
  show "snd (makeMinTimeUUID t) \<le> ?u" using word_and_le1 [of "snd (makeMinTimeUUID t)" ?u] min by simp
  show "?u \<le> snd (makeMaxTimeUUID t)" using word_and_le1 [of ?u "snd (makeMaxTimeUUID t)"] max by simp
qed (simp_all add: makeMinTimeUUID_def makeMaxTimeUUID_def makeTimeUUIDFrom_def)

text \<open>
  The smallest and the largest time UUID of a time point enclose every time UUID of that time point, whatever its
  clock id and node, in the order of the column type.
\<close>

lemma time_uuid_bounds:
  "uuid_compare op_le (makeMinTimeUUID t) (makeTimeUUIDFrom (toTimeUUIDTimestamp t) c n) \<and>
   uuid_compare op_le (makeTimeUUIDFrom (toTimeUUIDTimestamp t) c n) (makeMaxTimeUUID t)"
  using uuid_between_bounds(1,2) [of t c n] uuid_between_bounds(3,4) [where t = t and ts = "toTimeUUIDTimestamp t" and c = c and n = n]
  by (auto simp: not_less)

lemma random_uuid_version: "getVersionFromUUID (makeRandomUUID r1 r2 r3 r4) = 4"
proof (rule bit_word_eqI)
  have masks: "(0xffffffffffff0fff :: u64) = NOT (push_bit 12 (mask 4))" "(0x4000 :: u64) = push_bit 14 1"
    by (simp_all add: mask_eq_exp_minus_1)
  have four: "(4 :: u8) = push_bit 2 1" by simp
  fix i assume "i < LENGTH(8)"
  then show "bit (getVersionFromUUID (makeRandomUUID r1 r2 r3 r4)) i = bit (4 :: u8) i"
    unfolding getVersionFromUUID_def makeRandomUUID_def masks uuid_masks four
    by (simp only: uuid_bits bit_not_iff) (cases "i < 4"; auto)
qed

text \<open>
  A time point before 1970 does not survive: the unsigned arithmetic of the conversions makes the milliseconds
  so large that reading the time back overflows.
\<close>

lemma time_before_1970_lost:
  "getTimeFromUUID (makeTimeUUIDFrom (toTimeUUIDTimestamp (- 1000000)) c n) = Inl UndefinedBehaviour"
proof -
  have "toTimeUUIDTimestamp (- 1000000) = 122192927999995516"
    by (simp add: toTimeUUIDTimestamp_def EpochSinceUUID1TimestampBase_def signed_divide_int_def)
  moreover have "take_bit 60 (122192927999995516 :: u64) = 122192927999995516" by simp
  moreover have "fromTimeUUIDTimestamp 122192927999995516 = Inl UndefinedBehaviour"
    by (simp add: fromTimeUUIDTimestamp_def EpochSinceUUID1TimestampBase_def fits_def Let_def)
  ultimately show ?thesis by (simp only: getTimeFromUUID_def uuid_version_make uuid_timestamp_make) simp
qed

text \<open>When the clock goes back, the clock ids start over and a UUID can be generated twice.\<close>

lemma clock_going_back:
  "generate_uuids [(1, 2, 1700000000000000000), (0, 0, 1700000000000000100), (0, 0, 1700000000000000000)] uuid_generator_init
     = [Inr u, Inr v, Inr u] \<longleftrightarrow>
   u = makeTimeUUIDFrom 139192928000000000 0 0x100000002 \<and> v = makeTimeUUIDFrom 139192928000000001 0 0x100000002"
  by (auto simp: makeTimeUUID_def uuid_generator_init_def toTimeUUIDTimestamp_def EpochSinceUUID1TimestampBase_def
      MaxClockId_def signed_divide_int_def Let_def)

text \<open>The separators of the text are not looked at.\<close>

lemma separators_ignored:
  "strToUUID (map (of_nat \<circ> of_char) ''00112233x4455y6677z8899_aabbccddeeff'') = Inr (0x0011223344556677, 0x8899aabbccddeeff)"
  by code_simp

end
