(* ===== verification/Column_Payload.thy ===== *)
theory Column_Payload
  imports Result_Metadata
begin

text \<open>
  The payload objects of \<^verbatim>\<open>ProtocolColumnOption\<close>: the accessors that turn the bytes of an option into a
  payload object and back. A payload object is local to its accessor, but decoding the options in it goes through the
  static objects of \<^verbatim>\<open>ProtocolColumnOption::decode\<close>, so a reader threads their store.
\<close>

section \<open>Decoding payload objects\<close>

type_synonym 'p payload_decoder = "option_store \<Rightarrow> bytes \<Rightarrow> ('p \<times> option_store \<times> bytes) result"

definition custom_payload_decode :: "sized_string payload_decoder" where
  "custom_payload_decode st bs = rbind (string_decode bs) (\<lambda>(value, bs). Inr (value, st, bs))"

definition list_payload_decode :: "column_option payload_decoder" where
  "list_payload_decode = column_option_decode"

definition map_payload_decode :: "(column_option \<times> column_option) payload_decoder" where
  "map_payload_decode st bs =
     rbind (column_option_decode st bs) (\<lambda>(keyType, st, bs).
     rbind (column_option_decode st bs) (\<lambda>(valueType, st, bs). Inr ((keyType, valueType), st, bs)))"

definition set_payload_decode :: "column_option payload_decoder" where
  "set_payload_decode = column_option_decode"

fun udt_fields_decode :: "nat \<Rightarrow> (sized_string \<times> column_option) list payload_decoder" where
  "udt_fields_decode 0 st bs = Inr ([], st, bs)"
| "udt_fields_decode (Suc n) st bs =
     rbind (string_decode bs) (\<lambda>(name, bs).
     rbind (column_option_decode st bs) (\<lambda>(type, st, bs).
     rbind (udt_fields_decode n st bs) (\<lambda>(fields, st, bs). Inr ((name, type) # fields, st, bs))))"

definition udt_payload_decode :: "udt_payload payload_decoder" where
  "udt_payload_decode st bs =
     rbind (string_decode bs) (\<lambda>(keySpace, bs).
     rbind (string_decode bs) (\<lambda>(udtName, bs).
     rbind (int_decode bs) (\<lambda>(fieldsLength :: u16, bs).
     rbind (udt_fields_decode (unat fieldsLength) st bs) (\<lambda>(fields, st, bs).
     Inr (\<lparr>udt_keySpace = keySpace, udt_udtName = udtName, udt_fields = fields\<rparr>, st, bs)))))"

fun tuple_types_decode :: "nat \<Rightarrow> column_option list payload_decoder" where
  "tuple_types_decode 0 st bs = Inr ([], st, bs)"
| "tuple_types_decode (Suc n) st bs =
     rbind (column_option_decode st bs) (\<lambda>(type, st, bs).
     rbind (tuple_types_decode n st bs) (\<lambda>(types, st, bs). Inr (type # types, st, bs)))"

definition tuple_payload_decode :: "column_option list payload_decoder" where
  "tuple_payload_decode st bs =
     rbind (int_decode bs) (\<lambda>(fieldsLength :: u16, bs). tuple_types_decode (unat fieldsLength) st bs)"

section \<open>The accessors\<close>

text \<open>
  The accessors differ in the type they ask for and in the payload class. What follows the payload in the bytes of the
  option is ignored.
\<close>

definition co_getPayload :: "u16 \<Rightarrow> 'p payload_decoder \<Rightarrow> column_option \<Rightarrow> option_store \<Rightarrow> ('p \<times> option_store) result" where
  "co_getPayload ty dec opt st =
     (if co_type opt \<noteq> ty then Inl LogicException
      else rbind (dec st (co_payload opt)) (\<lambda>(payload, st, rest). Inr (payload, st)))"

definition co_setPayload :: "u16 \<Rightarrow> 'p encoder \<Rightarrow> 'p \<Rightarrow> column_option \<Rightarrow> column_option result" where
  "co_setPayload ty enc payload opt =
     (if co_type opt \<noteq> ty then Inl LogicException
      else rbind (enc payload []) (\<lambda>bs. Inr (opt\<lparr>co_payload := bs\<rparr>)))"

definition getCustomPayload :: "column_option \<Rightarrow> option_store \<Rightarrow> (sized_string \<times> option_store) result" where
  "getCustomPayload = co_getPayload CT_Custom custom_payload_decode"

definition setCustomPayload :: "sized_string \<Rightarrow> column_option \<Rightarrow> column_option result" where
  "setCustomPayload = co_setPayload CT_Custom custom_payload_encode"

definition getListPayload :: "column_option \<Rightarrow> option_store \<Rightarrow> (column_option \<times> option_store) result" where
  "getListPayload = co_getPayload CT_List list_payload_decode"

definition setListPayload :: "column_option \<Rightarrow> column_option \<Rightarrow> column_option result" where
  "setListPayload = co_setPayload CT_List list_payload_encode"

definition getMapPayload :: "column_option \<Rightarrow> option_store \<Rightarrow> ((column_option \<times> column_option) \<times> option_store) result" where
  "getMapPayload = co_getPayload CT_Map map_payload_decode"

definition setMapPayload :: "column_option \<times> column_option \<Rightarrow> column_option \<Rightarrow> column_option result" where
  "setMapPayload = co_setPayload CT_Map map_payload_encode"

definition getSetPayload :: "column_option \<Rightarrow> option_store \<Rightarrow> (column_option \<times> option_store) result" where
  "getSetPayload = co_getPayload CT_Set set_payload_decode"

definition setSetPayload :: "column_option \<Rightarrow> column_option \<Rightarrow> column_option result" where
  "setSetPayload = co_setPayload CT_Set set_payload_encode"

definition getUDTPayload :: "column_option \<Rightarrow> option_store \<Rightarrow> (udt_payload \<times> option_store) result" where
  "getUDTPayload = co_getPayload CT_UDT udt_payload_decode"

definition setUDTPayload :: "udt_payload \<Rightarrow> column_option \<Rightarrow> column_option result" where
  "setUDTPayload = co_setPayload CT_UDT udt_payload_encode"

definition getTuplePayload :: "column_option \<Rightarrow> option_store \<Rightarrow> (column_option list \<times> option_store) result" where
  "getTuplePayload = co_getPayload CT_Tuple tuple_payload_decode"

definition setTuplePayload :: "column_option list \<Rightarrow> column_option \<Rightarrow> column_option result" where
  "setTuplePayload = co_setPayload CT_Tuple tuple_payload_encode"

text \<open>The constructors: the type alone, or the type of a payload and then the payload.\<close>

definition co_of_type :: "u16 \<Rightarrow> column_option" where
  "co_of_type ty = co_set ty co_init"

definition co_of_custom :: "sized_string \<Rightarrow> column_option result" where
  "co_of_custom payload = setCustomPayload payload (co_set CT_Custom co_init)"

definition co_of_list :: "column_option \<Rightarrow> column_option result" where
  "co_of_list payload = setListPayload payload (co_set CT_List co_init)"

definition co_of_map :: "column_option \<times> column_option \<Rightarrow> column_option result" where
  "co_of_map payload = setMapPayload payload (co_set CT_Map co_init)"

definition co_of_set :: "column_option \<Rightarrow> column_option result" where
  "co_of_set payload = setSetPayload payload (co_set CT_Set co_init)"

definition co_of_udt :: "udt_payload \<Rightarrow> column_option result" where
  "co_of_udt payload = setUDTPayload payload (co_set CT_UDT co_init)"

definition co_of_tuple :: "column_option list \<Rightarrow> column_option result" where
  "co_of_tuple payload = setTuplePayload payload (co_set CT_Tuple co_init)"

section \<open>The contract of a payload class\<close>

text \<open>
  What the accessors rely on: a payload that the protocol can carry is written as its wire format, and decoding the wire
  format gives it back whatever the static objects hold.
\<close>

locale payload_class =
  fixes ty :: u16 and enc :: "'p encoder" and dec :: "'p payload_decoder"
    and ok :: "'p \<Rightarrow> bool" and wire :: "'p \<Rightarrow> bytes"
  assumes writes: "ok p \<Longrightarrow> enc p [] = Inr (wire p)"
    and reads: "ok p \<Longrightarrow> \<exists>st'. dec st (wire p @ rest) = Inr (p, st', rest)"
begin

lemma wrong_type:
  assumes "co_type opt \<noteq> ty"
  shows "co_getPayload ty dec opt st = Inl LogicException" "co_setPayload ty enc p opt = Inl LogicException"
  using assms by (simp_all add: co_getPayload_def co_setPayload_def)

lemma get_wire: "ok p \<Longrightarrow> \<exists>st'. co_getPayload ty dec \<lparr>co_type = ty, co_payload = wire p @ rest\<rparr> st = Inr (p, st')"
  using reads [of p st rest] by (auto simp: co_getPayload_def)

lemma set_get:
  assumes "ok p" "co_type opt = ty"
  obtains opt' st' where "co_setPayload ty enc p opt = Inr opt'" "co_type opt' = ty"
    "co_getPayload ty dec opt' st = Inr (p, st')"
proof -
  from reads [OF assms(1), of st "[]"] obtain st' where "dec st (wire p) = Inr (p, st', [])" by auto
  with assms writes [OF assms(1)] show thesis
    by (intro that [of "opt\<lparr>co_payload := wire p\<rparr>" st']) (simp_all add: co_setPayload_def co_getPayload_def)
qed

lemma construct: "ok p \<Longrightarrow> co_setPayload ty enc p (co_set ty co_init) = Inr \<lparr>co_type = ty, co_payload = wire p\<rparr>"
  by (simp add: co_setPayload_def co_set_def writes)

end

section \<open>The payload classes meet it\<close>

definition option_ok :: "column_option \<Rightarrow> bool" where
  "option_ok opt \<longleftrightarrow> (\<exists>t. ct_ok t \<and> ct_nodup t \<and> opt = ct_option t)"

definition option_wire :: "column_option \<Rightarrow> bytes" where
  "option_wire opt = int_wire (co_type opt) @ co_payload opt"

lemma option_wire_option [simp]: "option_wire (ct_option t) = ct_wire t"
  by (simp add: option_wire_def ct_option_def ct_wire_def)

lemma option_encode: "option_ok opt \<Longrightarrow> column_option_encode opt data = Inr (data @ option_wire opt)"
  by (auto simp: option_ok_def column_option_encode_wire)

lemma option_decode:
  assumes "option_ok opt"
  obtains st' where "column_option_decode st (option_wire opt @ rest) = Inr (opt, st', rest)"
  using assms unfolding option_ok_def by (metis column_option_decode_wire option_wire_option)

lemma options_encode: "list_all option_ok opts \<Longrightarrow> encode_each column_option_encode opts data = Inr (data @ concat (map option_wire opts))"
  by (induction opts arbitrary: data) (simp_all add: option_encode)

lemma options_decode:
  assumes "list_all option_ok opts"
  obtains st' where "tuple_types_decode (length opts) st (concat (map option_wire opts) @ rest) = Inr (opts, st', rest)"
  using assms
proof (induction opts arbitrary: st thesis)
  case Nil
  then show ?case by simp
next
  case (Cons opt opts)
  from Cons.prems(2) obtain st1 where
    first: "column_option_decode st (option_wire opt @ concat (map option_wire opts) @ rest) = Inr (opt, st1, concat (map option_wire opts) @ rest)"
    by (auto elim: option_decode [where st = st])
  from Cons.prems(2) obtain st2 where "tuple_types_decode (length opts) st1 (concat (map option_wire opts) @ rest) = Inr (opts, st2, rest)"
    using Cons.IH [of st1] by auto
  with first show ?case by (intro Cons.prems(1)) simp
qed

definition named_wire :: "sized_string \<times> column_option \<Rightarrow> bytes" where
  "named_wire f = short_wire (fst f) @ option_wire (snd f)"

definition named_ok :: "sized_string \<times> column_option \<Rightarrow> bool" where
  "named_ok f \<longleftrightarrow> string_ok (fst f) \<and> option_ok (snd f)"

lemma fields_encode:
  "list_all named_ok fs \<Longrightarrow> encode_each (pair_encode string_encode column_option_encode) fs data = Inr (data @ concat (map named_wire fs))"
  by (induction fs arbitrary: data)
    (auto simp: named_ok_def named_wire_def string_codec.enc_wire option_encode)

lemma fields_decode:
  assumes "list_all named_ok fs"
  obtains st' where "udt_fields_decode (length fs) st (concat (map named_wire fs) @ rest) = Inr (fs, st', rest)"
  using assms
proof (induction fs arbitrary: st thesis)
  case Nil
  then show ?case by simp
next
  case (Cons f fs)
  let ?more = "concat (map named_wire fs) @ rest"
  from Cons.prems(2) have f: "string_ok (fst f)" "option_ok (snd f)" by (simp_all add: named_ok_def)
  from f(2) obtain st1 where type: "column_option_decode st (option_wire (snd f) @ ?more) = Inr (snd f, st1, ?more)"
    by (rule option_decode)
  from Cons.prems(2) obtain st2 where "udt_fields_decode (length fs) st1 ?more = Inr (fs, st2, rest)"
    using Cons.IH [of st1] by auto
  with type f(1) show ?case by (intro Cons.prems(1)) (simp add: named_wire_def [of f] string_codec.dec_wire)
qed

interpretation custom_payload: payload_class CT_Custom custom_payload_encode custom_payload_decode string_ok short_wire
  by unfold_locales (simp_all add: custom_payload_encode_def custom_payload_decode_def string_codec.enc_wire string_codec.dec_wire)

interpretation list_payload: payload_class CT_List list_payload_encode list_payload_decode option_ok option_wire
  by unfold_locales (auto simp: list_payload_encode_def list_payload_decode_def option_encode elim: option_decode)

interpretation set_payload: payload_class CT_Set set_payload_encode set_payload_decode option_ok option_wire
  by unfold_locales (auto simp: set_payload_encode_def set_payload_decode_def option_encode elim: option_decode)

definition map_payload_wire :: "column_option \<times> column_option \<Rightarrow> bytes" where
  "map_payload_wire p = option_wire (fst p) @ option_wire (snd p)"

interpretation map_payload: payload_class CT_Map map_payload_encode map_payload_decode "\<lambda>(k, v). option_ok k \<and> option_ok v" map_payload_wire
proof unfold_locales
  show "map_payload_encode p [] = Inr (map_payload_wire p)" if "case p of (k, v) \<Rightarrow> option_ok k \<and> option_ok v" for p
    using that by (auto simp: map_payload_encode_def option_encode map_payload_wire_def)
  show "\<exists>st'. map_payload_decode st (map_payload_wire p @ rest) = Inr (p, st', rest)" if ok: "case p of (k, v) \<Rightarrow> option_ok k \<and> option_ok v"
    for p st rest
  proof -
    obtain k v where p: "p = (k, v)" "option_ok k" "option_ok v" using ok by (cases p) auto
    from p(2) obtain st1 where k: "column_option_decode st (option_wire k @ option_wire v @ rest) = Inr (k, st1, option_wire v @ rest)"
      by (rule option_decode)
    from p(3) obtain st2 where "column_option_decode st1 (option_wire v @ rest) = Inr (v, st2, rest)" by (rule option_decode)
    with k p(1) show ?thesis by (simp add: map_payload_decode_def map_payload_wire_def)
  qed
qed

definition udt_payload_ok :: "udt_payload \<Rightarrow> bool" where
  "udt_payload_ok p \<longleftrightarrow>
     string_ok (udt_keySpace p) \<and> string_ok (udt_udtName p) \<and> length (udt_fields p) \<le> 65535 \<and> list_all named_ok (udt_fields p)"

definition udt_payload_wire :: "udt_payload \<Rightarrow> bytes" where
  "udt_payload_wire p =
     short_wire (udt_keySpace p) @ short_wire (udt_udtName p) @ int_wire (word_of_nat (length (udt_fields p)) :: u16) @
     concat (map named_wire (udt_fields p))"

interpretation udt_payload: payload_class CT_UDT udt_payload_encode udt_payload_decode udt_payload_ok udt_payload_wire
proof unfold_locales
  show "udt_payload_encode p [] = Inr (udt_payload_wire p)" if "udt_payload_ok p" for p
    using that by (simp add: udt_payload_encode_def udt_payload_ok_def udt_payload_wire_def Let_def string_codec.enc_wire
        codec_simps fields_encode)
  show "\<exists>st'. udt_payload_decode st (udt_payload_wire p @ rest) = Inr (p, st', rest)" if ok: "udt_payload_ok p" for p st rest
  proof -
    obtain st' where "udt_fields_decode (length (udt_fields p)) st (concat (map named_wire (udt_fields p)) @ rest) =
        Inr (udt_fields p, st', rest)"
      using ok by (auto simp: udt_payload_ok_def elim: fields_decode)
    with ok show ?thesis
      by (simp add: udt_payload_decode_def udt_payload_ok_def udt_payload_wire_def string_codec.dec_wire codec_simps)
  qed
qed

definition tuple_payload_wire :: "column_option list \<Rightarrow> bytes" where
  "tuple_payload_wire opts = int_wire (word_of_nat (length opts) :: u16) @ concat (map option_wire opts)"

interpretation tuple_payload: payload_class CT_Tuple tuple_payload_encode tuple_payload_decode
  "\<lambda>opts. length opts \<le> 65535 \<and> list_all option_ok opts" tuple_payload_wire
proof unfold_locales
  show "tuple_payload_encode opts [] = Inr (tuple_payload_wire opts)" if "length opts \<le> 65535 \<and> list_all option_ok opts" for opts
    using that by (simp add: tuple_payload_encode_def tuple_payload_wire_def Let_def codec_simps options_encode)
  show "\<exists>st'. tuple_payload_decode st (tuple_payload_wire opts @ rest) = Inr (opts, st', rest)"
    if ok: "length opts \<le> 65535 \<and> list_all option_ok opts" for opts st rest
  proof -
    obtain st' where "tuple_types_decode (length opts) st (concat (map option_wire opts) @ rest) = Inr (opts, st', rest)"
      using ok by (auto elim: options_decode)
    with ok show ?thesis by (simp add: tuple_payload_decode_def tuple_payload_wire_def codec_simps)
  qed
qed

section \<open>Reading the parts of a column type\<close>

definition udt_parts :: "bytes \<Rightarrow> bytes \<Rightarrow> (bytes \<times> ctype) list \<Rightarrow> udt_payload" where
  "udt_parts ks n fs =
     \<lparr>udt_keySpace = normal ks, udt_udtName = normal n, udt_fields = map (\<lambda>f. (normal (fst f), ct_option (snd f))) fs\<rparr>"

lemma udt_parts_wire [simp]: "udt_payload_wire (udt_parts ks n fs) = ct_payload (TUdt ks n fs)"
proof -
  have "map (named_wire \<circ> (\<lambda>f. (normal (fst f), ct_option (snd f)))) fs = map field_wire fs"
    by (simp add: named_wire_def field_wire_def)
  then show ?thesis by (simp only: udt_payload_wire_def udt_parts_def udt_payload.select_convs map_map length_map ct_payload_udt)
qed

lemma tuple_parts_wire [simp]: "tuple_payload_wire (map ct_option ts) = ct_payload (TTuple ts)"
proof -
  have "map (option_wire \<circ> ct_option) ts = map ct_wire ts" by simp
  then show ?thesis by (simp only: tuple_payload_wire_def map_map length_map ct_payload_tuple)
qed

lemma map_parts_wire [simp]: "map_payload_wire (ct_option k, ct_option v) = ct_payload (TMap k v)"
  by (simp add: ct_wire_def map_payload_wire_def)

lemma option_ok_option: "ct_ok t \<Longrightarrow> ct_nodup t \<Longrightarrow> option_ok (ct_option t)"
  by (auto simp: option_ok_def)

lemma parts_ok:
  "ct_ok (TUdt ks n fs) \<Longrightarrow> ct_nodup (TUdt ks n fs) \<Longrightarrow> udt_payload_ok (udt_parts ks n fs)"
  "ct_ok (TTuple ts) \<Longrightarrow> ct_nodup (TTuple ts) \<Longrightarrow> list_all option_ok (map ct_option ts)"
  by (fastforce simp: udt_payload_ok_def udt_parts_def named_ok_def list_all_iff intro: option_ok_option)+

lemmas payload_accessors =
  getCustomPayload_def setCustomPayload_def getListPayload_def setListPayload_def getMapPayload_def setMapPayload_def
  getSetPayload_def setSetPayload_def getUDTPayload_def setUDTPayload_def getTuplePayload_def setTuplePayload_def

lemmas payload_constructors =
  co_of_custom_def co_of_list_def co_of_map_def co_of_set_def co_of_udt_def co_of_tuple_def

text \<open>What the accessors of an option give for a type: its parts, and an exception from the accessors of other types.\<close>

definition reads_parts :: "ctype \<Rightarrow> column_option \<Rightarrow> option_store \<Rightarrow> bool" where
  "reads_parts t opt st \<longleftrightarrow>
     (case t of
        TScalar ty \<Rightarrow> getCustomPayload opt st = Inl LogicException \<and> getListPayload opt st = Inl LogicException \<and>
          getMapPayload opt st = Inl LogicException \<and> getSetPayload opt st = Inl LogicException \<and>
          getUDTPayload opt st = Inl LogicException \<and> getTuplePayload opt st = Inl LogicException
      | TCustom b \<Rightarrow> (\<exists>st'. getCustomPayload opt st = Inr (normal b, st'))
      | TList e \<Rightarrow> (\<exists>st'. getListPayload opt st = Inr (ct_option e, st'))
      | TMap k v \<Rightarrow> (\<exists>st'. getMapPayload opt st = Inr ((ct_option k, ct_option v), st'))
      | TSet e \<Rightarrow> (\<exists>st'. getSetPayload opt st = Inr (ct_option e, st'))
      | TUdt ks n fs \<Rightarrow> (\<exists>st'. getUDTPayload opt st = Inr (udt_parts ks n fs, st'))
      | TTuple ts \<Rightarrow> (\<exists>st'. getTuplePayload opt st = Inr (map ct_option ts, st')))"

text \<open>The option that the constructor for a payload makes out of the parts of a type.\<close>

definition option_of_parts :: "ctype \<Rightarrow> column_option result" where
  "option_of_parts t =
     (case t of
        TScalar ty \<Rightarrow> Inr (co_of_type ty)
      | TCustom b \<Rightarrow> co_of_custom (normal b)
      | TList e \<Rightarrow> co_of_list (ct_option e)
      | TMap k v \<Rightarrow> co_of_map (ct_option k, ct_option v)
      | TSet e \<Rightarrow> co_of_set (ct_option e)
      | TUdt ks n fs \<Rightarrow> co_of_udt (udt_parts ks n fs)
      | TTuple ts \<Rightarrow> co_of_tuple (map ct_option ts))"

lemma option_of_parts_option:
  assumes "ct_ok t" "ct_nodup t"
  shows "option_of_parts t = Inr (ct_option t)"
proof (cases t)
  case (TScalar ty)
  then show ?thesis by (simp add: option_of_parts_def co_of_type_def co_set_def ct_option_def)
next
  case (TCustom b)
  then show ?thesis using assms custom_payload.construct [of "normal b"]
    by (simp add: option_of_parts_def payload_constructors payload_accessors ct_option_def)
next
  case (TList e)
  then show ?thesis using assms list_payload.construct [of "ct_option e"] option_ok_option [of e]
    by (simp add: option_of_parts_def payload_constructors payload_accessors ct_option_def [of "TList e"] ct_wire_def)
next
  case (TMap k v)
  then show ?thesis using assms map_payload.construct [of "(ct_option k, ct_option v)"] option_ok_option [of k] option_ok_option [of v]
    by (simp add: option_of_parts_def payload_constructors payload_accessors ct_option_def [of "TMap k v"] del: ct_payload.simps)
next
  case (TSet e)
  then show ?thesis using assms set_payload.construct [of "ct_option e"] option_ok_option [of e]
    by (simp add: option_of_parts_def payload_constructors payload_accessors ct_option_def [of "TSet e"] ct_wire_def)
next
  case (TUdt ks n fs)
  then show ?thesis using assms parts_ok(1) [of ks n fs] udt_payload.construct [of "udt_parts ks n fs"]
    by (simp add: option_of_parts_def payload_constructors payload_accessors ct_option_def [of "TUdt ks n fs"] del: ct_payload.simps)
next
  case (TTuple ts)
  then show ?thesis using assms parts_ok(2) [of ts] tuple_payload.construct [of "map ct_option ts"]
    by (simp add: option_of_parts_def payload_constructors payload_accessors ct_option_def [of "TTuple ts"] del: ct_payload.simps)
qed

lemma reads_parts_option:
  assumes "ct_ok t" "ct_nodup t"
  shows "reads_parts t (ct_option t) st"
proof (cases t)
  case (TScalar ty)
  with assms have "\<not> requires_payload ty" by simp
  then show ?thesis using TScalar by (simp add: reads_parts_def payload_accessors co_getPayload_def ct_option_def requires_payload_def)
next
  case (TCustom b)
  then show ?thesis using assms custom_payload.get_wire [of "normal b" "[]" st]
    by (simp add: reads_parts_def payload_accessors ct_option_def)
next
  case (TList e)
  then show ?thesis using assms list_payload.get_wire [of "ct_option e" "[]" st] option_ok_option [of e]
    by (simp add: reads_parts_def payload_accessors ct_option_def [of "TList e"] ct_wire_def)
next
  case (TMap k v)
  then show ?thesis using assms map_payload.get_wire [of "(ct_option k, ct_option v)" "[]" st] option_ok_option [of k] option_ok_option [of v]
    by (simp add: reads_parts_def payload_accessors ct_option_def [of "TMap k v"] del: ct_payload.simps)
next
  case (TSet e)
  then show ?thesis using assms set_payload.get_wire [of "ct_option e" "[]" st] option_ok_option [of e]
    by (simp add: reads_parts_def payload_accessors ct_option_def [of "TSet e"] ct_wire_def)
next
  case (TUdt ks n fs)
  then show ?thesis using assms parts_ok(1) [of ks n fs] udt_payload.get_wire [of "udt_parts ks n fs" "[]" st]
    by (simp add: reads_parts_def payload_accessors ct_option_def [of "TUdt ks n fs"] del: ct_payload.simps)
next
  case (TTuple ts)
  then show ?thesis using assms parts_ok(2) [of ts] tuple_payload.get_wire [of "map ct_option ts" "[]" st]
    by (simp add: reads_parts_def payload_accessors ct_option_def [of "TTuple ts"] del: ct_payload.simps)
qed

text \<open>
  C28: The type of a column can be taken apart and put together: whatever type the server described, unless it nests a
  collection in one of its own kind, the accessors of the decoded option give its parts, the accessors of other types
  refuse, and an option made of these parts is the decoded one and is written as the server wrote it.
\<close>

theorem column_type_parts:
  assumes "ct_ok t" "ct_nodup t"
  shows "\<exists>opt st'. column_option_decode st (ct_wire t @ rest) = Inr (opt, st', rest) \<and> reads_parts t opt st' \<and>
    option_of_parts t = Inr opt \<and> column_option_encode opt [] = Inr (ct_wire t)"
proof -
  obtain st' where "column_option_decode st (ct_wire t @ rest) = Inr (ct_option t, st', rest)"
    by (rule column_option_decode_wire [OF assms])
  with reads_parts_option [OF assms] option_of_parts_option [OF assms] column_option_encode_wire [OF assms(1), of "[]"]
  show ?thesis by auto
qed

theorem column_type_parts_witness:
  "\<exists>opt st'. column_option_decode os_init (ct_wire (TMap (TScalar CT_Int) (TList (TScalar CT_VarChar))) @ [1]) = Inr (opt, st', [1]) \<and>
    reads_parts (TMap (TScalar CT_Int) (TList (TScalar CT_VarChar))) opt st' \<and>
    option_of_parts (TMap (TScalar CT_Int) (TList (TScalar CT_VarChar))) = Inr opt \<and>
    column_option_encode opt [] = Inr (ct_wire (TMap (TScalar CT_Int) (TList (TScalar CT_VarChar))))"
  by (rule column_type_parts) (simp_all add: requires_payload_def CT_defs)

end
