(* ===== verification/Mem_Ref.thy ===== *)
theory Mem_Ref
  imports Result_Rows
begin

text \<open>
  \<^verbatim>\<open>MemRef\<close>, the column type that does not own its bytes: a pointer and a size. Filling one from a row
  copies nothing, it points into the buffer of the result set. The model has a memory of blocks, a pointer is a block and
  an offset, and reading through a pointer into a block that was freed is undefined.
\<close>

section \<open>Memory references\<close>

type_synonym pointer = "(nat \<times> nat) option"

type_synonym memory = "nat \<rightharpoonup> bytes"

definition mem_read :: "memory \<Rightarrow> pointer \<Rightarrow> nat \<Rightarrow> bytes result" where
  "mem_read mem ptr n =
     (if n = 0 then Inr []
      else case ptr of
        None \<Rightarrow> Inl UndefinedBehaviour
      | Some (k, i) \<Rightarrow>
          (case mem k of
             None \<Rightarrow> Inl UndefinedBehaviour
           | Some block \<Rightarrow> if i + n \<le> length block then Inr (take n (drop i block)) else Inl UndefinedBehaviour))"

record mem_ref =
  mr_data :: pointer
  mr_size :: nat

definition mr_init :: mem_ref where
  "mr_init = \<lparr>mr_data = None, mr_size = 0\<rparr>"

definition mr_set :: "pointer \<Rightarrow> nat \<Rightarrow> mem_ref \<Rightarrow> mem_ref" where
  "mr_set ptr n m = m\<lparr>mr_data := ptr, mr_size := n\<rparr>"

text \<open>A string literal: an array with a terminating zero, which is not part of the value.\<close>

definition mr_set_literal :: "pointer \<Rightarrow> nat \<Rightarrow> mem_ref \<Rightarrow> mem_ref" where
  "mr_set_literal ptr n m = m\<lparr>mr_data := ptr, mr_size := n - 1\<rparr>"

definition mr_empty :: "mem_ref \<Rightarrow> bool" where
  "mr_empty m \<longleftrightarrow> mr_size m = 0"

definition mr_reset :: "mem_ref \<Rightarrow> mem_ref" where
  "mr_reset m = m\<lparr>mr_data := None, mr_size := 0\<rparr>"

definition mr_encodeBody :: "memory \<Rightarrow> mem_ref \<Rightarrow> bytes \<Rightarrow> bytes result" where
  "mr_encodeBody mem m data = rbind (mem_read mem (mr_data m) (mr_size m)) (\<lambda>bs. Inr (data @ bs))"

definition mr_decodeBody :: "pointer \<Rightarrow> int \<Rightarrow> mem_ref \<Rightarrow> mem_ref" where
  "mr_decodeBody ptr n m = (if n \<ge> 0 then m\<lparr>mr_data := ptr, mr_size := nat n\<rparr> else m)"

text \<open>What a program that looks at the reference sees, as \<^verbatim>\<open>operator<<\<close> does.\<close>

definition mr_view :: "memory \<Rightarrow> mem_ref \<Rightarrow> bytes result" where
  "mr_view mem m = mem_read mem (mr_data m) (mr_size m)"

section \<open>Filling references\<close>

text \<open>
  \<^verbatim>\<open>ColumnTrait<MemRef>::decode\<close>: the template of \<open>trait_decode\<close> with the pointer kept. \<open>bs\<close> are the
  bytes from the pointer to the end.
\<close>

definition mr_trait_decode :: "nat \<Rightarrow> nat \<Rightarrow> bytes \<Rightarrow> mem_ref \<Rightarrow> (mem_ref \<times> nat) result" where
  "mr_trait_decode k i bs m =
     (if length bs < 4 then Inl DecodeException
      else if body_size bs \<ge> 0 then
        (if int (length bs) < 4 + body_size bs then Inl DecodeException
         else Inr (mr_decodeBody (Some (k, i + 4)) (body_size bs) m, i + 4 + nat (body_size bs)))
      else Inl DecodeException)"

text \<open>\<^verbatim>\<open>fill\<close> of one reference, when the buffer of the result set is block \<open>k\<close>.\<close>

definition rs_fill_ref :: "nat \<Rightarrow> result_set \<Rightarrow> mem_ref \<Rightarrow> (mem_ref \<times> result_set) result" where
  "rs_fill_ref k rs m =
     (case rs of
        None \<Rightarrow> Inl UndefinedBehaviour
      | Some d \<Rightarrow>
          (case (rsd_buffer d, rsd_decodePtr d, rsd_decodeEnd d) of
             (Some b, Some p, Some e) \<Rightarrow>
               rbind (mr_trait_decode k p (drop p (take e b)) m) (\<lambda>(m, p). Inr (m, Some (d\<lparr>rsd_decodePtr := Some p\<rparr>)))
           | _ \<Rightarrow> Inl UndefinedBehaviour))"

fun rs_fill_refs :: "nat \<Rightarrow> mem_ref list \<Rightarrow> result_set \<Rightarrow> (mem_ref list \<times> result_set) result" where
  "rs_fill_refs k [] rs = Inr ([], rs)"
| "rs_fill_refs k (m # ms) rs =
     rbind (rs_fill_ref k rs m) (\<lambda>(m, rs).
     rbind (rs_fill_refs k ms rs) (\<lambda>(ms, rs). Inr (m # ms, rs)))"

section \<open>References and copies agree\<close>

definition blob_row :: "(bytes \<times> unit) pack" where
  "blob_row = pack_cons (trait string_type) pack_nil"

text \<open>A reference into a block names \<open>v\<close>: reading it gives \<open>v\<close> as long as the block is there.\<close>

definition names :: "nat \<Rightarrow> bytes \<Rightarrow> mem_ref \<Rightarrow> bytes \<Rightarrow> bool" where
  "names k block m v \<longleftrightarrow>
     (\<exists>i. mr_data m = Some (k, i) \<and> mr_size m = length v \<and> i + length v \<le> length block \<and> take (length v) (drop i block) = v)"

lemma names_view:
  assumes "names k block m v"
  shows "mem k = Some block \<Longrightarrow> mr_view mem m = Inr v"
    and "mem k = None \<Longrightarrow> v \<noteq> [] \<Longrightarrow> mr_view mem m = Inl UndefinedBehaviour"
  using assms by (auto simp: names_def mr_view_def mem_read_def)

lemma names_encode: "names k block m v \<Longrightarrow> mem k = Some block \<Longrightarrow> mr_encodeBody mem m data = Inr (ct_encodeBody string_type v data)"
  using names_view(1) [of k block m v mem] by (simp add: mr_encodeBody_def mr_view_def string_type_def)

lemma part_of_block:
  assumes "m + n \<le> length (drop i (take j b))" "0 < m"
  shows "take n (drop m (drop i (take j b))) = take n (drop (i + m) b) \<and> i + m + n \<le> length b"
proof -
  have "i + m + n \<le> j" "i + m + n \<le> length b" using assms by auto
  then show ?thesis by (simp add: drop_take add.commute)
qed

lemma fill_ref_blob:
  assumes "rs = Some d" "rsd_buffer d = Some b"
  shows "case rs_fill blob_row rs w of
      Inl e \<Rightarrow> rs_fill_ref k rs m = Inl e
    | Inr ((v, u), rs') \<Rightarrow> \<exists>m'. rs_fill_ref k rs m = Inr (m', rs') \<and> names k b m' v \<and> (\<exists>d'. rs' = Some d' \<and> rsd_buffer d' = Some b)"
proof (cases "(rsd_decodePtr d, rsd_decodeEnd d)")
  case (Pair p e)
  show ?thesis
  proof (cases "\<exists>i j. p = Some i \<and> e = Some j")
    case False
    then show ?thesis using Pair assms by (auto simp: rs_fill_def rs_fill_ref_def split: option.splits)
  next
    case True
    then obtain i j where ij: "rsd_decodePtr d = Some i" "rsd_decodeEnd d = Some j" using Pair by auto
    let ?bs = "drop i (take j b)"
    let ?n = "nat (body_size ?bs)"
    have part: "take ?n (drop 4 ?bs) = take ?n (drop (i + 4) b) \<and> i + 4 + ?n \<le> length b" if "4 + ?n \<le> length ?bs"
      using part_of_block [OF that] by simp
    show ?thesis
      using assms ij part
      by (cases w) (auto simp: rs_fill_def rs_fill_ref_def blob_row_def pack_cons_def pack_nil_def trait_def trait_decode_def
        string_type_def mr_trait_decode_def mr_decodeBody_def names_def)
  qed
qed

lemma fill_refs_rows:
  assumes "rs = Some d" "rsd_buffer d = Some b"
  shows "case rs_fill_rows blob_row (length ms) rs w of
      Inl e \<Rightarrow> rs_fill_refs k ms rs = Inl e
    | Inr (vs, rs') \<Rightarrow> \<exists>ms'. rs_fill_refs k ms rs = Inr (ms', rs') \<and> list_all2 (\<lambda>m v. names k b m (fst v)) ms' vs"
  using assms
proof (induction ms arbitrary: rs d w)
  case Nil
  then show ?case by simp
next
  case (Cons m ms)
  from Cons.prems(1) show ?case using fill_ref_blob [OF Cons.prems, where w = w and k = k and m = m]
  proof (cases "rs_fill blob_row rs w")
    case (Inr r)
    then obtain v u rs1 where fill: "rs_fill blob_row rs w = Inr ((v, u), rs1)" by (cases r) auto
    with fill_ref_blob [OF Cons.prems, where w = w and k = k and m = m] obtain m' d1 where ref: "rs_fill_ref k rs m = Inr (m', rs1)" "names k b m' v"
      and d1: "rs1 = Some d1" "rsd_buffer d1 = Some b" by auto
    show ?thesis
      using Cons.IH [OF d1, where w = "(v, u)"] fill ref by (auto split: sum.splits)
  qed simp
qed

text \<open>
  C27: References and copies see the same rows: filling one reference for each row fails exactly when filling blobs does
  and with the same exception, moves the result set as far, and while the buffer of the result set is in memory, whatever
  happens to the rest of it, every reference reads as the value its row had. Once the buffer is freed, reading a
  reference to a value that was not empty is undefined.
\<close>

theorem references_read_rows:
  assumes "rs = Some d" "rsd_buffer d = Some block"
  shows "case rs_fill_rows blob_row (length ms) rs w of
      Inl e \<Rightarrow> rs_fill_refs k ms rs = Inl e
    | Inr (vs, rs') \<Rightarrow> \<exists>ms'. rs_fill_refs k ms rs = Inr (ms', rs') \<and>
        (\<forall>mem. mem k = Some block \<longrightarrow> map (mr_view mem) ms' = map (\<lambda>v. Inr (fst v)) vs) \<and>
        (\<forall>mem. mem k = None \<longrightarrow> list_all2 (\<lambda>m v. fst v \<noteq> [] \<longrightarrow> mr_view mem m = Inl UndefinedBehaviour) ms' vs)"
proof -
  have views: "map (mr_view mem) ms' = map (\<lambda>v. Inr (fst v)) vs" if "list_all2 (\<lambda>m v. names k block m (fst v)) ms' vs" "mem k = Some block"
    for mem ms' and vs :: "(bytes \<times> unit) list"
    using that by (induction rule: list_all2_induct) (simp_all add: names_view(1))
  have dangling: "list_all2 (\<lambda>m v. fst v \<noteq> [] \<longrightarrow> mr_view mem m = Inl UndefinedBehaviour) ms' vs"
    if "list_all2 (\<lambda>m v. names k block m (fst v)) ms' vs" "mem k = None" for mem ms' and vs :: "(bytes \<times> unit) list"
    using that(1) by (rule list_all2_mono) (use that(2) in \<open>auto simp: names_view(2)\<close>)
  show ?thesis
  proof (cases "rs_fill_rows blob_row (length ms) rs w")
    case (Inl e)
    then show ?thesis using fill_refs_rows [OF assms, where ms = ms and w = w and k = k] by simp
  next
    case (Inr r)
    obtain vs rs' where r: "r = (vs, rs')" by (cases r)
    with Inr fill_refs_rows [OF assms, where ms = ms and w = w and k = k] obtain ms' where "rs_fill_refs k ms rs = Inr (ms', rs')"
      "list_all2 (\<lambda>m v. names k block m (fst v)) ms' vs" by auto
    with views dangling show ?thesis using Inr r by auto
  qed
qed

text \<open>Two rows in a buffer at block 5, the second one empty.\<close>

definition borrowed_rows :: result_set where
  "borrowed_rows = Some (rsd_init\<lparr>rsd_buffer := Some [0, 0, 0, 2, 0x61, 0x62, 0, 0, 0, 0], rsd_decodePtr := Some 0, rsd_decodeEnd := Some 10\<rparr>)"

theorem references_read_rows_witness:
  "\<exists>ms' rs'. rs_fill_refs 5 [mr_init, mr_init] borrowed_rows = Inr (ms', rs') \<and>
    map (mr_view [5 \<mapsto> [0, 0, 0, 2, 0x61, 0x62, 0, 0, 0, 0], 6 \<mapsto> [1]]) ms' = [Inr [0x61, 0x62], Inr []] \<and>
    map (mr_view [6 \<mapsto> [1]]) ms' = [Inl UndefinedBehaviour, Inr []]"
proof -
  have fill: "rs_fill_rows blob_row (length [mr_init, mr_init]) borrowed_rows ([], ()) =
      Inr ([([0x61, 0x62], ()), ([], ())], Some (rsd_init\<lparr>rsd_buffer := Some [0, 0, 0, 2, 0x61, 0x62, 0, 0, 0, 0], rsd_decodePtr := Some 10, rsd_decodeEnd := Some 10\<rparr>))"
    by code_simp
  note * = references_read_rows [OF borrowed_rows_def, where block = "[0, 0, 0, 2, 0x61, 0x62, 0, 0, 0, 0]" and ms = "[mr_init, mr_init]" and w = "([], ())" and k = 5]
  have "map (mr_view [6 \<mapsto> [1]]) (fst (projr (rs_fill_refs 5 [mr_init, mr_init] borrowed_rows))) = [Inl UndefinedBehaviour, Inr []]"
    by code_simp
  with * fill show ?thesis by (auto simp: dest!: spec [of _ "[5 \<mapsto> [0, 0, 0, 2, 0x61, 0x62, 0, 0, 0, 0], 6 \<mapsto> [1]]"])
qed

end
