(* ===== verification/Prepared_Cache.thy ===== *)
theory Prepared_Cache
  imports Mem_Ref Configuration
begin

text \<open>
  The ids of prepared queries that a node remembers are kept in an unordered map from \<^verbatim>\<open>StringHolder\<close>. A key is
  copied from the command, and a holder that does not own its text copies the pointer. This theory looks at the map
  over the memory of \<open>Mem_Ref\<close> and relates it to the map of texts that \<open>Configuration\<close> has.
\<close>

section \<open>Holders in memory\<close>

text \<open>A holder owns its text or refers to bytes of a block.\<close>

datatype holder = Owned bytes | Referring nat nat nat

fun holder_size :: "holder \<Rightarrow> nat" where
  "holder_size (Owned str) = length str"
| "holder_size (Referring k i n) = n"

fun holder_get :: "memory \<Rightarrow> holder \<Rightarrow> bytes result" where
  "holder_get mem (Owned str) = Inr str"
| "holder_get mem (Referring k i n) = mem_read mem (Some (k, i)) n"

text \<open>Equal pointers and sizes are not read; different sizes are not read either.\<close>

fun same_data :: "holder \<Rightarrow> holder \<Rightarrow> bool" where
  "same_data (Referring k i n) (Referring k' i' n') \<longleftrightarrow> k = k' \<and> i = i'"
| "same_data a b \<longleftrightarrow> False"

definition holder_equal :: "memory \<Rightarrow> holder \<Rightarrow> holder \<Rightarrow> bool result" where
  "holder_equal mem a b =
     (if holder_size a = holder_size b \<and> same_data a b then Inr True
      else if holder_size a \<noteq> holder_size b then Inr False
      else rbind (holder_get mem a) (\<lambda>s. rbind (holder_get mem b) (\<lambda>t. Inr (s = t))))"

definition holder_hash :: "(bytes \<Rightarrow> u64) \<Rightarrow> memory \<Rightarrow> holder \<Rightarrow> u64 result" where
  "holder_hash h mem a = rbind (holder_get mem a) (\<lambda>s. Inr (h s))"

section \<open>The map\<close>

text \<open>An element has a key, the hash code stored with it, and the id. Only keys with the same code are compared.\<close>

type_synonym prepared_cache = "(holder \<times> u64 \<times> bytes) list"

fun cache_find :: "memory \<Rightarrow> holder \<Rightarrow> u64 \<Rightarrow> prepared_cache \<Rightarrow> nat option result" where
  "cache_find mem q code [] = Inr None"
| "cache_find mem q code ((key, c, pid) # rest) =
     (let next = rbind (cache_find mem q code rest) (\<lambda>r. Inr (map_option Suc r))
      in if c = code then rbind (holder_equal mem q key) (\<lambda>e. if e then Inr (Some 0) else next) else next)"

text \<open>\<^verbatim>\<open>operator[]\<close>: the position of the element, which is inserted with a copy of the key if there is none.\<close>

definition cache_at :: "(bytes \<Rightarrow> u64) \<Rightarrow> memory \<Rightarrow> holder \<Rightarrow> prepared_cache \<Rightarrow> (nat \<times> prepared_cache) result" where
  "cache_at h mem q cache =
     rbind (holder_hash h mem q) (\<lambda>code.
     rbind (cache_find mem q code cache) (\<lambda>r.
       case r of
         Some i \<Rightarrow> Inr (i, cache)
       | None \<Rightarrow> Inr (length cache, cache @ [(q, code, [])])))"

definition cache_get :: "(bytes \<Rightarrow> u64) \<Rightarrow> memory \<Rightarrow> holder \<Rightarrow> prepared_cache \<Rightarrow> (bytes \<times> prepared_cache) result" where
  "cache_get h mem q cache = rbind (cache_at h mem q cache) (\<lambda>(i, cache). Inr (snd (snd (cache ! i)), cache))"

definition cache_set :: "(bytes \<Rightarrow> u64) \<Rightarrow> memory \<Rightarrow> holder \<Rightarrow> bytes \<Rightarrow> prepared_cache \<Rightarrow> prepared_cache result" where
  "cache_set h mem q pid cache =
     rbind (cache_at h mem q cache) (\<lambda>(i, cache).
       case cache ! i of (key, code, old) \<Rightarrow> Inr (cache[i := (key, code, pid)]))"

text \<open>What happens to the map: lookups, assignments, and changes of the memory it does not control.\<close>

datatype cache_event = Lookup holder | Assign holder bytes | Memory memory

text \<open>The ids that the lookups of a run saw.\<close>

fun run_cache :: "(bytes \<Rightarrow> u64) \<Rightarrow> cache_event list \<Rightarrow> memory \<Rightarrow> prepared_cache \<Rightarrow> bytes list result" where
  "run_cache h [] mem cache = Inr []"
| "run_cache h (Lookup q # es) mem cache =
     rbind (cache_get h mem q cache) (\<lambda>(pid, cache). rbind (run_cache h es mem cache) (\<lambda>pids. Inr (pid # pids)))"
| "run_cache h (Assign q pid # es) mem cache = rbind (cache_set h mem q pid cache) (\<lambda>cache. run_cache h es mem cache)"
| "run_cache h (Memory mem' # es) mem cache = run_cache h es mem' cache"

text \<open>The same on the map of texts.\<close>

fun run_texts :: "cache_event list \<Rightarrow> node_configuration \<Rightarrow> bytes list" where
  "run_texts [] c = []"
| "run_texts (Lookup (Owned q) # es) c =
     (let (pid, c) = nc_getPreparedQueryId (sh_of_string q) c in pid # run_texts es c)"
| "run_texts (Assign (Owned q) pid # es) c = run_texts es (nc_setPreparedQueryId (sh_of_string q) pid c)"
| "run_texts (e # es) c = run_texts es c"

section \<open>Keys that can be read\<close>

definition key_text :: "memory \<Rightarrow> holder \<Rightarrow> bytes" where
  "key_text mem q = (case holder_get mem q of Inr s \<Rightarrow> s | Inl e \<Rightarrow> [])"

definition readable :: "memory \<Rightarrow> holder \<Rightarrow> bool" where
  "readable mem q \<longleftrightarrow> holder_get mem q = Inr (key_text mem q)"

abbreviation texts :: "memory \<Rightarrow> prepared_cache \<Rightarrow> bytes list" where
  "texts mem cache \<equiv> map (\<lambda>e. key_text mem (fst e)) cache"

definition cache_ok :: "(bytes \<Rightarrow> u64) \<Rightarrow> memory \<Rightarrow> prepared_cache \<Rightarrow> bool" where
  "cache_ok h mem cache \<longleftrightarrow>
     (\<forall>e \<in> set cache. readable mem (fst e) \<and> fst (snd e) = h (key_text mem (fst e))) \<and> distinct (texts mem cache)"

definition cache_map :: "memory \<Rightarrow> prepared_cache \<Rightarrow> bytes \<Rightarrow> bytes option" where
  "cache_map mem cache = map_of (map (\<lambda>e. (key_text mem (fst e), snd (snd e))) cache)"

lemma mem_read_length: "mem_read mem p n = Inr bs \<Longrightarrow> length bs = n"
  by (auto simp: mem_read_def split: option.splits if_splits)

lemma readable_size: "readable mem q \<Longrightarrow> length (key_text mem q) = holder_size q"
  by (cases q) (auto simp: readable_def dest: mem_read_length)

lemma holder_equal_readable:
  assumes "readable mem a" "readable mem b"
  shows "holder_equal mem a b = Inr (key_text mem a = key_text mem b)"
proof -
  have "key_text mem a = key_text mem b" if "holder_size a = holder_size b" "same_data a b"
    using that by (cases a; cases b) (simp_all add: key_text_def)
  moreover have "holder_size a = holder_size b" if "key_text mem a = key_text mem b"
    using that readable_size [OF assms(1)] readable_size [OF assms(2)] by simp
  ultimately show ?thesis using assms by (auto simp: holder_equal_def readable_def)
qed

lemma cache_ok_Cons:
  "cache_ok h mem ((key, code, pid) # cache) \<longleftrightarrow>
     readable mem key \<and> code = h (key_text mem key) \<and> key_text mem key \<notin> set (texts mem cache) \<and> cache_ok h mem cache"
  by (auto simp: cache_ok_def)

lemma cache_find_readable:
  assumes "cache_ok h mem cache" "readable mem q"
  shows "\<exists>r. cache_find mem q (h (key_text mem q)) cache = Inr r \<and>
    (\<forall>i. r = Some i \<longrightarrow> i < length cache \<and> texts mem cache ! i = key_text mem q) \<and>
    (r = None \<longrightarrow> key_text mem q \<notin> set (texts mem cache))"
  using assms(1)
proof (induction cache)
  case (Cons x cache)
  obtain key code pid where x: "x = (key, code, pid)" by (cases x)
  with Cons.prems have ok: "readable mem key" "code = h (key_text mem key)" "cache_ok h mem cache"
    by (simp_all add: cache_ok_Cons)
  from Cons.IH [OF ok(3)] obtain r where r: "cache_find mem q (h (key_text mem q)) cache = Inr r"
    "\<forall>i. r = Some i \<longrightarrow> i < length cache \<and> texts mem cache ! i = key_text mem q"
    "r = None \<longrightarrow> key_text mem q \<notin> set (texts mem cache)"
    by blast
  show ?case
  proof (cases "key_text mem q = key_text mem key")
    case True
    then show ?thesis
      by (intro exI [of _ "Some 0"]) (simp add: x ok holder_equal_readable [OF assms(2) ok(1)])
  next
    case False
    with r show ?thesis
      by (intro exI [of _ "map_option Suc r"])
        (auto simp: x ok Let_def holder_equal_readable [OF assms(2) ok(1)])
  qed
qed simp

lemma cache_map_nth:
  assumes "cache_ok h mem cache" "i < length cache"
  shows "cache_map mem cache (texts mem cache ! i) = Some (snd (snd (cache ! i)))"
proof -
  have "distinct (map fst (map (\<lambda>e. (key_text mem (fst e), snd (snd e))) cache))"
    using assms(1) by (simp add: cache_ok_def comp_def)
  moreover have "(texts mem cache ! i, snd (snd (cache ! i))) \<in> set (map (\<lambda>e. (key_text mem (fst e), snd (snd e))) cache)"
    using assms(2) by (auto intro!: image_eqI [of _ _ "cache ! i"])
  ultimately show ?thesis unfolding cache_map_def by (rule map_of_is_SomeI)
qed

lemma cache_map_None: "cache_map mem cache t = None \<longleftrightarrow> t \<notin> set (texts mem cache)"
  by (auto simp: cache_map_def map_of_eq_None_iff image_iff)

lemma cache_map_append:
  "key_text mem q \<notin> set (texts mem cache) \<Longrightarrow>
   cache_map mem (cache @ [(q, code, pid)]) = (cache_map mem cache)(key_text mem q \<mapsto> pid)"
  by (rule ext) (auto simp: cache_map_def map_add_def split: option.splits
      dest!: map_of_SomeD simp: image_iff)

lemma texts_update:
  "cache ! i = (key, code, old) \<Longrightarrow> texts mem (cache[i := (key, code, pid)]) = texts mem cache"
  by (cases "i < length cache") (simp_all add: map_update list_update_same_conv list_update_beyond)

lemma cache_ok_update:
  assumes "cache_ok h mem cache" "i < length cache" "cache ! i = (key, code, old)"
  shows "cache_ok h mem (cache[i := (key, code, pid)])"
proof -
  have "(key, code, old) \<in> set cache" using assms(2,3) by (metis nth_mem)
  then show ?thesis
    using assms texts_update [OF assms(3)] set_update_subset_insert [of cache i "(key, code, pid)"]
    unfolding cache_ok_def by fastforce
qed

lemma cache_map_update:
  assumes "cache_ok h mem cache" "i < length cache" "cache ! i = (key, code, old)"
  shows "cache_map mem (cache[i := (key, code, pid)]) = (cache_map mem cache)(texts mem cache ! i \<mapsto> pid)"
proof
  fix t
  let ?new = "cache[i := (key, code, pid)]"
  have new: "cache_ok h mem ?new" using assms by (rule cache_ok_update)
  have same: "texts mem ?new = texts mem cache" using assms(3) by (rule texts_update)
  show "cache_map mem ?new t = ((cache_map mem cache)(texts mem cache ! i \<mapsto> pid)) t"
  proof (cases "t \<in> set (texts mem cache)")
    case True
    then obtain j where j: "j < length cache" "t = texts mem cache ! j" by (auto simp: in_set_conv_nth)
    then have "cache_map mem ?new t = Some (snd (snd (?new ! j)))" "cache_map mem cache t = Some (snd (snd (cache ! j)))"
      using cache_map_nth [OF new, of j] cache_map_nth [OF assms(1), of j] by (simp_all only: same length_list_update)
    moreover have "t = texts mem cache ! i \<longleftrightarrow> j = i"
      using j assms(1,2) unfolding cache_ok_def by (simp add: nth_eq_iff_index_eq del: nth_map)
    ultimately show ?thesis using assms(2) by (auto simp del: nth_map)
  next
    case False
    then have "t \<noteq> texts mem cache ! i" using assms(2) by (metis length_map nth_mem)
    with False show ?thesis using cache_map_None [of mem ?new t] cache_map_None [of mem cache t] by (simp only: same) simp
  qed
qed

section \<open>The map over memory and the map of texts\<close>

text \<open>The element of a text, after it was inserted if it was missing.\<close>

lemma cache_at_ok:
  assumes "cache_ok h mem cache" "readable mem q"
  shows "\<exists>i cache'. cache_at h mem q cache = Inr (i, cache') \<and> cache_ok h mem cache' \<and>
    i < length cache' \<and> texts mem cache' ! i = key_text mem q \<and> set cache' \<subseteq> insert (q, h (key_text mem q), []) (set cache) \<and>
    cache_map mem cache' = (case cache_map mem cache (key_text mem q) of
      None \<Rightarrow> (cache_map mem cache)(key_text mem q \<mapsto> []) | Some pid \<Rightarrow> cache_map mem cache)"
proof -
  obtain r where r: "cache_find mem q (h (key_text mem q)) cache = Inr r"
    "\<forall>i. r = Some i \<longrightarrow> i < length cache \<and> texts mem cache ! i = key_text mem q"
    "r = None \<longrightarrow> key_text mem q \<notin> set (texts mem cache)"
    using cache_find_readable [OF assms] by blast
  have hash: "holder_hash h mem q = Inr (h (key_text mem q))"
    using assms(2) by (simp add: holder_hash_def readable_def)
  show ?thesis
  proof (cases r)
    case None
    let ?new = "cache @ [(q, h (key_text mem q), [])]"
    have "key_text mem q \<notin> set (texts mem cache)" using r(3) None by blast
    moreover from this have "cache_map mem cache (key_text mem q) = None" by (simp only: cache_map_None) simp
    moreover have "cache_ok h mem ?new"
      using assms r(3) None by (auto simp: cache_ok_def)
    ultimately show ?thesis
      using cache_map_append [of mem q cache] None by (intro exI [of _ "length cache"] exI [of _ ?new])
        (simp add: cache_at_def hash r(1) nth_append)
  next
    case (Some i)
    with r(2) assms(1) have "cache_map mem cache (key_text mem q) = Some (snd (snd (cache ! i)))"
      using cache_map_nth [OF assms(1), of i] by simp
    with Some r assms(1) show ?thesis
      by (intro exI [of _ i] exI [of _ cache]) (auto simp: cache_at_def hash)
  qed
qed

lemma cache_get_ok:
  assumes "cache_ok h mem cache" "readable mem q" "nc_preparedQueryIds c = cache_map mem cache"
  shows "\<exists>cache'. cache_get h mem q cache = Inr (fst (nc_getPreparedQueryId (sh_of_string (key_text mem q)) c), cache') \<and>
    cache_ok h mem cache' \<and> set cache' \<subseteq> insert (q, h (key_text mem q), []) (set cache) \<and>
    nc_preparedQueryIds (snd (nc_getPreparedQueryId (sh_of_string (key_text mem q)) c)) = cache_map mem cache'"
proof -
  obtain i cache' where at: "cache_at h mem q cache = Inr (i, cache')" "cache_ok h mem cache'" "i < length cache'"
      "texts mem cache' ! i = key_text mem q" "set cache' \<subseteq> insert (q, h (key_text mem q), []) (set cache)"
      "cache_map mem cache' = (case cache_map mem cache (key_text mem q) of
        None \<Rightarrow> (cache_map mem cache)(key_text mem q \<mapsto> []) | Some pid \<Rightarrow> cache_map mem cache)"
    using cache_at_ok [OF assms(1,2)] by blast
  have "cache_map mem cache' (key_text mem q) = Some (snd (snd (cache' ! i)))"
    using cache_map_nth [OF at(2,3)] by (simp only: at(4))
  then have "snd (snd (cache' ! i)) = fst (nc_getPreparedQueryId (sh_of_string (key_text mem q)) c)"
    by (simp add: nc_getPreparedQueryId_def assms(3) at(6) split: option.splits)
  with at show ?thesis
    by (intro exI [of _ cache']) (simp add: cache_get_def nc_getPreparedQueryId_def assms(3) split: option.splits)
qed

lemma cache_set_ok:
  assumes "cache_ok h mem cache" "readable mem q" "nc_preparedQueryIds c = cache_map mem cache"
  shows "\<exists>cache'. cache_set h mem q pid cache = Inr cache' \<and> cache_ok h mem cache' \<and>
    fst ` set cache' \<subseteq> insert q (fst ` set cache) \<and>
    nc_preparedQueryIds (nc_setPreparedQueryId (sh_of_string (key_text mem q)) pid c) = cache_map mem cache'"
proof -
  obtain i new where at: "cache_at h mem q cache = Inr (i, new)" "cache_ok h mem new" "i < length new"
      "texts mem new ! i = key_text mem q" "set new \<subseteq> insert (q, h (key_text mem q), []) (set cache)"
      "cache_map mem new = (case cache_map mem cache (key_text mem q) of
        None \<Rightarrow> (cache_map mem cache)(key_text mem q \<mapsto> []) | Some pid \<Rightarrow> cache_map mem cache)"
    using cache_at_ok [OF assms(1,2)] by blast
  obtain key code old where e: "new ! i = (key, code, old)" by (cases "new ! i")
  have "(key, code, old) \<in> set new" using e at(3) by (metis nth_mem)
  then have "fst ` set (new[i := (key, code, pid)]) \<subseteq> fst ` set new"
    using set_update_subset_insert [of new i "(key, code, pid)"] by force
  moreover have "fst ` set new \<subseteq> insert q (fst ` set cache)" using at(5) by force
  moreover have "cache_map mem (new[i := (key, code, pid)]) = (cache_map mem cache)(key_text mem q \<mapsto> pid)"
    unfolding cache_map_update [OF at(2,3) e] at(4) at(6) by (auto split: option.splits)
  ultimately show ?thesis
    using cache_ok_update [OF at(2,3) e] at(1)
    by (intro exI [of _ "new[i := (key, code, pid)]"]) (auto simp: cache_set_def e nc_setPreparedQueryId_def assms(3))
qed

section \<open>Owned keys\<close>

fun owned :: "holder \<Rightarrow> bool" where
  "owned (Owned s) \<longleftrightarrow> True"
| "owned q \<longleftrightarrow> False"

fun event_owned :: "cache_event \<Rightarrow> bool" where
  "event_owned (Lookup q) \<longleftrightarrow> owned q"
| "event_owned (Assign q pid) \<longleftrightarrow> owned q"
| "event_owned (Memory mem) \<longleftrightarrow> True"

lemma owned_text: "owned q \<Longrightarrow> readable mem q \<and> key_text mem' q = key_text mem q"
  by (cases q) (simp_all add: readable_def key_text_def)

lemma owned_memory:
  assumes "\<forall>q \<in> fst ` set cache. owned q"
  shows "cache_ok h mem' cache = cache_ok h mem cache" "cache_map mem' cache = cache_map mem cache"
proof -
  have same: "texts mem' cache = texts mem cache" using assms owned_text [of _ mem mem'] by auto
  have "\<forall>e \<in> set cache. readable mem (fst e) \<and> readable mem' (fst e) \<and> key_text mem' (fst e) = key_text mem (fst e)"
    using assms owned_text by blast
  then show "cache_ok h mem' cache = cache_ok h mem cache" unfolding cache_ok_def same by auto
  show "cache_map mem' cache = cache_map mem cache"
    unfolding cache_map_def using assms owned_text [of _ mem mem'] by (intro arg_cong [where f = map_of] map_cong) auto
qed

lemma run_cache_owned:
  assumes "list_all event_owned es" "cache_ok h mem cache" "\<forall>q \<in> fst ` set cache. owned q"
    "nc_preparedQueryIds c = cache_map mem cache"
  shows "run_cache h es mem cache = Inr (run_texts es c)"
  using assms
proof (induction es arbitrary: mem cache c)
  case (Cons e es)
  show ?case
  proof (cases e)
    case (Lookup q)
    then obtain s where q: "q = Owned s" using Cons.prems(1) by (cases q) auto
    have key: "readable mem q" "key_text mem q = s" by (simp_all add: q readable_def key_text_def)
    obtain cache' where got: "cache_get h mem q cache = Inr (fst (nc_getPreparedQueryId (sh_of_string s) c), cache')"
      "cache_ok h mem cache'" "set cache' \<subseteq> insert (q, h s, []) (set cache)"
      "nc_preparedQueryIds (snd (nc_getPreparedQueryId (sh_of_string s) c)) = cache_map mem cache'"
      using cache_get_ok [OF Cons.prems(2) key(1) Cons.prems(4)] unfolding key(2) by blast
    have "\<forall>p \<in> fst ` set cache'. owned p" using got(3) Cons.prems(3) q by force
    from Cons.IH [OF _ got(2) this got(4)] Cons.prems(1) show ?thesis
      unfolding Lookup by (simp add: q got(1) [unfolded q] case_prod_beta' Let_def)
  next
    case (Assign q pid)
    then obtain s where q: "q = Owned s" using Cons.prems(1) by (cases q) auto
    have key: "readable mem q" "key_text mem q = s" by (simp_all add: q readable_def key_text_def)
    obtain cache' where set: "cache_set h mem q pid cache = Inr cache'" "cache_ok h mem cache'"
      "fst ` set cache' \<subseteq> insert q (fst ` set cache)"
      "nc_preparedQueryIds (nc_setPreparedQueryId (sh_of_string s) pid c) = cache_map mem cache'"
      using cache_set_ok [OF Cons.prems(2) key(1) Cons.prems(4)] unfolding key(2) by blast
    have "\<forall>p \<in> fst ` set cache'. owned p" using set(3) Cons.prems(3) q by force
    from Cons.IH [OF _ set(2) this set(4)] Cons.prems(1) show ?thesis
      unfolding Assign by (simp add: q set(1) [unfolded q])
  next
    case (Memory mem')
    have "cache_ok h mem' cache" "nc_preparedQueryIds c = cache_map mem' cache"
      using owned_memory(1) [OF Cons.prems(3), of h mem' mem] owned_memory(2) [OF Cons.prems(3), of mem' mem] Cons.prems(2,4) by simp_all
    from Cons.IH [OF _ this(1) Cons.prems(3) this(2)] Cons.prems(1) show ?thesis by (simp add: Memory)
  qed
qed simp

text \<open>
  C10: As long as the commands own their texts, the memory may change in any way between the uses of the cache of
  prepared ids: nothing undefined happens, and every lookup sees the id that was last assigned to the text, whatever
  the hash function is.
\<close>

theorem prepared_ids_found:
  assumes "list_all event_owned es"
  shows "run_cache h es mem [] = Inr (run_texts es nc_init)"
  by (rule run_cache_owned [OF assms]) (simp_all add: cache_ok_def cache_map_def nc_init_def fun_eq_iff)

theorem prepared_ids_found_witness:
  "run_cache (\<lambda>s. 0) [Assign (Owned [1]) [7], Memory (\<lambda>k. None), Assign (Owned [2]) [8], Lookup (Owned [1])] (\<lambda>k. None) [] =
     Inr [[7]]"
  using prepared_ids_found [of "[Assign (Owned [1]) [7], Memory (\<lambda>k. None), Assign (Owned [2]) [8], Lookup (Owned [1])]"
      "\<lambda>s. 0" "\<lambda>k. None"]
  by (simp add: nc_setPreparedQueryId_def nc_getPreparedQueryId_def)

text \<open>
  A command that refers to its text leaves the pointer in the map. When the text is freed, the next command with the same
  text compares it with freed memory.
\<close>

lemma freed_text_is_compared:
  assumes "mem k = Some block" "0 < n" "i + n \<le> length block"
  shows "run_cache h [Assign (Referring k i n) pid, Memory (mem(k := None)), Lookup (Owned (take n (drop i block)))] mem [] =
    Inl UndefinedBehaviour"
  using assms
  by (simp add: cache_set_def cache_get_def cache_at_def holder_hash_def mem_read_def holder_equal_def)

end
