(* ===== verification/Socket_Holder.thy ===== *)
theory Socket_Holder
  imports Cql_Prelude "HOL-Library.Multiset"
begin

text \<open>
  \<^verbatim>\<open>SocketHolder\<close>: the owner of a connected socket. Closing a socket is asynchronous and destroying a holder
  is not, so a holder hands its socket to a closing task that nobody waits for. The state has all holder objects, the
  sockets whose close was started, and the tasks; the steps are the operations of client code and the completion of
  closing the input of a socket.
\<close>

section \<open>Holders and sockets\<close>

text \<open>
  \<open>so_holders\<close> has the objects that exist with their \<^verbatim>\<open>state_\<close>. A socket is in \<open>so_inClosed\<close> when
  \<^verbatim>\<open>in.close()\<close> was called on it, in \<open>so_waiting\<close> while that call is not finished, in \<open>so_outClosed\<close> when
  \<^verbatim>\<open>out.close()\<close> was called, and in \<open>so_dropped\<close> when its streams were destroyed without that call.
\<close>

record sockets =
  so_holders :: "nat \<rightharpoonup> nat option"
  so_connected :: "nat list"
  so_inClosed :: "nat list"
  so_waiting :: "nat list"
  so_outClosed :: "nat list"
  so_dropped :: "nat list"

definition so_init :: sockets where
  "so_init = \<lparr>so_holders = Map.empty, so_connected = [], so_inClosed = [], so_waiting = [], so_outClosed = [], so_dropped = []\<rparr>"

definition holder_isConnected :: "nat \<Rightarrow> sockets \<Rightarrow> bool" where
  "holder_isConnected i w \<longleftrightarrow> (\<exists>s. so_holders w i = Some (Some s))"

text \<open>The accessors of the socket, of its input and of its output.\<close>

definition holder_socket :: "nat \<Rightarrow> sockets \<Rightarrow> nat result" where
  "holder_socket i w =
     (case so_holders w i of
        Some (Some s) \<Rightarrow> Inr s
      | Some None \<Rightarrow> Inl LogicException
      | None \<Rightarrow> Inl UndefinedBehaviour)"

definition holder_in :: "nat \<Rightarrow> sockets \<Rightarrow> nat result" where
  "holder_in i w =
     (case so_holders w i of
        Some (Some s) \<Rightarrow> Inr s
      | Some None \<Rightarrow> Inl LogicException
      | None \<Rightarrow> Inl UndefinedBehaviour)"

definition holder_out :: "nat \<Rightarrow> sockets \<Rightarrow> nat result" where
  "holder_out i w =
     (case so_holders w i of
        Some (Some s) \<Rightarrow> Inr s
      | Some None \<Rightarrow> Inl LogicException
      | None \<Rightarrow> Inl UndefinedBehaviour)"

text \<open>Closing moves the state into a task, which calls \<^verbatim>\<open>in.close()\<close> at once.\<close>

definition holder_close :: "nat \<Rightarrow> sockets \<Rightarrow> sockets" where
  "holder_close i w =
     (case so_holders w i of
        Some (Some s) \<Rightarrow> w\<lparr>so_holders := (so_holders w)(i \<mapsto> None), so_inClosed := so_inClosed w @ [s], so_waiting := so_waiting w @ [s]\<rparr>
      | _ \<Rightarrow> w)"

text \<open>The rest of the task: \<^verbatim>\<open>then\<close> is skipped when closing the input failed.\<close>

definition holder_close_then :: "nat \<Rightarrow> bool \<Rightarrow> sockets \<Rightarrow> sockets" where
  "holder_close_then s closed w =
     (if closed
      then w\<lparr>so_waiting := remove1 s (so_waiting w), so_outClosed := so_outClosed w @ [s]\<rparr>
      else w\<lparr>so_waiting := remove1 s (so_waiting w), so_dropped := so_dropped w @ [s]\<rparr>)"

definition holder_new :: "nat \<Rightarrow> sockets \<Rightarrow> sockets" where
  "holder_new i w = w\<lparr>so_holders := (so_holders w)(i \<mapsto> None)\<rparr>"

definition holder_connect :: "nat \<Rightarrow> nat \<Rightarrow> sockets \<Rightarrow> sockets" where
  "holder_connect i s w = w\<lparr>so_holders := (so_holders w)(i \<mapsto> Some s), so_connected := so_connected w @ [s]\<rparr>"

definition holder_move :: "nat \<Rightarrow> nat \<Rightarrow> sockets \<Rightarrow> sockets" where
  "holder_move i j w = w\<lparr>so_holders := (so_holders w)(i := so_holders w j, j \<mapsto> None)\<rparr>"

definition holder_assign :: "nat \<Rightarrow> nat \<Rightarrow> sockets \<Rightarrow> sockets" where
  "holder_assign i j w =
     (if j \<noteq> i
      then let w = holder_close i w in w\<lparr>so_holders := (so_holders w)(i := so_holders w j, j \<mapsto> None)\<rparr>
      else w)"

definition holder_destroy :: "nat \<Rightarrow> sockets \<Rightarrow> sockets" where
  "holder_destroy i w = (let w = holder_close i w in w\<lparr>so_holders := (so_holders w)(i := None)\<rparr>)"

section \<open>Steps\<close>

inductive sockets_step :: "sockets \<Rightarrow> sockets \<Rightarrow> bool" where
  step_new: "so_holders w i = None \<Longrightarrow> sockets_step w (holder_new i w)"
| step_connect: "so_holders w i = None \<Longrightarrow> s \<notin> set (so_connected w) \<Longrightarrow> sockets_step w (holder_connect i s w)"
| step_move: "so_holders w i = None \<Longrightarrow> so_holders w j \<noteq> None \<Longrightarrow> sockets_step w (holder_move i j w)"
| step_assign: "so_holders w i \<noteq> None \<Longrightarrow> so_holders w j \<noteq> None \<Longrightarrow> sockets_step w (holder_assign i j w)"
| step_close: "so_holders w i \<noteq> None \<Longrightarrow> sockets_step w (holder_close i w)"
| step_destroy: "so_holders w i \<noteq> None \<Longrightarrow> sockets_step w (holder_destroy i w)"
| step_closed: "s \<in> set (so_waiting w) \<Longrightarrow> sockets_step w (holder_close_then s closed w)"

inductive sockets_reachable :: "sockets \<Rightarrow> bool" where
  reach_init: "sockets_reachable so_init"
| reach_step: "sockets_reachable w \<Longrightarrow> sockets_step w w' \<Longrightarrow> sockets_reachable w'"

inductive_cases sockets_stepE: "sockets_step w w'"

section \<open>Ownership\<close>

text \<open>\<open>owns\<close> are the holders of a socket. Every socket has one holder until its close was started, and none after.\<close>

definition owns :: "sockets \<Rightarrow> nat \<Rightarrow> nat set" where
  "owns w s = {i. so_holders w i = Some (Some s)}"

definition owned_once :: "sockets \<Rightarrow> nat \<Rightarrow> bool" where
  "owned_once w s \<longleftrightarrow>
     (if s \<notin> set (so_connected w) then owns w s = {} \<and> count_list (so_inClosed w) s = 0
      else (\<exists>i. owns w s = {i}) \<and> count_list (so_inClosed w) s = 0 \<or> owns w s = {} \<and> count_list (so_inClosed w) s = 1)"

definition so_inv :: "sockets \<Rightarrow> bool" where
  "so_inv w \<longleftrightarrow>
     (\<forall>s. owned_once w s) \<and> mset (so_inClosed w) = mset (so_waiting w) + mset (so_outClosed w) + mset (so_dropped w)"

lemma so_invD: "so_inv w \<Longrightarrow> owned_once w s"
  by (simp add: so_inv_def)

lemma so_inv_init: "so_inv so_init"
  by (simp add: so_inv_def owned_once_def so_init_def owns_def)

lemma holder_close_simps [simp]:
  "so_connected (holder_close i w) = so_connected w"
  "so_outClosed (holder_close i w) = so_outClosed w"
  "so_dropped (holder_close i w) = so_dropped w"
  "so_holders (holder_close i w) = (if so_holders w i = None then so_holders w else (so_holders w)(i \<mapsto> None))"
  by (auto simp: holder_close_def split: option.splits)

lemma holder_close_inv:
  assumes "so_inv w"
  shows "so_inv (holder_close i w)"
proof (cases "\<exists>s. so_holders w i = Some (Some s)")
  case True
  then obtain s where i: "so_holders w i = Some (Some s)" by auto
  have "owned_once (holder_close i w) t" for t
  proof (cases "t = s")
    case True
    have "i \<in> owns w s" using i by (simp add: owns_def)
    moreover have "owned_once w s" using assms by (simp add: so_inv_def)
    ultimately have "s \<in> set (so_connected w)" "owns w s = {i}" "count_list (so_inClosed w) s = 0"
      by (auto simp: owned_once_def split: if_splits)
    then show ?thesis using i True by (auto simp: owned_once_def holder_close_def owns_def)
  next
    case False
    have "owns (holder_close i w) t = owns w t" using i False by (auto simp: owns_def)
    moreover have "count_list (so_inClosed (holder_close i w)) t = count_list (so_inClosed w) t"
      using i False by (simp add: holder_close_def)
    ultimately show ?thesis using so_invD [OF assms, of t] by (simp add: owned_once_def split: if_splits)
  qed
  then show ?thesis using assms i by (simp add: so_inv_def holder_close_def)
next
  case False
  then have "holder_close i w = w \<or> so_holders w i = None" by (auto simp: holder_close_def split: option.splits)
  then have "holder_close i w = w" by (auto simp: holder_close_def)
  then show ?thesis using assms by simp
qed

text \<open>Changing the holders without creating or losing an owner.\<close>

lemma same_owners_inv:
  assumes "so_inv w" "\<And>s. owns (w\<lparr>so_holders := h\<rparr>) s = f ` owns w s"
  shows "so_inv (w\<lparr>so_holders := h\<rparr>)"
proof -
  have "owned_once (w\<lparr>so_holders := h\<rparr>) s" for s
  proof -
    have "owned_once w s" using assms(1) by (simp add: so_inv_def)
    then show ?thesis unfolding owned_once_def assms(2) by (auto split: if_splits)
  qed
  then show ?thesis using assms(1) by (simp add: so_inv_def)
qed

lemma null_holder_inv: "so_inv w \<Longrightarrow> (\<And>s. so_holders w i \<noteq> Some (Some s)) \<Longrightarrow> (\<And>s. x \<noteq> Some (Some s)) \<Longrightarrow>
    so_inv (w\<lparr>so_holders := (so_holders w)(i := x)\<rparr>)"
  by (rule same_owners_inv [where f = id]) (auto simp: owns_def)

lemma moved_holder_inv:
  assumes "so_inv w" "i \<noteq> j" "\<And>s. so_holders w i \<noteq> Some (Some s)"
  shows "so_inv (w\<lparr>so_holders := (so_holders w)(i := so_holders w j, j \<mapsto> None)\<rparr>)"
  by (rule same_owners_inv [OF assms(1), where f = "\<lambda>k. if k = j then i else k"])
    (use assms(2,3) in \<open>auto simp: owns_def image_iff\<close>)

lemma sockets_step_inv: "sockets_step w w' \<Longrightarrow> so_inv w \<Longrightarrow> so_inv w'"
proof (induction rule: sockets_step.induct)
  case (step_new w i)
  then show ?case by (auto simp: holder_new_def intro: null_holder_inv)
next
  case (step_connect w i s)
  have owns: "owns (holder_connect i s w) t = (if t = s then insert i (owns w t) else owns w t)" for t
    using step_connect(1) by (auto simp: owns_def holder_connect_def)
  have "owned_once (holder_connect i s w) t" for t
  proof -
    have "owned_once w t" using step_connect(3) by (simp add: so_inv_def)
    then show ?thesis using step_connect(2) unfolding owned_once_def owns
      by (auto simp: holder_connect_def split: if_splits)
  qed
  then show ?case using step_connect(3) by (simp add: so_inv_def holder_connect_def)
next
  case (step_move w i j)
  then show ?case by (auto simp: holder_move_def intro: moved_holder_inv)
next
  case (step_assign w i j)
  then show ?case
    using moved_holder_inv [OF holder_close_inv [OF step_assign(3), of i], of i j] by (auto simp: holder_assign_def Let_def)
next
  case (step_close w i)
  then show ?case by (simp add: holder_close_inv)
next
  case (step_destroy w i)
  then show ?case
    using null_holder_inv [OF holder_close_inv [OF step_destroy(2), of i], of i None] by (auto simp: holder_destroy_def Let_def)
next
  case (step_closed s w closed)
  have "owned_once (holder_close_then s closed w) t" for t
    using so_invD [OF step_closed(2), of t] by (simp add: owned_once_def owns_def holder_close_then_def split: if_splits)
  moreover have "mset (so_waiting w) = add_mset s (mset (remove1 s (so_waiting w)))" using step_closed(1) by simp
  ultimately show ?case using step_closed(2) by (simp add: so_inv_def holder_close_then_def)
qed

lemma sockets_reachable_inv: "sockets_reachable w \<Longrightarrow> so_inv w"
  by (induction rule: sockets_reachable.induct) (auto intro: so_inv_init sockets_step_inv)

section \<open>The socket of a connection\<close>

text \<open>
  \<^verbatim>\<open>socket_ = SocketHolder(std::move(fd))\<close> once the connector is done and
  \<^verbatim>\<open>socket_ = SocketHolder()\<close> in \<^verbatim>\<open>Connection::close\<close>, with the temporary they assign from.
\<close>

definition connection_set_socket :: "nat \<Rightarrow> nat \<Rightarrow> nat \<Rightarrow> sockets \<Rightarrow> sockets" where
  "connection_set_socket i t s w = holder_destroy t (holder_assign i t (holder_connect t s w))"

definition connection_drop_socket :: "nat \<Rightarrow> nat \<Rightarrow> sockets \<Rightarrow> sockets" where
  "connection_drop_socket i t w = holder_destroy t (holder_assign i t (holder_new t w))"

lemma connection_drops_socket:
  assumes "so_holders w i = Some (Some s)" "so_holders w t = None"
  shows "connection_drop_socket i t w = w\<lparr>so_holders := (so_holders w)(i \<mapsto> None), so_inClosed := so_inClosed w @ [s],
      so_waiting := so_waiting w @ [s]\<rparr>"
    and "holder_in i (connection_drop_socket i t w) = Inl LogicException"
    and "holder_out i (connection_drop_socket i t w) = Inl LogicException"
proof -
  have "i \<noteq> t" using assms by auto
  then show *: "connection_drop_socket i t w = w\<lparr>so_holders := (so_holders w)(i \<mapsto> None), so_inClosed := so_inClosed w @ [s],
      so_waiting := so_waiting w @ [s]\<rparr>"
    using assms by (simp add: connection_drop_socket_def holder_new_def holder_assign_def holder_destroy_def holder_close_def Let_def fun_eq_iff)
  show "holder_in i (connection_drop_socket i t w) = Inl LogicException" "holder_out i (connection_drop_socket i t w) = Inl LogicException"
    unfolding * by (simp_all add: holder_in_def holder_out_def)
qed

text \<open>What closing the input of a socket fails on is never closed: the comment of the class says that this is unsafe.\<close>

lemma failed_close_drops_output:
  "s \<notin> set (so_outClosed w) \<Longrightarrow> s \<notin> set (so_outClosed (holder_close_then s False w)) \<and> s \<in> set (so_dropped (holder_close_then s False w))"
  by (simp add: holder_close_then_def)

text \<open>
  C26: However holders are created, moved, assigned to, closed and destroyed, no socket is lost and none is closed twice:
  a socket has exactly one holder and is not closed, or no holder and closing its input was started exactly once; its
  output is closed at most once and only after its input.
\<close>

theorem sockets_closed_once:
  assumes "sockets_reachable w" "s \<in> set (so_connected w)"
  shows "((\<exists>i. {i. holder_socket i w = Inr s} = {i}) \<and> count_list (so_inClosed w) s = 0 \<or>
      {i. holder_socket i w = Inr s} = {} \<and> count_list (so_inClosed w) s = 1) \<and>
    count_list (so_inClosed w) s = count_list (so_waiting w) s + count_list (so_outClosed w) s + count_list (so_dropped w) s"
proof -
  have inv: "so_inv w" by (rule sockets_reachable_inv [OF assms(1)])
  have "holder_socket i w = Inr s \<longleftrightarrow> so_holders w i = Some (Some s)" for i
    by (auto simp: holder_socket_def split: option.splits)
  then have "{i. holder_socket i w = Inr s} = owns w s" by (simp add: owns_def)
  moreover have "count_list (so_inClosed w) s = count_list (so_waiting w) s + count_list (so_outClosed w) s + count_list (so_dropped w) s"
    using inv by (metis count_mset count_union so_inv_def)
  ultimately show ?thesis using so_invD [OF inv, of s] assms(2) by (simp add: owned_once_def)
qed

text \<open>A connection is made, fails and is closed.\<close>

definition sockets_example :: sockets where
  "sockets_example = holder_close_then 7 True (holder_close 0 (holder_connect 0 7 so_init))"

lemma sockets_example_reachable: "sockets_reachable sockets_example"
proof -
  have "sockets_reachable (holder_connect 0 7 so_init)"
    by (rule reach_step [OF reach_init step_connect]) (simp_all add: so_init_def)
  then have "sockets_reachable (holder_close 0 (holder_connect 0 7 so_init))"
    by (rule reach_step) (rule step_close, simp add: holder_connect_def)
  then show ?thesis unfolding sockets_example_def
    by (rule reach_step) (rule step_closed, simp add: holder_connect_def holder_close_def so_init_def)
qed

theorem sockets_closed_once_witness:
  "count_list (so_inClosed sockets_example) 7 = 1 \<and> count_list (so_outClosed sockets_example) 7 = 1"
proof -
  have "so_outClosed sockets_example = [7]" "7 \<in> set (so_connected sockets_example)"
    by (simp_all add: sockets_example_def holder_close_then_def holder_connect_def so_init_def)
  with sockets_closed_once [OF sockets_example_reachable this(2)] show ?thesis by auto
qed

end
