(* ===== verification/Loggers.thy ===== *)
theory Loggers
  imports String_Utils Enums
begin

text \<open>
  \<^verbatim>\<open>Logger\<close> and its two implementations. The console is the pair of streams a process writes to; the arguments
  of a message are the texts that writing them to a stream gives, the number of the core is an argument.
\<close>

section \<open>Loggers\<close>

datatype logger_class = ConsoleLogger | NoopLogger

record logger =
  lg_class :: logger_class
  lg_logLevel :: u32

record console =
  cs_out :: bytes
  cs_err :: bytes

definition logger_createConsole :: "u32 \<Rightarrow> logger" where
  "logger_createConsole logLevel = \<lparr>lg_class = ConsoleLogger, lg_logLevel = logLevel\<rparr>"

definition logger_createNoop :: logger where
  "logger_createNoop = \<lparr>lg_class = NoopLogger, lg_logLevel = LL_Emergency\<rparr>"

definition logger_setLogLevel :: "u32 \<Rightarrow> logger \<Rightarrow> logger" where
  "logger_setLogLevel logLevel l = l\<lparr>lg_logLevel := logLevel\<rparr>"

definition logger_isEnabled :: "logger \<Rightarrow> u32 \<Rightarrow> bool" where
  "logger_isEnabled l logLevel \<longleftrightarrow> logLevel \<le> lg_logLevel l"

definition getColorCodePrefix :: "u32 \<Rightarrow> bytes" where
  "getColorCodePrefix logLevel =
     (if logLevel \<le> LL_Error then 0x1b # ascii ''[31m''
      else if logLevel \<le> LL_Notice then 0x1b # ascii ''[33m''
      else if logLevel \<ge> LL_Debug then 0x1b # ascii ''[90m''
      else [])"

definition getColorCodeSuffix :: bytes where
  "getColorCodeSuffix = 0x1b # ascii ''[0m''"

definition console_logImpl :: "u32 \<Rightarrow> bytes \<Rightarrow> console \<Rightarrow> console" where
  "console_logImpl logLevel message c =
     (let text = getColorCodePrefix logLevel @ message @ getColorCodeSuffix
      in if logLevel \<le> LL_Warning then c\<lparr>cs_err := cs_err c @ text\<rparr> else c\<lparr>cs_out := cs_out c @ text\<rparr>)"

definition noop_logImpl :: "u32 \<Rightarrow> bytes \<Rightarrow> console \<Rightarrow> console" where
  "noop_logImpl logLevel message c = c"

definition logger_logImpl :: "logger \<Rightarrow> u32 \<Rightarrow> bytes \<Rightarrow> console \<Rightarrow> console" where
  "logger_logImpl l = (case lg_class l of ConsoleLogger \<Rightarrow> console_logImpl | NoopLogger \<Rightarrow> noop_logImpl)"

definition log_message :: "nat \<Rightarrow> u32 \<Rightarrow> bytes list \<Rightarrow> bytes" where
  "log_message cpu logLevel args =
     join_string [] [ascii ''<CQL:'', ascii (enum_describe LL_descriptions logLevel), ascii '':'', dec_text cpu, ascii ''> '',
       join_string (ascii '' '') args, [0x0a]]"

definition logger_log :: "nat \<Rightarrow> u32 \<Rightarrow> bytes list \<Rightarrow> logger \<Rightarrow> console \<Rightarrow> console" where
  "logger_log cpu logLevel args l c =
     (if logger_isEnabled l logLevel then logger_logImpl l logLevel (log_message cpu logLevel args) c else c)"

section \<open>The logger of a session configuration\<close>

record logging_configuration = session_configuration +
  sc_logger :: logger

definition sc_logger_default :: "bool \<Rightarrow> logger" where
  "sc_logger_default enableDebugLoggerByDefault =
     (if enableDebugLoggerByDefault then logger_createConsole LL_Debug else logger_createNoop)"

definition sc_setLogger :: "logger option \<Rightarrow> logging_configuration \<Rightarrow> logging_configuration result" where
  "sc_setLogger logger c = (case logger of None \<Rightarrow> Inl LogicException | Some l \<Rightarrow> Inr (c\<lparr>sc_logger := l\<rparr>))"

section \<open>What is logged\<close>

text \<open>The severities from emergency to warning go to the error stream, the others to the standard output.\<close>

definition logged_to :: "u32 \<Rightarrow> console \<Rightarrow> bytes" where
  "logged_to logLevel c = (if logLevel \<le> LL_Warning then cs_err c else cs_out c)"

lemma noop_logger_silent: "lg_class l = NoopLogger \<Longrightarrow> logger_log cpu logLevel args l c = c"
  by (simp add: logger_log_def logger_logImpl_def noop_logImpl_def)

lemma logger_off: "\<not> logger_isEnabled l logLevel \<Longrightarrow> logger_log cpu logLevel args l c = c"
  by (simp add: logger_log_def)

lemma console_logger_writes:
  assumes "lg_class l = ConsoleLogger" "logger_isEnabled l logLevel"
  shows "logged_to logLevel (logger_log cpu logLevel args l c) =
      logged_to logLevel c @ getColorCodePrefix logLevel @ log_message cpu logLevel args @ getColorCodeSuffix"
    and "if logLevel \<le> LL_Warning then cs_out (logger_log cpu logLevel args l c) = cs_out c
      else cs_err (logger_log cpu logLevel args l c) = cs_err c"
  using assms by (simp_all add: logger_log_def logger_logImpl_def console_logImpl_def logged_to_def Let_def)

text \<open>What a level enables, every more severe level enables, and the default logger writes nothing at all.\<close>

lemma enabled_monotone: "logger_isEnabled l b \<Longrightarrow> a \<le> b \<Longrightarrow> logger_isEnabled l a"
  by (auto simp: logger_isEnabled_def)

lemma default_logger_silent: "logger_log cpu logLevel args (sc_logger_default False) c = c"
  by (simp add: sc_logger_default_def logger_createNoop_def noop_logger_silent)

text \<open>A line of the log starts with the name of its level.\<close>

lemma log_line:
  "log_message cpu LL_Error [ascii ''close'', ascii ''connection''] = ascii ''<CQL:Error:'' @ dec_text cpu @ ascii ''> close connection'' @ [0x0a]"
proof -
  have "enum_describe LL_descriptions LL_Error = ''Error''" by code_simp
  then show ?thesis by (simp add: log_message_def ascii_def)
qed

end
