(* ===== verification/Metrics_Registration.thy ===== *)
theory Metrics_Registration
  imports String_Utils Metrics
begin

text \<open>
  The constructor of \<^verbatim>\<open>MetricsData\<close>: the counters it registers with the metrics service of the framework under
  a label made from a counter of the core. The service refuses to register the same name with the same labels twice.
\<close>

section \<open>The metrics\<close>

datatype metric_kind = Derive | Gauge

record metric =
  mt_kind :: metric_kind
  mt_name :: string
  mt_read :: "metrics_data \<Rightarrow> u64"
  mt_description :: string

definition metrics_group :: "metric list" where
  "metrics_group = [
     \<lparr>mt_kind = Derive, mt_name = ''pool_connections_total'', mt_read = pool_connections_total,
      mt_description = ''The total number of connections opened''\<rparr>,
     \<lparr>mt_kind = Gauge, mt_name = ''pool_connections_current'', mt_read = pool_connections_current,
      mt_description = ''The current number of open connections''\<rparr>,
     \<lparr>mt_kind = Derive, mt_name = ''connection_initialize_errors'', mt_read = connection_initialize_errors,
      mt_description = ''The total number of errors while initializing connections''\<rparr>,
     \<lparr>mt_kind = Derive, mt_name = ''connection_send_message_errors'', mt_read = connection_send_message_errors,
      mt_description = ''The total number of errors while sending messages''\<rparr>,
     \<lparr>mt_kind = Derive, mt_name = ''connection_receive_message_errors'', mt_read = connection_receive_message_errors,
      mt_description = ''The total number of errors while receiving messages''\<rparr>,
     \<lparr>mt_kind = Derive, mt_name = ''connection_messages_sent'', mt_read = connection_messages_sent,
      mt_description = ''The total number of messages sent''\<rparr>,
     \<lparr>mt_kind = Derive, mt_name = ''connection_messages_received'', mt_read = connection_messages_received,
      mt_description = ''The total number of messages received''\<rparr>,
     \<lparr>mt_kind = Derive, mt_name = ''session_command_successful'', mt_read = session_command_successful,
      mt_description = ''The total number of QUERY or EXECUTE command successfully executed''\<rparr>,
     \<lparr>mt_kind = Derive, mt_name = ''session_command_failed'', mt_read = session_command_failed,
      mt_description = ''The total number of QUERY or EXECUTE command failed to execute''\<rparr>,
     \<lparr>mt_kind = Derive, mt_name = ''session_batch_command_successful'', mt_read = session_batch_command_successful,
      mt_description = ''The total number of BATCH command successfully executed''\<rparr>,
     \<lparr>mt_kind = Derive, mt_name = ''session_batch_command_failed'', mt_read = session_batch_command_failed,
      mt_description = ''The total number of BATCH command failed to execute''\<rparr>]"

definition service_label :: "u64 \<Rightarrow> bytes" where
  "service_label serviceId = join_string [] [ascii ''cql-driver-'', dec_text (unat serviceId)]"

text \<open>What is registered: group, name and the label \<^verbatim>\<open>service\<close>. \<open>ServiceId\<close> belongs to the core.\<close>

type_synonym registration = "bytes \<times> string \<times> bytes"

definition metrics_construct :: "u64 \<Rightarrow> metrics_data \<times> registration list \<times> u64" where
  "metrics_construct serviceId =
     (metrics_init, map (\<lambda>m. (ascii ''cql-driver'', mt_name m, service_label serviceId)) metrics_group, serviceId + 1)"

text \<open>The registrations of the first \<open>n\<close> pools of a core.\<close>

fun metrics_construct_all :: "nat \<Rightarrow> u64 \<Rightarrow> registration list" where
  "metrics_construct_all 0 serviceId = []"
| "metrics_construct_all (Suc n) serviceId =
     (case metrics_construct serviceId of (m, rs, serviceId) \<Rightarrow> rs @ metrics_construct_all n serviceId)"

section \<open>No metric is registered twice\<close>

lemma metric_names_distinct: "distinct (map mt_name metrics_group)"
  by (simp add: metrics_group_def)

lemma service_label_inj: "service_label a = service_label b \<longleftrightarrow> a = b"
  by (auto simp: service_label_def word_unat_eq_iff dest!: dec_text_inj)

lemma registrations_labels:
  "r \<in> set (metrics_construct_all n serviceId) \<Longrightarrow> \<exists>k<n. snd (snd r) = service_label (serviceId + word_of_nat k)"
proof (induction n arbitrary: serviceId)
  case 0
  then show ?case by simp
next
  case (Suc n)
  consider "snd (snd r) = service_label serviceId" | "r \<in> set (metrics_construct_all n (serviceId + 1))"
    using Suc.prems by (auto simp: metrics_construct_def)
  then show ?case
  proof cases
    case 1
    then show ?thesis by (intro exI [of _ 0]) simp
  next
    case 2
    from Suc.IH [OF this] obtain k where "k < n" "snd (snd r) = service_label (serviceId + 1 + word_of_nat k)" by auto
    then show ?thesis by (intro exI [of _ "Suc k"]) (simp add: ac_simps)
  qed
qed

text \<open>
  The pools of a core never register a metric twice, which would be an exception from the constructor of the pool,
  before the counter of the core has gone through all its values.
\<close>

lemma registrations_distinct: "n \<le> 2 ^ 64 \<Longrightarrow> distinct (metrics_construct_all n serviceId)"
proof (induction n arbitrary: serviceId)
  case 0
  then show ?case by simp
next
  case (Suc n)
  have "distinct (map (\<lambda>m. (ascii ''cql-driver'', mt_name m, service_label serviceId)) metrics_group)"
    using metric_names_distinct by (simp add: distinct_map inj_on_def)
  moreover have "service_label serviceId \<noteq> snd (snd r)" if "r \<in> set (metrics_construct_all n (serviceId + 1))" for r
  proof -
    from registrations_labels [OF that] obtain k where k: "k < n" "snd (snd r) = service_label (serviceId + 1 + word_of_nat k)" by auto
    have "unat (word_of_nat (Suc k) :: u64) = Suc k" using k(1) Suc.prems by (simp only: unat_of_nat) simp
    then have "word_of_nat (Suc k) \<noteq> (0 :: u64)" by (metis nat.distinct(1) unat_0)
    then have "serviceId + 1 + word_of_nat k \<noteq> serviceId" by (simp add: ac_simps)
    with k(2) show ?thesis by (metis service_label_inj)
  qed
  ultimately show ?case using Suc by (fastforce simp: metrics_construct_def)
qed

end
