(* ===== verification/Session_Factory.thy ===== *)
theory Session_Factory
  imports Connection_Pool Metrics_Registration Reusable
begin

text \<open>
  \<^verbatim>\<open>SessionFactory\<close>, \<^verbatim>\<open>SessionData\<close> and the constructor of the pool: what a program makes its sessions
  with. The objects of a core are its pools, the storage of session data and the number of the next metrics service; a
  shared pointer to a pool is the index of the pool.
\<close>

record session_data =
  sd_connectionPool :: "nat option"

definition sd_init :: session_data where
  "sd_init = \<lparr>sd_connectionPool = None\<rparr>"

definition sd_freeResources :: "session_data \<Rightarrow> session_data" where
  "sd_freeResources d = d"

definition sd_reset :: "nat \<Rightarrow> session_data \<Rightarrow> session_data" where
  "sd_reset connectionPool d = d\<lparr>sd_connectionPool := Some connectionPool\<rparr>"

record ('q, 'n) pool_object =
  po_sessionConfiguration :: session_configuration
  po_nodeCollection :: "'n option"
  po_pool :: "'q pool"

record ('q, 'n) core =
  cr_pools :: "('q, 'n) pool_object list"
  cr_sessionStorage :: "session_data reusable_storage"
  cr_serviceId :: u64
  cr_registered :: "registration list"

definition core_init :: "('q, 'n) core" where
  "core_init = \<lparr>cr_pools = [], cr_sessionStorage = storage_init, cr_serviceId = 0, cr_registered = []\<rparr>"

text \<open>The constructor of \<^verbatim>\<open>ConnectionPool\<close>, which makes the metrics.\<close>

definition pool_construct ::
  "(nat, 'q) queue_library \<Rightarrow> session_configuration \<Rightarrow> 'n option \<Rightarrow> ('q, 'n) core \<Rightarrow> nat \<times> ('q, 'n) core" where
  "pool_construct Q sessionConfiguration nodeCollection c =
     (case metrics_construct (cr_serviceId c) of
        (metricsData, registrations, serviceId) \<Rightarrow>
          (length (cr_pools c),
           c\<lparr>cr_pools := cr_pools c @ [\<lparr>po_sessionConfiguration = sessionConfiguration, po_nodeCollection = nodeCollection,
               po_pool = (pool_init Q)\<lparr>pl_metrics := metricsData\<rparr>\<rparr>],
             cr_serviceId := serviceId, cr_registered := cr_registered c @ registrations\<rparr>))"

record 'n session_factory =
  sf_sessionConfiguration :: session_configuration
  sf_nodeCollection :: "'n option"
  sf_connectionPool :: nat

text \<open>
  The members are constructed first, so the pool exists when the node collection is found to be null; the exception
  releases it again, and only the number of the metrics service stays used.
\<close>

definition factory_construct ::
  "(nat, 'q) queue_library \<Rightarrow> session_configuration \<Rightarrow> 'n option \<Rightarrow> ('q, 'n) core \<Rightarrow> 'n session_factory result \<times> ('q, 'n) core" where
  "factory_construct Q sessionConfiguration nodeCollection c =
     (case pool_construct Q sessionConfiguration nodeCollection c of
        (pool, c') \<Rightarrow>
          if nodeCollection = None then (Inl LogicException, c\<lparr>cr_serviceId := cr_serviceId c'\<rparr>)
          else (Inr \<lparr>sf_sessionConfiguration = sessionConfiguration, sf_nodeCollection = nodeCollection, sf_connectionPool = pool\<rparr>, c'))"

definition factory_getSession :: "'n session_factory \<Rightarrow> ('q, 'n) core \<Rightarrow> session_data option \<times> ('q, 'n) core" where
  "factory_getSession f c =
     (case make_reusable (sd_reset (sf_connectionPool f)) sd_init (cr_sessionStorage c) of
        (d, st) \<Rightarrow> (Some d, c\<lparr>cr_sessionStorage := st\<rparr>))"

text \<open>The end of a session gives its data back to the storage.\<close>

definition session_end :: "nat \<Rightarrow> session_data option \<Rightarrow> ('q, 'n) core \<Rightarrow> ('q, 'n) core" where
  "session_end capacity s c =
     (case s of None \<Rightarrow> c | Some d \<Rightarrow> c\<lparr>cr_sessionStorage := deallocate capacity sd_freeResources d (cr_sessionStorage c)\<rparr>)"

section \<open>Sessions of a factory\<close>

interpretation session_object: reusable_object sd_init "sd_reset pool" sd_freeResources "\<lambda>_. True" sd_connectionPool
  by unfold_locales (simp_all add: sd_reset_def)

text \<open>Whatever sessions were made and ended before, of this factory or another, a session uses the pool of its factory.\<close>

lemma session_pool: "\<exists>d c'. factory_getSession f c = (Some d, c') \<and> sd_connectionPool d = Some (sf_connectionPool f) \<and> cr_pools c' = cr_pools c"
proof -
  obtain d st where make: "make_reusable (sd_reset (sf_connectionPool f)) sd_init (cr_sessionStorage c) = (d, st)" by fastforce
  then have "sd_connectionPool d = Some (sf_connectionPool f)"
    by (auto simp: make_reusable_def sd_reset_def split: if_splits)
  with make show ?thesis by (simp add: factory_getSession_def)
qed

lemma factory_pool:
  assumes "factory_construct Q cfg (Some nodes) c = (r, c')"
  obtains f where "r = Inr f" "sf_connectionPool f < length (cr_pools c')"
    "cr_pools c' ! sf_connectionPool f = \<lparr>po_sessionConfiguration = cfg, po_nodeCollection = Some nodes, po_pool = pool_init Q\<rparr>"
proof -
  have "(pool_init Q)\<lparr>pl_metrics := metrics_init\<rparr> = pool_init Q" by (simp add: pool_init_def)
  with assms show thesis
    by (intro that) (auto simp: factory_construct_def pool_construct_def metrics_construct_def)
qed

lemma factory_without_nodes:
  "fst (factory_construct Q cfg None c) = Inl LogicException" "cr_pools (snd (factory_construct Q cfg None c)) = cr_pools c"
  by (simp_all add: factory_construct_def pool_construct_def metrics_construct_def)

text \<open>A session that ended leaves its reference to the pool in the storage: the pool lives until the data is used again.\<close>

lemma ended_session_keeps_pool:
  "length (rs_freeList (cr_sessionStorage c)) < capacity \<Longrightarrow> sd_connectionPool d = Some pool \<Longrightarrow>
     \<exists>d' \<in> set (rs_freeList (cr_sessionStorage (session_end capacity (Some d) c))). sd_connectionPool d' = Some pool"
  by (simp add: session_end_def deallocate_def sd_freeResources_def)

end
