(* ===== verification/Message_Text.thy ===== *)
theory Message_Text
  imports String_Utils Session
begin

text \<open>
  \<^verbatim>\<open>toString\<close> of the messages, which the connection puts into its exceptions and its log. The commands of a
  request are read through the reference of its parameters, as encoding does.
\<close>

definition arm_toString :: "auth_response_message \<Rightarrow> bytes" where
  "arm_toString m = ascii ''AuthResponseMessage()''"

definition om_toString :: "options_message \<Rightarrow> bytes" where
  "om_toString m = ascii ''OptionsMessage()''"

definition pr_toString :: "prepare_message \<Rightarrow> bytes" where
  "pr_toString m = join_string [] [ascii ''PrepareMessage(query: '', ss_value (pr_query m), ascii '')'']"

definition rg_toString :: "register_message \<Rightarrow> bytes" where
  "rg_toString m = ascii ''RegisterMessage()''"

definition su_toString :: "startup_message \<Rightarrow> bytes" where
  "su_toString m = ascii ''StartupMessage()''"

definition em_toString :: "execute_message \<Rightarrow> bytes" where
  "em_toString m = ascii ''ExecuteMessage()''"

definition qm_toString :: "command_env \<Rightarrow> query_message \<Rightarrow> bytes" where
  "qm_toString env m =
     (let query = (case qp_getCommand (qm_queryParameters m) env of None \<Rightarrow> [] | Some d \<Rightarrow> sh_get (cd_queryStr d))
      in join_string [] [ascii ''QueryMessage(query: '', query, ascii '')''])"

fun append_queries :: "batch_query_data list \<Rightarrow> bytes \<Rightarrow> bytes" where
  "append_queries [] str = str"
| "append_queries (q # qs) str = append_queries qs (str @ sh_get (bq_queryStr q) @ ascii ''; '')"

definition bm_toString :: "batch_env \<Rightarrow> batch_message \<Rightarrow> bytes" where
  "bm_toString env m =
     (let str = ascii ''BatchMessage('';
          str = (case bp_getBatchCommand (bm_batchParameters m) env of
              None \<Rightarrow> str
            | Some d \<Rightarrow> append_queries (bd_queries d)
                (str @ join_string [] [ascii ''type: '', ascii (enum_describe BT_descriptions (bd_batchType d)), ascii '', queries: '']))
      in str @ ascii '')'')"

definition at_challenge_toString :: "auth_token_message \<Rightarrow> bytes" where
  "at_challenge_toString m = ascii ''AuthChallengeMessage()''"

definition at_success_toString :: "auth_token_message \<Rightarrow> bytes" where
  "at_success_toString m = ascii ''AuthSuccessMessage()''"

definition au_toString :: "authenticate_message \<Rightarrow> bytes" where
  "au_toString m = join_string [] [ascii ''AuthenticateMessage(authenticatorClass: '', ss_value (au_authenticatorClass m), ascii '')'']"

definition er_toString :: "error_message \<Rightarrow> bytes" where
  "er_toString m =
     join_string [] [ascii ''ErrorMessage(errorCode: '', ascii (enum_describe EC_descriptions (er_errorCode m)),
       ascii '', errorCodeInt: '', int_text (sint (er_errorCode m)), ascii '', errorMessage: '', ss_value (er_errorMessage m), ascii '')'']"

definition ev_toString :: "event_message \<Rightarrow> bytes" where
  "ev_toString m = ascii ''EventMessage()''"

definition rd_toString :: "ready_message \<Rightarrow> bytes" where
  "rd_toString m = ascii ''ReadyMessage()''"

definition re_toString :: "result_message \<Rightarrow> bytes" where
  "re_toString m =
     join_string [] [ascii ''ResultMessage(kind: '', ascii (enum_describe RK_descriptions (re_getKind m)),
       ascii '', columnsCount: '', dec_text (unat (rm_getColumnsCount (re_rowsMetadata m))),
       ascii '', rowsCount: '', int_text (sint (re_rowsCount m)), ascii '')'']"

definition sp_toString :: "supported_message \<Rightarrow> bytes" where
  "sp_toString m = ascii ''SupportedMessage()''"

section \<open>Messages of any class\<close>

fun request_toString :: "command_env \<Rightarrow> batch_env \<Rightarrow> request \<Rightarrow> bytes" where
  "request_toString env benv (ReqOptions m) = om_toString m"
| "request_toString env benv (ReqStartup m) = su_toString m"
| "request_toString env benv (ReqAuthResponse m) = arm_toString m"
| "request_toString env benv (ReqQuery m) = qm_toString env m"
| "request_toString env benv (ReqPrepare m) = pr_toString m"
| "request_toString env benv (ReqExecute m) = em_toString m"
| "request_toString env benv (ReqBatch m) = bm_toString benv m"
| "request_toString env benv (ReqRegister m) = rg_toString m"

fun response_toString :: "response \<Rightarrow> bytes" where
  "response_toString (RespResult m) = re_toString m"
| "response_toString (RespError m) = er_toString m"
| "response_toString (RespEvent m) = ev_toString m"
| "response_toString (RespReady m) = rd_toString m"
| "response_toString (RespSupported m) = sp_toString m"
| "response_toString (RespAuthenticate m) = au_toString m"
| "response_toString (RespAuthSuccess m) = at_success_toString m"
| "response_toString (RespAuthChallenge m) = at_challenge_toString m"

section \<open>What the texts do not contain\<close>

text \<open>A command and a batch without the values of their parameters.\<close>

definition without_values :: "command_data \<Rightarrow> command_data" where
  "without_values d = d\<lparr>cd_parameters := [], cd_parameterCount := 0\<rparr>"

definition batch_without_values :: "batch_command_data \<Rightarrow> batch_command_data" where
  "batch_without_values d = d\<lparr>bd_queries := map (\<lambda>q. q\<lparr>bq_parameterSets := []\<rparr>) (bd_queries d)\<rparr>"

lemma append_queries_without_values:
  "append_queries (map (\<lambda>q. q\<lparr>bq_parameterSets := []\<rparr>) qs) str = append_queries qs str"
  by (induction qs arbitrary: str) simp_all

definition own_command_values :: "query_parameters \<Rightarrow> query_parameters" where
  "own_command_values qp = qp\<lparr>qp_command := map_option without_values (qp_command qp)\<rparr>"

definition own_batch_values :: "batch_parameters \<Rightarrow> batch_parameters" where
  "own_batch_values bp = bp\<lparr>bp_batchCommand := map_option batch_without_values (bp_batchCommand bp)\<rparr>"

text \<open>A request whose token and whose own command have no values.\<close>

fun request_without_values :: "request \<Rightarrow> request" where
  "request_without_values (ReqAuthResponse m) = ReqAuthResponse (m\<lparr>arm_token := ss_init StateNull\<rparr>)"
| "request_without_values (ReqQuery m) = ReqQuery (m\<lparr>qm_queryParameters := own_command_values (qm_queryParameters m)\<rparr>)"
| "request_without_values (ReqExecute m) = ReqExecute (m\<lparr>em_queryParameters := own_command_values (em_queryParameters m)\<rparr>)"
| "request_without_values (ReqBatch m) = ReqBatch (m\<lparr>bm_batchParameters := own_batch_values (bm_batchParameters m)\<rparr>)"
| "request_without_values x = x"

text \<open>
  The text of a request, which ends up in logs and exceptions, depends neither on the credentials of an authentication
  response nor on the values of the parameters of a statement or of a batch, wherever the command is kept.
\<close>

lemma texts_without_values:
  "request_toString env benv x =
     request_toString (map_option without_values \<circ> env) (map_option batch_without_values \<circ> benv) (request_without_values x)"
proof (cases x)
  case (ReqQuery m)
  then show ?thesis
    by (auto simp: qm_toString_def qp_getCommand_def own_command_values_def without_values_def split: command_ref.splits option.splits)
next
  case (ReqBatch m)
  then show ?thesis
    by (auto simp: bm_toString_def bp_getBatchCommand_def own_batch_values_def batch_without_values_def Let_def
        append_queries_without_values split: command_ref.splits option.splits)
qed (simp_all add: arm_toString_def om_toString_def pr_toString_def rg_toString_def su_toString_def em_toString_def)

text \<open>An error of the server names its code and the message of the server.\<close>

lemma error_text_example:
  "er_toString (er_init\<lparr>er_errorCode := 0x2000, er_errorMessage := \<lparr>ss_value = ascii ''no'', ss_state = StateNormal\<rparr>\<rparr>) =
     ascii ''ErrorMessage(errorCode: SyntaxError, errorCodeInt: 8192, errorMessage: no)''"
proof -
  have "enum_describe EC_descriptions 0x2000 = ''SyntaxError''" by code_simp
  moreover have "int_text (sint (0x2000 :: u32)) = ascii ''8192''"
    by (simp add: int_text_def dec_text.simps ascii_def)
  ultimately show ?thesis by (simp add: er_toString_def ascii_def)
qed

end
