(* ===== verification/Spec2Isabelle.thy ===== *)
theory Spec2Isabelle
  imports Enums Reusable Configuration Metrics Response_Messages Connection_Receive Connection_Send Handshake
    Node_Collection Connection_Pool Protocol_Net Prepared_Round_Trip Column_Text Column_Floats UUID_Utils
    Column_Payload Mem_Ref Prepared_Cache Socket_Holder Loggers Session_Factory Message_Text
begin

text \<open>
  \<^bold>\<open>CQLDriver in Isabelle.\<close>

  The program is a C++ client library for Cassandra and ScyllaDB on the Seastar framework. A
  \<^verbatim>\<open>Session\<close> takes commands, obtains a connection and a stream from the
  \<^verbatim>\<open>ConnectionPool\<close>, sends request messages on it, awaits the response messages and hands
  result sets to the user. The pool makes connections to the nodes a
  \<^verbatim>\<open>NodeCollection\<close> chooses; a \<^verbatim>\<open>Connection\<close> performs the handshake of the
  native protocol, multiplexes its streams over one socket and compresses frames; the messages are built
  from the protocol types of \<^verbatim>\<open>src/LowLevel/ProtocolTypes\<close>, and the values in rows are the column
  types of \<^verbatim>\<open>include/CQLDriver/Common/ColumnTypes\<close>. The development follows these layers from
  the bottom up.

  \<^bold>\<open>Conventions.\<close> Theory \<open>Cql_Prelude\<close> names bytes, machine words, the exception classes
  (\<open>cql_error\<close>), results (\<open>cql_error + 'a\<close>, sequenced with \<open>rbind\<close>) and chains of
  futures over an explicit state (\<open>fut_then\<close>). \<^verbatim>\<open>std::size_t\<close> counters that the code
  compares or wraps are 64 bit words; sizes of containers are natural numbers. Signed integers are words
  read with \<open>sint\<close>. A buffer that is appended to is returned grown; a pair of pointers is the list of
  the bytes between them, and a decoder returns the rest. The locale \<open>codec\<close> is the contract of an
  encoder and a decoder against a wire format, \<open>exact_codec\<close> adds that nothing else is accepted; every
  protocol type interprets one of them. The calls of the logger inside the operations are left
  out; the loggers themselves are in \<open>Loggers\<close>.

  \<^bold>\<open>Protocol types.\<close> \<open>Protocol_Integer\<close> (\<^verbatim>\<open>ProtocolIntegerBase\<close>,
  \<^verbatim>\<open>ProtocolVint\<close>: both loops for the header of a variable integer, zigzag),
  \<open>Protocol_String\<close> (sized strings, bytes, values with their null and unset states),
  \<open>Protocol_Container\<close> (lists and maps; decoding into an object used before, an unordered map is an
  association list with distinct keys in iteration order), \<open>Protocol_Net\<close> (UUIDs and addresses),
  \<open>Column_Option\<close> and \<open>Column_Type\<close> (\<^verbatim>\<open>ProtocolColumnOption\<close>, whose static
  thread-local payload objects are part of the state \<open>os\<close>; decoding recurses on the bytes that are
  left and is proved to terminate for every input), \<open>Column_Payload\<close> (the accessors that take an option apart
  and the constructors that put it together; the locale \<open>payload_class\<close> is the contract of the six payload
  classes), \<open>Protocol_Parameters\<close> (query and batch parameters,
  which refer to a command in an environment), \<open>Result_Metadata\<close>. The lemmas are round trips and exactness,
  and two examples in which the shared objects and a missing reset make decoding go wrong.

  \<^bold>\<open>Messages.\<close> \<open>Enums\<close>, \<open>Reusable\<close> (the free list behind
  \<^verbatim>\<open>Reusable<T>\<close>), \<open>Command\<close> and \<open>Batch_Command\<close>, \<open>Configuration\<close>,
  \<open>Metrics\<close>, \<open>Message_Header\<close>, \<open>Request_Messages\<close>, \<open>Response_Messages\<close>: the
  bodies of all messages, their factories and resets. The format of the protocol is stated separately as
  decoders a server would use (\<open>qp_decode_command\<close> and its siblings), and the bodies of requests are
  proved to decode to the command.

  \<^bold>\<open>Connections.\<close> \<open>Connection_Codec\<close> (frames with their compressors; the LZ4 library is a
  parameter whose documented round trip is a hypothesis), \<open>Connection_Stream\<close> (stream objects that own
  an id; the state is the free list with all stream objects, the steps are the operations of client code),
  \<open>Seastar_Queue\<close> (the interface of the queue of the framework, with a list as instance),
  \<open>Connection_Receive\<close> and \<open>Connection_Send\<close> (the receiver loop, waiting for a message,
  concurrent sends, closing, as step relations whose reachable states satisfy the invariants),
  \<open>Handshake\<close> (\<^verbatim>\<open>Connection::ready\<close> against a scripted server and network).

  \<^bold>\<open>Pool and session.\<close> \<open>Node_Collection\<close> (choosing and reporting nodes),
  \<open>Connection_Pool\<close> (getting and returning connections, waiters, timers, fibers that make connections;
  a step relation over the pool), \<open>Session_Retry\<close>, \<open>Session\<close> and \<open>Session_Batch\<close>
  (\<^verbatim>\<open>query\<close>, \<^verbatim>\<open>execute\<close> and \<^verbatim>\<open>batchExecute\<close> with preparing and
  retrying). The session reaches the pool and the connections through the record \<open>session_io\<close> with an
  opaque state, so that its theorems hold for every behaviour of the layers below; the locale
  \<open>attempt_relation\<close> proves once that whatever holds of the two calls to a connection, of storing a
  prepared id and of a failure holds of a whole attempt. \<open>Session_Errors\<close>, \<open>Session_Trace\<close> and
  \<open>Session_Requests\<close> hold the theorems: calls return (\<open>sn_repeat\<close> is a
  \<open>partial_function (option)\<close> and \<open>None\<close> is excluded), attempts are counted and bounded,
  connections go back, requests belong to the command.

  \<^bold>\<open>Column types.\<close> \<open>Columns\<close> (\<^verbatim>\<open>ColumnTrait\<close>, \<^verbatim>\<open>Nullable\<close>, integers,
  the bytes of floating point numbers, strings, addresses, UUIDs; the locale \<open>column_codec\<close> is the contract of a column
  type and gives that of its traits, \<open>column_io\<close>, by \<open>sublocale\<close>), \<open>Cpp_Arithmetic\<close> (signed
  arithmetic whose overflow is an error value, \<^verbatim>\<open>powInteger\<close>), \<open>Column_Integers\<close> (the operators of
  integer columns with the promotions of C++, comparisons), \<open>Floating_Point\<close> (the numbers of IEEE 754, whose values,
  roundings and comparisons are defined on integral multiples of the smallest number and proved to be the nearest to the
  real results), \<open>Column_Floats\<close> (the operators of \<^verbatim>\<open>Float\<close> and \<^verbatim>\<open>Double\<close>), \<open>Column_Numbers\<close> (\<^verbatim>\<open>VarInt\<close> and
  \<^verbatim>\<open>Decimal\<close> with its arithmetic, against rational numbers), \<open>Column_Dates\<close> (\<^verbatim>\<open>Date\<close>,
  \<^verbatim>\<open>Time\<close>, \<^verbatim>\<open>Timestamp\<close>; \<^verbatim>\<open>gmtime_r\<close> and
  \<^verbatim>\<open>timegm\<close> are defined on the Gregorian calendar, the zone is an argument whose documented law is the
  hypothesis \<open>local_time_ok\<close> or a constant offset), \<open>Column_Containers\<close> (lists, sets, maps, tuples and user
  defined types over any element types that satisfy \<open>column_io\<close>). \<open>Result_Rows\<close> composes them with the
  result message and with the parameters of a command: what was encoded is what the program is given.
  \<open>End_To_End\<close> puts the layers on top of each other: a session on a connection whose peer is a server that reads
  requests and writes rows as the protocol says, with the functions of the session, the requests, the connection and the
  columns unchanged. \<open>Prepared_Round_Trip\<close> does it for statements that are prepared first, with a server that gives
  texts ids.
  \<open>UUID_Utils\<close> has the text of UUIDs and the generator of time UUIDs with its thread-local state. \<open>Mem_Ref\<close> is
  \<^verbatim>\<open>MemRef\<close>, the column type that points into the buffer of a result set, over a memory of blocks that can be
  freed. \<open>Prepared_Cache\<close> has the cache of prepared ids over the same memory, since its keys may refer to the text
  of a command; the map of texts of \<open>Configuration\<close> is its abstraction. \<open>Column_Text\<close> has what \<^verbatim>\<open>operator<<\<close> writes for integers, decimals, dates and times, and
  the number that a text denotes.

  \<^bold>\<open>Around them.\<close> \<open>Socket_Holder\<close> (the owner of the socket of a connection; a step relation over all
  holders and closing tasks, whose invariant says that no socket is lost or closed twice), \<open>Session_Factory\<close>
  (constructing pools and making sessions from recycled data), \<open>String_Utils\<close> (splitting, joining, decimal text),
  \<open>Message_Text\<close> (the texts of messages, which contain neither credentials nor values), \<open>Loggers\<close>,
  \<open>Metrics_Registration\<close>.

  \<^bold>\<open>Not modelled.\<close> The Seastar reactor, sockets, TLS, DNS and LZ4 are not code of the repository: they are
  parameters or steps of the environment. The bit pattern of a NaN that an operation returns is
  the choice of the processor, the text of floating point numbers and the values of hash functions are those of the
  standard library (hash functions are parameters). The code location in the text
  of an exception is a preprocessor macro. Examples, benchmarks and tests are clients of the library.
\<close>

end
